(* ===== verification/Prelude.thy ===== *)
theory Prelude
  imports Main "HOL-Library.Word" "HOL-Library.Code_Target_Nat"
begin

text \<open>
  The shared base of the development: the machine integers of the Rust sources (release
  profile: the plain operators wrap, the saturating and checked ones are written out), the
  outcomes of code that may panic or loop for ever, the loop combinator that models the
  \<open>while\<close> and \<open>loop\<close> statements of the sources together with its two proof rules
  (termination and divergence).
\<close>

section \<open>Collections of facts\<close>

named_theorems mach_simps \<open>unfolding the machine-integer operations\<close>
named_theorems kv_simps \<open>reading a map after an update\<close>
named_theorems proj_simps \<open>fields an operation leaves alone\<close>

section \<open>Machine integers\<close>

text \<open>
  \<open>u64\<close> and \<open>usize\<close> values are natural numbers below \<open>2 ^ 64\<close>, \<open>i64\<close> values are integers
  between \<open>i64_min\<close> and \<open>i64_max\<close>. The operators below are the Rust ones.
\<close>

definition u64_max :: nat where
  "u64_max = 2 ^ 64 - 1"

definition u64_add :: "nat \<Rightarrow> nat \<Rightarrow> nat" where
  "u64_add a b = (a + b) mod 2 ^ 64"

definition u64_sub :: "nat \<Rightarrow> nat \<Rightarrow> nat" where
  "u64_sub a b = (if b \<le> a then a - b else (a + 2 ^ 64 - b) mod 2 ^ 64)"

definition u64_sat_add :: "nat \<Rightarrow> nat \<Rightarrow> nat" where
  "u64_sat_add a b = min (a + b) u64_max"

definition u64_sat_sub :: "nat \<Rightarrow> nat \<Rightarrow> nat" where
  "u64_sat_sub a b = a - b"

fun u64_sum :: "nat list \<Rightarrow> nat" where
  "u64_sum [] = 0"
| "u64_sum (x # xs) = u64_add x (u64_sum xs)"

definition i64_min :: int where
  "i64_min = - (2 ^ 63)"

definition i64_max :: int where
  "i64_max = 2 ^ 63 - 1"

definition i64_wrap :: "int \<Rightarrow> int" where
  "i64_wrap x = (x + 2 ^ 63) mod 2 ^ 64 - 2 ^ 63"

definition i64_checked :: "int \<Rightarrow> int option" where
  "i64_checked x = (if i64_min \<le> x \<and> x \<le> i64_max then Some x else None)"

text \<open>Rust's integer division truncates towards zero.\<close>

definition trunc_div :: "int \<Rightarrow> int \<Rightarrow> int" where
  "trunc_div a b = sgn a * sgn b * (\<bar>a\<bar> div \<bar>b\<bar>)"

definition trunc_mod :: "int \<Rightarrow> int \<Rightarrow> int" where
  "trunc_mod a b = a - b * trunc_div a b"

lemma trunc_div_zero [simp]: "trunc_div 0 n = 0" "trunc_div a 0 = 0"
  by (simp_all add: trunc_div_def)

lemma trunc_div_le: "\<bar>trunc_div a n\<bar> \<le> \<bar>a\<bar>"
proof (cases "n = 0")
  case False
  then have "\<bar>a\<bar> div \<bar>n\<bar> \<le> \<bar>a\<bar> div 1" by (intro zdiv_mono2) auto
  moreover have "0 \<le> \<bar>a\<bar> div \<bar>n\<bar>" by (simp add: pos_imp_zdiv_nonneg_iff False)
  moreover have "\<bar>trunc_div a n\<bar> = (if a = 0 then 0 else \<bar>a\<bar> div \<bar>n\<bar>)"
    using calculation(2) False by (simp add: trunc_div_def abs_mult abs_sgn_eq)
  ultimately show ?thesis by simp
qed simp

lemma trunc_mod_sgn: "trunc_mod a n = sgn a * (\<bar>a\<bar> mod \<bar>n\<bar>)"
proof -
  have "n * trunc_div a n = sgn a * (\<bar>n\<bar> * (\<bar>a\<bar> div \<bar>n\<bar>))"
    by (simp add: trunc_div_def sgn_if)
  moreover have "sgn a * \<bar>a\<bar> = a" by (simp add: sgn_mult_abs)
  ultimately show ?thesis
    by (simp add: trunc_mod_def minus_mult_div_eq_mod [symmetric] right_diff_distrib)
qed

text \<open>The remainder is smaller than the divisor and has the sign of the dividend.\<close>

lemma trunc_mod_bound: "n \<noteq> 0 \<Longrightarrow> \<bar>trunc_mod a n\<bar> < \<bar>n\<bar>"
proof -
  assume n: "n \<noteq> 0"
  have "trunc_mod a n = sgn a * (\<bar>a\<bar> mod \<bar>n\<bar>)" by (rule trunc_mod_sgn)
  moreover have "0 \<le> \<bar>a\<bar> mod \<bar>n\<bar>" "\<bar>a\<bar> mod \<bar>n\<bar> < \<bar>n\<bar>" using n by simp_all
  ultimately show ?thesis using n by (simp add: abs_mult abs_sgn_eq)
qed

lemma trunc_mod_sign: "n \<noteq> 0 \<Longrightarrow> 0 \<le> sgn a * trunc_mod a n"
  by (simp add: trunc_mod_sgn sgn_if)

lemma u64_add_exact [mach_simps]: "a + b < 2 ^ 64 \<Longrightarrow> u64_add a b = a + b"
  by (simp add: u64_add_def)

lemma u64_sub_exact [mach_simps]: "b \<le> a \<Longrightarrow> u64_sub a b = a - b"
  by (simp add: u64_sub_def)

lemma u64_sat_add_exact [mach_simps]: "a + b < 2 ^ 64 \<Longrightarrow> u64_sat_add a b = a + b"
  by (simp add: u64_sat_add_def u64_max_def)

lemma u64_sum_exact [mach_simps]: "sum_list xs < 2 ^ 64 \<Longrightarrow> u64_sum xs = sum_list xs"
  by (induction xs) (simp_all add: u64_add_exact)

lemma u64_sum_mod: "u64_sum xs = sum_list xs mod 2 ^ 64"
  by (induction xs) (simp_all add: u64_add_def mod_simps)

lemma i64_wrap_id [mach_simps]: "i64_min \<le> x \<Longrightarrow> x \<le> i64_max \<Longrightarrow> i64_wrap x = x"
  by (simp add: i64_wrap_def i64_min_def i64_max_def)

lemma i64_wrap_range: "i64_min \<le> i64_wrap x \<and> i64_wrap x \<le> i64_max"
  using pos_mod_bound [of "2 ^ 64" "x + 2 ^ 63"] pos_mod_sign [of "2 ^ 64" "x + 2 ^ 63"]
  by (simp add: i64_wrap_def i64_min_def i64_max_def)

text \<open>The operators agree with 64-bit words of the library.\<close>

lemma u64_add_word: "u64_add a b = unat (word_of_nat a + word_of_nat b :: 64 word)"
  by (simp add: u64_add_def unat_word_ariths unat_of_nat mod_simps)

lemma i64_wrap_word: "i64_wrap x = sint (word_of_int x :: 64 word)"
proof -
  have "sint (word_of_int x :: 64 word) = signed_take_bit 63 x"
    by (simp add: sint_sbintrunc')
  also have "\<dots> = (x + 2 ^ 63) mod 2 ^ 64 - 2 ^ 63"
    by (simp add: signed_take_bit_eq_take_bit_shift take_bit_eq_mod)
  finally show ?thesis by (simp add: i64_wrap_def)
qed

section \<open>Panics, divergence and loops\<close>

text \<open>
  An operation that may panic returns a sum with the panic on the left. An operation that
  also may not return at all is an option on top of it: \<open>None\<close> means that the code runs for
  ever. \<open>rbind\<close> sequences two such operations.
\<close>

datatype panic = Panic string

type_synonym 'a outcome = "panic + 'a"
type_synonym 'a run = "(panic + 'a) option"

abbreviation ret :: "'a \<Rightarrow> 'a run" where
  "ret x \<equiv> Some (Inr x)"

definition rbind :: "'a run \<Rightarrow> ('a \<Rightarrow> 'b run) \<Rightarrow> 'b run" where
  "rbind m f = (case m of None \<Rightarrow> None | Some (Inl p) \<Rightarrow> Some (Inl p) | Some (Inr x) \<Rightarrow> f x)"

lemma rbind_simps [simp]:
  "rbind None f = None" "rbind (Some (Inl p)) f = Some (Inl p)" "rbind (ret x) f = f x"
  by (simp_all add: rbind_def)

lemma rbind_eq_ret: "rbind m f = ret y \<longleftrightarrow> (\<exists>x. m = ret x \<and> f x = ret y)"
  by (auto simp: rbind_def split: option.splits sum.splits)

text \<open>
  One iteration of a loop: go round again with a new state, leave the loop, or panic. The
  body itself may diverge (it may contain a loop), hence the option.
\<close>

datatype 's loop_step = Next 's | Stop 's | Fail panic

partial_function (option) loop :: "('s \<Rightarrow> 's loop_step option) \<Rightarrow> 's \<Rightarrow> 's run" where
  "loop body s =
     (case body s of
        None \<Rightarrow> None
      | Some (Next s') \<Rightarrow> loop body s'
      | Some (Stop s') \<Rightarrow> Some (Inr s')
      | Some (Fail p) \<Rightarrow> Some (Inl p))"

declare loop.simps [code]

lemma loop_Next: "body s = Some (Next s') \<Longrightarrow> loop body s = loop body s'"
  and loop_Stop: "body s = Some (Stop s') \<Longrightarrow> loop body s = ret s'"
  and loop_Fail: "body s = Some (Fail p) \<Longrightarrow> loop body s = Some (Inl p)"
  by (simp_all add: loop.simps)

text \<open>Total correctness: an invariant kept by the body and a measure that falls each round.\<close>

lemma loop_total:
  assumes "I s"
    and "\<And>s. I s \<Longrightarrow> (\<exists>s'. body s = Some (Next s') \<and> I s' \<and> m s' < (m s :: nat))
                    \<or> (\<exists>s'. body s = Some (Stop s') \<and> Q s')"
  shows "\<exists>t. loop body s = ret t \<and> Q t"
  using assms(1)
proof (induction "m s" arbitrary: s rule: less_induct)
  case less
  from assms(2) [OF less.prems] show ?case
  proof (elim disjE exE conjE)
    fix s' assume "body s = Some (Next s')" "I s'" "m s' < m s"
    with less.hyps show ?thesis by (auto simp: loop_Next)
  next
    fix s' assume "body s = Some (Stop s')" "Q s'"
    then show ?thesis by (auto simp: loop_Stop)
  qed
qed

text \<open>Partial correctness: what every round keeps holds of the state the loop leaves with.\<close>

lemma loop_partial:
  assumes ret: "loop body s = ret t" and "I s"
    and step: "\<And>s s'. I s \<Longrightarrow> body s = Some (Next s') \<Longrightarrow> I s'"
    and stop: "\<And>s s'. I s \<Longrightarrow> body s = Some (Stop s') \<Longrightarrow> Q s'"
  shows "Q t"
proof -
  have "I s \<longrightarrow> (case r of Inl _ \<Rightarrow> True | Inr t \<Rightarrow> Q t)" if "loop body s = Some r" for s r
  proof (rule loop.raw_induct [of "\<lambda>b s r. b = body \<longrightarrow> I s \<longrightarrow> (case r of Inl _ \<Rightarrow> True | Inr t \<Rightarrow> Q t)",
        OF _ that, simplified])
    fix f b s r
    assume IH: "\<And>b s r. f b s = Some r \<Longrightarrow> b = body \<longrightarrow> I s \<longrightarrow> (case r of Inl _ \<Rightarrow> True | Inr t \<Rightarrow> Q t)"
      and eq: "(case b s of None \<Rightarrow> None | Some (Next s') \<Rightarrow> f b s'
         | Some (Stop s') \<Rightarrow> ret s' | Some (Fail p) \<Rightarrow> Some (Inl p)) = Some r"
    show "b = body \<longrightarrow> I s \<longrightarrow> (case r of Inl _ \<Rightarrow> True | Inr t \<Rightarrow> Q t)"
      using eq IH step stop
      by (auto split: option.splits loop_step.splits)
  qed
  with assms(1,2) show ?thesis by fastforce
qed

text \<open>Divergence: a set of states from which every round leads back into the set.\<close>

lemma loop_diverges:
  assumes "D s" and "\<And>s. D s \<Longrightarrow> \<exists>s'. body s = Some (Next s') \<and> D s'"
  shows "loop body s = None"
proof (rule ccontr)
  assume "loop body s \<noteq> None"
  then obtain r where r: "loop body s = Some r" by auto
  have "\<not> D s" if "loop body s = Some r" for s r
  proof (rule loop.raw_induct [of "\<lambda>b s r. b = body \<longrightarrow> \<not> D s", OF _ that, simplified])
    fix f b s r
    assume IH: "\<And>b s r. f b s = Some r \<Longrightarrow> b = body \<longrightarrow> \<not> D s"
      and eq: "(case b s of None \<Rightarrow> None | Some (Next s') \<Rightarrow> f b s'
         | Some (Stop s') \<Rightarrow> ret s' | Some (Fail p) \<Rightarrow> Some (Inl p)) = Some r"
    show "b = body \<longrightarrow> \<not> D s"
    proof (intro impI notI)
      assume "b = body" "D s"
      with assms(2) [of s] obtain s' where "b s = Some (Next s')" "D s'" by auto
      with eq IH [of b s' r] \<open>b = body\<close> show False by auto
    qed
  qed
  with r assms(1) show False by blast
qed

end
