(* ===== verification/Ordered_Map.thy ===== *)
theory Ordered_Map
  imports Prelude
begin

text \<open>
  Key/value maps as association lists in strictly increasing key order. They model
  \<open>BTreeMap\<close>, whose iteration order is the key order, and \<open>FxHashMap\<close>, whose iteration order
  no operation modelled here depends on. The first locale is the contract of a map (what a
  lookup returns after an update), the second adds the key order that the best-price cache
  of the order book relies on. Both are interpreted on the association lists.
\<close>

section \<open>The operations\<close>

type_synonym ('k, 'v) omap = "('k \<times> 'v) list"

abbreviation om_get :: "('k, 'v) omap \<Rightarrow> 'k \<Rightarrow> 'v option" where
  "om_get m k \<equiv> map_of m k"

fun om_insert :: "'k::linorder \<Rightarrow> 'v \<Rightarrow> ('k, 'v) omap \<Rightarrow> ('k, 'v) omap" where
  "om_insert k v [] = [(k, v)]"
| "om_insert k v ((k', v') # m) =
     (if k < k' then (k, v) # (k', v') # m
      else if k = k' then (k, v) # m
      else (k', v') # om_insert k v m)"

definition om_remove :: "'k \<Rightarrow> ('k, 'v) omap \<Rightarrow> ('k, 'v) omap" where
  "om_remove k m = filter (\<lambda>e. fst e \<noteq> k) m"

text \<open>Writing through the reference that \<open>get_mut\<close> returns.\<close>

definition om_update :: "'k \<Rightarrow> ('v \<Rightarrow> 'v) \<Rightarrow> ('k, 'v) omap \<Rightarrow> ('k, 'v) omap" where
  "om_update k f m = map (\<lambda>(k', v). if k' = k then (k', f v) else (k', v)) m"

definition om_keys :: "('k, 'v) omap \<Rightarrow> 'k list" where
  "om_keys m = map fst m"

definition om_values :: "('k, 'v) omap \<Rightarrow> 'v list" where
  "om_values m = map snd m"

definition om_ok :: "('k::linorder, 'v) omap \<Rightarrow> bool" where
  "om_ok m \<longleftrightarrow> sorted_wrt (<) (map fst m)"

section \<open>Lookup\<close>

lemma om_get_insert [kv_simps]: "om_get (om_insert k v m) = (map_of m)(k \<mapsto> v)"
  by (induction k v m rule: om_insert.induct) auto

lemma om_get_remove [kv_simps]: "om_get (om_remove k m) = (map_of m)(k := None)"
  by (induction m) (auto simp: om_remove_def)

lemma om_get_update [kv_simps]:
  "om_get (om_update k f m) x = (if x = k then map_option f (om_get m x) else om_get m x)"
  by (induction m) (auto simp: om_update_def)

lemma om_keys_insert: "set (om_keys (om_insert k v m)) = insert k (set (om_keys m))"
  by (induction k v m rule: om_insert.induct) (auto simp: om_keys_def)

lemma om_keys_remove: "set (om_keys (om_remove k m)) = set (om_keys m) - {k}"
  by (auto simp: om_keys_def om_remove_def)

lemma om_keys_update [simp]: "om_keys (om_update k f m) = om_keys m"
  by (induction m) (auto simp: om_keys_def om_update_def)

lemma om_get_None_iff: "om_get m k = None \<longleftrightarrow> k \<notin> set (om_keys m)"
  by (simp add: om_keys_def map_of_eq_None_iff)

lemma om_get_Some_key: "om_get m k = Some v \<Longrightarrow> k \<in> set (om_keys m)"
  by (metis om_get_None_iff option.distinct(1))

section \<open>Key order\<close>

lemma om_ok_Nil [simp]: "om_ok []"
  by (simp add: om_ok_def)

lemma om_insert_fst: "fst ` set (om_insert k v m) = insert k (fst ` set m)"
  by (induction k v m rule: om_insert.induct) auto

lemma om_ok_Cons: "om_ok (e # m) \<longleftrightarrow> (\<forall>k \<in> fst ` set m. fst e < k) \<and> om_ok m"
  by (auto simp: om_ok_def)

lemma om_ok_insert: "om_ok m \<Longrightarrow> om_ok (om_insert k v m)"
  by (induction k v m rule: om_insert.induct) (auto simp: om_ok_Cons om_insert_fst)

lemma om_ok_remove: "om_ok m \<Longrightarrow> om_ok (om_remove k m)"
  by (induction m) (auto simp: om_ok_def om_remove_def)

lemma om_ok_update: "om_ok (om_update k f m) = om_ok m"
proof -
  have "map fst (om_update k f m) = map fst m"
    by (induction m) (auto simp: om_update_def)
  then show ?thesis by (simp add: om_ok_def)
qed

lemma om_ok_filter: "om_ok m \<Longrightarrow> om_ok (filter P m)"
  by (induction m) (auto simp: om_ok_def)

lemma om_ok_distinct: "om_ok m \<Longrightarrow> distinct (map fst m)"
  by (auto simp: om_ok_def strict_sorted_iff)

lemma om_get_in_set: "om_ok m \<Longrightarrow> om_get m k = Some v \<longleftrightarrow> (k, v) \<in> set m"
  by (simp add: om_ok_distinct map_of_eq_Some_iff)

text \<open>
  The entry of a key splits the list, and an update or a removal touches that entry only:
  the form in which sums over a map and the priority queue of a book side are handled.
\<close>

lemma om_get_filter [kv_simps]:
  "om_ok m \<Longrightarrow> om_get (filter (\<lambda>(k, v). P v) m) k =
     (case om_get m k of None \<Rightarrow> None | Some v \<Rightarrow> if P v then Some v else None)"
proof (induction m)
  case (Cons e m)
  then have "fst e \<notin> fst ` set m" by (auto simp: om_ok_Cons)
  then have "om_get m (fst e) = None" by (simp add: map_of_eq_None_iff)
  with Cons show ?case by (cases e) (auto simp: om_ok_Cons split: option.splits)
qed simp

lemma om_sum:
  assumes "om_ok m"
  shows "sum_list (map f (filter P (om_values m))) =
         (\<Sum>k \<in> {k. \<exists>v. om_get m k = Some v \<and> P v}. (f (the (om_get m k)) :: nat))"
proof -
  let ?es = "filter (\<lambda>(_, v). P v) m"
  have dis: "distinct (map fst ?es)" using om_ok_distinct [OF om_ok_filter [OF assms]] .
  have val: "f (snd e) = f (the (om_get m (fst e)))" if "e \<in> set ?es" for e
    using om_get_in_set [OF assms, of "fst e" "snd e"] that filter_is_subset [of "\<lambda>(_, v). P v" m] by auto
  have "sum_list (map f (filter P (om_values m))) = sum_list (map (\<lambda>e. f (the (om_get m (fst e)))) ?es)"
  proof -
    have "map f (filter P (om_values m)) = map (\<lambda>e. f (snd e)) ?es"
      by (simp add: om_values_def filter_map comp_def case_prod_unfold)
    also have "\<dots> = map (\<lambda>e. f (the (om_get m (fst e)))) ?es" using val by (intro map_cong refl)
    finally show ?thesis by simp
  qed
  also have "\<dots> = sum_list (map (\<lambda>k. f (the (om_get m k))) (map fst ?es))" by (simp add: comp_def)
  also have "\<dots> = (\<Sum>k \<in> set (map fst ?es). f (the (om_get m k)))" using dis by (simp only: sum_list_distinct_conv_sum_set)
  also have "set (map fst ?es) = {k. \<exists>v. om_get m k = Some v \<and> P v}"
    using om_get_in_set [OF assms] by force
  finally show ?thesis .
qed

lemma om_sum_insert:
  "om_get m k = None \<Longrightarrow> sum_list (map f (filter P (om_values (om_insert k v m)))) =
     sum_list (map f (filter P (om_values m))) + (if P v then f v else (0::nat))"
  by (induction k v m rule: om_insert.induct) (auto simp: om_values_def split: if_splits)

lemma om_update_absent: "k \<notin> fst ` set m \<Longrightarrow> om_update k f m = m"
  by (induction m) (auto simp: om_update_def)

lemma om_remove_absent: "k \<notin> fst ` set m \<Longrightarrow> om_remove k m = m"
  by (induction m) (auto simp: om_remove_def)

lemma om_update_append: "om_update k f (xs @ ys) = om_update k f xs @ om_update k f ys"
  by (simp add: om_update_def)

lemma om_remove_append: "om_remove k (xs @ ys) = om_remove k xs @ om_remove k ys"
  by (simp add: om_remove_def)

lemma om_remove_update [simp]: "om_remove k (om_update k f m) = om_remove k m"
  by (induction m) (auto simp: om_remove_def om_update_def split: if_splits)

lemma om_split:
  assumes "om_ok m" and "om_get m k = Some v"
  obtains xs ys where "m = xs @ (k, v) # ys"
    and "\<And>f. om_update k f m = xs @ (k, f v) # ys" and "om_remove k m = xs @ ys"
proof -
  from assms(2) have "(k, v) \<in> set m" by (rule map_of_SomeD)
  then obtain xs ys where m: "m = xs @ (k, v) # ys" by (auto simp: in_set_conv_decomp)
  with om_ok_distinct [OF assms(1)] have "k \<notin> fst ` set xs" "k \<notin> fst ` set ys" by auto
  then have "om_update k f m = xs @ (k, f v) # ys" "om_remove k m = xs @ ys" for f
    by (simp_all add: m om_update_append om_remove_append om_update_absent om_remove_absent)
       (simp_all add: om_update_def om_remove_def om_update_absent [unfolded om_update_def]
          om_remove_absent [unfolded om_remove_def])
  with m show thesis using that by blast
qed

lemma om_update_cong:
  "(\<And>v. om_get m k = Some v \<Longrightarrow> f v = g v) \<Longrightarrow> om_ok m \<Longrightarrow> om_update k f m = om_update k g m"
  by (cases "om_get m k") (auto simp: om_get_None_iff om_keys_def om_update_absent elim!: om_split)

lemma om_insert_existing:
  "om_ok m \<Longrightarrow> om_get m k = Some v \<Longrightarrow> om_insert k w m = om_update k (\<lambda>_. w) m"
proof (induction k w m rule: om_insert.induct)
  case (2 k w k' v' m)
  then have "k' \<notin> fst ` set m" "k < k' \<Longrightarrow> om_get m k = None" "om_ok m"
    by (auto simp: om_ok_Cons map_of_eq_None_iff)
  with 2 show ?case
    by (auto simp: om_update_def om_update_absent [unfolded om_update_def] split: if_splits)
qed simp

lemma om_insert_split:
  "om_ok m \<Longrightarrow> om_get m k = None \<Longrightarrow>
     om_insert k v m = filter (\<lambda>e. fst e < k) m @ (k, v) # filter (\<lambda>e. k < fst e) m"
proof (induction m)
  case (Cons e m)
  obtain k' v' where e: "e = (k', v')" by (cases e)
  from Cons.prems e have "om_ok m" "om_get m k = None" "k \<noteq> k'"
    by (auto simp: om_ok_def split: if_splits)
  moreover have gt: "\<And>x. x \<in> set m \<Longrightarrow> k' < fst x"
    using Cons.prems(1) e by (auto simp: om_ok_def)
  moreover have "k < k' \<Longrightarrow> filter (\<lambda>e. fst e < k) m = [] \<and> filter (\<lambda>e. k < fst e) m = m"
    using gt by (force simp: filter_empty_conv filter_id_conv)
  ultimately show ?case using Cons.IH e by auto
qed simp

lemma om_split_absent:
  "om_ok m \<Longrightarrow> om_get m k = None \<Longrightarrow> m = filter (\<lambda>e. fst e < k) m @ filter (\<lambda>e. k < fst e) m"
proof (induction m)
  case (Cons e m)
  then have "om_ok m" "om_get m k = None" "k \<noteq> fst e" "\<And>x. x \<in> set m \<Longrightarrow> fst e < fst x"
    by (cases e; auto simp: om_ok_def split: if_splits)+
  moreover from this(4) have "k < fst e \<Longrightarrow> filter (\<lambda>e. fst e < k) m = [] \<and> filter (\<lambda>e. k < fst e) m = m"
    by (force simp: filter_empty_conv filter_id_conv)
  ultimately show ?case using Cons.IH by (cases "k < fst e") auto
qed simp

section \<open>Interfaces\<close>

text \<open>What a client of a map relies on.\<close>

locale kv_map =
  fixes empty :: 'm
    and insert :: "'k \<Rightarrow> 'v \<Rightarrow> 'm \<Rightarrow> 'm"
    and remove :: "'k \<Rightarrow> 'm \<Rightarrow> 'm"
    and get :: "'m \<Rightarrow> 'k \<Rightarrow> 'v option"
    and update :: "'k \<Rightarrow> ('v \<Rightarrow> 'v) \<Rightarrow> 'm \<Rightarrow> 'm"
  assumes get_empty: "get empty k = None"
    and get_insert: "get (insert k v m) k' = (if k' = k then Some v else get m k')"
    and get_remove: "get (remove k m) k' = (if k' = k then None else get m k')"
    and get_update: "get (update k f m) k' =
          (if k' = k then map_option f (get m k') else get m k')"
begin

lemma insert_then_remove: "get (remove k (insert k v m)) = (get m)(k := None)"
  by (rule ext) (simp add: get_remove get_insert)

lemma update_is_insert: "get m k = Some v \<Longrightarrow> get (update k f m) = get (insert k (f v) m)"
  by (rule ext) (simp add: get_update get_insert)

lemma update_frame: "k' \<noteq> k \<Longrightarrow> get (update k f m) k' = get m k'"
  by (simp add: get_update)

lemma update_twice: "get (update k g (update k f m)) = get (update k (g \<circ> f) m)"
  by (rule ext) (simp add: get_update option.map_comp)

end

text \<open>
  An ordered map lists its keys in increasing order; the last and the first key are then the
  greatest and the least one, which is what a cached best price has to agree with.
\<close>

locale ordered_kv_map = kv_map empty insert remove get update
  for empty :: 'm and insert :: "'k::linorder \<Rightarrow> 'v \<Rightarrow> 'm \<Rightarrow> 'm" and remove get update +
  fixes keys :: "'m \<Rightarrow> 'k list" and ok :: "'m \<Rightarrow> bool"
  assumes keys_sorted: "ok m \<Longrightarrow> sorted_wrt (<) (keys m)"
    and keys_insert: "set (keys (insert k v m)) = {k} \<union> set (keys m)"
    and ok_empty: "ok empty"
    and ok_insert: "ok m \<Longrightarrow> ok (insert k v m)"
    and ok_remove: "ok m \<Longrightarrow> ok (remove k m)"
    and get_key: "get m k \<noteq> None \<longleftrightarrow> k \<in> set (keys m)"
begin

lemma last_key_greatest: "ok m \<Longrightarrow> k \<in> set (keys m) \<Longrightarrow> k \<le> last (keys m)"
  using keys_sorted [of m]
  by (cases "keys m" rule: rev_cases) (auto simp: sorted_wrt_append)

lemma first_key_least: "ok m \<Longrightarrow> k \<in> set (keys m) \<Longrightarrow> hd (keys m) \<le> k"
  using keys_sorted [of m] by (cases "keys m") auto

lemma last_key_insert:
  assumes "ok m"
  shows "last (keys (insert k v m)) = (if keys m = [] then k else max k (last (keys m)))"
proof -
  let ?m = "insert k v m"
  have ne: "keys ?m \<noteq> []" using keys_insert [of k v m] by auto
  have ge: "\<And>x. x \<in> set (keys ?m) \<Longrightarrow> x \<le> last (keys ?m)"
    using last_key_greatest ok_insert assms by blast
  have mem: "last (keys ?m) \<in> {k} \<union> set (keys m)"
    using last_in_set [OF ne] by (simp only: keys_insert)
  show ?thesis
  proof (cases "keys m = []")
    case True
    with mem show ?thesis by simp
  next
    case False
    then have "last (keys m) \<in> set (keys m)" by simp
    with ge keys_insert [of k v m] mem last_key_greatest [OF assms]
    show ?thesis by (smt (verit) False Un_iff antisym insertI1 max_def singletonD)
  qed
qed

lemma first_key_insert:
  assumes "ok m"
  shows "hd (keys (insert k v m)) = (if keys m = [] then k else min k (hd (keys m)))"
proof -
  let ?m = "insert k v m"
  have ne: "keys ?m \<noteq> []" using keys_insert [of k v m] by auto
  have le: "\<And>x. x \<in> set (keys ?m) \<Longrightarrow> hd (keys ?m) \<le> x"
    using first_key_least ok_insert assms by blast
  have mem: "hd (keys ?m) \<in> {k} \<union> set (keys m)"
    using hd_in_set [OF ne] by (simp only: keys_insert)
  show ?thesis
  proof (cases "keys m = []")
    case True
    with mem show ?thesis by simp
  next
    case False
    then have "hd (keys m) \<in> set (keys m)" by simp
    with le keys_insert [of k v m] mem first_key_least [OF assms]
    show ?thesis by (smt (verit) False Un_iff antisym insertI1 min_def singletonD)
  qed
qed

end

interpretation om: kv_map "[] :: ('k::linorder, 'v) omap" om_insert om_remove map_of om_update
  by unfold_locales (simp_all add: kv_simps)

interpretation oom: ordered_kv_map "[] :: ('k::linorder, 'v) omap" om_insert om_remove map_of
    om_update om_keys om_ok
proof unfold_locales
  fix m :: "('k, 'v) omap" and k :: 'k and v :: 'v
  show "om_ok m \<Longrightarrow> sorted_wrt (<) (om_keys m)"
    by (simp add: om_ok_def om_keys_def)
  show "set (om_keys (om_insert k v m)) = {k} \<union> set (om_keys m)"
    by (simp add: om_keys_insert)
  show "om_ok m \<Longrightarrow> om_ok (om_insert k v m)" by (rule om_ok_insert)
  show "om_ok m \<Longrightarrow> om_ok (om_remove k m)" by (rule om_ok_remove)
  show "map_of m k \<noteq> None \<longleftrightarrow> k \<in> set (om_keys m)" by (simp add: om_get_None_iff)
qed simp

end
