(* ===== verification/Core_Types.thy ===== *)
theory Core_Types
  imports Ordered_Map
begin

text \<open>
  The value types of the matching core: \<open>src/types.rs\<close>, \<open>src/side.rs\<close>, \<open>src/tif.rs\<close>,
  \<open>src/error.rs\<close> and the plain data of \<open>src/order.rs\<close>. A price is an \<open>i64\<close> in cents, a
  quantity, an identifier and a timestamp are \<open>u64\<close> values.
\<close>

type_synonym price = int
type_synonym quantity = nat
type_synonym timestamp = nat
type_synonym order_id = nat
type_synonym trade_id = nat
type_synonym order_owner = nat

definition price_MAX :: price where
  "price_MAX = i64_max"

definition price_MIN :: price where
  "price_MIN = i64_min"

section \<open>Side\<close>

datatype side = Buy | Sell

fun opposite :: "side \<Rightarrow> side" where
  "opposite Buy = Sell"
| "opposite Sell = Buy"

lemma opposite_involution [simp]: "opposite (opposite s) = s"
  by (cases s) simp_all

lemma opposite_neq [simp]: "opposite s \<noteq> s" "s \<noteq> opposite s"
  by (cases s; simp)+

lemma side_neq_iff: "s \<noteq> t \<longleftrightarrow> t = opposite s"
  by (cases s; cases t) simp_all

section \<open>Time in force\<close>

datatype time_in_force = GTC | IOC | FOK

fun can_rest :: "time_in_force \<Rightarrow> bool" where
  "can_rest GTC = True"
| "can_rest IOC = False"
| "can_rest FOK = False"

fun allows_partial :: "time_in_force \<Rightarrow> bool" where
  "allows_partial GTC = True"
| "allows_partial IOC = True"
| "allows_partial FOK = False"

section \<open>Validation errors\<close>

datatype validation_error =
    ZeroQuantity
  | ZeroPrice
  | NotionalOverflow int nat

section \<open>Decimal text\<close>

text \<open>The \<open>Display\<close> implementations print \<open>u64\<close> and \<open>i64\<close> values in decimal.\<close>

definition digit_char :: "nat \<Rightarrow> char" where
  "digit_char d = char_of (48 + d)"

fun show_nat :: "nat \<Rightarrow> string" where
  "show_nat n = (if n < 10 then [digit_char n] else show_nat (n div 10) @ [digit_char (n mod 10)])"

declare show_nat.simps [simp del]

definition show_2digits :: "nat \<Rightarrow> string" where
  "show_2digits n = (if n < 10 then CHR ''0'' # show_nat n else show_nat n)"

definition price_display :: "price \<Rightarrow> string" where
  "price_display p =
     (let dollars = trunc_div p 100; cents = \<bar>trunc_mod p 100\<bar>
      in if p < 0
         then ''-$'' @ show_nat (nat \<bar>dollars\<bar>) @ ''.'' @ show_2digits (nat cents)
         else ''$'' @ show_nat (nat dollars) @ ''.'' @ show_2digits (nat cents))"

definition order_id_display :: "order_id \<Rightarrow> string" where
  "order_id_display i = ''O'' @ show_nat i"

definition trade_id_display :: "trade_id \<Rightarrow> string" where
  "trade_id_display i = ''T'' @ show_nat i"

fun side_display :: "side \<Rightarrow> string" where
  "side_display Buy = ''BUY''"
| "side_display Sell = ''SELL''"

fun tif_display :: "time_in_force \<Rightarrow> string" where
  "tif_display GTC = ''GTC''"
| "tif_display IOC = ''IOC''"
| "tif_display FOK = ''FOK''"

end
