(* ===== verification/Orders.thy ===== *)
theory Orders
  imports Core_Types
begin

text \<open>
  The order and its life cycle (\<open>src/order.rs\<close>). The assertions of \<open>fill\<close>, \<open>cancel\<close> and
  \<open>stp_decrement\<close> are panics of the model. The invariant of an order is that its filled and
  remaining quantities never exceed the quantity it was submitted with.
\<close>

section \<open>Data\<close>

datatype order_status = New | PartiallyFilled | Filled | Cancelled

fun status_is_active :: "order_status \<Rightarrow> bool" where
  "status_is_active New = True"
| "status_is_active PartiallyFilled = True"
| "status_is_active Filled = False"
| "status_is_active Cancelled = False"

fun status_is_terminal :: "order_status \<Rightarrow> bool" where
  "status_is_terminal New = False"
| "status_is_terminal PartiallyFilled = False"
| "status_is_terminal Filled = True"
| "status_is_terminal Cancelled = True"

record order =
  ord_id :: order_id
  ord_side :: side
  ord_price :: price
  ord_original :: quantity
  ord_remaining :: quantity
  ord_filled :: quantity
  ord_timestamp :: timestamp
  ord_tif :: time_in_force
  ord_status :: order_status
  ord_owner :: "order_owner option"
  ord_position :: nat

section \<open>Operations\<close>

definition order_new :: "order_id \<Rightarrow> side \<Rightarrow> price \<Rightarrow> quantity \<Rightarrow> timestamp \<Rightarrow> time_in_force \<Rightarrow> order" where
  "order_new i s p q ts tif =
     \<lparr>ord_id = i, ord_side = s, ord_price = p, ord_original = q, ord_remaining = q,
      ord_filled = 0, ord_timestamp = ts, ord_tif = tif, ord_status = New, ord_owner = None,
      ord_position = 0\<rparr>"

definition order_with_owner :: "order_owner \<Rightarrow> order \<Rightarrow> order" where
  "order_with_owner w x = x\<lparr>ord_owner := Some w\<rparr>"

definition order_is_active :: "order \<Rightarrow> bool" where
  "order_is_active x = status_is_active (ord_status x)"

definition order_stp_decrement :: "quantity \<Rightarrow> order \<Rightarrow> order outcome" where
  "order_stp_decrement q x =
     (if \<not> q \<le> ord_remaining x then Inl (Panic ''stp_decrement exceeds remaining'')
      else let x' = x\<lparr>ord_remaining := ord_remaining x - q\<rparr>
           in Inr (if ord_remaining x' = 0 then x'\<lparr>ord_status := Cancelled\<rparr> else x'))"

definition order_fill :: "quantity \<Rightarrow> order \<Rightarrow> order outcome" where
  "order_fill q x =
     (if \<not> q \<le> ord_remaining x then Inl (Panic ''fill quantity exceeds remaining'')
      else let x' = x\<lparr>ord_remaining := ord_remaining x - q,
                      ord_filled := u64_add (ord_filled x) q\<rparr>
           in Inr (x'\<lparr>ord_status := (if ord_remaining x' = 0 then Filled else PartiallyFilled)\<rparr>))"

definition order_cancel :: "order \<Rightarrow> (order \<times> quantity) outcome" where
  "order_cancel x =
     (if \<not> order_is_active x then Inl (Panic ''cannot cancel order in terminal state'')
      else Inr (x\<lparr>ord_remaining := 0, ord_status := Cancelled\<rparr>, ord_remaining x))"

section \<open>The order invariant\<close>

definition order_ok :: "order \<Rightarrow> bool" where
  "order_ok x \<longleftrightarrow> ord_filled x + ord_remaining x \<le> ord_original x \<and> ord_original x < 2 ^ 64"

lemma status_active_terminal: "status_is_terminal s \<longleftrightarrow> \<not> status_is_active s"
  by (cases s) simp_all

lemma order_new_ok: "q < 2 ^ 64 \<Longrightarrow> order_ok (order_new i s p q ts tif)"
  by (simp add: order_ok_def order_new_def)

lemma order_new_sel [simp]:
  "ord_id (order_new i s p q ts tif) = i" "ord_side (order_new i s p q ts tif) = s"
  "ord_price (order_new i s p q ts tif) = p" "ord_original (order_new i s p q ts tif) = q"
  "ord_remaining (order_new i s p q ts tif) = q" "ord_filled (order_new i s p q ts tif) = 0"
  "ord_tif (order_new i s p q ts tif) = tif" "ord_status (order_new i s p q ts tif) = New"
  "ord_owner (order_new i s p q ts tif) = None" "ord_timestamp (order_new i s p q ts tif) = ts"
  by (simp_all add: order_new_def)

lemma order_fill_Inr:
  "q \<le> ord_remaining x \<Longrightarrow> order_ok x \<Longrightarrow>
   order_fill q x = Inr (x\<lparr>ord_remaining := ord_remaining x - q, ord_filled := ord_filled x + q,
                           ord_status := (if ord_remaining x = q then Filled else PartiallyFilled)\<rparr>)"
  by (auto simp: order_fill_def order_ok_def u64_add_exact)

lemma order_fill_eq_Inr:
  "order_fill q x = Inr x' \<longleftrightarrow> q \<le> ord_remaining x \<and>
     x' = x\<lparr>ord_remaining := ord_remaining x - q, ord_filled := u64_add (ord_filled x) q,
            ord_status := (if ord_remaining x = q then Filled else PartiallyFilled)\<rparr>"
  by (auto simp: order_fill_def)

lemma order_fill_ok: "order_fill q x = Inr x' \<Longrightarrow> order_ok x \<Longrightarrow> order_ok x'"
  by (auto simp: order_fill_eq_Inr order_ok_def u64_add_exact)

lemma order_stp_decrement_all:
  "order_stp_decrement (ord_remaining x) x = Inr (x\<lparr>ord_remaining := 0, ord_status := Cancelled\<rparr>)"
  by (simp add: order_stp_decrement_def)

lemma order_cancel_active:
  "order_is_active x \<Longrightarrow>
   order_cancel x = Inr (x\<lparr>ord_remaining := 0, ord_status := Cancelled\<rparr>, ord_remaining x)"
  by (simp add: order_cancel_def)

end
