(* ===== verification/Level.thy ===== *)
theory Level
  imports Orders
begin

text \<open>
  A price level (\<open>src/level.rs\<close>): a FIFO queue of order identifiers in which a cancelled
  order leaves the tombstone \<open>0\<close>, with the cached total quantity and the cached number of
  tombstones. The abstract view of a level is the list of the identifiers that are not
  tombstones; the locale \<open>fifo_queue\<close> is the contract the matching loop relies on.
\<close>

section \<open>Data and operations\<close>

record level =
  lvl_price :: price
  lvl_orders :: "order_id list"
  lvl_total :: quantity
  lvl_tombstones :: nat

definition level_new :: "price \<Rightarrow> level" where
  "level_new p = \<lparr>lvl_price = p, lvl_orders = [], lvl_total = 0, lvl_tombstones = 0\<rparr>"

definition level_is_empty :: "level \<Rightarrow> bool" where
  "level_is_empty l \<longleftrightarrow> lvl_total l = 0"

definition level_order_count :: "level \<Rightarrow> nat" where
  "level_order_count l = u64_sub (length (lvl_orders l)) (lvl_tombstones l)"

definition level_raw_len :: "level \<Rightarrow> nat" where
  "level_raw_len l = length (lvl_orders l)"

text \<open>\<open>front\<close>: drop tombstones at the head, then look at the next identifier.\<close>

fun front_loop :: "order_id list \<Rightarrow> nat \<Rightarrow> order_id list \<times> nat \<times> order_id option" where
  "front_loop [] t = ([], t, None)"
| "front_loop (i # q) t = (if i = 0 then front_loop q (u64_sub t 1) else (i # q, t, Some i))"

definition level_front :: "level \<Rightarrow> level \<times> order_id option" where
  "level_front l =
     (case front_loop (lvl_orders l) (lvl_tombstones l) of
        (q, t, r) \<Rightarrow> (l\<lparr>lvl_orders := q, lvl_tombstones := t\<rparr>, r))"

definition level_push_back :: "order_id \<Rightarrow> quantity \<Rightarrow> level \<Rightarrow> level outcome" where
  "level_push_back i q l =
     (if i = 0 then Inl (Panic ''OrderId(0) reserved for tombstones'')
      else Inr (l\<lparr>lvl_orders := lvl_orders l @ [i], lvl_total := u64_sat_add (lvl_total l) q\<rparr>))"

fun pop_front_loop :: "order_id list \<Rightarrow> nat \<Rightarrow> order_id list \<times> nat \<times> order_id option" where
  "pop_front_loop [] t = ([], t, None)"
| "pop_front_loop (i # q) t = (if i = 0 then pop_front_loop q (u64_sub t 1) else (q, t, Some i))"

definition level_pop_front :: "quantity \<Rightarrow> level \<Rightarrow> level \<times> order_id option" where
  "level_pop_front n l =
     (case pop_front_loop (lvl_orders l) (lvl_tombstones l) of
        (q, t, None) \<Rightarrow> (l\<lparr>lvl_orders := q, lvl_tombstones := t\<rparr>, None)
      | (q, t, Some i) \<Rightarrow>
          (l\<lparr>lvl_orders := q, lvl_tombstones := t, lvl_total := u64_sat_sub (lvl_total l) n\<rparr>, Some i))"

definition level_mark_tombstone :: "nat \<Rightarrow> quantity \<Rightarrow> level \<Rightarrow> level" where
  "level_mark_tombstone idx n l =
     (if idx < length (lvl_orders l) \<and> lvl_orders l ! idx \<noteq> 0
      then l\<lparr>lvl_orders := (lvl_orders l)[idx := 0],
             lvl_total := u64_sat_sub (lvl_total l) n,
             lvl_tombstones := lvl_tombstones l + 1\<rparr>
      else l)"

fun position_of :: "order_id \<Rightarrow> order_id list \<Rightarrow> nat option" where
  "position_of i [] = None"
| "position_of i (j # q) = (if j = i then Some 0 else map_option Suc (position_of i q))"

definition level_remove :: "order_id \<Rightarrow> quantity \<Rightarrow> level \<Rightarrow> level \<times> bool" where
  "level_remove i n l =
     (case position_of i (lvl_orders l) of
        Some pos \<Rightarrow> (l\<lparr>lvl_orders := take pos (lvl_orders l) @ drop (Suc pos) (lvl_orders l),
                       lvl_total := u64_sat_sub (lvl_total l) n\<rparr>, True)
      | None \<Rightarrow> (l, False))"

definition level_compact :: "level \<Rightarrow> level" where
  "level_compact l =
     (if lvl_tombstones l = 0 then l
      else l\<lparr>lvl_orders := filter (\<lambda>i. i \<noteq> 0) (lvl_orders l), lvl_tombstones := 0\<rparr>)"

definition level_decrease_quantity :: "quantity \<Rightarrow> level \<Rightarrow> level" where
  "level_decrease_quantity n l = l\<lparr>lvl_total := u64_sat_sub (lvl_total l) n\<rparr>"

definition level_iter :: "level \<Rightarrow> order_id list" where
  "level_iter l = filter (\<lambda>i. i \<noteq> 0) (lvl_orders l)"

section \<open>The level invariant\<close>

text \<open>
  The cached tombstone count is the number of tombstones in the queue. (A count of elements
  of a queue in memory cannot reach \<open>2 ^ 64\<close>, so \<open>tombstone_count += 1\<close> does not wrap.)
\<close>

definition level_ok :: "level \<Rightarrow> bool" where
  "level_ok l \<longleftrightarrow> lvl_tombstones l = count_list (lvl_orders l) 0"

lemma front_loop_spec:
  "t = count_list q 0 \<Longrightarrow>
   front_loop q t = (let q' = dropWhile (\<lambda>i. i = 0) q
                     in (q', count_list q' 0, case q' of [] \<Rightarrow> None | i # _ \<Rightarrow> Some i))"
  by (induction q t rule: front_loop.induct) (auto simp: u64_sub_exact Let_def)

lemma pop_front_loop_spec:
  "t = count_list q 0 \<Longrightarrow>
   pop_front_loop q t = (case dropWhile (\<lambda>i. i = 0) q of
       [] \<Rightarrow> ([], 0, None) | i # q' \<Rightarrow> (q', count_list q' 0, Some i))"
  by (induction q t rule: pop_front_loop.induct) (auto simp: u64_sub_exact)

lemma filter_dropWhile_zero: "filter ((<) 0) (dropWhile (\<lambda>i. i = (0::nat)) q) = filter ((<) 0) q"
  by (induction q) auto

lemma dropWhile_zero_cases:
  "(case dropWhile (\<lambda>i. i = (0::nat)) q of [] \<Rightarrow> None | i # _ \<Rightarrow> Some i) =
   (case filter ((<) 0) q of [] \<Rightarrow> None | i # _ \<Rightarrow> Some i)"
  by (induction q) auto

lemma dropWhile_zero_Cons:
  "filter ((<) 0) q = i # is \<Longrightarrow>
   \<exists>q'. dropWhile (\<lambda>i. i = (0::nat)) q = i # q' \<and> filter ((<) 0) q' = is"
  by (induction q) (auto split: if_splits)

lemma level_front_ok:
  assumes "level_ok l"
  shows "level_ok (fst (level_front l))" and "level_iter (fst (level_front l)) = level_iter l"
    and "snd (level_front l) = (case level_iter l of [] \<Rightarrow> None | i # _ \<Rightarrow> Some i)"
    and "lvl_total (fst (level_front l)) = lvl_total l" and "lvl_price (fst (level_front l)) = lvl_price l"
  using assms
  by (simp_all add: level_front_def level_ok_def front_loop_spec Let_def level_iter_def
      filter_dropWhile_zero dropWhile_zero_cases)

lemma level_pop_front_ok:
  assumes "level_ok l" and "level_iter l = i # is"
  shows "level_ok (fst (level_pop_front n l))" and "level_iter (fst (level_pop_front n l)) = is"
    and "snd (level_pop_front n l) = Some i"
    and "lvl_total (fst (level_pop_front n l)) = lvl_total l - n"
    and "lvl_price (fst (level_pop_front n l)) = lvl_price l"
  using assms dropWhile_zero_Cons [of "lvl_orders l" i "is"]
  by (auto simp: level_pop_front_def level_ok_def pop_front_loop_spec level_iter_def u64_sat_sub_def)

lemma level_push_back_ok:
  assumes "level_ok l" and "i \<noteq> 0" and "lvl_total l + n < 2 ^ 64"
  shows "\<exists>l'. level_push_back i n l = Inr l' \<and> level_ok l' \<and> level_iter l' = level_iter l @ [i] \<and>
              lvl_total l' = lvl_total l + n \<and> lvl_price l' = lvl_price l"
  using assms by (simp add: level_push_back_def level_ok_def level_iter_def u64_sat_add_exact)

lemma count_list_update_zero:
  "k < length q \<Longrightarrow> q ! k \<noteq> 0 \<Longrightarrow> count_list (q[k := 0]) 0 = Suc (count_list q (0::nat))"
  by (induction q arbitrary: k) (auto simp: nth_Cons split: nat.splits)

lemma filter_update_zero:
  "k < length q \<Longrightarrow> distinct (filter ((<) (0::nat)) q) \<Longrightarrow> q ! k = i \<Longrightarrow> 0 < i \<Longrightarrow>
   filter ((<) 0) (q[k := 0]) = filter (\<lambda>j. j \<noteq> i) (filter ((<) 0) q)"
proof (induction q arbitrary: k)
  case (Cons x q)
  show ?case
  proof (cases k)
    case 0
    with Cons.prems have "x = i" "i \<notin> set q" by auto
    then have "filter (\<lambda>j. j \<noteq> i) (filter ((<) 0) q) = filter ((<) 0) q"
      by (auto intro!: filter_cong)
    with 0 \<open>x = i\<close> \<open>0 < i\<close> show ?thesis by simp
  next
    case (Suc k')
    with Cons.prems have "q ! k' = i" "k' < length q" by auto
    with Cons.prems Suc have "0 < x \<Longrightarrow> x \<noteq> i" by (auto dest: nth_mem)
    with Cons Suc show ?thesis by auto
  qed
qed simp

text \<open>
  Cancelling through an index: when the index is really the one of the order, the order
  leaves the queue and nothing else changes.
\<close>

lemma level_mark_tombstone_ok:
  assumes "level_ok l" and "distinct (level_iter l)" and "k < length (lvl_orders l)"
    and "lvl_orders l ! k = i" and "i \<noteq> 0"
  shows "level_ok (level_mark_tombstone k n l)"
    and "level_iter (level_mark_tombstone k n l) = filter (\<lambda>j. j \<noteq> i) (level_iter l)"
    and "lvl_total (level_mark_tombstone k n l) = lvl_total l - n"
    and "lvl_price (level_mark_tombstone k n l) = lvl_price l"
  using assms filter_update_zero [of k "lvl_orders l" i]
  by (simp_all add: level_mark_tombstone_def level_ok_def level_iter_def count_list_update_zero
      u64_sat_sub_def)

lemma level_order_count_iter: "level_ok l \<Longrightarrow> level_order_count l = length (level_iter l)"
proof -
  have "length q = count_list q 0 + length (filter (\<lambda>i. i \<noteq> 0) q)" for q :: "nat list"
    by (induction q) auto
  then show "level_ok l \<Longrightarrow> ?thesis"
    by (metis add_diff_cancel_left' le_add1 level_iter_def level_ok_def level_order_count_def u64_sub_exact)
qed

lemma level_compact_ok:
  assumes "level_ok l"
  shows "level_ok (level_compact l)" and "level_iter (level_compact l) = level_iter l"
    and "lvl_total (level_compact l) = lvl_total l" and "lvl_price (level_compact l) = lvl_price l"
  using assms by (simp_all add: level_compact_def level_ok_def level_iter_def count_list_0_iff)

lemma level_decrease_quantity_ok:
  "level_ok (level_decrease_quantity n l) = level_ok l"
  "level_iter (level_decrease_quantity n l) = level_iter l"
  "lvl_total (level_decrease_quantity n l) = lvl_total l - n"
  "lvl_price (level_decrease_quantity n l) = lvl_price l"
  by (simp_all add: level_decrease_quantity_def level_ok_def level_iter_def u64_sat_sub_def)

lemma level_new_ok: "level_ok (level_new p)" "level_iter (level_new p) = []"
  "lvl_total (level_new p) = 0" "lvl_price (level_new p) = p"
  by (simp_all add: level_new_def level_ok_def level_iter_def)

lemma position_of_Some:
  "position_of i q = Some k \<Longrightarrow> k < length q \<and> q ! k = i"
  by (induction q arbitrary: k) (auto split: if_splits)

lemma position_of_mem: "i \<in> set q \<Longrightarrow> \<exists>k. position_of i q = Some k"
  by (induction q) auto

lemma position_of_None: "i \<notin> set q \<Longrightarrow> position_of i q = None"
  by (induction q) auto

lemma position_of_split:
  "position_of i q = Some k \<Longrightarrow>
   \<exists>xs ys. q = xs @ i # ys \<and> length xs = k \<and> i \<notin> set xs"
proof (induction q arbitrary: k)
  case (Cons j q)
  show ?case
  proof (cases "j = i")
    case True
    with Cons.prems have "j # q = [] @ i # q \<and> length [] = k \<and> i \<notin> set []" by simp
    then show ?thesis by blast
  next
    case False
    with Cons.prems obtain k' where k': "position_of i q = Some k'" "k = Suc k'" by auto
    from Cons.IH [OF k'(1)] obtain xs ys where "q = xs @ i # ys" "length xs = k'" "i \<notin> set xs" by blast
    with False k'(2) have "j # q = (j # xs) @ i # ys \<and> length (j # xs) = k \<and> i \<notin> set (j # xs)" by simp
    then show ?thesis by blast
  qed
qed simp

text \<open>\<open>remove\<close> takes out an order that is on the level and leaves every other level as it is.\<close>

lemma level_remove_ok:
  assumes "level_ok l" and "distinct (level_iter l)" and "i \<in> set (level_iter l)"
  shows "level_ok (fst (level_remove i n l))"
    and "level_iter (fst (level_remove i n l)) = filter (\<lambda>j. j \<noteq> i) (level_iter l)"
    and "snd (level_remove i n l)"
    and "lvl_total (fst (level_remove i n l)) = lvl_total l - n"
    and "lvl_price (fst (level_remove i n l)) = lvl_price l"
proof -
  from assms(3) have i: "i \<noteq> 0" "i \<in> set (lvl_orders l)" by (auto simp: level_iter_def)
  from position_of_mem [OF i(2)] obtain k where k: "position_of i (lvl_orders l) = Some k" by blast
  from position_of_split [OF k] obtain xs ys where
    q: "lvl_orders l = xs @ i # ys" "length xs = k" "i \<notin> set xs" by blast
  with assms(2) i(1) have ys: "i \<notin> set ys" by (auto simp: level_iter_def)
  from q(3) ys have keep: "filter (\<lambda>j. j \<noteq> i) (filter (\<lambda>j. j \<noteq> 0) xs) = filter (\<lambda>j. j \<noteq> 0) xs"
    "filter (\<lambda>j. j \<noteq> i) (filter (\<lambda>j. j \<noteq> 0) ys) = filter (\<lambda>j. j \<noteq> 0) ys"
    by (auto intro!: filter_cong)
  show "level_ok (fst (level_remove i n l))" "snd (level_remove i n l)"
    "lvl_total (fst (level_remove i n l)) = lvl_total l - n"
    "lvl_price (fst (level_remove i n l)) = lvl_price l"
    using assms(1) i(1) q k by (auto simp: level_remove_def level_ok_def u64_sat_sub_def)
  show "level_iter (fst (level_remove i n l)) = filter (\<lambda>j. j \<noteq> i) (level_iter l)"
    using i(1) q(1,2) k keep by (simp add: level_remove_def level_iter_def)
qed

lemma level_remove_absent:
  assumes "i \<noteq> 0" and "i \<notin> set (level_iter l)"
  shows "level_remove i n l = (l, False)"
proof -
  from assms have "i \<notin> set (lvl_orders l)" by (simp add: level_iter_def)
  then show ?thesis by (simp add: level_remove_def position_of_None)
qed

section \<open>The FIFO contract\<close>

text \<open>
  What a level promises, on the plain queue of the identifiers with their remaining
  quantities: a push goes to its end, the front is its head, a pop removes the head, a
  cancellation (through the position of the order, or by \<open>remove\<close>) takes out that one order,
  a decrease is a partial fill of the head, and \<open>compact\<close> changes nothing. \<open>None\<close> are the
  calls outside the contract: the reserved identifier, an identifier twice, a quantity that
  is not the one the order has left, or a total beyond \<open>u64\<close>.
\<close>

datatype level_op =
    Push_Back order_id quantity
  | Front
  | Pop_Front quantity
  | Mark_Tombstone order_id quantity
  | Remove order_id quantity
  | Compact
  | Decrease quantity

datatype level_answer = Done | Found "order_id option" | Removed bool

type_synonym live_queue = "(order_id \<times> quantity) list"

definition live_total :: "live_queue \<Rightarrow> quantity" where
  "live_total q = sum_list (map snd q)"

fun queue_step :: "level_op \<Rightarrow> live_queue \<Rightarrow> (live_queue \<times> level_answer) option" where
  "queue_step (Push_Back i n) q =
     (if i \<noteq> 0 \<and> i \<notin> set (map fst q) \<and> 0 < n \<and> live_total q + n < 2 ^ 64
      then Some (q @ [(i, n)], Done) else None)"
| "queue_step Front q = Some (q, Found (if q = [] then None else Some (fst (hd q))))"
| "queue_step (Pop_Front n) [] = Some ([], Found None)"
| "queue_step (Pop_Front n) ((i, m) # q) = (if n = m then Some (q, Found (Some i)) else None)"
| "queue_step (Mark_Tombstone i n) q =
     (if (i, n) \<in> set q then Some (filter (\<lambda>e. fst e \<noteq> i) q, Done) else None)"
| "queue_step (Remove i n) q =
     (if (i, n) \<in> set q then Some (filter (\<lambda>e. fst e \<noteq> i) q, Removed True)
      else if i \<noteq> 0 \<and> i \<notin> set (map fst q) then Some (q, Removed False) else None)"
| "queue_step Compact q = Some (q, Done)"
| "queue_step (Decrease n) [] = None"
| "queue_step (Decrease n) ((i, m) # q) = (if n < m then Some ((i, m - n) # q, Done) else None)"

fun queue_run :: "level_op list \<Rightarrow> live_queue \<Rightarrow> (live_queue \<times> level_answer list) option" where
  "queue_run [] q = Some (q, [])"
| "queue_run (op # ops) q =
     (case queue_step op q of
        None \<Rightarrow> None
      | Some (q', a) \<Rightarrow> map_option (\<lambda>(q'', as). (q'', a # as)) (queue_run ops q'))"

text \<open>
  The same operations on the level. A tombstone is set at the position at which the order
  stands in the raw queue, tombstones before it included.
\<close>

fun level_step :: "level_op \<Rightarrow> level \<Rightarrow> (level \<times> level_answer) outcome" where
  "level_step (Push_Back i n) l =
     (case level_push_back i n l of Inl e \<Rightarrow> Inl e | Inr l' \<Rightarrow> Inr (l', Done))"
| "level_step Front l = Inr (map_prod id Found (level_front l))"
| "level_step (Pop_Front n) l = Inr (map_prod id Found (level_pop_front n l))"
| "level_step (Mark_Tombstone i n) l =
     (case position_of i (lvl_orders l) of
        None \<Rightarrow> Inr (l, Done)
      | Some k \<Rightarrow> Inr (level_mark_tombstone k n l, Done))"
| "level_step (Remove i n) l = Inr (map_prod id Removed (level_remove i n l))"
| "level_step Compact l = Inr (level_compact l, Done)"
| "level_step (Decrease n) l = Inr (level_decrease_quantity n l, Done)"

fun level_run :: "level_op list \<Rightarrow> level \<Rightarrow> (level \<times> level_answer list) outcome" where
  "level_run [] l = Inr (l, [])"
| "level_run (op # ops) l =
     (case level_step op l of
        Inl e \<Rightarrow> Inl e
      | Inr (l', a) \<Rightarrow>
          (case level_run ops l' of Inl e \<Rightarrow> Inl e | Inr (l'', as) \<Rightarrow> Inr (l'', a # as)))"

text \<open>The abstraction relation: the live identifiers in order, and the cached total.\<close>

definition level_refines :: "level \<Rightarrow> live_queue \<Rightarrow> bool" where
  "level_refines l q \<longleftrightarrow>
     level_ok l \<and> level_iter l = map fst q \<and> lvl_total l = live_total q \<and> distinct (map fst q) \<and>
     (\<forall>e \<in> set q. 0 < snd e) \<and> live_total q < 2 ^ 64"

locale fifo_queue =
  fixes step :: "level_op \<Rightarrow> 'q \<Rightarrow> ('q \<times> level_answer) outcome"
    and refines :: "'q \<Rightarrow> live_queue \<Rightarrow> bool"
  assumes step_refines:
    "refines l q \<Longrightarrow> queue_step op q = Some (q', a) \<Longrightarrow>
     \<exists>l'. step op l = Inr (l', a) \<and> refines l' q'"
begin

fun run :: "level_op list \<Rightarrow> 'q \<Rightarrow> ('q \<times> level_answer list) outcome" where
  "run [] l = Inr (l, [])"
| "run (op # ops) l =
     (case step op l of
        Inl e \<Rightarrow> Inl e
      | Inr (l', a) \<Rightarrow> (case run ops l' of Inl e \<Rightarrow> Inl e | Inr (l'', as) \<Rightarrow> Inr (l'', a # as)))"

lemma run_refines:
  "refines l q \<Longrightarrow> queue_run ops q = Some (q', as) \<Longrightarrow>
   \<exists>l'. run ops l = Inr (l', as) \<and> refines l' q'"
proof (induction ops arbitrary: l q as)
  case (Cons op ops)
  from Cons.prems(2) obtain q1 a as' where
    q1: "queue_step op q = Some (q1, a)" "queue_run ops q1 = Some (q', as')" "as = a # as'"
    by (auto split: option.splits)
  from step_refines [OF Cons.prems(1) q1(1)] obtain l1 where
    l1: "step op l = Inr (l1, a)" "refines l1 q1" by blast
  from Cons.IH [OF l1(2) q1(2)] l1(1) q1(3) show ?case by auto
qed simp

end

lemma live_total_simps [simp]:
  "live_total [] = 0" "live_total (e # q) = snd e + live_total q"
  "live_total (q @ r) = live_total q + live_total r"
  by (simp_all add: live_total_def)

lemma live_total_remove:
  "distinct (map fst q) \<Longrightarrow> (i, n) \<in> set q \<Longrightarrow>
   live_total (filter (\<lambda>e. fst e \<noteq> i) q) = live_total q - n \<and> n \<le> live_total q"
proof (induction q)
  case (Cons e q)
  show ?case
  proof (cases "fst e = i")
    case True
    with Cons.prems have "e = (i, n)" "i \<notin> set (map fst q)" by (cases e; force)+
    moreover from this have "filter (\<lambda>e. fst e \<noteq> i) q = q" by (intro filter_True) auto
    ultimately show ?thesis by simp
  next
    case False
    with Cons show ?thesis by auto
  qed
qed simp

lemma distinct_map_filter_fst: "distinct (map fst q) \<Longrightarrow> distinct (map fst (filter P q))"
  by (induction q) auto

lemma map_fst_filter: "map fst (filter (\<lambda>e. fst e \<noteq> i) q) = filter (\<lambda>j. j \<noteq> i) (map fst q)"
  by (simp add: filter_map o_def)

lemma level_refines_removal:
  assumes "level_refines l q" and "(i, n) \<in> set q"
    and "level_ok l'" and "level_iter l' = filter (\<lambda>j. j \<noteq> i) (level_iter l)"
    and "lvl_total l' = lvl_total l - n"
  shows "level_refines l' (filter (\<lambda>e. fst e \<noteq> i) q)"
  using assms live_total_remove [of q i n]
  by (auto simp: level_refines_def map_fst_filter distinct_map_filter_fst)

lemma level_step_refines:
  assumes r: "level_refines l q" and s: "queue_step op q = Some (q', a)"
  shows "\<exists>l'. level_step op l = Inr (l', a) \<and> level_refines l' q' \<and> lvl_price l' = lvl_price l"
proof -
  from r have ok: "level_ok l" and v: "level_iter l = map fst q" and t: "lvl_total l = live_total q"
    and d: "distinct (level_iter l)"
    by (simp_all add: level_refines_def)
  show ?thesis
  proof (cases op)
    case (Push_Back i n)
    with s have p: "i \<noteq> 0" "i \<notin> set (map fst q)" "0 < n" "live_total q + n < 2 ^ 64"
      "q' = q @ [(i, n)]" "a = Done"
      by (auto split: if_splits)
    with level_push_back_ok [OF ok p(1), of n] t Push_Back r v show ?thesis
      by (auto simp: level_refines_def)
  next
    case Front
    with s r level_front_ok [OF ok] v show ?thesis
      by (cases "level_front l"; cases q) (auto simp: level_refines_def)
  next
    case (Pop_Front n)
    show ?thesis
    proof (cases q)
      case Nil
      with v have "\<forall>x \<in> set (lvl_orders l). x = 0" by (simp add: level_iter_def filter_empty_conv)
      then have e: "dropWhile (\<lambda>i. i = 0) (lvl_orders l) = []" by (simp add: dropWhile_eq_Nil_conv)
      with ok have "pop_front_loop (lvl_orders l) (lvl_tombstones l) = ([], 0, None)"
        by (simp only: level_ok_def pop_front_loop_spec e list.case)
      with Nil Pop_Front s r show ?thesis
        by (simp add: level_pop_front_def level_refines_def level_ok_def level_iter_def)
    next
      case (Cons e r')
      with Pop_Front s v level_pop_front_ok [OF ok, of "fst e" "map fst r'" n] r t show ?thesis
        by (cases "level_pop_front n l"; cases e) (auto simp: level_refines_def split: if_splits)
    qed
  next
    case (Mark_Tombstone i n)
    with s have m: "(i, n) \<in> set q" "q' = filter (\<lambda>e. fst e \<noteq> i) q" "a = Done"
      by (auto split: if_splits)
    then have "i \<in> set (level_iter l)" by (force simp: v)
    then have i: "i \<noteq> 0" "i \<in> set (lvl_orders l)" by (auto simp: level_iter_def)
    from position_of_mem [OF i(2)] obtain k where k: "position_of i (lvl_orders l) = Some k" by blast
    from level_mark_tombstone_ok [OF ok d _ _ i(1)] position_of_Some [OF k]
      level_refines_removal [OF r m(1)] k m Mark_Tombstone
    show ?thesis by auto
  next
    case (Remove i n)
    show ?thesis
    proof (cases "(i, n) \<in> set q")
      case True
      then have "i \<in> set (level_iter l)" by (force simp: v)
      from level_remove_ok [OF ok d this, of n] level_refines_removal [OF r True] True Remove s
      show ?thesis by (cases "level_remove i n l") auto
    next
      case False
      with Remove s level_remove_absent [of i l n] r v show ?thesis by (auto split: if_splits)
    qed
  next
    case Compact
    with s r level_compact_ok [OF ok] show ?thesis by (auto simp: level_refines_def)
  next
    case (Decrease n)
    with s r show ?thesis
      by (cases q) (fastforce simp: level_refines_def level_decrease_quantity_ok split: if_splits)+
  qed
qed

interpretation lq: fifo_queue level_step "\<lambda>l q. level_refines l q \<and> lvl_price l = p"
  by unfold_locales (use level_step_refines in fastforce)

lemma level_run_lq: "level_run ops l = lq.run ops l"
  by (induction ops arbitrary: l) (auto split: sum.splits)

lemma level_refines_observations:
  assumes "level_refines l q"
  shows "level_iter l = map fst q" and "level_order_count l = length q"
    and "level_is_empty l \<longleftrightarrow> q = []" and "lvl_total l = live_total q"
  using assms level_order_count_iter [of l]
  by (cases q; auto simp: level_refines_def level_is_empty_def)+

section \<open>Properties\<close>

text \<open>C34. A price level refines a plain FIFO queue of orders with their remaining quantities:
  whatever sequence of pushes, looks at the front, pops, cancellations (by tombstone or by
  \<open>remove\<close>), compactions and partial fills of the head is made, starting from a level that
  represents a queue and with the quantity each order has left, the level gives the answers of
  the queue and represents the queue reached, so that its iterator, its order count, its
  emptiness and its cached total are those of the queue.\<close>

theorem level_refines_queue:
  assumes "level_refines l q" and "queue_run ops q = Some (q', answers)"
  shows "\<exists>l'. level_run ops l = Inr (l', answers) \<and> level_refines l' q' \<and>
              level_iter l' = map fst q' \<and> level_order_count l' = length q' \<and>
              (level_is_empty l' \<longleftrightarrow> q' = []) \<and> lvl_total l' = live_total q' \<and>
              lvl_price l' = lvl_price l"
  using lq.run_refines [of l q "lvl_price l", OF _ assms(2)] assms(1)
    level_refines_observations
  by (auto simp: level_run_lq)

definition demo_ops :: "level_op list" where
  "demo_ops = [Push_Back 4 10, Push_Back 7 20, Push_Back 9 30, Mark_Tombstone 7 20, Decrease 4,
               Front, Pop_Front 6, Push_Back 11 5, Remove 7 20, Compact, Front, Remove 9 30,
               Pop_Front 5, Pop_Front 1]"

theorem level_refines_queue_witness:
  "\<exists>l'. level_run demo_ops (level_new 100) =
          Inr (l', [Done, Done, Done, Done, Done, Found (Some 4), Found (Some 4), Done, Removed False,
                    Done, Found (Some 9), Removed True, Found (Some 11), Found None]) \<and>
        level_iter l' = [] \<and> level_is_empty l'"
proof -
  have "level_refines (level_new 100) []"
    by (simp add: level_refines_def level_new_ok)
  moreover have "queue_run demo_ops [] =
      Some ([], [Done, Done, Done, Done, Done, Found (Some 4), Found (Some 4), Done, Removed False,
                 Done, Found (Some 9), Removed True, Found (Some 11), Found None])"
    by (simp add: demo_ops_def)
  ultimately show ?thesis using level_refines_queue [of "level_new 100" "[]" demo_ops] by fastforce
qed

end
