(* ===== verification/Price_Levels.thy ===== *)
theory Price_Levels
  imports Level
begin

text \<open>
  One side of the book (\<open>src/price_levels.rs\<close>): the levels by price and the cached best
  price. \<open>iter_best_to_worst\<close> walks the levels from the best price to the worst, downwards
  for bids and upwards for asks.
\<close>

section \<open>Data and operations\<close>

record price_levels =
  pl_levels :: "(price, level) omap"
  pl_best :: "price option"
  pl_side :: side

definition pl_new :: "side \<Rightarrow> price_levels" where
  "pl_new s = \<lparr>pl_levels = [], pl_best = None, pl_side = s\<rparr>"

definition pl_is_empty :: "price_levels \<Rightarrow> bool" where
  "pl_is_empty pl \<longleftrightarrow> pl_levels pl = []"

definition pl_level_count :: "price_levels \<Rightarrow> nat" where
  "pl_level_count pl = length (pl_levels pl)"

definition pl_best_level :: "price_levels \<Rightarrow> level option" where
  "pl_best_level pl = Option.bind (pl_best pl) (om_get (pl_levels pl))"

definition pl_get_level :: "price_levels \<Rightarrow> price \<Rightarrow> level option" where
  "pl_get_level pl p = om_get (pl_levels pl) p"

definition pl_update_level :: "price \<Rightarrow> (level \<Rightarrow> level) \<Rightarrow> price_levels \<Rightarrow> price_levels" where
  "pl_update_level p f pl = pl\<lparr>pl_levels := om_update p f (pl_levels pl)\<rparr>"

text \<open>\<open>keys().next_back()\<close> for bids and \<open>keys().next()\<close> for asks.\<close>

definition best_key :: "side \<Rightarrow> price list \<Rightarrow> price option" where
  "best_key s ks =
     (if ks = [] then None else case s of Buy \<Rightarrow> Some (last ks) | Sell \<Rightarrow> Some (hd ks))"

definition pl_recompute_best_price :: "price_levels \<Rightarrow> price_levels" where
  "pl_recompute_best_price pl = pl\<lparr>pl_best := best_key (pl_side pl) (om_keys (pl_levels pl))\<rparr>"

definition better :: "side \<Rightarrow> price \<Rightarrow> price \<Rightarrow> bool" where
  "better s p q = (case s of Buy \<Rightarrow> p > q | Sell \<Rightarrow> p < q)"

definition pl_update_best_price_after_insert :: "price \<Rightarrow> price_levels \<Rightarrow> price_levels" where
  "pl_update_best_price_after_insert p pl =
     (case pl_best pl of
        None \<Rightarrow> pl\<lparr>pl_best := Some p\<rparr>
      | Some cur \<Rightarrow> if better (pl_side pl) p cur then pl\<lparr>pl_best := Some p\<rparr> else pl)"

definition pl_get_or_create_level :: "price \<Rightarrow> price_levels \<Rightarrow> price_levels" where
  "pl_get_or_create_level p pl =
     (if om_get (pl_levels pl) p = None
      then let pl' = pl_update_best_price_after_insert p pl
           in pl'\<lparr>pl_levels := om_insert p (level_new p) (pl_levels pl')\<rparr>
      else pl)"

definition pl_insert_order :: "price \<Rightarrow> order_id \<Rightarrow> quantity \<Rightarrow> price_levels
    \<Rightarrow> (price_levels \<times> nat) outcome" where
  "pl_insert_order p i n pl =
     (let pl' = pl_get_or_create_level p pl
      in case om_get (pl_levels pl') p of
           None \<Rightarrow> Inl (Panic ''level should exist after insertion'')
         | Some l \<Rightarrow>
             (case level_push_back i n l of
                Inl e \<Rightarrow> Inl e
              | Inr l' \<Rightarrow> Inr (pl_update_level p (\<lambda>_. l') pl', length (lvl_orders l))))"

definition pl_remove_level :: "price \<Rightarrow> price_levels \<Rightarrow> price_levels" where
  "pl_remove_level p pl =
     (if om_get (pl_levels pl) p \<noteq> None
      then let pl' = pl\<lparr>pl_levels := om_remove p (pl_levels pl)\<rparr>
           in if pl_best pl = Some p then pl_recompute_best_price pl' else pl'
      else pl)"

definition pl_mark_tombstone :: "price \<Rightarrow> nat \<Rightarrow> quantity \<Rightarrow> price_levels \<Rightarrow> price_levels" where
  "pl_mark_tombstone p idx n pl =
     (case om_get (pl_levels pl) p of
        None \<Rightarrow> pl
      | Some l \<Rightarrow>
          let l' = level_mark_tombstone idx n l; pl' = pl_update_level p (\<lambda>_. l') pl
          in if level_is_empty l' then pl_remove_level p pl' else pl')"

definition pl_compact :: "price_levels \<Rightarrow> price_levels" where
  "pl_compact pl = pl\<lparr>pl_levels := map (\<lambda>(p, l). (p, level_compact l)) (pl_levels pl)\<rparr>"

definition pl_remove_order :: "price \<Rightarrow> order_id \<Rightarrow> quantity \<Rightarrow> price_levels \<Rightarrow> price_levels \<times> bool" where
  "pl_remove_order p i n pl =
     (case om_get (pl_levels pl) p of
        None \<Rightarrow> (pl, False)
      | Some l \<Rightarrow>
          (case level_remove i n l of
             (l', False) \<Rightarrow> (pl, False)
           | (l', True) \<Rightarrow>
               let pl' = pl_update_level p (\<lambda>_. l') pl
               in (if level_is_empty l' then pl_remove_level p pl' else pl', True)))"

definition pl_pop_best_level :: "price_levels \<Rightarrow> price_levels \<times> level option" where
  "pl_pop_best_level pl =
     (case pl_best pl of
        None \<Rightarrow> (pl, None)
      | Some p \<Rightarrow> (pl_recompute_best_price (pl\<lparr>pl_levels := om_remove p (pl_levels pl)\<rparr>),
                   om_get (pl_levels pl) p))"

definition pl_iter_best_to_worst :: "price_levels \<Rightarrow> (price \<times> level) list" where
  "pl_iter_best_to_worst pl =
     (case pl_side pl of Buy \<Rightarrow> rev (pl_levels pl) | Sell \<Rightarrow> pl_levels pl)"

definition pl_total_quantity :: "price_levels \<Rightarrow> quantity" where
  "pl_total_quantity pl = u64_sum (map lvl_total (om_values (pl_levels pl)))"

definition pl_quantity_at_or_better :: "price \<Rightarrow> price_levels \<Rightarrow> quantity" where
  "pl_quantity_at_or_better p pl =
     (case pl_side pl of
        Buy \<Rightarrow> u64_sum (map (\<lambda>(_, l). lvl_total l) (filter (\<lambda>(q, _). p \<le> q) (pl_levels pl)))
      | Sell \<Rightarrow> u64_sum (map (\<lambda>(_, l). lvl_total l) (filter (\<lambda>(q, _). q \<le> p) (pl_levels pl))))"

section \<open>The best price\<close>

text \<open>
  The structural invariant of a side: the levels are in key order and the cached best price
  is the price of the first level of the walk from best to worst.
\<close>

definition first_price :: "price_levels \<Rightarrow> price option" where
  "first_price pl = (case pl_iter_best_to_worst pl of [] \<Rightarrow> None | (p, _) # _ \<Rightarrow> Some p)"

definition pl_struct_ok :: "price_levels \<Rightarrow> bool" where
  "pl_struct_ok pl \<longleftrightarrow> om_ok (pl_levels pl) \<and> pl_best pl = first_price pl"

lemma better_trans: "better s p q \<Longrightarrow> better s q r \<Longrightarrow> better s p r"
  by (cases s) (auto simp: better_def)

lemma better_irrefl [simp]: "\<not> better s p p"
  by (cases s) (auto simp: better_def)

lemma better_total: "\<not> better s p q \<Longrightarrow> p \<noteq> q \<Longrightarrow> better s q p"
  by (cases s) (auto simp: better_def)

lemma better_asym: "better s p q \<Longrightarrow> \<not> better s q p"
  by (cases s) (auto simp: better_def)

lemma first_price_alt: "first_price pl = best_key (pl_side pl) (om_keys (pl_levels pl))"
proof (cases "pl_side pl")
  case Buy
  then show ?thesis
    by (cases "pl_levels pl" rule: rev_cases)
       (auto simp: first_price_def pl_iter_best_to_worst_def om_keys_def best_key_def)
next
  case Sell
  then show ?thesis
    by (cases "pl_levels pl")
       (auto simp: first_price_def pl_iter_best_to_worst_def om_keys_def best_key_def)
qed

lemma iter_sorted:
  "om_ok (pl_levels pl) \<Longrightarrow> sorted_wrt (better (pl_side pl)) (map fst (pl_iter_best_to_worst pl))"
  by (cases "pl_side pl")
     (simp_all add: pl_iter_best_to_worst_def om_ok_def better_def [abs_def] sorted_wrt_rev rev_map [symmetric])

lemma iter_set: "set (pl_iter_best_to_worst pl) = set (pl_levels pl)"
  by (cases "pl_side pl") (simp_all add: pl_iter_best_to_worst_def)

lemma iter_update: "pl_iter_best_to_worst (pl_update_level p f pl) = om_update p f (pl_iter_best_to_worst pl)"
  by (cases "pl_side pl") (simp_all add: pl_iter_best_to_worst_def pl_update_level_def om_update_def rev_map)

text \<open>Splitting the map splits the walk, at the same entry.\<close>

lemma walk_split:
  obtains us vs where "\<And>z :: price \<times> level. (case s of Buy \<Rightarrow> rev (xs @ z # ys) | Sell \<Rightarrow> xs @ z # ys) = us @ z # vs"
    and "(case s of Buy \<Rightarrow> rev (xs @ ys) | Sell \<Rightarrow> xs @ ys) = us @ vs"
proof (cases s)
  case Buy
  then show thesis by (intro that [of "rev ys" "rev xs"]) simp_all
next
  case Sell
  then show thesis by (intro that [of xs ys]) simp_all
qed

lemma recompute_struct_ok:
  "om_ok (pl_levels pl) \<Longrightarrow> pl_struct_ok (pl_recompute_best_price pl)"
  by (simp add: pl_struct_ok_def first_price_alt pl_recompute_best_price_def)

text \<open>
  Everything a later component needs to know of an update of one level: where the level is in
  the walk, what the walk looks like afterwards, and that the cache stays right.
\<close>

lemma pl_split:
  assumes "om_ok (pl_levels pl)" and "om_get (pl_levels pl) p = Some l"
  obtains xs ys where "pl_iter_best_to_worst pl = xs @ (p, l) # ys"
    and "\<And>f. pl_iter_best_to_worst (pl_update_level p f pl) = xs @ (p, f l) # ys"
    and "pl_iter_best_to_worst (pl_remove_level p pl) = xs @ ys"
    and "\<And>f. pl_iter_best_to_worst (pl_remove_level p (pl_update_level p f pl)) = xs @ ys"
    and "pl_best pl = Some p \<Longrightarrow> pl_struct_ok pl \<Longrightarrow> xs = []"
proof -
  obtain xs ys where m: "pl_levels pl = xs @ (p, l) # ys"
      "\<And>f. om_update p f (pl_levels pl) = xs @ (p, f l) # ys" "om_remove p (pl_levels pl) = xs @ ys"
    using om_split [OF assms] by metis
  let ?W = "\<lambda>m. case pl_side pl of Buy \<Rightarrow> rev m | Sell \<Rightarrow> m"
  obtain us vs where w: "\<And>z. ?W (xs @ z # ys) = us @ z # vs" "?W (xs @ ys) = us @ vs"
    using walk_split by metis
  have it: "pl_iter_best_to_worst pl = us @ (p, l) # vs"
    unfolding pl_iter_best_to_worst_def m(1) by (rule w(1))
  have upd: "pl_iter_best_to_worst (pl_update_level p f pl) = us @ (p, f l) # vs" for f
    using w(1) by (simp add: pl_iter_best_to_worst_def pl_update_level_def m(2) cong: side.case_cong)
  have rm: "pl_iter_best_to_worst (pl_remove_level p pl) = us @ vs"
    "pl_iter_best_to_worst (pl_remove_level p (pl_update_level p f pl)) = us @ vs" for f
    using w(2) assms(2) by (simp_all add: pl_iter_best_to_worst_def pl_remove_level_def pl_update_level_def
        pl_recompute_best_price_def Let_def om_get_update m(3) cong: side.case_cong)
  have "us = []" if "pl_best pl = Some p" "pl_struct_ok pl"
  proof (cases us)
    case (Cons e us')
    have "(p, l) \<noteq> e" "fst e = p" using that it Cons iter_sorted [of pl] assms(1)
      by (auto simp: pl_struct_ok_def first_price_def split: prod.splits)
    with it Cons iter_sorted [OF assms(1)] show ?thesis by simp
  qed simp
  with that [OF it upd rm] show thesis by blast
qed

lemma update_level_struct_ok:
  assumes "pl_struct_ok pl"
  shows "pl_struct_ok (pl_update_level p f pl)"
  using assms by (simp add: pl_struct_ok_def pl_update_level_def om_ok_update first_price_alt)

lemma remove_level_struct_ok:
  assumes "pl_struct_ok pl"
  shows "pl_struct_ok (pl_remove_level p pl)"
proof (cases "om_get (pl_levels pl) p")
  case None
  with assms show ?thesis by (simp add: pl_remove_level_def)
next
  case (Some l)
  let ?pl = "pl\<lparr>pl_levels := om_remove p (pl_levels pl)\<rparr>"
  have ok: "om_ok (pl_levels ?pl)" using assms by (simp add: pl_struct_ok_def om_ok_remove)
  show ?thesis
  proof (cases "pl_best pl = Some p")
    case True
    with Some recompute_struct_ok [OF ok] show ?thesis by (simp add: pl_remove_level_def Let_def)
  next
    case False
    with Some have rm: "pl_remove_level p pl = ?pl" by (simp add: pl_remove_level_def)
    from pl_split [OF _ Some] assms obtain xs ys where
      it: "pl_iter_best_to_worst pl = xs @ (p, l) # ys" "pl_iter_best_to_worst ?pl = xs @ ys"
      by (metis pl_struct_ok_def rm)
    with False assms have "xs \<noteq> []" by (auto simp: pl_struct_ok_def first_price_def)
    then obtain e xs' where "xs = e # xs'" by (cases xs) auto
    with it assms have "first_price ?pl = pl_best ?pl"
      by (auto simp: pl_struct_ok_def first_price_def)
    with ok rm show ?thesis by (simp add: pl_struct_ok_def)
  qed
qed

lemma best_is_first:
  assumes "pl_struct_ok pl" and "pl_best pl = Some p"
  obtains l ys where "pl_iter_best_to_worst pl = (p, l) # ys" and "om_get (pl_levels pl) p = Some l"
proof -
  from assms obtain l ys where it: "pl_iter_best_to_worst pl = (p, l) # ys"
    by (auto simp: pl_struct_ok_def first_price_def split: list.splits)
  then have "(p, l) \<in> set (pl_levels pl)" by (metis iter_set list.set_intros(1))
  with assms(1) have "om_get (pl_levels pl) p = Some l"
    by (simp add: pl_struct_ok_def om_get_in_set)
  with it that show thesis by blast
qed

lemma best_None_iff: "pl_struct_ok pl \<Longrightarrow> pl_best pl = None \<longleftrightarrow> pl_levels pl = []"
  by (auto simp: pl_struct_ok_def first_price_alt best_key_def om_keys_def split: side.splits)

text \<open>The cached best price beats every other price of the side.\<close>

lemma best_price_best:
  assumes "pl_struct_ok pl" and "pl_best pl = Some p" and "om_get (pl_levels pl) q = Some l"
  shows "q = p \<or> better (pl_side pl) p q"
proof -
  obtain l' ys where it: "pl_iter_best_to_worst pl = (p, l') # ys"
    using assms(1,2) by (rule best_is_first)
  have "(q, l) \<in> set (pl_iter_best_to_worst pl)"
    using assms(3) by (simp add: map_of_SomeD iter_set)
  with it iter_sorted [of pl] assms(1) show ?thesis by (auto simp: pl_struct_ok_def)
qed

text \<open>Creating a level updates the cache without looking at the other levels.\<close>

lemma get_or_create_struct_ok:
  assumes "pl_struct_ok pl"
  shows "pl_struct_ok (pl_get_or_create_level p pl)"
proof (cases "om_get (pl_levels pl) p")
  case None
  let ?m = "pl_levels pl"
  have ok: "om_ok ?m" using assms by (simp add: pl_struct_ok_def)
  have "pl_levels (pl_get_or_create_level p pl) = om_insert p (level_new p) ?m"
    and "pl_side (pl_get_or_create_level p pl) = pl_side pl"
    and "pl_best (pl_get_or_create_level p pl) = pl_best (pl_update_best_price_after_insert p pl)"
    using None by (auto simp: pl_get_or_create_level_def pl_update_best_price_after_insert_def Let_def
        split: option.splits)
  moreover have "om_keys (om_insert p (level_new p) ?m) \<noteq> []"
    using om_keys_insert [of p "level_new p" ?m] by auto
  ultimately show ?thesis
    using assms oom.last_key_insert [OF ok, of p "level_new p"] oom.first_key_insert [OF ok, of p "level_new p"]
    by (cases "pl_side pl"; cases "om_keys ?m = []")
       (auto simp: pl_struct_ok_def first_price_alt om_ok_insert best_key_def better_def
          pl_update_best_price_after_insert_def max_def min_def)
next
  case (Some l)
  with assms show ?thesis by (simp add: pl_get_or_create_level_def)
qed

end
