(* ===== verification/Order_Book.thy ===== *)
theory Order_Book
  imports Price_Levels
begin

text \<open>
  The order book (\<open>src/book.rs\<close>): the two sides, the index of all orders (active and
  historical) and the three counters. A \<open>&mut\<close> access to one side is the function
  \<open>book_set_side\<close> applied to the changed side.
\<close>

section \<open>Data\<close>

record book =
  bk_bids :: price_levels
  bk_asks :: price_levels
  bk_orders :: "(order_id, order) omap"
  bk_next_order_id :: nat
  bk_next_trade_id :: nat
  bk_next_timestamp :: nat

definition book_new :: book where
  "book_new = \<lparr>bk_bids = pl_new Buy, bk_asks = pl_new Sell, bk_orders = [],
               bk_next_order_id = 1, bk_next_trade_id = 1, bk_next_timestamp = 1\<rparr>"

section \<open>Identifiers and timestamps\<close>

definition book_take_order_id :: "book \<Rightarrow> book \<times> order_id" where
  "book_take_order_id b =
     (b\<lparr>bk_next_order_id := u64_add (bk_next_order_id b) 1\<rparr>, bk_next_order_id b)"

definition book_take_trade_id :: "book \<Rightarrow> book \<times> trade_id" where
  "book_take_trade_id b =
     (b\<lparr>bk_next_trade_id := u64_add (bk_next_trade_id b) 1\<rparr>, bk_next_trade_id b)"

definition book_take_timestamp :: "book \<Rightarrow> book \<times> timestamp" where
  "book_take_timestamp b =
     (b\<lparr>bk_next_timestamp := u64_add (bk_next_timestamp b) 1\<rparr>, bk_next_timestamp b)"

definition book_peek_next_order_id :: "book \<Rightarrow> order_id" where
  "book_peek_next_order_id b = bk_next_order_id b"

section \<open>Order access\<close>

definition book_get_order :: "book \<Rightarrow> order_id \<Rightarrow> order option" where
  "book_get_order b i = om_get (bk_orders b) i"

definition book_update_order :: "order_id \<Rightarrow> (order \<Rightarrow> order) \<Rightarrow> book \<Rightarrow> book" where
  "book_update_order i f b = b\<lparr>bk_orders := om_update i f (bk_orders b)\<rparr>"

definition book_contains_order :: "book \<Rightarrow> order_id \<Rightarrow> bool" where
  "book_contains_order b i \<longleftrightarrow> om_get (bk_orders b) i \<noteq> None"

definition book_order_count :: "book \<Rightarrow> nat" where
  "book_order_count b = length (bk_orders b)"

definition book_active_order_count :: "book \<Rightarrow> nat" where
  "book_active_order_count b = length (filter order_is_active (om_values (bk_orders b)))"

section \<open>Sides and best prices\<close>

definition book_side :: "book \<Rightarrow> side \<Rightarrow> price_levels" where
  "book_side b s = (case s of Buy \<Rightarrow> bk_bids b | Sell \<Rightarrow> bk_asks b)"

definition book_set_side :: "side \<Rightarrow> price_levels \<Rightarrow> book \<Rightarrow> book" where
  "book_set_side s pl b = (case s of Buy \<Rightarrow> b\<lparr>bk_bids := pl\<rparr> | Sell \<Rightarrow> b\<lparr>bk_asks := pl\<rparr>)"

definition book_opposite_side :: "book \<Rightarrow> side \<Rightarrow> price_levels" where
  "book_opposite_side b s = book_side b (opposite s)"

definition best_bid :: "book \<Rightarrow> price option" where
  "best_bid b = pl_best (bk_bids b)"

definition best_ask :: "book \<Rightarrow> price option" where
  "best_ask b = pl_best (bk_asks b)"

definition best_bid_ask :: "book \<Rightarrow> price option \<times> price option" where
  "best_bid_ask b = (best_bid b, best_ask b)"

definition book_spread :: "book \<Rightarrow> int option" where
  "book_spread b =
     (case (best_bid b, best_ask b) of
        (Some bid, Some ask) \<Rightarrow> Some (i64_wrap (ask - bid))
      | _ \<Rightarrow> None)"

definition is_crossed :: "book \<Rightarrow> bool" where
  "is_crossed b =
     (case (best_bid b, best_ask b) of
        (Some bid, Some ask) \<Rightarrow> bid \<ge> ask
      | _ \<Rightarrow> False)"

section \<open>Order management\<close>

definition book_add_order :: "order \<Rightarrow> book \<Rightarrow> book outcome" where
  "book_add_order x b =
     (if book_contains_order b (ord_id x) then Inl (Panic ''order already exists'')
      else case pl_insert_order (ord_price x) (ord_id x) (ord_remaining x) (book_side b (ord_side x)) of
             Inl e \<Rightarrow> Inl e
           | Inr (pl, index) \<Rightarrow>
               let b' = book_set_side (ord_side x) pl b
               in Inr (b'\<lparr>bk_orders := om_insert (ord_id x) (x\<lparr>ord_position := index\<rparr>) (bk_orders b')\<rparr>))"

definition book_cancel_order :: "order_id \<Rightarrow> book \<Rightarrow> (book \<times> quantity option) outcome" where
  "book_cancel_order i b =
     (case book_get_order b i of
        None \<Rightarrow> Inr (b, None)
      | Some x \<Rightarrow>
          if \<not> order_is_active x then Inr (b, None)
          else case order_cancel x of
                 Inl e \<Rightarrow> Inl e
               | Inr (x', _) \<Rightarrow>
                   let b' = book_update_order i (\<lambda>_. x') b;
                       pl = pl_mark_tombstone (ord_price x) (ord_position x) (ord_remaining x)
                              (book_side b' (ord_side x))
                   in Inr (book_set_side (ord_side x) pl b', Some (ord_remaining x)))"

definition book_create_order :: "side \<Rightarrow> price \<Rightarrow> quantity \<Rightarrow> time_in_force \<Rightarrow> book \<Rightarrow> book \<times> order" where
  "book_create_order s p q tif b =
     (let (b1, i) = book_take_order_id b; (b2, ts) = book_take_timestamp b1
      in (b2, order_new i s p q ts tif))"

definition book_clear_history :: "book \<Rightarrow> book \<times> nat" where
  "book_clear_history b =
     (let keep = filter (\<lambda>(_, x). order_is_active x) (bk_orders b)
      in (b\<lparr>bk_orders := keep\<rparr>, length (bk_orders b) - length keep))"

definition book_compact :: "book \<Rightarrow> book" where
  "book_compact b = b\<lparr>bk_bids := pl_compact (bk_bids b), bk_asks := pl_compact (bk_asks b)\<rparr>"

section \<open>Field access\<close>

lemma book_side_set_side [simp]:
  "book_side (book_set_side s pl b) t = (if t = s then pl else book_side b t)"
  by (cases s; cases t) (simp_all add: book_side_def book_set_side_def)

lemma book_set_side_proj [simp]:
  "bk_orders (book_set_side s pl b) = bk_orders b"
  "bk_next_order_id (book_set_side s pl b) = bk_next_order_id b"
  "bk_next_trade_id (book_set_side s pl b) = bk_next_trade_id b"
  "bk_next_timestamp (book_set_side s pl b) = bk_next_timestamp b"
  by (cases s; simp add: book_set_side_def)+

lemma book_side_updates [simp]:
  "book_side (b\<lparr>bk_orders := m\<rparr>) s = book_side b s"
  "book_side (b\<lparr>bk_next_order_id := n\<rparr>) s = book_side b s"
  "book_side (b\<lparr>bk_next_trade_id := n\<rparr>) s = book_side b s"
  "book_side (b\<lparr>bk_next_timestamp := n\<rparr>) s = book_side b s"
  "book_side (book_update_order i f b) s = book_side b s"
  by (cases s; simp add: book_side_def book_update_order_def)+

lemma book_update_order_proj [simp]:
  "bk_orders (book_update_order i f b) = om_update i f (bk_orders b)"
  "bk_next_order_id (book_update_order i f b) = bk_next_order_id b"
  "bk_next_trade_id (book_update_order i f b) = bk_next_trade_id b"
  "bk_next_timestamp (book_update_order i f b) = bk_next_timestamp b"
  by (simp_all add: book_update_order_def)

lemma best_by_side: "best_bid b = pl_best (book_side b Buy)" "best_ask b = pl_best (book_side b Sell)"
  by (simp_all add: best_bid_def best_ask_def book_side_def)

lemma book_new_sides [simp]: "book_side book_new s = pl_new s"
  by (cases s) (simp_all add: book_side_def book_new_def)

end
