(* ===== verification/Book_Inv.thy ===== *)
theory Book_Inv
  imports Order_Book
begin

text \<open>
  The invariant of the order book and its abstract view. The abstract view of a side is its
  priority queue: the live orders, best price first and in order of arrival within a price.
  The invariant ties the redundant parts of the book together: the cached best price, the
  cached level totals and tombstone counts, and the index of orders.
\<close>

section \<open>Definitions\<close>

definition level_orders :: "(order_id, order) omap \<Rightarrow> level \<Rightarrow> order list" where
  "level_orders ords l = map (\<lambda>i. the (om_get ords i)) (level_iter l)"

definition side_queue :: "(order_id, order) omap \<Rightarrow> price_levels \<Rightarrow> order list" where
  "side_queue ords pl = concat (map (\<lambda>(_, l). level_orders ords l) (pl_iter_best_to_worst pl))"

definition side_ids :: "price_levels \<Rightarrow> order_id list" where
  "side_ids pl = concat (map (\<lambda>(_, l). level_iter l) (pl_iter_best_to_worst pl))"

definition book_queue :: "book \<Rightarrow> side \<Rightarrow> order list" where
  "book_queue b s = side_queue (bk_orders b) (book_side b s)"

abbreviation qty_sum :: "order list \<Rightarrow> quantity" where
  "qty_sum xs \<equiv> sum_list (map ord_remaining xs)"

text \<open>An order as a member of a level's queue.\<close>

definition resting_ok :: "side \<Rightarrow> price \<Rightarrow> order_id \<Rightarrow> order \<Rightarrow> bool" where
  "resting_ok s p i x \<longleftrightarrow> ord_id x = i \<and> ord_side x = s \<and> ord_price x = p \<and> order_is_active x \<and>
     0 < ord_remaining x \<and> order_ok x \<and> ord_tif x = GTC"

definition level_inv :: "(order_id, order) omap \<Rightarrow> side \<Rightarrow> price \<Rightarrow> level \<Rightarrow> bool" where
  "level_inv ords s p l \<longleftrightarrow> level_ok l \<and> lvl_price l = p \<and>
     (\<forall>i \<in> set (level_iter l). \<exists>x. om_get ords i = Some x \<and> resting_ok s p i x) \<and>
     lvl_total l = qty_sum (level_orders ords l) \<and> 0 < lvl_total l"

definition side_inv :: "(order_id, order) omap \<Rightarrow> side \<Rightarrow> price_levels \<Rightarrow> bool" where
  "side_inv ords s pl \<longleftrightarrow> pl_side pl = s \<and> pl_struct_ok pl \<and>
     (\<forall>(p, l) \<in> set (pl_levels pl). level_inv ords s p l) \<and> distinct (side_ids pl) \<and>
     qty_sum (side_queue ords pl) < 2 ^ 64"

text \<open>The index of orders: keys are identifiers that have been handed out, and every GTC
  order with something left to fill is in the queue of its side.\<close>

definition index_inv :: "book \<Rightarrow> bool" where
  "index_inv b \<longleftrightarrow> om_ok (bk_orders b) \<and> 0 < bk_next_order_id b \<and>
     (\<forall>i x. om_get (bk_orders b) i = Some x \<longrightarrow>
        ord_id x = i \<and> 0 < i \<and> i < bk_next_order_id b \<and> order_ok x \<and>
        (ord_tif x = GTC \<and> order_is_active x \<and> 0 < ord_remaining x \<longrightarrow>
         i \<in> set (side_ids (book_side b (ord_side x)))))"

definition book_inv :: "book \<Rightarrow> bool" where
  "book_inv b \<longleftrightarrow> (\<forall>s. side_inv (bk_orders b) s (book_side b s)) \<and> index_inv b"

section \<open>Basic consequences\<close>

lemma level_invD:
  assumes "level_inv ords s p l" and "x \<in> set (level_orders ords l)"
  shows "resting_ok s p (ord_id x) x" and "om_get ords (ord_id x) = Some x" and "ord_id x \<in> set (level_iter l)"
  using assms by (auto simp: level_inv_def level_orders_def resting_ok_def)

lemma level_inv_nonempty: "level_inv ords s p l \<Longrightarrow> level_iter l \<noteq> []"
  by (auto simp: level_inv_def level_orders_def)

lemma level_inv_cong:
  assumes "\<And>i. i \<in> set (level_iter l) \<Longrightarrow> om_get ords' i = om_get ords i"
  shows "level_orders ords' l = level_orders ords l" and "level_inv ords' s p l = level_inv ords s p l"
proof -
  show "level_orders ords' l = level_orders ords l" using assms by (simp add: level_orders_def)
  with assms show "level_inv ords' s p l = level_inv ords s p l" by (simp add: level_inv_def)
qed

lemma side_ids_member: "(p, l) \<in> set (pl_levels pl) \<Longrightarrow> i \<in> set (level_iter l) \<Longrightarrow> i \<in> set (side_ids pl)"
  by (force simp: side_ids_def iter_set)

lemma side_inv_cong:
  assumes "\<And>i. i \<in> set (side_ids pl) \<Longrightarrow> om_get ords' i = om_get ords i"
  shows "side_queue ords' pl = side_queue ords pl" and "side_inv ords' s pl = side_inv ords s pl"
proof -
  have agree: "\<And>i. i \<in> set (level_iter l) \<Longrightarrow> om_get ords' i = om_get ords i"
    if "(p, l) \<in> set (pl_levels pl)" for p l
    using that assms side_ids_member by blast
  then show q: "side_queue ords' pl = side_queue ords pl"
    unfolding side_queue_def
    by (intro arg_cong [where f = concat] map_cong) (auto simp: iter_set intro!: level_inv_cong(1))
  have "level_inv ords' s p l = level_inv ords s p l" if "(p, l) \<in> set (pl_levels pl)" for p l
    using agree [OF that] by (rule level_inv_cong(2))
  with q show "side_inv ords' s pl = side_inv ords s pl"
    by (auto simp: side_inv_def)
qed

lemma side_inv_walk: "side_inv ords s pl \<Longrightarrow> (q, k) \<in> set (pl_iter_best_to_worst pl) \<Longrightarrow> level_inv ords s q k"
  by (auto simp: side_inv_def iter_set)

lemma side_queueD:
  assumes "side_inv ords s pl" and "x \<in> set (side_queue ords pl)"
  shows "resting_ok s (ord_price x) (ord_id x) x" and "om_get ords (ord_id x) = Some x"
    and "ord_id x \<in> set (side_ids pl)"
proof -
  from assms(2) obtain p l where l: "(p, l) \<in> set (pl_levels pl)" "x \<in> set (level_orders ords l)"
    by (auto simp: side_queue_def iter_set)
  with assms(1) have "level_inv ords s p l" by (auto simp: side_inv_def)
  from level_invD [OF this l(2)] l(1)
  show "resting_ok s (ord_price x) (ord_id x) x" "om_get ords (ord_id x) = Some x"
    "ord_id x \<in> set (side_ids pl)"
    by (auto simp: resting_ok_def intro: side_ids_member)
qed

lemma side_queue_ids: "side_inv ords s pl \<Longrightarrow> map ord_id (side_queue ords pl) = side_ids pl"
proof -
  assume inv: "side_inv ords s pl"
  have "map ord_id (level_orders ords l) = level_iter l" if "(p, l) \<in> set (pl_levels pl)" for p l
  proof -
    from inv that have "level_inv ords s p l" by (auto simp: side_inv_def)
    then show ?thesis by (auto simp: level_inv_def level_orders_def resting_ok_def intro!: map_idI)
  qed
  then show ?thesis
    unfolding side_queue_def side_ids_def map_concat map_map comp_def
    by (intro arg_cong [where f = concat] map_cong) (auto simp: iter_set)
qed

lemma book_queueD:
  assumes "book_inv b" and "x \<in> set (book_queue b s)"
  shows "ord_side x = s" and "order_is_active x" and "0 < ord_remaining x" and "order_ok x"
    and "ord_tif x = GTC" and "om_get (bk_orders b) (ord_id x) = Some x"
    and "ord_id x \<in> set (side_ids (book_side b s))"
  using assms side_queueD [of "bk_orders b" s "book_side b s" x]
  by (auto simp: book_inv_def book_queue_def resting_ok_def)

lemma book_inv_side: "book_inv b \<Longrightarrow> side_inv (bk_orders b) s (book_side b s)"
  by (simp add: book_inv_def)

text \<open>No order is queued on both sides.\<close>

lemma sides_disjoint:
  assumes "book_inv b"
  shows "set (side_ids (book_side b s)) \<inter> set (side_ids (book_side b (opposite s))) = {}"
proof -
  have "ord_side (the (om_get (bk_orders b) i)) = t" if "i \<in> set (side_ids (book_side b t))" for i t
  proof -
    from that have "i \<in> set (map ord_id (book_queue b t))"
      using side_queue_ids [OF book_inv_side [OF assms]] by (simp add: book_queue_def)
    then obtain x where "x \<in> set (book_queue b t)" "i = ord_id x" by auto
    with book_queueD [OF assms this(1)] show ?thesis by simp
  qed
  then show ?thesis by (metis disjoint_iff opposite_neq(2))
qed

lemma side_inv_empty: "side_inv [] s (pl_new s)"
  by (cases s) (simp_all add: side_inv_def pl_new_def pl_struct_ok_def first_price_def
      pl_iter_best_to_worst_def side_ids_def side_queue_def)

lemma book_new_inv: "book_inv book_new"
  using side_inv_empty by (simp add: book_inv_def index_inv_def) (simp add: book_new_def)

section \<open>The queue of the best level\<close>

text \<open>The best price is the price of the head of the priority queue.\<close>

lemma best_queue_Cons:
  assumes "side_inv ords s pl" and "pl_best pl = Some p"
  obtains l rest where "om_get (pl_levels pl) p = Some l" and "level_inv ords s p l"
    and "side_queue ords pl = level_orders ords l @ rest"
    and "\<And>x. x \<in> set rest \<Longrightarrow> better s p (ord_price x)"
proof -
  from assms(1) have st: "pl_struct_ok pl" "pl_side pl = s" by (auto simp: side_inv_def)
  obtain l ys where it: "pl_iter_best_to_worst pl = (p, l) # ys" and get: "om_get (pl_levels pl) p = Some l"
    using st(1) assms(2) by (rule best_is_first)
  let ?rest = "concat (map (\<lambda>(_, l). level_orders ords l) ys)"
  have lv: "level_inv ords s q k" if "(q, k) \<in> set (pl_iter_best_to_worst pl)" for q k
    using assms(1) that by (auto simp: side_inv_def iter_set)
  have rest: "better s p (ord_price x)" if x: "x \<in> set ?rest" for x
  proof -
    from x obtain q k where qk: "(q, k) \<in> set ys" "x \<in> set (level_orders ords k)" by auto
    have "level_inv ords s q k" using qk(1) it by (intro lv) simp
    then have "ord_price x = q" using level_invD(1) [OF _ qk(2)] by (auto simp: resting_ok_def)
    moreover have "better s p q"
      using iter_sorted [of pl] st qk(1) it by (auto simp: pl_struct_ok_def)
    ultimately show ?thesis by simp
  qed
  show thesis
  proof (rule that [of l ?rest])
    show "level_inv ords s p l" using it by (intro lv) simp
    show "side_queue ords pl = level_orders ords l @ ?rest" using it by (simp add: side_queue_def)
  qed (use get rest in auto)
qed

lemma best_None_queue:
  assumes "side_inv ords s pl"
  shows "pl_best pl = None \<longleftrightarrow> side_queue ords pl = []"
proof
  assume "pl_best pl = None"
  with assms have "pl_levels pl = []" by (simp add: side_inv_def best_None_iff)
  then show "side_queue ords pl = []"
    by (cases "pl_side pl") (simp_all add: side_queue_def pl_iter_best_to_worst_def)
next
  assume q: "side_queue ords pl = []"
  show "pl_best pl = None"
  proof (rule ccontr)
    assume "pl_best pl \<noteq> None"
    then obtain p where "pl_best pl = Some p" by auto
    with assms obtain l rest where "level_inv ords s p l" "side_queue ords pl = level_orders ords l @ rest"
      by (metis best_queue_Cons)
    with q level_inv_nonempty show False by (fastforce simp: level_orders_def)
  qed
qed

lemma best_queue_head:
  assumes "side_inv ords s pl"
  shows "pl_best pl = (case side_queue ords pl of [] \<Rightarrow> None | x # _ \<Rightarrow> Some (ord_price x))"
proof (cases "pl_best pl")
  case None
  with best_None_queue [OF assms] show ?thesis by simp
next
  case (Some p)
  with assms obtain l rest where l: "level_inv ords s p l" "side_queue ords pl = level_orders ords l @ rest"
    by (metis best_queue_Cons)
  then obtain x xs where "level_orders ords l = x # xs"
    using level_inv_nonempty by (cases "level_orders ords l") (auto simp: level_orders_def)
  with l level_invD(1) [OF l(1), of x] Some show ?thesis by (simp add: resting_ok_def)
qed

text \<open>The priority queue is ordered by price: nothing behind an order has a better price.\<close>

lemma concat_sorted:
  assumes "sorted_wrt (better s) (map fst es)"
    and "\<And>q k x. (q, k) \<in> set es \<Longrightarrow> x \<in> set (f k) \<Longrightarrow> ord_price x = q"
  shows "sorted_wrt (\<lambda>x y. \<not> better s (ord_price y) (ord_price x)) (concat (map (\<lambda>(_, l). f l) es))"
  using assms
proof (induction es)
  case (Cons e es)
  obtain q k where e: "e = (q, k)" by (cases e)
  have same: "\<And>x. x \<in> set (f k) \<Longrightarrow> ord_price x = q" using Cons.prems(2) [of q k] e by simp
  then have "sorted_wrt (\<lambda>x y. \<not> better s (ord_price y) (ord_price x)) (f k)"
    by (simp add: sorted_wrt_iff_nth_less)
  moreover have "better s q (ord_price y)" if "y \<in> set (concat (map (\<lambda>(_, l). f l) es))" for y
    using that Cons.prems e by fastforce
  ultimately show ?case
    using Cons e same by (auto simp: sorted_wrt_append dest: better_asym)
qed simp

lemma side_queue_sorted:
  assumes "side_inv ords s pl"
  shows "sorted_wrt (\<lambda>x y. \<not> better s (ord_price y) (ord_price x)) (side_queue ords pl)"
  unfolding side_queue_def
proof (rule concat_sorted)
  show "sorted_wrt (better s) (map fst (pl_iter_best_to_worst pl))"
    using iter_sorted [of pl] assms by (auto simp: side_inv_def pl_struct_ok_def)
  fix q k x
  assume "(q, k) \<in> set (pl_iter_best_to_worst pl)" and x: "x \<in> set (level_orders ords k)"
  with assms have "level_inv ords s q k" by (intro side_inv_walk)
  from level_invD(1) [OF this x] show "ord_price x = q" by (simp add: resting_ok_def)
qed

section \<open>Replacing one level\<close>

text \<open>
  The two ways an operation changes a side: it puts another level in the place of the level
  of a price, or it drops that level. Orders of the other levels are not touched.
\<close>

lemma distinct_middle:
  "distinct (as @ bs @ cs) \<Longrightarrow> distinct bs' \<Longrightarrow> set bs' \<subseteq> set bs \<Longrightarrow> distinct (as @ bs' @ cs)"
  by auto

lemma side_walk:
  assumes inv: "side_inv ords s pl" and get: "om_get (pl_levels pl) p = Some l"
    and agree: "\<And>i. i \<in> set (side_ids pl) \<Longrightarrow> i \<notin> set (level_iter l) \<Longrightarrow> om_get ords' i = om_get ords i"
  obtains xs ys as bs us vs where "side_queue ords pl = xs @ level_orders ords l @ ys"
    and "\<And>l'. side_queue ords' (pl_update_level p (\<lambda>_. l') pl) = xs @ level_orders ords' l' @ ys"
    and "\<And>l'. side_queue ords' (pl_remove_level p (pl_update_level p (\<lambda>_. l') pl)) = xs @ ys"
    and "side_ids pl = as @ level_iter l @ bs"
    and "\<And>l'. side_ids (pl_update_level p (\<lambda>_. l') pl) = as @ level_iter l' @ bs"
    and "\<And>l'. side_ids (pl_remove_level p (pl_update_level p (\<lambda>_. l') pl)) = as @ bs"
    and "pl_best pl = Some p \<Longrightarrow> xs = []"
    and "\<And>l'. set (pl_levels (pl_update_level p (\<lambda>_. l') pl)) = insert (p, l') (set us \<union> set vs)"
    and "\<And>l'. set (pl_levels (pl_remove_level p (pl_update_level p (\<lambda>_. l') pl))) = set us \<union> set vs"
    and "\<And>q k. (q, k) \<in> set us \<union> set vs \<Longrightarrow> level_inv ords' s q k"
proof -
  have st: "pl_struct_ok pl" "om_ok (pl_levels pl)" "distinct (side_ids pl)"
    using inv by (auto simp: side_inv_def pl_struct_ok_def)
  obtain us vs where it: "pl_iter_best_to_worst pl = us @ (p, l) # vs"
      "\<And>l'. pl_iter_best_to_worst (pl_update_level p (\<lambda>_. l') pl) = us @ (p, l') # vs"
      "\<And>l'. pl_iter_best_to_worst (pl_remove_level p (pl_update_level p (\<lambda>_. l') pl)) = us @ vs"
    and first: "pl_best pl = Some p \<Longrightarrow> us = []"
    using pl_split [OF st(2) get] st(1) by metis
  let ?F = "\<lambda>m es. concat (map (\<lambda>(_, l). level_orders m l) es)"
  let ?G = "\<lambda>es. concat (map (\<lambda>(_, l). level_iter l) es)"
  have ids: "side_ids pl = ?G us @ level_iter l @ ?G vs" by (simp add: side_ids_def it(1))
  then have "set (level_iter l) \<inter> (set (?G us) \<union> set (?G vs)) = {}"
    using st(3) unfolding ids distinct_append set_append by blast
  then have ag: "om_get ords' i = om_get ords i" if "i \<in> set (?G us) \<union> set (?G vs)" for i
    using that by (intro agree) (unfold ids set_append, blast+)
  have other: "level_orders ords' k = level_orders ords k" "level_inv ords' s q k = level_inv ords s q k"
    if "(q, k) \<in> set us \<union> set vs" for q k
    using that by (intro level_inv_cong ag; force)+
  have F: "?F ords' us = ?F ords us" "?F ords' vs = ?F ords vs"
    using other(1) by (intro arg_cong [where f = concat] map_cong; auto)+
  have lv: "level_inv ords' s q k" if "(q, k) \<in> set us \<union> set vs" for q k
    using that inv it(1) iter_set [of pl] other(2) [OF that] by (auto simp: side_inv_def)
  show thesis
    by (rule that [of "?F ords us" "?F ords vs" "?G us" "?G vs" us vs])
       (use F first lv in \<open>auto simp: side_queue_def side_ids_def it simp flip: iter_set\<close>)
qed

lemma level_inv_total: "level_inv ords s p l \<Longrightarrow> lvl_total l = qty_sum (level_orders ords l)"
  by (simp add: level_inv_def)

lemma side_inv_level: "side_inv ords s pl \<Longrightarrow> om_get (pl_levels pl) p = Some l \<Longrightarrow> level_inv ords s p l"
  by (auto simp: side_inv_def dest: map_of_SomeD)

lemma side_inv_replace:
  assumes inv: "side_inv ords s pl" and get: "om_get (pl_levels pl) p = Some l"
    and agree: "\<And>i. i \<in> set (side_ids pl) \<Longrightarrow> i \<notin> set (level_iter l) \<Longrightarrow> om_get ords' i = om_get ords i"
    and l': "level_inv ords' s p l'" and sub: "set (level_iter l') \<subseteq> set (level_iter l)"
    and dis: "distinct (level_iter l')" and tot: "lvl_total l' \<le> lvl_total l"
  shows "side_inv ords' s (pl_update_level p (\<lambda>_. l') pl)"
proof (rule side_walk [OF inv get agree])
  fix xs ys as bs us vs
  let ?pl = "pl_update_level p (\<lambda>_. l') pl"
  assume q: "side_queue ords pl = xs @ level_orders ords l @ ys"
    "\<And>l'. side_queue ords' (pl_update_level p (\<lambda>_. l') pl) = xs @ level_orders ords' l' @ ys"
    and i: "side_ids pl = as @ level_iter l @ bs"
    "\<And>l'. side_ids (pl_update_level p (\<lambda>_. l') pl) = as @ level_iter l' @ bs"
    and m: "\<And>l'. set (pl_levels (pl_update_level p (\<lambda>_. l') pl)) = insert (p, l') (set us \<union> set vs)"
    and lv: "\<And>q k. (q, k) \<in> set us \<union> set vs \<Longrightarrow> level_inv ords' s q k"
  have "distinct (side_ids ?pl)"
    using inv i dis sub distinct_middle by (metis side_inv_def)
  moreover have "qty_sum (side_queue ords' ?pl) < 2 ^ 64"
    using inv q tot level_inv_total [OF l'] level_inv_total [OF side_inv_level [OF inv get]]
    by (simp add: side_inv_def)
  moreover have "pl_struct_ok ?pl" "pl_side ?pl = s"
    using inv update_level_struct_ok by (auto simp: side_inv_def pl_update_level_def)
  ultimately show ?thesis using l' lv m by (auto simp: side_inv_def)
qed assumption

lemma side_inv_drop:
  assumes inv: "side_inv ords s pl" and get: "om_get (pl_levels pl) p = Some l"
    and agree: "\<And>i. i \<in> set (side_ids pl) \<Longrightarrow> i \<notin> set (level_iter l) \<Longrightarrow> om_get ords' i = om_get ords i"
  shows "side_inv ords' s (pl_remove_level p (pl_update_level p (\<lambda>_. l') pl))"
proof (rule side_walk [OF inv get agree])
  fix xs ys as bs us vs
  let ?pl = "pl_remove_level p (pl_update_level p (\<lambda>_. l') pl)"
  assume q: "side_queue ords pl = xs @ level_orders ords l @ ys"
    "\<And>l'. side_queue ords' (pl_remove_level p (pl_update_level p (\<lambda>_. l') pl)) = xs @ ys"
    and i: "side_ids pl = as @ level_iter l @ bs"
    "\<And>l'. side_ids (pl_remove_level p (pl_update_level p (\<lambda>_. l') pl)) = as @ bs"
    and m: "\<And>l'. set (pl_levels (pl_remove_level p (pl_update_level p (\<lambda>_. l') pl))) = set us \<union> set vs"
    and lv: "\<And>q k. (q, k) \<in> set us \<union> set vs \<Longrightarrow> level_inv ords' s q k"
  have "distinct (side_ids ?pl)" "qty_sum (side_queue ords' ?pl) < 2 ^ 64"
    using inv i q by (auto simp: side_inv_def)
  moreover have "pl_struct_ok ?pl"
    using inv by (intro remove_level_struct_ok update_level_struct_ok) (simp add: side_inv_def)
  moreover have "pl_side ?pl = s"
    using inv by (auto simp: side_inv_def pl_update_level_def pl_remove_level_def pl_recompute_best_price_def Let_def)
  ultimately show ?thesis using lv m by (auto simp: side_inv_def)
qed assumption

end
