(* ===== verification/Book_Ops.thy ===== *)
theory Book_Ops
  imports Book_Inv
begin

text \<open>
  What the operations of the book do to the priority queues, and that they keep the book
  invariant: filling the head of a queue, cancelling an order through an accurate index,
  adding a resting order, compaction and the clearing of the history.
\<close>

section \<open>Frame rules of the invariant\<close>

lemma book_inv_counters [simp]:
  "book_inv (b\<lparr>bk_next_trade_id := n\<rparr>) = book_inv b"
  "book_inv (b\<lparr>bk_next_timestamp := n\<rparr>) = book_inv b"
  by (simp_all add: book_inv_def index_inv_def)

lemma book_queue_counters [simp]:
  "book_queue (b\<lparr>bk_next_trade_id := n\<rparr>) s = book_queue b s"
  "book_queue (b\<lparr>bk_next_timestamp := n\<rparr>) s = book_queue b s"
  "book_queue (b\<lparr>bk_next_order_id := n\<rparr>) s = book_queue b s"
  by (simp_all add: book_queue_def)

lemma book_inv_next_id: "book_inv b \<Longrightarrow> bk_next_order_id b \<le> n \<Longrightarrow> book_inv (b\<lparr>bk_next_order_id := n\<rparr>)"
  by (fastforce simp: book_inv_def index_inv_def)

lemma book_inv_orderD:
  assumes "book_inv b" and "om_get (bk_orders b) i = Some x"
  shows "ord_id x = i" and "0 < i" and "i < bk_next_order_id b" and "order_ok x"
    and "ord_tif x = GTC \<Longrightarrow> order_is_active x \<Longrightarrow> 0 < ord_remaining x \<Longrightarrow>
         i \<in> set (side_ids (book_side b (ord_side x)))"
  using assms by (auto simp: book_inv_def index_inv_def)

lemma side_ids_get:
  assumes "book_inv b" and "i \<in> set (side_ids (book_side b s))"
  obtains x where "om_get (bk_orders b) i = Some x" and "x \<in> set (book_queue b s)" and "ord_id x = i"
proof -
  from assms(2) have "i \<in> ord_id ` set (book_queue b s)"
    using side_queue_ids [OF book_inv_side [OF assms(1)]] by (metis book_queue_def image_set)
  with book_queueD(6) [OF assms(1)] that show thesis by blast
qed

text \<open>Changing one queued order together with the side it is queued on.\<close>

lemma book_inv_change:
  assumes inv: "book_inv b" and x: "om_get (bk_orders b) i = Some x"
    and i: "i \<in> set (side_ids (book_side b s))"
    and pl': "side_inv (om_update i (\<lambda>_. x') (bk_orders b)) s pl'"
    and x': "ord_id x' = i" "order_ok x'" "ord_side x' = ord_side x"
    and ids: "\<And>j. j \<in> set (side_ids (book_side b s)) \<Longrightarrow> j \<noteq> i \<Longrightarrow> j \<in> set (side_ids pl')"
    and live: "order_is_active x' \<Longrightarrow> 0 < ord_remaining x' \<Longrightarrow> i \<in> set (side_ids pl')"
  shows "book_inv (book_set_side s pl' (book_update_order i (\<lambda>_. x') b))"
    and "book_queue (book_set_side s pl' (book_update_order i (\<lambda>_. x') b)) (opposite s) = book_queue b (opposite s)"
proof -
  let ?o = "om_update i (\<lambda>_. x') (bk_orders b)"
  let ?b = "book_set_side s pl' (book_update_order i (\<lambda>_. x') b)"
  have notin: "i \<notin> set (side_ids (book_side b (opposite s)))"
    using sides_disjoint [OF inv, of s] i by auto
  have agree: "om_get ?o j = om_get (bk_orders b) j" if "j \<in> set (side_ids (book_side b (opposite s)))" for j
    using that notin by (auto simp: om_get_update)
  have side: "ord_side x = s"
    using side_ids_get [OF inv i] x book_queueD(1) [OF inv] by fastforce
  have opp: "side_inv ?o (opposite s) (book_side b (opposite s))"
    using side_inv_cong(2) [OF agree] book_inv_side [OF inv] by simp
  have "side_inv (bk_orders ?b) t (book_side ?b t)" for t
    using opp pl' by (cases "t = s") (auto simp: side_neq_iff)
  moreover have "index_inv ?b"
    unfolding index_inv_def
  proof (intro conjI allI impI)
    show "om_ok (bk_orders ?b)" "0 < bk_next_order_id ?b"
      using inv by (auto simp: book_inv_def index_inv_def om_ok_update)
    fix j y assume "om_get (bk_orders ?b) j = Some y"
    then have c: "j = i \<and> y = x' \<or> j \<noteq> i \<and> om_get (bk_orders b) j = Some y"
      using x by (auto simp: om_get_update split: if_splits)
    then show "ord_id y = j" "0 < j" "j < bk_next_order_id ?b" "order_ok y"
      using book_inv_orderD [OF inv] x x' by auto
    assume live_y: "ord_tif y = GTC \<and> order_is_active y \<and> 0 < ord_remaining y"
    from c show "j \<in> set (side_ids (book_side ?b (ord_side y)))"
    proof (elim disjE conjE)
      assume "j \<noteq> i" "om_get (bk_orders b) j = Some y"
      then show ?thesis using book_inv_orderD(5) [OF inv] live_y ids by auto
    qed (use live_y live x'(3) side in simp)
  qed
  ultimately show "book_inv ?b" by (simp add: book_inv_def)
  show "book_queue ?b (opposite s) = book_queue b (opposite s)"
    using side_inv_cong(1) [OF agree] by (simp add: book_queue_def)
qed

section \<open>The head of a queue\<close>

lemma queue_head:
  assumes "side_inv ords s pl" and "pl_best pl = Some p"
  obtains l x js rest where "om_get (pl_levels pl) p = Some l" and "level_inv ords s p l"
    and "level_iter l = ord_id x # js" and "side_queue ords pl = x # rest"
    and "ord_price x = p" and "om_get ords (ord_id x) = Some x" and "0 < ord_remaining x"
    and "level_orders ords l = x # map (\<lambda>i. the (om_get ords i)) js"
proof -
  obtain l rest where l: "om_get (pl_levels pl) p = Some l" "level_inv ords s p l"
    "side_queue ords pl = level_orders ords l @ rest"
    using assms by (metis best_queue_Cons)
  obtain i js where i: "level_iter l = i # js" using level_inv_nonempty [OF l(2)] by (cases "level_iter l") auto
  with l(2) obtain x where x: "om_get ords i = Some x" "resting_ok s p i x" by (auto simp: level_inv_def)
  with i have "level_orders ords l = x # map (\<lambda>i. the (om_get ords i)) js" by (simp add: level_orders_def)
  with l i x that [of l x js "map (\<lambda>i. the (om_get ords i)) js @ rest"] show thesis
    by (auto simp: resting_ok_def)
qed

text \<open>Looking at the front drops tombstones and changes nothing else.\<close>

lemma level_front_inv:
  assumes "level_inv ords s p l"
  shows "level_inv ords s p (fst (level_front l))" and "level_orders ords (fst (level_front l)) = level_orders ords l"
proof -
  have ok: "level_ok l" using assms by (simp add: level_inv_def)
  note f = level_front_ok [OF ok]
  show "level_orders ords (fst (level_front l)) = level_orders ords l"
    using f(2) by (simp add: level_orders_def)
  with assms f show "level_inv ords s p (fst (level_front l))"
    by (simp add: level_inv_def)
qed

text \<open>Popping a completely filled head.\<close>

lemma pop_head:
  assumes inv: "side_inv ords s pl" and best: "pl_best pl = Some p"
    and get: "om_get (pl_levels pl) p = Some l" and q: "side_queue ords pl = x # rest"
    and x': "ords' = om_update (ord_id x) (\<lambda>_. x') ords"
  defines "l' \<equiv> fst (level_pop_front (ord_remaining x) l)"
  defines "pl1 \<equiv> pl_update_level p (\<lambda>_. l') pl"
  defines "pl' \<equiv> (if level_is_empty l' then pl_remove_level p pl1 else pl1)"
  shows "side_inv ords' s pl'" and "side_queue ords' pl' = rest"
    and "\<And>j. j \<in> set (side_ids pl) \<Longrightarrow> j \<noteq> ord_id x \<Longrightarrow> j \<in> set (side_ids pl')"
    and "om_get (pl_levels pl') p = None \<or> pl_best pl' = Some p"
proof -
  obtain l0 x0 js rest0 where h0: "om_get (pl_levels pl) p = Some l0" "level_inv ords s p l0"
      "level_iter l0 = ord_id x0 # js" "side_queue ords pl = x0 # rest0"
      "level_orders ords l0 = x0 # map (\<lambda>i. the (om_get ords i)) js" "om_get ords (ord_id x0) = Some x0"
    using queue_head [OF inv best] by metis
  with get q have h: "level_inv ords s p l" "level_iter l = ord_id x # js"
      "level_orders ords l = x # map (\<lambda>i. the (om_get ords i)) js" "om_get ords (ord_id x) = Some x" by auto
  have dis: "distinct (level_iter l)"
  proof (rule side_walk [OF inv get refl])
    fix as bs assume "side_ids pl = as @ level_iter l @ bs"
    then show ?thesis using inv by (simp add: side_inv_def)
  qed
  have ok: "level_ok l" using h(1) by (simp add: level_inv_def)
  note pf = level_pop_front_ok [OF ok h(2), of "ord_remaining x", folded l'_def]
  have sameis: "om_get ords' i = (if i = ord_id x then Some x' else om_get ords i)" for i
    using x' h(4) by (simp add: om_get_update)
  have lo': "level_orders ords' l' = map (\<lambda>i. the (om_get ords i)) js"
    using dis h(2) pf(2) by (auto simp: level_orders_def sameis)
  have tot: "lvl_total l' = qty_sum (level_orders ords' l')"
    using h(1,3) pf(4) lo' by (simp add: level_inv_def)
  have lv': "level_inv ords' s p l'" if "\<not> level_is_empty l'"
    using h(1,2) dis pf sameis tot that by (auto simp: level_inv_def level_is_empty_def)
  have agree: "\<And>i. i \<in> set (side_ids pl) \<Longrightarrow> i \<notin> set (level_iter l) \<Longrightarrow> om_get ords' i = om_get ords i"
    using sameis h(2) by auto
  have empty_is: "level_orders ords' l' = [] \<and> js = []" if "level_is_empty l'"
  proof (rule ccontr)
    assume "\<not> ?thesis"
    then have "js \<noteq> []" using lo' by auto
    then obtain j ks where ks: "js = j # ks" by (cases js) auto
    then obtain y where "om_get ords j = Some y" "0 < ord_remaining y"
      using h(1,2) by (auto simp: level_inv_def resting_ok_def)
    with ks lo' tot that show False by (simp add: level_is_empty_def)
  qed
  show "side_inv ords' s pl'"
    using side_inv_drop [OF inv get agree] side_inv_replace [OF inv get agree lv'] dis pf(2) h(2)
    by (auto simp: pl'_def pl1_def pf(4))
  show "side_queue ords' pl' = rest" and "\<And>j. j \<in> set (side_ids pl) \<Longrightarrow> j \<noteq> ord_id x \<Longrightarrow> j \<in> set (side_ids pl')"
    using q h(2,3) lo' empty_is best pf(2)
    by (rule_tac side_walk [OF inv get agree]; auto simp: pl'_def pl1_def split: if_splits)+
  show "om_get (pl_levels pl') p = None \<or> pl_best pl' = Some p"
    using best by (auto simp: pl'_def pl1_def pl_remove_level_def pl_update_level_def
        pl_recompute_best_price_def Let_def kv_simps)
qed

text \<open>A partially filled head stays at the head.\<close>

lemma dec_head:
  assumes inv: "side_inv ords s pl" and best: "pl_best pl = Some p"
    and get: "om_get (pl_levels pl) p = Some l" and q: "side_queue ords pl = x # rest"
    and x': "ords' = om_update (ord_id x) (\<lambda>_. x') ords"
    and r': "resting_ok s p (ord_id x) x'" "ord_remaining x' + n = ord_remaining x"
  defines "pl' \<equiv> pl_update_level p (level_decrease_quantity n) pl"
  shows "side_inv ords' s pl'" and "side_queue ords' pl' = x' # rest"
    and "side_ids pl' = side_ids pl" and "pl_best pl' = Some p"
proof -
  obtain l0 x0 js rest0 where h0: "om_get (pl_levels pl) p = Some l0" "level_inv ords s p l0"
      "level_iter l0 = ord_id x0 # js" "side_queue ords pl = x0 # rest0"
      "level_orders ords l0 = x0 # map (\<lambda>i. the (om_get ords i)) js" "om_get ords (ord_id x0) = Some x0"
    using queue_head [OF inv best] by metis
  with get q have h: "level_inv ords s p l" "level_iter l = ord_id x # js"
      "level_orders ords l = x # map (\<lambda>i. the (om_get ords i)) js" "om_get ords (ord_id x) = Some x" by auto
  let ?l = "level_decrease_quantity n l"
  have pl': "pl' = pl_update_level p (\<lambda>_. ?l) pl"
    unfolding pl'_def pl_update_level_def
    by (subst om_update_cong [where g = "\<lambda>_. ?l"])
       (use get inv in \<open>auto simp: side_inv_def pl_struct_ok_def\<close>)
  have dis: "distinct (level_iter l)"
  proof (rule side_walk [OF inv get refl])
    fix as bs assume "side_ids pl = as @ level_iter l @ bs"
    then show ?thesis using inv by (simp add: side_inv_def)
  qed
  have sameis: "om_get ords' i = (if i = ord_id x then Some x' else om_get ords i)" for i
    using x' h(4) by (simp add: om_get_update)
  have lo': "level_orders ords' ?l = x' # map (\<lambda>i. the (om_get ords i)) js"
    using dis h(2) sameis by (auto simp: level_orders_def level_decrease_quantity_ok)
  have lv': "level_inv ords' s p ?l"
    using h lo' r' sameis dis
    by (auto simp: level_inv_def level_decrease_quantity_ok resting_ok_def)
  have agree: "\<And>i. i \<in> set (side_ids pl) \<Longrightarrow> i \<notin> set (level_iter l) \<Longrightarrow> om_get ords' i = om_get ords i"
    using sameis h(2) by auto
  show "side_inv ords' s pl'"
    using side_inv_replace [OF inv get agree lv'] dis by (simp add: pl' level_decrease_quantity_ok)
  show "side_queue ords' pl' = x' # rest" and "side_ids pl' = side_ids pl"
    using q h(3) lo' best
    by (rule_tac side_walk [OF inv get agree]; auto simp: pl' level_decrease_quantity_ok)+
  show "pl_best pl' = Some p" using best by (simp add: pl'_def pl_update_level_def)
qed

section \<open>Adding a resting order\<close>

text \<open>
  Price-time priority: a new order goes behind every order of a price that is at least as
  good as its own, and in front of the worse ones.
\<close>

definition enqueue :: "side \<Rightarrow> order \<Rightarrow> order list \<Rightarrow> order list" where
  "enqueue s x q =
     takeWhile (\<lambda>y. \<not> better s (ord_price x) (ord_price y)) q @
     x # dropWhile (\<lambda>y. \<not> better s (ord_price x) (ord_price y)) q"

lemma enqueue_split:
  assumes "\<forall>y \<in> set as. \<not> better s (ord_price x) (ord_price y)"
    and "\<forall>y \<in> set bs. better s (ord_price x) (ord_price y)"
  shows "enqueue s x (as @ bs) = as @ x # bs"
  using assms by (cases bs) (simp_all add: enqueue_def)

lemma level_push_inv:
  assumes l: "level_ok l" "lvl_price l = p" "lvl_total l = qty_sum (level_orders ords l)"
      "\<And>j. j \<in> set (level_iter l) \<Longrightarrow> \<exists>y. om_get ords j = Some y \<and> resting_ok s p j y"
    and x: "resting_ok s p i x" and i: "i \<noteq> 0" "i \<notin> set (level_iter l)"
    and room: "lvl_total l + ord_remaining x < 2 ^ 64"
  obtains l' where "level_push_back i (ord_remaining x) l = Inr l'" and "level_iter l' = level_iter l @ [i]"
    and "level_inv (om_insert i x ords) s p l'"
    and "level_orders (om_insert i x ords) l' = level_orders ords l @ [x]"
proof -
  obtain l' where l': "level_push_back i (ord_remaining x) l = Inr l'" "level_ok l'"
      "level_iter l' = level_iter l @ [i]" "lvl_total l' = lvl_total l + ord_remaining x" "lvl_price l' = lvl_price l"
    using level_push_back_ok [OF l(1) i(1) room] by metis
  have get: "om_get (om_insert i x ords) j = (if j = i then Some x else om_get ords j)" for j
    by (simp add: kv_simps)
  have lo: "level_orders (om_insert i x ords) l' = level_orders ords l @ [x]"
    using l'(3) i(2) get by (auto simp: level_orders_def)
  moreover have "level_inv (om_insert i x ords) s p l'"
    using l l' lo x get i(2) by (auto simp: level_inv_def resting_ok_def)
  ultimately show thesis using that l' by blast
qed

lemma walk_better:
  assumes "om_ok (pl_levels pl)" and "pl_iter_best_to_worst pl = us @ (p, l) # vs"
  shows "\<forall>e \<in> set us. better (pl_side pl) (fst e) p" and "\<forall>e \<in> set vs. better (pl_side pl) p (fst e)"
  using iter_sorted [OF assms(1)] assms(2) by (auto simp: sorted_wrt_append)

lemma get_or_create_walk:
  assumes ok: "om_ok (pl_levels pl)"
  obtains us vs l where "pl_iter_best_to_worst (pl_get_or_create_level p pl) = us @ (p, l) # vs"
    and "om_get (pl_levels (pl_get_or_create_level p pl)) p = Some l"
    and "pl_iter_best_to_worst pl = us @ (p, l) # vs \<or> l = level_new p \<and> pl_iter_best_to_worst pl = us @ vs"
proof (cases "om_get (pl_levels pl) p")
  case None
  let ?pl = "pl_get_or_create_level p pl"
  let ?a = "filter (\<lambda>e. fst e < p) (pl_levels pl)" and ?c = "filter (\<lambda>e. p < fst e) (pl_levels pl)"
  have lev: "pl_levels ?pl = ?a @ (p, level_new p) # ?c" and side: "pl_side ?pl = pl_side pl"
    using None om_insert_split [OF ok None]
    by (auto simp: pl_get_or_create_level_def pl_update_best_price_after_insert_def Let_def split: option.splits)
  have old: "pl_levels pl = ?a @ ?c" using om_split_absent [OF ok None] .
  have get: "om_get (pl_levels ?pl) p = Some (level_new p)"
    using None by (auto simp: pl_get_or_create_level_def Let_def kv_simps)
  obtain us vs where us: "\<And>z. (case pl_side pl of Buy \<Rightarrow> rev (?a @ z # ?c) | Sell \<Rightarrow> ?a @ z # ?c) = us @ z # vs"
      "(case pl_side pl of Buy \<Rightarrow> rev (?a @ ?c) | Sell \<Rightarrow> ?a @ ?c) = us @ vs"
    using walk_split by metis
  have "pl_iter_best_to_worst ?pl = us @ (p, level_new p) # vs"
    unfolding pl_iter_best_to_worst_def lev side by (rule us(1))
  moreover have "pl_iter_best_to_worst pl = us @ vs"
    unfolding pl_iter_best_to_worst_def us(2) [symmetric] by (simp only: old [symmetric])
  ultimately show thesis using get that by blast
next
  case (Some l)
  then have same: "pl_get_or_create_level p pl = pl" by (simp add: pl_get_or_create_level_def)
  obtain us vs where "pl_iter_best_to_worst pl = us @ (p, l) # vs" using pl_split [OF ok Some] by metis
  with Some same show thesis by (intro that [of us l vs]) simp_all
qed

lemma get_or_create_proj [simp]: "pl_side (pl_get_or_create_level p pl) = pl_side pl"
  by (simp add: pl_get_or_create_level_def pl_update_best_price_after_insert_def Let_def split: option.splits)

lemma pl_insert_order_ok:
  assumes inv: "side_inv ords s pl" and fresh: "om_get ords i = None" and i: "i \<noteq> 0"
    and x: "resting_ok s p i x" and n: "n = ord_remaining x"
    and room: "qty_sum (side_queue ords pl) + n < 2 ^ 64"
  obtains pl' k where "pl_insert_order p i n pl = Inr (pl', k)"
    and "side_inv (om_insert i (x\<lparr>ord_position := k\<rparr>) ords) s pl'"
    and "side_queue (om_insert i (x\<lparr>ord_position := k\<rparr>) ords) pl' = enqueue s (x\<lparr>ord_position := k\<rparr>) (side_queue ords pl)"
    and "set (side_ids pl') = insert i (set (side_ids pl))"
    and "\<exists>l. om_get (pl_levels pl') p = Some l \<and> k < length (lvl_orders l) \<and> lvl_orders l ! k = i"
proof -
  let ?pl1 = "pl_get_or_create_level p pl"
  have st: "om_ok (pl_levels pl)" "pl_struct_ok ?pl1" "om_ok (pl_levels ?pl1)" "pl_side ?pl1 = s"
    using inv get_or_create_struct_ok [of pl p] by (auto simp: side_inv_def pl_struct_ok_def)
  obtain us vs l where w: "pl_iter_best_to_worst ?pl1 = us @ (p, l) # vs" "om_get (pl_levels ?pl1) p = Some l"
      "pl_iter_best_to_worst pl = us @ (p, l) # vs \<or> l = level_new p \<and> pl_iter_best_to_worst pl = us @ vs"
    using get_or_create_walk [OF st(1)] by metis
  let ?F = "\<lambda>m es. concat (map (\<lambda>(_, l). level_orders m l) es)"
  let ?G = "\<lambda>es. concat (map (\<lambda>(_, l). level_iter l) es)"
  have q0: "side_queue ords pl = ?F ords us @ level_orders ords l @ ?F ords vs"
    and i0: "side_ids pl = ?G us @ level_iter l @ ?G vs"
    using w(3) by (auto simp: side_queue_def side_ids_def level_orders_def level_new_ok)
  have lvs: "level_inv ords s q k" if "(q, k) \<in> set us \<union> set vs" for q k
    using that w(3) by (intro side_inv_walk [OF inv]) auto
  have l: "level_ok l" "lvl_price l = p" "lvl_total l = qty_sum (level_orders ords l)"
      "\<And>j. j \<in> set (level_iter l) \<Longrightarrow> \<exists>y. om_get ords j = Some y \<and> resting_ok s p j y"
    using w(3) side_inv_walk [OF inv, of p l] by (auto simp: level_inv_def level_new_ok level_orders_def)
  have notin: "i \<notin> set (side_ids pl)"
    using side_queue_ids [OF inv] side_queueD(2) [OF inv] fresh by (metis imageE image_set option.distinct(1))
  let ?k = "length (lvl_orders l)"
  define y where "y = x\<lparr>ord_position := ?k\<rparr>"
  have y: "resting_ok s p i y" "ord_remaining y = n" "ord_price y = p"
    using x n by (auto simp: y_def resting_ok_def order_is_active_def order_ok_def)
  let ?o = "om_insert i y ords"
  obtain l' where l': "level_push_back i n l = Inr l'" "level_iter l' = level_iter l @ [i]"
      "level_inv ?o s p l'" "level_orders ?o l' = level_orders ords l @ [y]"
    using level_push_inv [OF l y(1) i] y(2) notin i0 room q0 l(3) by auto
  let ?pl2 = "pl_update_level p (\<lambda>_. l') ?pl1"
  have ag: "level_orders ?o k = level_orders ords k" "level_inv ?o s q k = level_inv ords s q k"
    if "(q, k) \<in> set us \<union> set vs" for q k
    using that i0 notin by (intro level_inv_cong; force simp: kv_simps)+
  have F: "?F ?o us = ?F ords us" "?F ?o vs = ?F ords vs"
    using ag(1) by (intro arg_cong [where f = concat] map_cong; auto)+
  have wb: "\<And>q k. (q, k) \<in> set us \<Longrightarrow> better s q p" "\<And>q k. (q, k) \<in> set vs \<Longrightarrow> better s p q"
    using walk_better [OF st(3) w(1)] st(4) by fastforce+
  then have "p \<notin> fst ` set us" "p \<notin> fst ` set vs" by fastforce+
  then have w2: "pl_iter_best_to_worst ?pl2 = us @ (p, l') # vs"
    unfolding iter_update w(1) om_update_append om_update_absent [OF \<open>p \<notin> fst ` set us\<close>]
    using om_update_absent [of p vs] by (simp add: om_update_def)
  have q2: "side_queue ?o ?pl2 = (?F ords us @ level_orders ords l) @ y # ?F ords vs"
    using w2 F l'(4) by (simp add: side_queue_def)
  have i2: "side_ids ?pl2 = ?G us @ (level_iter l @ [i]) @ ?G vs"
    using w2 l'(2) by (simp add: side_ids_def)
  have price: "ord_price z = q" if "(q, k) \<in> set us \<union> set vs" "z \<in> set (level_orders ords k)" for q k z
    using level_invD(1) [OF lvs [OF that(1)] that(2)] by (simp add: resting_ok_def)
  have mid: "ord_price z = p" if "z \<in> set (level_orders ords l)" for z
    using that l(4) by (fastforce simp: level_orders_def resting_ok_def)
  have "\<not> better s p (ord_price z)" if "z \<in> set (?F ords us @ level_orders ords l)" for z
    using that price mid wb(1) better_asym by (auto, metis UnI1)
  moreover have "better s p (ord_price z)" if "z \<in> set (?F ords vs)" for z
    using that price wb(2) by (auto, metis UnI2)
  ultimately have enq: "side_queue ?o ?pl2 = enqueue s y (side_queue ords pl)"
    unfolding q2 q0 append_assoc [symmetric] using y(3)
    by (intro enqueue_split [symmetric]) simp_all
  have "distinct (side_ids ?pl2)" using inv i0 i2 notin by (auto simp: side_inv_def)
  moreover have "qty_sum (side_queue ?o ?pl2) < 2 ^ 64" using q2 q0 room y(2) by simp
  moreover have "\<forall>(q, k) \<in> set (pl_levels ?pl2). level_inv ?o s q k"
    using l'(3) lvs ag(2) unfolding iter_set [symmetric] w2 by auto
  ultimately have "side_inv ?o s ?pl2"
    using update_level_struct_ok [OF st(2)] st(4) by (simp add: side_inv_def pl_update_level_def)
  moreover have "pl_insert_order p i n pl = Inr (?pl2, ?k)"
    using w(2) l'(1) by (simp add: pl_insert_order_def)
  moreover have "\<exists>m. om_get (pl_levels ?pl2) p = Some m \<and> ?k < length (lvl_orders m) \<and> lvl_orders m ! ?k = i"
    using w(2) l'(1) i by (auto simp: pl_update_level_def kv_simps level_push_back_def)
  moreover have "set (side_ids ?pl2) = insert i (set (side_ids pl))" using i0 i2 by auto
  ultimately show thesis using that enq unfolding y_def by blast
qed

text \<open>Where an order sits: its index in the queue of its level is the recorded one.\<close>

definition index_accurate :: "book \<Rightarrow> order \<Rightarrow> bool" where
  "index_accurate b x =
     (case om_get (pl_levels (book_side b (ord_side x))) (ord_price x) of
        None \<Rightarrow> False
      | Some l \<Rightarrow> ord_position x < length (lvl_orders l) \<and> lvl_orders l ! ord_position x = ord_id x)"

lemma book_add_order_ok:
  assumes inv: "book_inv b" and fresh: "om_get (bk_orders b) (ord_id x) = None"
    and x: "resting_ok (ord_side x) (ord_price x) (ord_id x) x" "0 < ord_id x" "ord_id x < bk_next_order_id b"
    and room: "qty_sum (book_queue b (ord_side x)) + ord_remaining x < 2 ^ 64"
  obtains b' k where "book_add_order x b = Inr b'" and "book_inv b'"
    and "book_queue b' (ord_side x) = enqueue (ord_side x) (x\<lparr>ord_position := k\<rparr>) (book_queue b (ord_side x))"
    and "book_side b' (opposite (ord_side x)) = book_side b (opposite (ord_side x))"
    and "book_queue b' (opposite (ord_side x)) = book_queue b (opposite (ord_side x))"
    and "bk_orders b' = om_insert (ord_id x) (x\<lparr>ord_position := k\<rparr>) (bk_orders b)"
    and "bk_next_order_id b' = bk_next_order_id b" and "bk_next_trade_id b' = bk_next_trade_id b"
    and "bk_next_timestamp b' = bk_next_timestamp b"
    and "index_accurate b' (x\<lparr>ord_position := k\<rparr>)"
proof -
  let ?s = "ord_side x" and ?i = "ord_id x"
  have side: "side_inv (bk_orders b) ?s (book_side b ?s)" using inv by (rule book_inv_side)
  obtain pl' k where pl': "pl_insert_order (ord_price x) ?i (ord_remaining x) (book_side b ?s) = Inr (pl', k)"
      "side_inv (om_insert ?i (x\<lparr>ord_position := k\<rparr>) (bk_orders b)) ?s pl'"
      "side_queue (om_insert ?i (x\<lparr>ord_position := k\<rparr>) (bk_orders b)) pl' =
         enqueue ?s (x\<lparr>ord_position := k\<rparr>) (side_queue (bk_orders b) (book_side b ?s))"
      "set (side_ids pl') = insert ?i (set (side_ids (book_side b ?s)))"
      "\<exists>l. om_get (pl_levels pl') (ord_price x) = Some l \<and> k < length (lvl_orders l) \<and> lvl_orders l ! k = ?i"
    using pl_insert_order_ok [OF side fresh _ x(1) refl] x(2) room
    by (metis book_queue_def less_not_refl)
  let ?x = "x\<lparr>ord_position := k\<rparr>"
  let ?b = "(book_set_side ?s pl' b)\<lparr>bk_orders := om_insert ?i ?x (bk_orders b)\<rparr>"
  have notin: "?i \<notin> set (side_ids (book_side b t))" for t
    using side_ids_get [OF inv] fresh by (metis option.distinct(1))
  have agree: "om_get (om_insert ?i ?x (bk_orders b)) j = om_get (bk_orders b) j"
    if "j \<in> set (side_ids (book_side b t))" for j t
    using that notin [of t] by (auto simp: kv_simps)
  have "side_inv (bk_orders ?b) t (book_side ?b t)" for t
    using pl'(2) side_inv_cong(2) [OF agree [of _ "opposite ?s"]] book_inv_side [OF inv]
    by (cases "t = ?s") (auto simp: side_neq_iff)
  moreover have "index_inv ?b"
    unfolding index_inv_def
  proof (intro conjI allI impI)
    show "om_ok (bk_orders ?b)" "0 < bk_next_order_id ?b"
      using inv by (auto simp: book_inv_def index_inv_def om_ok_insert)
    fix j y assume y: "om_get (bk_orders ?b) j = Some y"
    then have c: "j = ?i \<and> y = ?x \<or> j \<noteq> ?i \<and> om_get (bk_orders b) j = Some y"
      by (simp add: kv_simps split: if_splits)
    have x_ok: "order_ok ?x" using x(1) by (simp add: resting_ok_def order_ok_def)
    from c show "ord_id y = j" "0 < j" "j < bk_next_order_id ?b" "order_ok y"
      using book_inv_orderD(1-4) [OF inv, of j y] x(2,3) x_ok by (elim disjE; simp)+
    assume live: "ord_tif y = GTC \<and> order_is_active y \<and> 0 < ord_remaining y"
    from c show "j \<in> set (side_ids (book_side ?b (ord_side y)))"
    proof (elim disjE conjE)
      assume "om_get (bk_orders b) j = Some y"
      then have "j \<in> set (side_ids (book_side b (ord_side y)))"
        using book_inv_orderD(5) [OF inv] live by simp
      with pl'(4) show ?thesis by (cases "ord_side y = ?s") simp_all
    qed (use pl'(4) in simp)
  qed
  ultimately have inv': "book_inv ?b" by (simp add: book_inv_def)
  have add: "book_add_order x b = Inr ?b"
    using fresh pl'(1) by (simp add: book_add_order_def book_contains_order_def)
  have opp: "book_queue ?b (opposite ?s) = book_queue b (opposite ?s)"
    using side_inv_cong(1) [OF agree [of _ "opposite ?s"]] by (simp add: book_queue_def)
  have idx: "index_accurate ?b ?x" using pl'(5) by (auto simp: index_accurate_def)
  show thesis
    by (rule that [OF add inv' _ _ opp _ _ _ _ idx]) (simp_all add: book_queue_def pl'(3))
qed

end
