(* ===== verification/Trades.thy ===== *)
theory Trades
  imports Core_Types
begin

text \<open>
  Trades (\<open>src/trade.rs\<close>): the record, the checked notional and the volume-weighted average
  price. \<open>vwap\<close> sums the quantities with the wrapping \<open>u64\<close> sum, casts the sum to \<open>i64\<close> and
  divides; a quotient of \<open>i64::MIN\<close> by \<open>-1\<close> panics in every build profile.
\<close>

section \<open>Data and operations\<close>

record trade =
  trd_id :: trade_id
  trd_price :: price
  trd_quantity :: quantity
  trd_aggressor_order_id :: order_id
  trd_passive_order_id :: order_id
  trd_aggressor_side :: side
  trd_timestamp :: timestamp

definition trade_new :: "trade_id \<Rightarrow> price \<Rightarrow> quantity \<Rightarrow> order_id \<Rightarrow> order_id \<Rightarrow> side \<Rightarrow> timestamp \<Rightarrow> trade" where
  "trade_new i p q a r s ts =
     \<lparr>trd_id = i, trd_price = p, trd_quantity = q, trd_aggressor_order_id = a,
      trd_passive_order_id = r, trd_aggressor_side = s, trd_timestamp = ts\<rparr>"

definition passive_side :: "trade \<Rightarrow> side" where
  "passive_side t = opposite (trd_aggressor_side t)"

definition checked_notional :: "price \<Rightarrow> quantity \<Rightarrow> validation_error + int" where
  "checked_notional p q =
     (if int q > i64_max then Inl (NotionalOverflow p q)
      else case i64_checked (p * int q) of
             None \<Rightarrow> Inl (NotionalOverflow p q)
           | Some n \<Rightarrow> Inr n)"

definition notional :: "trade \<Rightarrow> validation_error + int" where
  "notional t = checked_notional (trd_price t) (trd_quantity t)"

fun total_notional_loop :: "trade list \<Rightarrow> int \<Rightarrow> int option" where
  "total_notional_loop [] acc = Some acc"
| "total_notional_loop (t # ts) acc =
     (case notional t of
        Inl _ \<Rightarrow> None
      | Inr n \<Rightarrow> (case i64_checked (acc + n) of None \<Rightarrow> None | Some acc' \<Rightarrow> total_notional_loop ts acc'))"

definition vwap :: "trade list \<Rightarrow> price option outcome" where
  "vwap ts =
     (if ts = [] then Inr None
      else let total_qty = u64_sum (map trd_quantity ts)
           in if total_qty = 0 then Inr None
              else case total_notional_loop ts 0 of
                     None \<Rightarrow> Inr None
                   | Some n \<Rightarrow>
                       let d = i64_wrap (int total_qty)
                       in if n = i64_min \<and> d = -1 then Inl (Panic ''attempt to divide with overflow'')
                          else Inr (Some (trunc_div n d)))"

section \<open>Notional and average price\<close>

lemma checked_notional_Inr:
  "checked_notional p q = Inr n \<longleftrightarrow> int q \<le> i64_max \<and> i64_min \<le> n \<and> n \<le> i64_max \<and> n = p * int q"
  by (auto simp: checked_notional_def i64_checked_def)

lemma total_notional_loop_sum:
  "total_notional_loop ts acc = Some n \<Longrightarrow>
     n = acc + (\<Sum>t\<leftarrow>ts. trd_price t * int (trd_quantity t))"
  by (induction ts acc rule: total_notional_loop.induct)
     (auto simp: notional_def checked_notional_Inr i64_checked_def split: sum.splits option.splits if_splits)

lemma trunc_div_between:
  assumes "0 < d" and "lo * d \<le> n" and "n \<le> hi * d"
  shows "lo \<le> trunc_div n d \<and> trunc_div n d \<le> hi"
proof (cases "0 \<le> n")
  case True
  have "trunc_div n d = n div d" using True assms(1) by (simp add: trunc_div_def sgn_if)
  moreover have "lo \<le> n div d" using assms(1,2) zdiv_mono1 [of "lo * d" n d] by simp
  moreover have "n div d \<le> hi" using assms(1,3) zdiv_mono1 [of n "hi * d" d] by simp
  ultimately show ?thesis by simp
next
  case False
  have "trunc_div n d = - ((- n) div d)" using False assms(1) by (simp add: trunc_div_def sgn_if)
  moreover have "- hi \<le> (- n) div d"
    using assms(1,3) zdiv_mono1 [of "(- hi) * d" "- n" d] by (simp del: mult_minus_left)
  moreover have "(- n) div d \<le> - lo"
    using assms(1,2) zdiv_mono1 [of "- n" "(- lo) * d" d] by (simp del: mult_minus_left)
  ultimately show ?thesis by linarith
qed

lemma weighted_sum_bounds:
  assumes "\<And>t. t \<in> set ts \<Longrightarrow> lo \<le> trd_price t \<and> trd_price t \<le> hi"
  shows "lo * (\<Sum>t\<leftarrow>ts. int (trd_quantity t)) \<le> (\<Sum>t\<leftarrow>ts. trd_price t * int (trd_quantity t))
       \<and> (\<Sum>t\<leftarrow>ts. trd_price t * int (trd_quantity t)) \<le> hi * (\<Sum>t\<leftarrow>ts. int (trd_quantity t))"
  using assms
proof (induction ts)
  case (Cons t ts)
  then have "lo * int (trd_quantity t) \<le> trd_price t * int (trd_quantity t)"
    "trd_price t * int (trd_quantity t) \<le> hi * int (trd_quantity t)"
    by (auto intro: mult_right_mono)
  with Cons show ?case by (simp add: distrib_left)
qed simp

lemma int_sum_list: "int (sum_list xs) = (\<Sum>x\<leftarrow>xs. int x)"
  by (induction xs) simp_all

lemma vwap_exact:
  assumes "sum_list (map trd_quantity ts) \<le> nat i64_max" and "vwap ts = Inr (Some p)"
  shows "p = trunc_div (\<Sum>t\<leftarrow>ts. trd_price t * int (trd_quantity t)) (int (sum_list (map trd_quantity ts)))"
    and "0 < sum_list (map trd_quantity ts)"
proof -
  let ?q = "sum_list (map trd_quantity ts)"
  have q: "u64_sum (map trd_quantity ts) = ?q" using assms(1) by (simp add: u64_sum_exact i64_max_def)
  moreover have "u64_sum (map trd_quantity ts) \<noteq> 0" using assms(2) by (auto simp: vwap_def Let_def split: if_splits)
  ultimately show "0 < ?q" by linarith
  have "i64_wrap (int ?q) = int ?q" using assms(1) by (simp add: i64_wrap_id i64_max_def i64_min_def)
  with q assms(2) obtain n where "total_notional_loop ts 0 = Some n" "p = trunc_div n (int ?q)"
    by (auto simp: vwap_def Let_def split: if_splits option.splits)
  then show "p = trunc_div (\<Sum>t\<leftarrow>ts. trd_price t * int (trd_quantity t)) (int ?q)"
    using total_notional_loop_sum by fastforce
qed

section \<open>Properties\<close>

text \<open>A volume-weighted average price lies between the lowest and the highest price of its
  trades, when the total quantity fits the cast to \<open>i64\<close>.\<close>

lemma vwap_between:
  assumes "vwap ts = Inr (Some p)" and "sum_list (map trd_quantity ts) \<le> nat i64_max"
    and "\<forall>t \<in> set ts. lo \<le> trd_price t \<and> trd_price t \<le> hi"
  shows "lo \<le> p \<and> p \<le> hi"
proof -
  note v = vwap_exact [OF assms(2,1)]
  have "int (sum_list (map trd_quantity ts)) = (\<Sum>t\<leftarrow>ts. int (trd_quantity t))" by (simp add: int_sum_list comp_def)
  then show ?thesis
    using v weighted_sum_bounds [of ts lo hi] assms(3) by (auto intro!: trunc_div_between [THEN conjunct1] trunc_div_between [THEN conjunct2])
qed

end
