(* ===== verification/Matching.thy ===== *)
theory Matching
  imports Book_Ops Trades
begin

text \<open>
  The matching engine (\<open>src/matching.rs\<close>). The two nested \<open>while\<close> loops are instances of
  \<open>loop\<close>; the body of the inner one is \<open>match_at_price_body\<close>, the body of the outer one is
  \<open>match_order_body\<close>. The state of both is the book, the incoming order and the result.
\<close>

section \<open>Data\<close>

datatype stp_policy = Off | CancelNewest | CancelOldest | DecrementAndCancel

record match_result =
  mr_trades :: "trade list"
  mr_remaining :: quantity
  mr_stp_cancelled :: bool

type_synonym match_state = "book \<times> order \<times> match_result"

definition mr_filled_quantity :: "match_result \<Rightarrow> quantity" where
  "mr_filled_quantity r = u64_sum (map trd_quantity (mr_trades r))"

definition mr_is_fully_filled :: "match_result \<Rightarrow> bool" where
  "mr_is_fully_filled r \<longleftrightarrow> mr_remaining r = 0"

definition mr_is_empty :: "match_result \<Rightarrow> bool" where
  "mr_is_empty r \<longleftrightarrow> mr_trades r = []"

section \<open>The algorithm\<close>

definition prices_cross :: "side \<Rightarrow> price \<Rightarrow> price \<Rightarrow> bool" where
  "prices_cross incoming_side incoming_price resting_price =
     (case incoming_side of
        Buy \<Rightarrow> incoming_price \<ge> resting_price
      | Sell \<Rightarrow> incoming_price \<le> resting_price)"

definition stp_conflict :: "order_owner option \<Rightarrow> order_owner option \<Rightarrow> stp_policy \<Rightarrow> bool" where
  "stp_conflict a r policy =
     (case (a, r) of (Some i, Some j) \<Rightarrow> i = j \<and> policy \<noteq> Off | _ \<Rightarrow> False)"

text \<open>\<open>get_level_mut(price).and_then(|l| l.front())\<close>, and the same with \<open>pop_front(0)\<close>.\<close>

definition book_level_front :: "side \<Rightarrow> price \<Rightarrow> book \<Rightarrow> book \<times> order_id option" where
  "book_level_front s p b =
     (case om_get (pl_levels (book_side b s)) p of
        None \<Rightarrow> (b, None)
      | Some l \<Rightarrow>
          (book_set_side s (pl_update_level p (\<lambda>_. fst (level_front l)) (book_side b s)) b,
           snd (level_front l)))"

definition book_level_pop_front :: "side \<Rightarrow> price \<Rightarrow> quantity \<Rightarrow> book \<Rightarrow> book" where
  "book_level_pop_front s p n b =
     (case om_get (pl_levels (book_side b s)) p of
        None \<Rightarrow> b
      | Some l \<Rightarrow>
          book_set_side s (pl_update_level p (\<lambda>_. fst (level_pop_front n l)) (book_side b s)) b)"

text \<open>The end of a fill: the level loses the filled quantity, and a filled order leaves it.\<close>

definition settle_level :: "side \<Rightarrow> price \<Rightarrow> quantity \<Rightarrow> bool \<Rightarrow> book \<Rightarrow> book" where
  "settle_level s p n fully b =
     (let pl = book_side b s
      in case om_get (pl_levels pl) p of
           None \<Rightarrow> b
         | Some l \<Rightarrow>
             if fully
             then let l' = fst (level_pop_front n l); pl' = pl_update_level p (\<lambda>_. l') pl
                  in book_set_side s (if level_is_empty l' then pl_remove_level p pl' else pl') b
             else book_set_side s (pl_update_level p (level_decrease_quantity n) pl) b)"

definition execute_fill :: "price \<Rightarrow> order_id \<Rightarrow> quantity \<Rightarrow> match_state \<Rightarrow> match_state loop_step" where
  "execute_fill p rid resting_remaining = (\<lambda>(b, inc, res).
     let fill_qty = min (ord_remaining inc) resting_remaining;
         (b1, tid) = book_take_trade_id b;
         (b2, ts) = book_take_timestamp b1;
         t = trade_new tid p fill_qty (ord_id inc) rid (ord_side inc) ts;
         res' = res\<lparr>mr_trades := mr_trades res @ [t]\<rparr>
     in case order_fill fill_qty inc of
          Inl e \<Rightarrow> Fail e
        | Inr inc' \<Rightarrow>
            (case book_get_order b2 rid of
               None \<Rightarrow> Fail (Panic ''invariant: resting order exists in book'')
             | Some x \<Rightarrow>
                 (case order_fill fill_qty x of
                    Inl e \<Rightarrow> Fail e
                  | Inr x' \<Rightarrow>
                      Next (settle_level (opposite (ord_side inc')) p fill_qty (ord_remaining x' = 0)
                              (book_update_order rid (\<lambda>_. x') b2), inc', res'))))"

definition stp_cancel_incoming :: "match_state \<Rightarrow> match_state loop_step" where
  "stp_cancel_incoming = (\<lambda>(b, inc, res).
     case order_stp_decrement (ord_remaining inc) inc of
       Inl e \<Rightarrow> Fail e
     | Inr inc' \<Rightarrow> Stop (b, inc', res\<lparr>mr_stp_cancelled := True\<rparr>))"

definition stp_cancel_resting :: "order_id \<Rightarrow> match_state \<Rightarrow> match_state loop_step" where
  "stp_cancel_resting rid = (\<lambda>(b, inc, res).
     case book_cancel_order rid b of
       Inl e \<Rightarrow> Fail e
     | Inr (b', _) \<Rightarrow> Next (b', inc, res))"

definition stp_resolve :: "stp_policy \<Rightarrow> order_id \<Rightarrow> quantity \<Rightarrow> match_state \<Rightarrow> match_state loop_step" where
  "stp_resolve policy rid resting_remaining = (\<lambda>(b, inc, res).
     case policy of
       Off \<Rightarrow> Fail (Panic ''unreachable'')
     | CancelNewest \<Rightarrow> stp_cancel_incoming (b, inc, res)
     | CancelOldest \<Rightarrow> stp_cancel_resting rid (b, inc, res)
     | DecrementAndCancel \<Rightarrow>
         if ord_remaining inc < resting_remaining
         then stp_cancel_incoming (b, inc, res)
         else stp_cancel_resting rid (b, inc, res))"

definition match_at_price_body :: "price \<Rightarrow> stp_policy \<Rightarrow> match_state \<Rightarrow> match_state loop_step option" where
  "match_at_price_body p policy = (\<lambda>(b, inc, res).
     if \<not> 0 < ord_remaining inc then Some (Stop (b, inc, res))
     else let (b1, front) = book_level_front (opposite (ord_side inc)) p b
          in case front of
               None \<Rightarrow> Some (Stop (b1, inc, res))
             | Some rid \<Rightarrow>
                 (case book_get_order b1 rid of
                    None \<Rightarrow>
                      Some (Next (book_level_pop_front (opposite (ord_side inc)) p 0 b1, inc, res))
                  | Some x \<Rightarrow>
                      if stp_conflict (ord_owner inc) (ord_owner x) policy
                      then Some (stp_resolve policy rid (ord_remaining x) (b1, inc, res))
                      else Some (execute_fill p rid (ord_remaining x) (b1, inc, res))))"

definition match_at_price :: "price \<Rightarrow> stp_policy \<Rightarrow> match_state \<Rightarrow> match_state run" where
  "match_at_price p policy = loop (match_at_price_body p policy)"

definition match_order_body :: "stp_policy \<Rightarrow> match_state \<Rightarrow> match_state loop_step option" where
  "match_order_body policy = (\<lambda>(b, inc, res).
     if \<not> 0 < ord_remaining inc then Some (Stop (b, inc, res))
     else case pl_best (book_opposite_side b (ord_side inc)) of
            None \<Rightarrow> Some (Stop (b, inc, res))
          | Some best_price \<Rightarrow>
              if \<not> prices_cross (ord_side inc) (ord_price inc) best_price
              then Some (Stop (b, inc, res))
              else case match_at_price best_price policy (b, inc, res) of
                     None \<Rightarrow> None
                   | Some (Inl e) \<Rightarrow> Some (Fail e)
                   | Some (Inr (b', inc', res')) \<Rightarrow>
                       Some (if mr_stp_cancelled res' then Stop (b', inc', res')
                             else Next (b', inc', res')))"

definition match_order_with_policy :: "order \<Rightarrow> stp_policy \<Rightarrow> book \<Rightarrow> match_state run" where
  "match_order_with_policy inc policy b =
     rbind (loop (match_order_body policy)
              (b, inc, \<lparr>mr_trades = [], mr_remaining = ord_remaining inc, mr_stp_cancelled = False\<rparr>))
       (\<lambda>(b', inc', res). ret (b', inc', res\<lparr>mr_remaining := ord_remaining inc'\<rparr>))"

definition match_order :: "order \<Rightarrow> book \<Rightarrow> match_state run" where
  "match_order inc b = match_order_with_policy inc Off b"

definition available_to_fill :: "side \<Rightarrow> price \<Rightarrow> book \<Rightarrow> quantity" where
  "available_to_fill s p b = pl_quantity_at_or_better p (book_opposite_side b s)"

definition can_fully_fill :: "side \<Rightarrow> price \<Rightarrow> quantity \<Rightarrow> book \<Rightarrow> bool" where
  "can_fully_fill s p q b \<longleftrightarrow> available_to_fill s p b \<ge> q"

section \<open>The reference matcher\<close>

text \<open>
  What matching means on the abstract queue: walk the opposite queue from its head, stop at
  the first order the incoming price does not reach, fill what can be filled and leave a
  partly filled order where it is. Self-trade prevention acts on the order at hand.
\<close>

type_synonym fill = "order_id \<times> price \<times> quantity"

definition filled_by :: "quantity \<Rightarrow> order \<Rightarrow> order" where
  "filled_by q x = x\<lparr>ord_remaining := ord_remaining x - q, ord_filled := ord_filled x + q,
                     ord_status := (if ord_remaining x = q then Filled else PartiallyFilled)\<rparr>"

definition stp_cancelled_order :: "order \<Rightarrow> order" where
  "stp_cancelled_order x = x\<lparr>ord_remaining := 0, ord_status := Cancelled\<rparr>"

fun sweep :: "stp_policy \<Rightarrow> order \<Rightarrow> order list \<Rightarrow> fill list \<times> order \<times> bool \<times> order list" where
  "sweep policy inc [] = ([], inc, False, [])"
| "sweep policy inc (r # rs) =
     (if ord_remaining inc = 0 \<or> \<not> prices_cross (ord_side inc) (ord_price inc) (ord_price r)
      then ([], inc, False, r # rs)
      else if stp_conflict (ord_owner inc) (ord_owner r) policy
      then if policy = CancelNewest \<or> policy = DecrementAndCancel \<and> ord_remaining inc < ord_remaining r
           then ([], stp_cancelled_order inc, True, r # rs)
           else sweep policy inc rs
      else let q = min (ord_remaining inc) (ord_remaining r); f = (ord_id r, ord_price r, q)
           in if ord_remaining r \<le> ord_remaining inc
              then case sweep policy (filled_by q inc) rs of
                     (fs, inc', c, rs') \<Rightarrow> (f # fs, inc', c, rs')
              else ([f], filled_by q inc, False, filled_by q r # rs))"

fun fill_trades :: "trade_id \<Rightarrow> timestamp \<Rightarrow> order_id \<Rightarrow> side \<Rightarrow> fill list \<Rightarrow> trade list" where
  "fill_trades tid ts i s [] = []"
| "fill_trades tid ts i s ((rid, p, q) # fs) =
     trade_new tid p q i rid s ts # fill_trades (u64_add tid 1) (u64_add ts 1) i s fs"

text \<open>
  The policies under which the engine follows the reference: no self-trade prevention, the
  cancellation of the incoming order, and the other two as long as a queued order of the same
  owner makes the engine cancel the incoming order: never under \<open>CancelOldest\<close>, and under
  \<open>DecrementAndCancel\<close> when it is the larger of the two.
\<close>

definition stp_safe :: "stp_policy \<Rightarrow> order \<Rightarrow> order list \<Rightarrow> bool" where
  "stp_safe policy inc q \<longleftrightarrow> policy = Off \<or> policy = CancelNewest \<or>
     (\<forall>r \<in> set q. stp_conflict (ord_owner inc) (ord_owner r) policy \<longrightarrow>
        policy = DecrementAndCancel \<and> ord_remaining inc < ord_remaining r)"

end
