(* ===== verification/Float64.thy ===== *)
theory Float64
  imports Complex_Main Prelude
begin

text \<open>
  The \<open>f64\<close> arithmetic the sources use: IEEE 754 binary64 with rounding to nearest, ties to
  even. A finite value is its sign and its magnitude, a rational number; the sign is kept
  apart because zero has one. The casts are Rust's: an integer is rounded, a float is
  truncated and saturates, and NaN becomes zero.
\<close>

section \<open>Rounding\<close>

datatype f64 = FNaN | FInf bool | FFin bool rat

text \<open>The exponent \<open>e\<close> with \<open>2 ^ e \<le> x < 2 ^ (e + 1)\<close>, from the bit lengths of numerator and
  denominator.\<close>

fun bit_len :: "nat \<Rightarrow> nat" where
  "bit_len n = (if n = 0 then 0 else Suc (bit_len (n div 2)))"

declare bit_len.simps [simp del]

definition pow2 :: "int \<Rightarrow> rat" where
  "pow2 e = (if 0 \<le> e then 2 ^ nat e else 1 / 2 ^ nat (- e))"

definition bin_exp :: "rat \<Rightarrow> int" where
  "bin_exp x =
     (let (n, d) = quotient_of x; e = int (bit_len (nat n)) - int (bit_len (nat d))
      in if x < pow2 e then e - 1 else e)"

definition round_half_even :: "rat \<Rightarrow> int" where
  "round_half_even x =
     (let f = \<lfloor>x\<rfloor>; r = x - of_int f
      in if r < 1 / 2 then f else if r > 1 / 2 then f + 1 else if even f then f else f + 1)"

text \<open>The spacing of the representable numbers around \<open>x\<close>.\<close>

definition ulp_exp :: "rat \<Rightarrow> int" where
  "ulp_exp x = max (bin_exp x - 52) (- 1074)"

definition round_mag :: "rat \<Rightarrow> rat" where
  "round_mag x = (if x = 0 then 0 else of_int (round_half_even (x / pow2 (ulp_exp x))) * pow2 (ulp_exp x))"

definition f64_round :: "bool \<Rightarrow> rat \<Rightarrow> f64" where
  "f64_round neg x = (if round_mag x < pow2 1024 then FFin neg (round_mag x) else FInf neg)"

section \<open>Arithmetic\<close>

definition f64_signed :: "bool \<Rightarrow> rat \<Rightarrow> rat" where
  "f64_signed neg x = (if neg then - x else x)"

definition f64_of_rat :: "rat \<Rightarrow> f64" where
  "f64_of_rat x = f64_round (x < 0) \<bar>x\<bar>"

definition f64_of_int :: "int \<Rightarrow> f64" where
  "f64_of_int i = f64_of_rat (of_int i)"

fun f64_neg :: "f64 \<Rightarrow> f64" where
  "f64_neg FNaN = FNaN"
| "f64_neg (FInf s) = FInf (\<not> s)"
| "f64_neg (FFin s x) = FFin (\<not> s) x"

fun f64_add :: "f64 \<Rightarrow> f64 \<Rightarrow> f64" where
  "f64_add FNaN _ = FNaN"
| "f64_add _ FNaN = FNaN"
| "f64_add (FInf s) (FInf t) = (if s = t then FInf s else FNaN)"
| "f64_add (FInf s) (FFin _ _) = FInf s"
| "f64_add (FFin _ _) (FInf t) = FInf t"
| "f64_add (FFin s x) (FFin t y) =
     (let z = f64_signed s x + f64_signed t y
      in if z = 0 then FFin (s \<and> t) 0 else f64_of_rat z)"

definition f64_sub :: "f64 \<Rightarrow> f64 \<Rightarrow> f64" where
  "f64_sub a b = f64_add a (f64_neg b)"

fun f64_mul :: "f64 \<Rightarrow> f64 \<Rightarrow> f64" where
  "f64_mul FNaN _ = FNaN"
| "f64_mul _ FNaN = FNaN"
| "f64_mul (FInf s) (FInf t) = FInf (s \<noteq> t)"
| "f64_mul (FInf s) (FFin t y) = (if y = 0 then FNaN else FInf (s \<noteq> t))"
| "f64_mul (FFin s x) (FInf t) = (if x = 0 then FNaN else FInf (s \<noteq> t))"
| "f64_mul (FFin s x) (FFin t y) = f64_round (s \<noteq> t) (x * y)"

fun f64_div :: "f64 \<Rightarrow> f64 \<Rightarrow> f64" where
  "f64_div FNaN _ = FNaN"
| "f64_div _ FNaN = FNaN"
| "f64_div (FInf s) (FInf t) = FNaN"
| "f64_div (FInf s) (FFin t y) = FInf (s \<noteq> t)"
| "f64_div (FFin s x) (FInf t) = FFin (s \<noteq> t) 0"
| "f64_div (FFin s x) (FFin t y) =
     (if y = 0 then if x = 0 then FNaN else FInf (s \<noteq> t) else f64_round (s \<noteq> t) (x / y))"

section \<open>Rounding to integers and casts\<close>

text \<open>\<open>f64::round\<close>: half away from zero, which on a magnitude is half up.\<close>

fun f64_round_int :: "f64 \<Rightarrow> f64" where
  "f64_round_int FNaN = FNaN"
| "f64_round_int (FInf s) = FInf s"
| "f64_round_int (FFin s x) = FFin s (of_int \<lfloor>x + 1 / 2\<rfloor>)"

definition clamp_int :: "int \<Rightarrow> int \<Rightarrow> int \<Rightarrow> int" where
  "clamp_int lo hi x = max lo (min hi x)"

fun f64_to_i64 :: "f64 \<Rightarrow> int" where
  "f64_to_i64 FNaN = 0"
| "f64_to_i64 (FInf s) = (if s then i64_min else i64_max)"
| "f64_to_i64 (FFin s x) = clamp_int i64_min i64_max (if s then - \<lfloor>x\<rfloor> else \<lfloor>x\<rfloor>)"

lemma f64_to_i64_range: "i64_min \<le> f64_to_i64 a \<and> f64_to_i64 a \<le> i64_max"
  by (cases a) (auto simp: clamp_int_def i64_min_def i64_max_def)

section \<open>Rounding is monotone\<close>

lemma pow2_pos [simp]: "0 < pow2 e"
  by (simp add: pow2_def)

lemma pow2_Suc: "pow2 (e + 1) = 2 * pow2 e"
proof -
  consider "0 \<le> e" | "e = - 1" | "e < - 1" by linarith
  then show ?thesis
  proof cases
    case 1
    then have "nat (e + 1) = Suc (nat e)" by simp
    with 1 show ?thesis by (simp add: pow2_def)
  next
    case 3
    then have "nat (- e) = Suc (nat (- (e + 1)))" by simp
    with 3 show ?thesis by (simp add: pow2_def)
  qed (simp add: pow2_def)
qed

lemma pow2_add_nat: "pow2 (e + int n) = 2 ^ n * pow2 e"
proof (induction n)
  case (Suc n)
  have "pow2 (e + int (Suc n)) = pow2 ((e + int n) + 1)" by (simp add: algebra_simps)
  with Suc show ?case by (simp add: pow2_Suc)
qed simp

lemma pow2_mono: "a \<le> b \<Longrightarrow> pow2 a \<le> pow2 b"
  using pow2_add_nat [of a "nat (b - a)"] by simp

lemma pow2_divides: "a \<le> b \<Longrightarrow> \<exists>k::int. pow2 b = of_int k * pow2 a \<and> 0 < k"
  using pow2_add_nat [of a "nat (b - a)"] by (intro exI [of _ "2 ^ nat (b - a)"]) simp

lemma round_half_even_le: "x \<le> of_int k \<Longrightarrow> round_half_even x \<le> k"
proof -
  assume le: "x \<le> of_int k"
  then have "\<lfloor>x\<rfloor> \<le> k" by linarith
  show ?thesis
  proof (cases "\<lfloor>x\<rfloor> = k")
    case True
    then have "x = of_int k" using le by linarith
    then show ?thesis by (simp add: round_half_even_def Let_def)
  next
    case False
    with \<open>\<lfloor>x\<rfloor> \<le> k\<close> show ?thesis by (auto simp: round_half_even_def Let_def)
  qed
qed

lemma round_half_even_ge: "of_int k \<le> x \<Longrightarrow> k \<le> round_half_even x"
proof -
  assume "of_int k \<le> x"
  then have "k \<le> \<lfloor>x\<rfloor>" by linarith
  then show ?thesis by (auto simp: round_half_even_def Let_def)
qed

lemma round_half_even_mono:
  assumes "x \<le> y" shows "round_half_even x \<le> round_half_even y"
proof (cases "\<lfloor>x\<rfloor> = \<lfloor>y\<rfloor>")
  case True
  then show ?thesis using assms by (auto simp: round_half_even_def Let_def)
next
  case False
  then have "\<lfloor>x\<rfloor> + 1 \<le> \<lfloor>y\<rfloor>" using floor_mono [OF assms] by linarith
  then have "round_half_even x \<le> \<lfloor>y\<rfloor>"
    using round_half_even_le [of x "\<lfloor>x\<rfloor> + 1"] by linarith
  also have "\<dots> \<le> round_half_even y" by (rule round_half_even_ge) simp
  finally show ?thesis .
qed

text \<open>A multiple of the spacing bounds the rounded value on the same side.\<close>

lemma round_mag_le:
  assumes "0 \<le> x" and "x \<le> of_int k * pow2 (ulp_exp x)"
  shows "round_mag x \<le> of_int k * pow2 (ulp_exp x)"
proof (cases "x = 0")
  case False
  have "x / pow2 (ulp_exp x) \<le> of_int k" using assms(2) by (simp add: divide_le_eq)
  then have "round_half_even (x / pow2 (ulp_exp x)) \<le> k" by (rule round_half_even_le)
  then show ?thesis using False by (simp add: round_mag_def)
qed (use assms in \<open>simp add: round_mag_def\<close>)

lemma round_mag_ge:
  assumes "of_int k * pow2 (ulp_exp x) \<le> x" and "x \<noteq> 0"
  shows "of_int k * pow2 (ulp_exp x) \<le> round_mag x"
proof -
  have "of_int k \<le> x / pow2 (ulp_exp x)" using assms(1) by (simp add: le_divide_eq)
  then have "k \<le> round_half_even (x / pow2 (ulp_exp x))" by (rule round_half_even_ge)
  then show ?thesis using assms(2) by (simp add: round_mag_def)
qed

lemma round_mag_nonneg: "0 \<le> x \<Longrightarrow> 0 \<le> round_mag x"
  using round_mag_ge [of 0 x] by (cases "x = 0") (simp_all add: round_mag_def)

lemma bit_len_bounds: "0 < n \<Longrightarrow> 2 ^ bit_len n \<le> 2 * n \<and> n < 2 ^ bit_len n"
proof (induction n rule: bit_len.induct)
  case (1 n)
  show ?case
  proof (cases "n div 2 = 0")
    case True
    with 1 have "n = 1" by linarith
    then show ?thesis by (simp add: bit_len.simps)
  next
    case False
    with 1 have IH: "2 ^ bit_len (n div 2) \<le> 2 * (n div 2)" "n div 2 < 2 ^ bit_len (n div 2)" by auto
    have "bit_len n = Suc (bit_len (n div 2))" using 1 by (subst bit_len.simps) simp
    with IH show ?thesis by simp linarith
  qed
qed

lemma bit_len_int: "0 < n \<Longrightarrow> 2 ^ bit_len (nat n) \<le> 2 * n \<and> n < 2 ^ bit_len (nat n)"
proof -
  assume "0 < n"
  then obtain m where m: "n = int m" "0 < m" by (metis zero_less_imp_eq_int)
  have "int (2 ^ bit_len m) \<le> int (2 * m) \<and> int m < int (2 ^ bit_len m)"
    using bit_len_bounds [OF m(2)] by (simp only: of_nat_le_iff of_nat_less_iff)
  then show ?thesis using m(1) by simp
qed

lemma pow2_diff: "pow2 (int a - int b) = 2 ^ a / 2 ^ b"
proof (cases "b \<le> a")
  case True
  then have "(2::rat) ^ a = 2 ^ (a - b) * 2 ^ b" by (simp flip: power_add)
  with True show ?thesis by (simp add: pow2_def of_nat_diff nat_diff_distrib)
next
  case False
  then have "(2::rat) ^ b = 2 ^ (b - a) * 2 ^ a" by (simp flip: power_add)
  with False show ?thesis by (simp add: pow2_def of_nat_diff nat_diff_distrib)
qed

lemma bin_exp_bounds:
  assumes "0 < x"
  shows "pow2 (bin_exp x) \<le> x" and "x < pow2 (bin_exp x + 1)"
proof -
  obtain n d where q: "quotient_of x = (n, d)" by (cases "quotient_of x")
  have d: "0 < d" using q by (rule quotient_of_denom_pos)
  have x: "x = of_int n / of_int d" using q by (rule quotient_of_div)
  with assms d have n: "0 < n" by (simp add: zero_less_divide_iff)
  define a b where "a = bit_len (nat n)" and "b = bit_len (nat d)"
  have na: "2 ^ a \<le> 2 * n" "n < 2 ^ a" and db: "2 ^ b \<le> 2 * d" "d < 2 ^ b"
    using bit_len_int [OF n] bit_len_int [OF d] by (simp_all add: a_def b_def)
  have na': "(2::rat) ^ a \<le> 2 * of_int n" "of_int n < (2::rat) ^ a"
    and db': "(2::rat) ^ b \<le> 2 * of_int d" "of_int d < (2::rat) ^ b"
    using na [folded of_int_le_iff [where 'a = rat] of_int_less_iff [where 'a = rat]]
      db [folded of_int_le_iff [where 'a = rat] of_int_less_iff [where 'a = rat]] by simp_all
  have up: "x < pow2 (int a - int b + 1)"
  proof -
    have "of_int n * 2 ^ b < (2::rat) ^ a * (2 * of_int d)"
      using na'(2) db'(1) n by (intro mult_less_le_imp_less) auto
    then show ?thesis
      using d by (simp add: x pow2_Suc pow2_diff divide_simps mult.commute mult.left_commute)
  qed
  have lo: "pow2 (int a - int b - 1) \<le> x"
  proof -
    have "(2::rat) ^ a * of_int d \<le> 2 * of_int n * 2 ^ b"
      using na'(1) db'(2) n d by (intro mult_mono) auto
    moreover have "pow2 (int a - int b) = 2 * pow2 (int a - int b - 1)"
      using pow2_Suc [of "int a - int b - 1"] by simp
    ultimately show ?thesis
      using d by (simp add: x pow2_diff field_simps)
  qed
  have e: "bin_exp x = (if x < pow2 (int a - int b) then int a - int b - 1 else int a - int b)"
    by (simp add: bin_exp_def q a_def b_def Let_def)
  show "pow2 (bin_exp x) \<le> x" using lo by (simp add: e)
  show "x < pow2 (bin_exp x + 1)" using up by (simp add: e)
qed

lemma bin_exp_mono:
  assumes "0 < x" and "x \<le> y" shows "bin_exp x \<le> bin_exp y"
proof (rule ccontr)
  assume "\<not> bin_exp x \<le> bin_exp y"
  then have "pow2 (bin_exp y + 1) \<le> pow2 (bin_exp x)" by (intro pow2_mono) simp
  also have "\<dots> \<le> x" using bin_exp_bounds(1) [OF assms(1)] .
  also have "\<dots> \<le> y" by (rule assms(2))
  finally show False using bin_exp_bounds(2) [of y] assms by simp
qed

lemma round_mag_mono:
  assumes "0 \<le> x" and "x \<le> y" shows "round_mag x \<le> round_mag y"
proof (cases "x = 0")
  case True
  then show ?thesis using round_mag_nonneg [of y] assms by (simp add: round_mag_def)
next
  case False
  with assms have x: "0 < x" "0 < y" by auto
  have e: "bin_exp x \<le> bin_exp y" using x(1) assms(2) by (rule bin_exp_mono)
  show ?thesis
  proof (cases "ulp_exp x = ulp_exp y")
    case True
    then have "round_half_even (x / pow2 (ulp_exp x)) \<le> round_half_even (y / pow2 (ulp_exp y))"
      using assms(2) pow2_pos [of "ulp_exp y"] by (intro round_half_even_mono) (simp add: divide_right_mono less_imp_le)
    with True x show ?thesis by (simp add: round_mag_def)
  next
    case False
    with e have u: "bin_exp x + 1 \<le> bin_exp y" "ulp_exp y = bin_exp y - 52" "ulp_exp x \<le> bin_exp y - 53"
      by (auto simp: ulp_exp_def max_def split: if_splits)
    obtain k :: int where k: "pow2 (bin_exp y) = of_int k * pow2 (ulp_exp x)"
      using pow2_divides [of "ulp_exp x" "bin_exp y"] u(3) by auto
    obtain j :: int where j: "pow2 (bin_exp y) = of_int j * pow2 (ulp_exp y)"
      using pow2_divides [of "ulp_exp y" "bin_exp y"] u(2) by auto
    have "x \<le> pow2 (bin_exp x + 1)" using bin_exp_bounds(2) [OF x(1)] by simp
    also have "\<dots> \<le> pow2 (bin_exp y)" using u(1) by (rule pow2_mono)
    finally have "round_mag x \<le> pow2 (bin_exp y)"
      using round_mag_le [of x k] k x(1) by simp
    also have "\<dots> \<le> round_mag y"
      using round_mag_ge [of j y] j x(2) bin_exp_bounds(1) [OF x(2)] by simp
    finally show ?thesis .
  qed
qed

text \<open>A value with a mantissa of at most 53 bits is exact, so rounding twice is rounding once.\<close>

lemma round_mag_exact:
  assumes "0 \<le> x" and "x = of_int k * pow2 (ulp_exp x)" shows "round_mag x = x"
proof (cases "x = 0")
  case False
  show ?thesis
    using round_mag_le [of x k] round_mag_ge [of k x] assms False by simp
qed (simp add: round_mag_def)

lemma round_mag_idem:
  assumes "0 \<le> x" shows "round_mag (round_mag x) = round_mag x"
proof (cases "round_mag x = 0")
  case False
  then have x: "0 < x" using assms by (auto simp: round_mag_def split: if_splits)
  have r: "0 < round_mag x" using round_mag_nonneg [OF assms] False by simp
  define m where "m = round_half_even (x / pow2 (ulp_exp x))"
  have eq: "round_mag x = of_int m * pow2 (ulp_exp x)" using x by (simp add: round_mag_def m_def)
  show ?thesis
  proof (cases "ulp_exp (round_mag x) \<le> ulp_exp x")
    case True
    then obtain k :: int where "pow2 (ulp_exp x) = of_int k * pow2 (ulp_exp (round_mag x))"
      using pow2_divides by blast
    then have "round_mag x = of_int (m * k) * pow2 (ulp_exp (round_mag x))" using eq by simp
    then show ?thesis using r by (intro round_mag_exact [where k = "m * k"]) auto
  next
    case False
    let ?e = "bin_exp x"
    have u: "ulp_exp x \<le> ?e + 1" "?e + 1 \<le> bin_exp (round_mag x)"
      "ulp_exp (round_mag x) = bin_exp (round_mag x) - 52" if "- 1074 \<le> ?e - 52"
      using False that by (auto simp: ulp_exp_def max_def split: if_splits)
    have le: "round_mag x \<le> pow2 (max (?e + 1) (ulp_exp x))"
    proof -
      obtain k :: int where k: "pow2 (max (?e + 1) (ulp_exp x)) = of_int k * pow2 (ulp_exp x)"
        using pow2_divides [of "ulp_exp x" "max (?e + 1) (ulp_exp x)"] by auto
      have "x \<le> pow2 (max (?e + 1) (ulp_exp x))"
        using bin_exp_bounds(2) [OF x] pow2_mono [of "?e + 1" "max (?e + 1) (ulp_exp x)"] by simp
      then show ?thesis using round_mag_le [of x k] k assms by simp
    qed
    define t where "t = max (?e + 1) (ulp_exp x)"
    have ge: "pow2 (bin_exp (round_mag x)) \<le> round_mag x" using bin_exp_bounds(1) [OF r] .
    then have "pow2 (bin_exp (round_mag x)) \<le> pow2 t" using le t_def by simp
    then have bt: "bin_exp (round_mag x) \<le> t"
    proof (rule contrapos_pp)
      assume "\<not> bin_exp (round_mag x) \<le> t"
      then have "pow2 (t + 1) \<le> pow2 (bin_exp (round_mag x))" by (intro pow2_mono) simp
      then show "\<not> pow2 (bin_exp (round_mag x)) \<le> pow2 t" by (simp add: pow2_Suc) (use pow2_pos [of t] in linarith)
    qed
    have "t \<le> bin_exp (round_mag x)"
      using False bt by (auto simp: t_def ulp_exp_def max_def split: if_splits)
    with bt have "t = bin_exp (round_mag x)" by simp
    with le ge have "round_mag x = pow2 (bin_exp (round_mag x))" unfolding t_def by (metis order_antisym)
    moreover obtain k :: int where "pow2 (bin_exp (round_mag x)) = of_int k * pow2 (ulp_exp (round_mag x))"
      using pow2_divides [of "ulp_exp (round_mag x)" "bin_exp (round_mag x)"] False bt
      by (auto simp: t_def ulp_exp_def max_def split: if_splits)
    ultimately show ?thesis using r by (metis less_le round_mag_exact)
  qed
qed (simp add: round_mag_def)

end
