(* ===== verification/Stop_Book.thy ===== *)
theory Stop_Book
  imports Float64 Core_Types Ordered_Map
begin

text \<open>
  The book of conditional orders (\<open>src/stop.rs\<close>): two price-indexed maps of identifiers, the
  stop orders themselves, the identifiers of trailing stops and the history of price
  changes that the moving-average trail needs.
\<close>

section \<open>Data\<close>

datatype trail_method = Fixed int | Percentage f64 | SmaAbsChange f64 nat

datatype stop_status = StopPending | StopTriggered | StopCancelled

record stop_order =
  so_id :: order_id
  so_side :: side
  so_stop_price :: price
  so_limit_price :: "price option"
  so_quantity :: quantity
  so_tif :: time_in_force
  so_timestamp :: timestamp
  so_status :: stop_status
  so_trail_method :: "trail_method option"
  so_watermark :: "price option"

record stop_book =
  sb_buy_stops :: "(price, order_id list) omap"
  sb_sell_stops :: "(price, order_id list) omap"
  sb_orders :: "(order_id, stop_order) omap"
  sb_trailing_ids :: "order_id list"
  sb_price_changes :: "int list"
  sb_last_price :: "price option"

definition MAX_PRICE_HISTORY :: nat where
  "MAX_PRICE_HISTORY = 10000"

definition stop_book_new :: stop_book where
  "stop_book_new = \<lparr>sb_buy_stops = [], sb_sell_stops = [], sb_orders = [], sb_trailing_ids = [],
                    sb_price_changes = [], sb_last_price = None\<rparr>"

text \<open>The map of one side, and storing it back.\<close>

definition sb_stops :: "stop_book \<Rightarrow> side \<Rightarrow> (price, order_id list) omap" where
  "sb_stops b s = (case s of Buy \<Rightarrow> sb_buy_stops b | Sell \<Rightarrow> sb_sell_stops b)"

definition sb_set_stops :: "side \<Rightarrow> (price, order_id list) omap \<Rightarrow> stop_book \<Rightarrow> stop_book" where
  "sb_set_stops s m b = (case s of Buy \<Rightarrow> b\<lparr>sb_buy_stops := m\<rparr> | Sell \<Rightarrow> b\<lparr>sb_sell_stops := m\<rparr>)"

section \<open>The price index\<close>

text \<open>\<open>entry(price).or_default().push(id)\<close> and \<open>retain\<close> with the removal of an empty entry.\<close>

definition index_push :: "price \<Rightarrow> order_id \<Rightarrow> (price, order_id list) omap \<Rightarrow> (price, order_id list) omap" where
  "index_push p i m = om_insert p ((case om_get m p of None \<Rightarrow> [] | Some ids \<Rightarrow> ids) @ [i]) m"

definition index_drop :: "price \<Rightarrow> order_id \<Rightarrow> (price, order_id list) omap \<Rightarrow> (price, order_id list) omap" where
  "index_drop p i m =
     (case om_get m p of
        None \<Rightarrow> m
      | Some ids \<Rightarrow>
          let ids' = filter (\<lambda>j. j \<noteq> i) ids
          in if ids' = [] then om_remove p m else om_update p (\<lambda>_. ids') m)"

section \<open>Insertion and cancellation\<close>

definition stop_insert :: "stop_order \<Rightarrow> stop_book \<Rightarrow> stop_book" where
  "stop_insert x b =
     (let b1 = sb_set_stops (so_side x) (index_push (so_stop_price x) (so_id x) (sb_stops b (so_side x))) b;
          b2 = b1\<lparr>sb_orders := om_insert (so_id x) x (sb_orders b1)\<rparr>
      in if so_trail_method x \<noteq> None then b2\<lparr>sb_trailing_ids := sb_trailing_ids b2 @ [so_id x]\<rparr> else b2)"

definition stop_cancel :: "order_id \<Rightarrow> stop_book \<Rightarrow> stop_book \<times> bool" where
  "stop_cancel i b =
     (case om_get (sb_orders b) i of
        None \<Rightarrow> (b, False)
      | Some x \<Rightarrow>
          if so_status x \<noteq> StopPending then (b, False)
          else let b1 = b\<lparr>sb_orders := om_update i (\<lambda>x. x\<lparr>so_status := StopCancelled\<rparr>) (sb_orders b)\<rparr>;
                   b2 = sb_set_stops (so_side x) (index_drop (so_stop_price x) i (sb_stops b1 (so_side x))) b1
               in (b2\<lparr>sb_trailing_ids := filter (\<lambda>j. j \<noteq> i) (sb_trailing_ids b2)\<rparr>, True))"

section \<open>Triggering\<close>

text \<open>The inner loop over the identifiers of one price, and the loop over the prices.\<close>

fun trigger_ids :: "order_id list \<Rightarrow> (order_id, stop_order) omap \<Rightarrow> (order_id, stop_order) omap \<times> stop_order list" where
  "trigger_ids [] os = (os, [])"
| "trigger_ids (i # q) os =
     (case om_get os i of
        Some x \<Rightarrow>
          if so_status x = StopPending
          then let x' = x\<lparr>so_status := StopTriggered\<rparr>; (os', ts) = trigger_ids q (om_update i (\<lambda>_. x') os)
               in (os', x' # ts)
          else trigger_ids q os
      | None \<Rightarrow> trigger_ids q os)"

fun trigger_keys :: "price list \<Rightarrow> (price, order_id list) omap \<Rightarrow> (order_id, stop_order) omap \<Rightarrow>
    (price, order_id list) omap \<times> (order_id, stop_order) omap \<times> stop_order list" where
  "trigger_keys [] m os = (m, os, [])"
| "trigger_keys (k # ks) m os =
     (case om_get m k of
        None \<Rightarrow> trigger_keys ks m os
      | Some ids \<Rightarrow>
          let (os1, ts1) = trigger_ids ids os;
              (m2, os2, ts2) = trigger_keys ks (om_remove k m) os1
          in (m2, os2, ts1 @ ts2))"

definition collect_triggered :: "price \<Rightarrow> stop_book \<Rightarrow> stop_book \<times> stop_order list" where
  "collect_triggered p b =
     (let (buys, os1, ts1) = trigger_keys (filter (\<lambda>k. k \<le> p) (om_keys (sb_buy_stops b))) (sb_buy_stops b) (sb_orders b);
          (sells, os2, ts2) = trigger_keys (filter (\<lambda>k. p \<le> k) (om_keys (sb_sell_stops b))) (sb_sell_stops b) os1;
          triggered = sort_key so_timestamp (ts1 @ ts2);
          b' = b\<lparr>sb_buy_stops := buys, sb_sell_stops := sells, sb_orders := os2\<rparr>
      in (if triggered = [] then b'
          else b'\<lparr>sb_trailing_ids := filter (\<lambda>i. case om_get os2 i of Some x \<Rightarrow> so_status x = StopPending | None \<Rightarrow> False)
                                      (sb_trailing_ids b')\<rparr>,
          triggered))"

section \<open>Queries\<close>

definition stop_get :: "stop_book \<Rightarrow> order_id \<Rightarrow> stop_order option" where
  "stop_get b i = om_get (sb_orders b) i"

definition stop_is_empty :: "stop_book \<Rightarrow> bool" where
  "stop_is_empty b \<longleftrightarrow> sb_buy_stops b = [] \<and> sb_sell_stops b = []"

definition stop_pending_count :: "stop_book \<Rightarrow> nat" where
  "stop_pending_count b =
     sum_list (map length (om_values (sb_buy_stops b))) + sum_list (map length (om_values (sb_sell_stops b)))"

definition contains_pending :: "stop_book \<Rightarrow> order_id \<Rightarrow> bool" where
  "contains_pending b i =
     (case om_get (sb_orders b) i of None \<Rightarrow> False | Some x \<Rightarrow> so_status x = StopPending)"

definition stop_clear_history :: "stop_book \<Rightarrow> stop_book" where
  "stop_clear_history b =
     (let os = filter (\<lambda>(_, x). so_status x = StopPending) (sb_orders b)
      in b\<lparr>sb_orders := os, sb_trailing_ids := filter (\<lambda>i. om_get os i \<noteq> None) (sb_trailing_ids b)\<rparr>)"

section \<open>Trailing stops\<close>

definition i64_abs :: "int \<Rightarrow> int" where
  "i64_abs x = i64_wrap \<bar>x\<bar>"

fun i64_sum :: "int list \<Rightarrow> int" where
  "i64_sum [] = 0"
| "i64_sum (x # xs) = i64_wrap (x + i64_sum xs)"

definition compute_sma_abs_change_offset :: "int list \<Rightarrow> f64 \<Rightarrow> nat \<Rightarrow> int" where
  "compute_sma_abs_change_offset changes multiplier period =
     (if changes = [] \<or> period = 0 then 0
      else let window = (if period \<le> length changes then drop (length changes - period) changes else changes);
               sma_abs_change = f64_div (f64_of_int (i64_sum window)) (f64_of_int (int (length window)))
           in f64_to_i64 (f64_mul sma_abs_change multiplier))"

text \<open>The first part of \<open>update_trailing_stops\<close>: the history of absolute price changes.\<close>

definition record_price :: "price \<Rightarrow> stop_book \<Rightarrow> stop_book" where
  "record_price p b =
     (let changes = (case sb_last_price b of
                       None \<Rightarrow> sb_price_changes b
                     | Some prev \<Rightarrow>
                         let cs = sb_price_changes b @ [i64_abs (i64_wrap (p - prev))]
                         in if MAX_PRICE_HISTORY < length cs then drop (length cs - MAX_PRICE_HISTORY) cs else cs)
      in b\<lparr>sb_price_changes := changes, sb_last_price := Some p\<rparr>)"

definition new_watermark :: "side \<Rightarrow> price \<Rightarrow> price option \<Rightarrow> price" where
  "new_watermark s p w =
     (let old = (case w of None \<Rightarrow> p | Some q \<Rightarrow> q)
      in case s of Sell \<Rightarrow> max old p | Buy \<Rightarrow> min old p)"

definition trail_offset :: "int list \<Rightarrow> price \<Rightarrow> trail_method \<Rightarrow> int" where
  "trail_offset changes w m =
     (case m of
        Fixed cents \<Rightarrow> cents
      | Percentage pct \<Rightarrow> f64_to_i64 (f64_round_int (f64_mul (f64_of_int w) pct))
      | SmaAbsChange multiplier period \<Rightarrow> compute_sma_abs_change_offset changes multiplier period)"

text \<open>One iteration of the loop over the trailing identifiers.\<close>

definition trail_step :: "price \<Rightarrow> order_id \<Rightarrow> stop_book \<Rightarrow> stop_book" where
  "trail_step p i b =
     (case om_get (sb_orders b) i of
        None \<Rightarrow> b
      | Some x \<Rightarrow>
          (case (so_status x, so_trail_method x) of
             (StopPending, Some method) \<Rightarrow>
               let w = new_watermark (so_side x) p (so_watermark x);
                   offset = trail_offset (sb_price_changes b) w method
               in if offset \<le> 0
                  then b\<lparr>sb_orders := om_update i (\<lambda>x. x\<lparr>so_watermark := Some w\<rparr>) (sb_orders b)\<rparr>
                  else
                    let new_stop = i64_wrap (case so_side x of Sell \<Rightarrow> w - offset | Buy \<Rightarrow> w + offset);
                        old_stop = so_stop_price x;
                        should_update = (case so_side x of Sell \<Rightarrow> new_stop > old_stop | Buy \<Rightarrow> new_stop < old_stop);
                        b1 = (if should_update
                              then sb_set_stops (so_side x)
                                     (index_push new_stop i (index_drop old_stop i (sb_stops b (so_side x)))) b
                              else b)
                    in b1\<lparr>sb_orders := om_update i
                            (\<lambda>x. x\<lparr>so_stop_price := (if should_update then new_stop else so_stop_price x),
                                   so_watermark := Some w\<rparr>) (sb_orders b1)\<rparr>
           | _ \<Rightarrow> b))"

definition update_trailing_stops :: "price \<Rightarrow> stop_book \<Rightarrow> stop_book" where
  "update_trailing_stops p b =
     (let b1 = record_price p b in fold (trail_step p) (sb_trailing_ids b1) b1)"

end
