(* ===== verification/Results.thy ===== *)
theory Results
  imports Trades Orders Stop_Book
begin

text \<open>
  The results of the exchange operations (\<open>src/result.rs\<close>) and the events that are logged for
  replay (\<open>src/event.rs\<close>).
\<close>

section \<open>Results\<close>

record submit_result =
  sr_order_id :: order_id
  sr_status :: order_status
  sr_trades :: "trade list"
  sr_filled :: quantity
  sr_resting :: quantity
  sr_cancelled :: quantity

definition sr_has_trades :: "submit_result \<Rightarrow> bool" where
  "sr_has_trades r \<longleftrightarrow> sr_trades r \<noteq> []"

definition sr_is_resting :: "submit_result \<Rightarrow> bool" where
  "sr_is_resting r \<longleftrightarrow> 0 < sr_resting r"

definition sr_is_fully_filled :: "submit_result \<Rightarrow> bool" where
  "sr_is_fully_filled r \<longleftrightarrow> sr_status r = Filled"

datatype cancel_error = CancelOrderNotFound | CancelOrderNotActive

record cancel_result =
  cr_success :: bool
  cr_cancelled :: quantity
  cr_error :: "cancel_error option"

definition cancel_success :: "quantity \<Rightarrow> cancel_result" where
  "cancel_success q = \<lparr>cr_success = True, cr_cancelled = q, cr_error = None\<rparr>"

definition cancel_failure :: "cancel_error \<Rightarrow> cancel_result" where
  "cancel_failure e = \<lparr>cr_success = False, cr_cancelled = 0, cr_error = Some e\<rparr>"

datatype modify_error = ModifyOrderNotFound | ModifyOrderNotActive | InvalidQuantity

record modify_result =
  mo_success :: bool
  mo_old_order_id :: order_id
  mo_new_order_id :: "order_id option"
  mo_cancelled :: quantity
  mo_trades :: "trade list"
  mo_error :: "modify_error option"

definition modify_success :: "order_id \<Rightarrow> order_id \<Rightarrow> quantity \<Rightarrow> trade list \<Rightarrow> modify_result" where
  "modify_success old new q ts =
     \<lparr>mo_success = True, mo_old_order_id = old, mo_new_order_id = Some new, mo_cancelled = q,
      mo_trades = ts, mo_error = None\<rparr>"

definition modify_failure :: "order_id \<Rightarrow> modify_error \<Rightarrow> modify_result" where
  "modify_failure old e =
     \<lparr>mo_success = False, mo_old_order_id = old, mo_new_order_id = None, mo_cancelled = 0,
      mo_trades = [], mo_error = Some e\<rparr>"

record stop_submit_result =
  ss_order_id :: order_id
  ss_status :: stop_status

section \<open>Events\<close>

datatype event =
    SubmitLimit side price quantity time_in_force
  | SubmitMarket side quantity
  | Cancel order_id
  | Modify order_id price quantity
  | SubmitStopMarket side price quantity
  | SubmitStopLimit side price price quantity time_in_force
  | SubmitTrailingStopMarket side price quantity trail_method
  | SubmitTrailingStopLimit side price price quantity time_in_force trail_method

record apply_result =
  ar_trades :: "trade list"

end
