(* ===== verification/Book_Cancel.thy ===== *)
theory Book_Cancel
  imports Book_Ops
begin

text \<open>
  Cancellation. \<open>cancel_order\<close> marks the queue entry at the position that was recorded when
  the order was added. The lemma of this theory is what the code means to do: if that
  position still is the position of the order, the order leaves its queue and nothing else
  changes. Compaction and clearing the history keep the invariant and both queues.
\<close>

lemma cancelled_order_sel [simp]:
  "ord_id (x\<lparr>ord_remaining := 0, ord_status := Cancelled\<rparr>) = ord_id x"
  "\<not> order_is_active (x\<lparr>ord_remaining := 0, ord_status := Cancelled\<rparr>)"
  by (simp_all add: order_is_active_def)

lemma side_level_distinct: "side_inv ords s pl \<Longrightarrow> om_get (pl_levels pl) p = Some l \<Longrightarrow> distinct (level_iter l)"
proof -
  assume inv: "side_inv ords s pl" and get: "om_get (pl_levels pl) p = Some l"
  show ?thesis
  proof (rule side_walk [OF inv get refl])
    fix as bs assume "side_ids pl = as @ level_iter l @ bs"
    then show ?thesis using inv by (simp add: side_inv_def)
  qed
qed

lemma side_ids_level:
  assumes inv: "side_inv ords s pl" and x: "om_get ords i = Some x" and i: "i \<in> set (side_ids pl)"
  obtains l where "om_get (pl_levels pl) (ord_price x) = Some l" and "i \<in> set (level_iter l)"
proof -
  from i obtain p l where l: "(p, l) \<in> set (pl_levels pl)" "i \<in> set (level_iter l)"
    by (auto simp: side_ids_def iter_set)
  then have "level_inv ords s p l" using inv by (auto simp: side_inv_def)
  with l(2) x have "ord_price x = p" by (auto simp: level_inv_def resting_ok_def)
  moreover have "om_get (pl_levels pl) p = Some l"
    using l(1) inv by (simp add: side_inv_def pl_struct_ok_def om_get_in_set)
  ultimately show thesis using that l(2) by simp
qed

lemma filter_remove_sum:
  assumes "distinct (map ord_id q)" and "x \<in> set q"
  shows "qty_sum (filter (\<lambda>y. ord_id y \<noteq> ord_id x) q) + ord_remaining x = qty_sum q"
  using assms
proof (induction q)
  case (Cons y q)
  show ?case
  proof (cases "y = x")
    case True
    with Cons.prems have "filter (\<lambda>y. ord_id y \<noteq> ord_id x) q = q"
      by (intro filter_id_conv [THEN iffD2] ballI notI) (auto intro: rev_image_eqI)
    with True show ?thesis by simp
  next
    case False
    with Cons.prems have "ord_id y \<noteq> ord_id x" by (auto simp: image_iff)
    with Cons False show ?thesis by simp
  qed
qed simp

lemma tombstone_level:
  assumes lv: "level_inv ords s p l" and x: "om_get ords i = Some x" and i: "i \<in> set (level_iter l)"
    and k: "k < length (lvl_orders l)" "lvl_orders l ! k = i" and dis: "distinct (level_iter l)"
    and ords': "\<And>j. j \<noteq> i \<Longrightarrow> om_get ords' j = om_get ords j"
  defines "l' \<equiv> level_mark_tombstone k (ord_remaining x) l"
  shows "level_iter l' = filter (\<lambda>j. j \<noteq> i) (level_iter l)"
    and "level_orders ords' l' = filter (\<lambda>y. ord_id y \<noteq> i) (level_orders ords l)"
    and "lvl_total l' \<le> lvl_total l"
    and "\<not> level_is_empty l' \<Longrightarrow> level_inv ords' s p l'"
    and "level_is_empty l' \<Longrightarrow> level_orders ords' l' = []"
proof -
  have "i \<noteq> 0" using i by (auto simp: level_iter_def)
  have ok: "level_ok l" using lv by (simp add: level_inv_def)
  note mt = level_mark_tombstone_ok [OF ok dis k \<open>i \<noteq> 0\<close>, of "ord_remaining x", folded l'_def]
  have ids: "ord_id (the (om_get ords j)) = j" if "j \<in> set (level_iter l)" for j
    using lv that by (auto simp: level_inv_def resting_ok_def)
  show it: "level_iter l' = filter (\<lambda>j. j \<noteq> i) (level_iter l)" by (rule mt(2))
  show lo: "level_orders ords' l' = filter (\<lambda>y. ord_id y \<noteq> i) (level_orders ords l)"
    unfolding level_orders_def it filter_map
    using ids ords' by (auto simp: comp_def intro!: map_cong filter_cong)
  show "lvl_total l' \<le> lvl_total l" using mt(3) by simp
  have mem: "x \<in> set (level_orders ords l)" using i x by (force simp: level_orders_def)
  have xi: "ord_id x = i" using ids [OF i] x by simp
  have "map ord_id (level_orders ords l) = level_iter l"
    using ids by (auto simp: level_orders_def intro!: map_idI)
  then have "qty_sum (level_orders ords' l') + ord_remaining x = qty_sum (level_orders ords l)"
    using filter_remove_sum [OF _ mem] dis lo xi by simp
  then have tot: "lvl_total l' = qty_sum (level_orders ords' l')"
    using mt(3) lv by (simp add: level_inv_def)
  show "level_inv ords' s p l'" if "\<not> level_is_empty l'"
  proof -
    have "0 < lvl_total l'" using that by (simp add: level_is_empty_def)
    moreover have "\<forall>j \<in> set (level_iter l'). \<exists>y. om_get ords' j = Some y \<and> resting_ok s p j y"
      using lv it ords' by (auto simp: level_inv_def)
    ultimately show ?thesis using lv mt(1,4) tot unfolding level_inv_def by metis
  qed
  have "0 < ord_remaining y" if "y \<in> set (level_orders ords l)" for y
    using level_invD(1) [OF lv that] by (simp add: resting_ok_def)
  then show "level_orders ords' l' = []" if "level_is_empty l'"
    using that tot lo by (fastforce simp: level_is_empty_def filter_empty_conv)
qed

lemma book_cancel_order_ok:
  assumes inv: "book_inv b" and x: "om_get (bk_orders b) i = Some x"
    and i: "i \<in> set (side_ids (book_side b (ord_side x)))" and acc: "index_accurate b x"
  obtains b' where "book_cancel_order i b = Inr (b', Some (ord_remaining x))" and "book_inv b'"
    and "book_queue b' (ord_side x) = filter (\<lambda>y. ord_id y \<noteq> i) (book_queue b (ord_side x))"
    and "book_queue b' (opposite (ord_side x)) = book_queue b (opposite (ord_side x))"
    and "book_side b' (opposite (ord_side x)) = book_side b (opposite (ord_side x))"
    and "bk_orders b' = om_update i (\<lambda>y. y\<lparr>ord_remaining := 0, ord_status := Cancelled\<rparr>) (bk_orders b)"
    and "bk_next_order_id b' = bk_next_order_id b" and "bk_next_trade_id b' = bk_next_trade_id b"
    and "bk_next_timestamp b' = bk_next_timestamp b"
proof -
  let ?s = "ord_side x" and ?pl = "book_side b (ord_side x)" and ?p = "ord_price x"
  let ?x = "x\<lparr>ord_remaining := 0, ord_status := Cancelled\<rparr>"
  let ?o = "om_update i (\<lambda>_. ?x) (bk_orders b)"
  have side: "side_inv (bk_orders b) ?s ?pl" using inv by (rule book_inv_side)
  obtain l where l: "om_get (pl_levels ?pl) ?p = Some l" "i \<in> set (level_iter l)"
    using side_ids_level [OF side x i] .
  have xi: "ord_id x = i" "order_ok x" using book_inv_orderD [OF inv x] by auto
  have act: "order_is_active x"
    using side_ids_get [OF inv i] x book_queueD(2) [OF inv] by (metis option.inject)
  have lv: "level_inv (bk_orders b) ?s ?p l" using side_inv_level [OF side l(1)] .
  have dis: "distinct (level_iter l)" using side_level_distinct [OF side l(1)] .
  have k: "ord_position x < length (lvl_orders l)" "lvl_orders l ! ord_position x = i"
    using acc l(1) xi by (auto simp: index_accurate_def)
  have other: "om_get ?o j = om_get (bk_orders b) j" if "j \<noteq> i" for j using that by (simp add: om_get_update)
  define l' where "l' = level_mark_tombstone (ord_position x) (ord_remaining x) l"
  note tl = tombstone_level [OF lv x l(2) k dis other, folded l'_def]
  let ?pl1 = "pl_update_level ?p (\<lambda>_. l') ?pl"
  let ?pl' = "if level_is_empty l' then pl_remove_level ?p ?pl1 else ?pl1"
  have agree: "\<And>j. j \<in> set (side_ids ?pl) \<Longrightarrow> j \<notin> set (level_iter l) \<Longrightarrow> om_get ?o j = om_get (bk_orders b) j"
    using l(2) by (intro other) auto
  have side': "side_inv ?o ?s ?pl'"
    using side_inv_drop [OF side l(1) agree] side_inv_replace [OF side l(1) agree tl(4)] tl(1,3) dis by auto
  obtain xs ys as bs where w: "side_queue (bk_orders b) ?pl = xs @ level_orders (bk_orders b) l @ ys"
      "side_queue ?o ?pl' = xs @ level_orders ?o l' @ ys"
      "side_ids ?pl = as @ level_iter l @ bs" "side_ids ?pl' = as @ (if level_is_empty l' then [] else level_iter l') @ bs"
  proof (rule side_walk [OF side l(1) agree])
    fix xs ys as bs us vs
    assume "side_queue (bk_orders b) ?pl = xs @ level_orders (bk_orders b) l @ ys"
      "\<And>l'. side_queue ?o (pl_update_level ?p (\<lambda>_. l') ?pl) = xs @ level_orders ?o l' @ ys"
      "\<And>l'. side_queue ?o (pl_remove_level ?p (pl_update_level ?p (\<lambda>_. l') ?pl)) = xs @ ys"
      "side_ids ?pl = as @ level_iter l @ bs"
      "\<And>l'. side_ids (pl_update_level ?p (\<lambda>_. l') ?pl) = as @ level_iter l' @ bs"
      "\<And>l'. side_ids (pl_remove_level ?p (pl_update_level ?p (\<lambda>_. l') ?pl)) = as @ bs"
    then show thesis using tl(5) by (intro that [of xs ys as bs]) simp_all
  qed
  have "distinct (map ord_id (side_queue (bk_orders b) ?pl))"
    using side side_queue_ids [OF side] by (simp add: side_inv_def)
  moreover obtain y where "y \<in> set (level_orders (bk_orders b) l)" "ord_id y = i"
    using l(2) x xi by (force simp: level_orders_def)
  ultimately have nin: "\<forall>y \<in> set xs \<union> set ys. ord_id y \<noteq> i" using w(1) by fastforce
  have q': "side_queue ?o ?pl' = filter (\<lambda>y. ord_id y \<noteq> i) (side_queue (bk_orders b) ?pl)"
    using w(1,2) tl(2) nin by (simp add: filter_id_conv [THEN iffD2])
  have ids: "j \<in> set (side_ids ?pl')" if "j \<in> set (side_ids ?pl)" "j \<noteq> i" for j
  proof -
    have "map ord_id (side_queue ?o ?pl') = side_ids ?pl'" using side_queue_ids [OF side'] .
    then have "side_ids ?pl' = filter (\<lambda>j. j \<noteq> i) (side_ids ?pl)"
      unfolding q' side_queue_ids [OF side, symmetric] by (simp add: filter_map comp_def)
    with that show ?thesis by simp
  qed
  have "book_inv (book_set_side ?s ?pl' (book_update_order i (\<lambda>_. ?x) b))"
    and "book_queue (book_set_side ?s ?pl' (book_update_order i (\<lambda>_. ?x) b)) (opposite ?s) = book_queue b (opposite ?s)"
    using book_inv_change [OF inv x i side' _ _ _ ids] xi by (auto simp: order_ok_def)
  moreover have "book_cancel_order i b = Inr (book_set_side ?s ?pl' (book_update_order i (\<lambda>_. ?x) b), Some (ord_remaining x))"
    using x act l(1) by (simp add: book_cancel_order_def book_get_order_def order_cancel_active pl_mark_tombstone_def
        l'_def Let_def)
  moreover have "?o = om_update i (\<lambda>y. y\<lparr>ord_remaining := 0, ord_status := Cancelled\<rparr>) (bk_orders b)"
    using x inv by (intro om_update_cong) (auto simp: book_inv_def index_inv_def)
  ultimately show thesis
    using q' by (intro that [of "book_set_side ?s ?pl' (book_update_order i (\<lambda>_. ?x) b)"]) (simp_all add: book_queue_def)
qed

section \<open>Maintenance\<close>

lemma level_compact_inv:
  assumes "level_inv ords s p l"
  shows "level_inv ords s p (level_compact l)" and "level_orders ords (level_compact l) = level_orders ords l"
  using assms level_compact_ok [of l] by (auto simp: level_inv_def level_orders_def)

lemma iter_compact:
  "pl_iter_best_to_worst (pl_compact pl) = map (\<lambda>(p, l). (p, level_compact l)) (pl_iter_best_to_worst pl)"
  by (cases "pl_side pl") (simp_all add: pl_iter_best_to_worst_def pl_compact_def rev_map)

lemma pl_compact_side:
  assumes inv: "side_inv ords s pl"
  shows "side_inv ords s (pl_compact pl)" and "side_queue ords (pl_compact pl) = side_queue ords pl"
    and "side_ids (pl_compact pl) = side_ids pl" and "pl_best (pl_compact pl) = pl_best pl"
proof -
  have lv: "level_inv ords s p l" if "(p, l) \<in> set (pl_iter_best_to_worst pl)" for p l
    using side_inv_walk [OF inv that] .
  then have ok: "level_iter (level_compact l) = level_iter l" if "(p, l) \<in> set (pl_iter_best_to_worst pl)" for p l
    using that level_compact_ok(2) by (auto simp: level_inv_def)
  show q: "side_queue ords (pl_compact pl) = side_queue ords pl"
    unfolding side_queue_def iter_compact map_map
    using level_compact_inv(2) [OF lv] by (intro arg_cong [where f = concat] map_cong) auto
  show i: "side_ids (pl_compact pl) = side_ids pl"
    unfolding side_ids_def iter_compact map_map
    using ok by (intro arg_cong [where f = concat] map_cong) auto
  show best: "pl_best (pl_compact pl) = pl_best pl" by (simp add: pl_compact_def)
  have "om_ok (pl_levels (pl_compact pl)) = om_ok (pl_levels pl)"
    by (simp add: pl_compact_def om_ok_def comp_def case_prod_unfold)
  moreover have "first_price (pl_compact pl) = first_price pl"
    by (auto simp: first_price_def iter_compact split: list.splits)
  ultimately have "pl_struct_ok (pl_compact pl)"
    using inv best by (simp add: side_inv_def pl_struct_ok_def)
  moreover have "pl_side (pl_compact pl) = pl_side pl" by (simp add: pl_compact_def)
  moreover have "level_inv ords s p l" if "(p, l) \<in> set (pl_levels (pl_compact pl))" for p l
    using that level_compact_inv(1) inv by (auto simp: pl_compact_def side_inv_def)
  ultimately show "side_inv ords s (pl_compact pl)" using inv q i by (auto simp: side_inv_def)
qed

lemma book_compact_side: "book_side (book_compact b) s = pl_compact (book_side b s)"
  by (cases s) (simp_all add: book_compact_def book_side_def)

lemma book_compact_proj [simp]: "bk_orders (book_compact b) = bk_orders b"
  "bk_next_order_id (book_compact b) = bk_next_order_id b"
  "bk_next_trade_id (book_compact b) = bk_next_trade_id b"
  "bk_next_timestamp (book_compact b) = bk_next_timestamp b"
  by (simp_all add: book_compact_def)

lemma book_compact_ok:
  assumes "book_inv b"
  shows "book_inv (book_compact b)" and "book_queue (book_compact b) s = book_queue b s"
proof -
  have side: "side_inv (bk_orders b) t (book_side b t)" for t using assms by (rule book_inv_side)
  show "book_queue (book_compact b) s = book_queue b s"
    using pl_compact_side(2) [OF side] by (simp add: book_queue_def book_compact_side)
  show "book_inv (book_compact b)"
    using assms pl_compact_side(1) [OF side] pl_compact_side(3) [OF side]
    by (auto simp: book_inv_def index_inv_def book_compact_side)
qed

lemma book_clear_history_ok:
  assumes inv: "book_inv b"
  shows "book_inv (fst (book_clear_history b))" and "book_queue (fst (book_clear_history b)) s = book_queue b s"
    and "om_get (bk_orders (fst (book_clear_history b))) i =
           (case om_get (bk_orders b) i of None \<Rightarrow> None | Some x \<Rightarrow> if order_is_active x then Some x else None)"
    and "book_order_count (fst (book_clear_history b)) + snd (book_clear_history b) = book_order_count b"
proof -
  let ?keep = "filter (\<lambda>(_, x). order_is_active x) (bk_orders b)"
  have ok: "om_ok (bk_orders b)" using inv by (simp add: book_inv_def index_inv_def)
  have get: "om_get ?keep j = (case om_get (bk_orders b) j of None \<Rightarrow> None | Some x \<Rightarrow> if order_is_active x then Some x else None)" for j
    by (rule om_get_filter [OF ok])
  have keep: "om_get ?keep j = om_get (bk_orders b) j" if j: "j \<in> set (side_ids (book_side b t))" for j t
  proof (rule side_ids_get [OF inv j])
    fix x assume "om_get (bk_orders b) j = Some x" "x \<in> set (book_queue b t)"
    then show ?thesis using book_queueD(2) [OF inv] get [of j] by simp
  qed
  note cong = side_inv_cong [OF keep]
  show q: "book_queue (fst (book_clear_history b)) s = book_queue b s"
    using cong(1) by (simp add: book_queue_def book_clear_history_def Let_def)
  have "side_inv ?keep t (book_side b t)" for t using cong(2) book_inv_side [OF inv] by simp
  moreover have "index_inv (b\<lparr>bk_orders := ?keep\<rparr>)"
    using inv om_ok_filter [OF ok] get
    by (auto simp: book_inv_def index_inv_def split: option.splits if_splits)
  ultimately show "book_inv (fst (book_clear_history b))"
    by (simp add: book_inv_def book_clear_history_def Let_def)
  show "om_get (bk_orders (fst (book_clear_history b))) i =
           (case om_get (bk_orders b) i of None \<Rightarrow> None | Some x \<Rightarrow> if order_is_active x then Some x else None)"
    using get by (simp add: book_clear_history_def Let_def)
  show "book_order_count (fst (book_clear_history b)) + snd (book_clear_history b) = book_order_count b"
    by (simp add: book_clear_history_def Let_def book_order_count_def)
qed

end
