(* ===== verification/Exchange.thy ===== *)
theory Exchange
  imports Matching Results Book_Cancel
begin

text \<open>
  The exchange (\<open>src/exchange.rs\<close>): the order book, the trade history, the stop book, the last
  trade price, the self-trade policy and the event log (the \<open>event-log\<close> feature, which is on
  by default). Operations that reach the matching loop may in principle panic or run for
  ever, so they return a \<open>run\<close>.
\<close>

section \<open>Data\<close>

record exchange =
  ex_book :: book
  ex_trades :: "trade list"
  ex_stop_book :: stop_book
  ex_last_trade_price :: "price option"
  ex_stp_policy :: stp_policy
  ex_events :: "event list"

definition exchange_new :: exchange where
  "exchange_new = \<lparr>ex_book = book_new, ex_trades = [], ex_stop_book = stop_book_new,
                   ex_last_trade_price = None, ex_stp_policy = Off, ex_events = []\<rparr>"

definition with_stp_policy :: "stp_policy \<Rightarrow> exchange \<Rightarrow> exchange" where
  "with_stp_policy policy ex = ex\<lparr>ex_stp_policy := policy\<rparr>"

definition set_stp_policy :: "stp_policy \<Rightarrow> exchange \<Rightarrow> exchange" where
  "set_stp_policy policy ex = ex\<lparr>ex_stp_policy := policy\<rparr>"

definition log_event :: "event \<Rightarrow> exchange \<Rightarrow> exchange" where
  "log_event e ex = ex\<lparr>ex_events := ex_events ex @ [e]\<rparr>"

section \<open>Submission\<close>

text \<open>\<open>self.book.orders.insert(order_id, order)\<close>: into the index, not onto the book.\<close>

definition book_record_order :: "order \<Rightarrow> book \<Rightarrow> book" where
  "book_record_order x b = b\<lparr>bk_orders := om_insert (ord_id x) x (bk_orders b)\<rparr>"

text \<open>What happens to the rest of an order after matching.\<close>

definition settle_submission :: "quantity \<Rightarrow> time_in_force \<Rightarrow> bool \<Rightarrow> order \<Rightarrow> book \<Rightarrow>
    (book \<times> order_status \<times> quantity \<times> quantity) outcome" where
  "settle_submission quantity tif stp_cancelled x b =
     (let filled = ord_filled x; remaining = ord_remaining x
      in if stp_cancelled
         then let status = (if filled > 0 then PartiallyFilled else Cancelled)
              in Inr (book_record_order (x\<lparr>ord_status := status\<rparr>) b, status, 0, u64_sub quantity filled)
         else if remaining = 0
         then Inr (book_record_order (x\<lparr>ord_status := Filled\<rparr>) b, Filled, 0, 0)
         else if tif = GTC
         then let status = (if filled > 0 then PartiallyFilled else New)
              in case book_add_order (x\<lparr>ord_status := status\<rparr>) b of
                   Inl e \<Rightarrow> Inl e
                 | Inr b' \<Rightarrow> Inr (b', status, remaining, 0)
         else let status = (if filled > 0 then PartiallyFilled else Cancelled)
              in Inr (book_record_order (x\<lparr>ord_status := status\<rparr>) b, status, 0, remaining))"

definition submit_limit_internal_with_owner :: "side \<Rightarrow> price \<Rightarrow> quantity \<Rightarrow> time_in_force \<Rightarrow> order_owner option \<Rightarrow>
    exchange \<Rightarrow> (exchange \<times> submit_result) run" where
  "submit_limit_internal_with_owner s p q tif w ex =
     (if tif = FOK \<and> \<not> can_fully_fill s p q (ex_book ex)
      then let (b, x) = book_create_order s p q tif (ex_book ex)
           in ret (ex\<lparr>ex_book := b\<rparr>,
                   \<lparr>sr_order_id = ord_id x, sr_status = Cancelled, sr_trades = [], sr_filled = 0,
                    sr_resting = 0, sr_cancelled = q\<rparr>)
      else let (b, x) = book_create_order s p q tif (ex_book ex)
           in rbind (match_order_with_policy (x\<lparr>ord_owner := w\<rparr>) (ex_stp_policy ex) b)
                (\<lambda>(b', x', res).
                   case settle_submission q tif (mr_stp_cancelled res) x' b' of
                     Inl e \<Rightarrow> Some (Inl e)
                   | Inr (b'', status, resting, cancelled) \<Rightarrow>
                       ret (ex\<lparr>ex_book := b'', ex_trades := ex_trades ex @ mr_trades res\<rparr>,
                            \<lparr>sr_order_id = ord_id x, sr_status = status, sr_trades = mr_trades res,
                             sr_filled = ord_filled x', sr_resting = resting, sr_cancelled = cancelled\<rparr>)))"

definition submit_limit_internal :: "side \<Rightarrow> price \<Rightarrow> quantity \<Rightarrow> time_in_force \<Rightarrow> exchange \<Rightarrow>
    (exchange \<times> submit_result) run" where
  "submit_limit_internal s p q tif ex = submit_limit_internal_with_owner s p q tif None ex"

section \<open>Stop triggers\<close>

definition MAX_CASCADE_DEPTH :: nat where
  "MAX_CASCADE_DEPTH = 100"

definition market_price :: "side \<Rightarrow> price" where
  "market_price s = (case s of Buy \<Rightarrow> price_MAX | Sell \<Rightarrow> price_MIN)"

definition submit_triggered_stop :: "stop_order \<Rightarrow> exchange \<Rightarrow> (exchange \<times> submit_result) run" where
  "submit_triggered_stop x ex =
     (case so_limit_price x of
        Some limit \<Rightarrow> submit_limit_internal (so_side x) limit (so_quantity x) (so_tif x) ex
      | None \<Rightarrow> submit_limit_internal (so_side x) (market_price (so_side x)) (so_quantity x) IOC ex)"

text \<open>The price of the last trade of a result, or the one known before.\<close>

definition last_price_of :: "trade list \<Rightarrow> price option \<Rightarrow> price option" where
  "last_price_of ts lp = (if ts = [] then lp else Some (trd_price (last ts)))"

fun submit_triggered :: "stop_order list \<Rightarrow> price option \<Rightarrow> exchange \<Rightarrow> (exchange \<times> price option) run" where
  "submit_triggered [] lp ex = ret (ex, lp)"
| "submit_triggered (x # xs) lp ex =
     rbind (submit_triggered_stop x ex)
       (\<lambda>(ex', r). submit_triggered xs (last_price_of (sr_trades r) lp) ex')"

fun trigger_rounds :: "nat \<Rightarrow> exchange \<Rightarrow> exchange run" where
  "trigger_rounds 0 ex = ret ex"
| "trigger_rounds (Suc n) ex =
     (case ex_last_trade_price ex of
        None \<Rightarrow> ret ex
      | Some p \<Rightarrow>
          let (sb, ts) = collect_triggered p (update_trailing_stops p (ex_stop_book ex));
              ex1 = ex\<lparr>ex_stop_book := sb\<rparr>
          in if ts = [] then ret ex1
             else rbind (submit_triggered ts None ex1)
                    (\<lambda>(ex2, new_last_price).
                       case new_last_price of
                         Some p' \<Rightarrow> trigger_rounds n (ex2\<lparr>ex_last_trade_price := Some p'\<rparr>)
                       | None \<Rightarrow> ret ex2))"

definition process_trade_triggers :: "exchange \<Rightarrow> exchange run" where
  "process_trade_triggers ex = trigger_rounds MAX_CASCADE_DEPTH ex"

text \<open>The common end of the public submissions: when there were trades, the last price moves
  and the stops are checked.\<close>

definition after_trades :: "trade list \<Rightarrow> exchange \<Rightarrow> exchange run" where
  "after_trades ts ex =
     (if ts = [] then ret ex
      else process_trade_triggers (ex\<lparr>ex_last_trade_price := Some (trd_price (last ts))\<rparr>))"

section \<open>Public submissions\<close>

definition submit_limit :: "side \<Rightarrow> price \<Rightarrow> quantity \<Rightarrow> time_in_force \<Rightarrow> exchange \<Rightarrow> (exchange \<times> submit_result) run" where
  "submit_limit s p q tif ex =
     rbind (submit_limit_internal s p q tif (log_event (SubmitLimit s p q tif) ex))
       (\<lambda>(ex', r). rbind (after_trades (sr_trades r) ex') (\<lambda>ex''. ret (ex'', r)))"

definition submit_limit_with_owner :: "side \<Rightarrow> price \<Rightarrow> quantity \<Rightarrow> time_in_force \<Rightarrow> order_owner \<Rightarrow> exchange \<Rightarrow>
    (exchange \<times> submit_result) run" where
  "submit_limit_with_owner s p q tif w ex =
     rbind (submit_limit_internal_with_owner s p q tif (Some w) (log_event (SubmitLimit s p q tif) ex))
       (\<lambda>(ex', r). rbind (after_trades (sr_trades r) ex') (\<lambda>ex''. ret (ex'', r)))"

definition submit_market :: "side \<Rightarrow> quantity \<Rightarrow> exchange \<Rightarrow> (exchange \<times> submit_result) run" where
  "submit_market s q ex =
     rbind (submit_limit_internal s (market_price s) q IOC (log_event (SubmitMarket s q) ex))
       (\<lambda>(ex', r). rbind (after_trades (sr_trades r) ex') (\<lambda>ex''. ret (ex'', r)))"

definition try_submit_limit :: "side \<Rightarrow> price \<Rightarrow> quantity \<Rightarrow> time_in_force \<Rightarrow> exchange \<Rightarrow>
    (validation_error + exchange \<times> submit_result) run" where
  "try_submit_limit s p q tif ex =
     (if q = 0 then ret (Inl ZeroQuantity)
      else if p \<le> 0 then ret (Inl ZeroPrice)
      else rbind (submit_limit s p q tif ex) (\<lambda>r. ret (Inr r)))"

definition try_submit_market :: "side \<Rightarrow> quantity \<Rightarrow> exchange \<Rightarrow> (validation_error + exchange \<times> submit_result) run" where
  "try_submit_market s q ex =
     (if q = 0 then ret (Inl ZeroQuantity) else rbind (submit_market s q ex) (\<lambda>r. ret (Inr r)))"

section \<open>Cancellation and modification\<close>

definition cancel_internal :: "order_id \<Rightarrow> exchange \<Rightarrow> (exchange \<times> cancel_result) outcome" where
  "cancel_internal i ex =
     (case (contains_pending (ex_stop_book ex) i, stop_get (ex_stop_book ex) i) of
        (True, Some stop) \<Rightarrow>
          Inr (ex\<lparr>ex_stop_book := fst (stop_cancel i (ex_stop_book ex))\<rparr>, cancel_success (so_quantity stop))
      | _ \<Rightarrow>
          (case book_get_order (ex_book ex) i of
             None \<Rightarrow> Inr (ex, cancel_failure CancelOrderNotFound)
           | Some x \<Rightarrow>
               if \<not> order_is_active x then Inr (ex, cancel_failure CancelOrderNotActive)
               else (case book_cancel_order i (ex_book ex) of
                       Inl e \<Rightarrow> Inl e
                     | Inr (b, Some q) \<Rightarrow> Inr (ex\<lparr>ex_book := b\<rparr>, cancel_success q)
                     | Inr (b, None) \<Rightarrow> Inr (ex\<lparr>ex_book := b\<rparr>, cancel_failure CancelOrderNotActive))))"

definition exchange_cancel :: "order_id \<Rightarrow> exchange \<Rightarrow> (exchange \<times> cancel_result) outcome" where
  "exchange_cancel i ex = cancel_internal i (log_event (Cancel i) ex)"

definition modify_internal :: "order_id \<Rightarrow> price \<Rightarrow> quantity \<Rightarrow> exchange \<Rightarrow> (exchange \<times> modify_result) run" where
  "modify_internal i new_price new_quantity ex =
     (if new_quantity = 0 then ret (ex, modify_failure i InvalidQuantity)
      else case book_get_order (ex_book ex) i of
             None \<Rightarrow> ret (ex, modify_failure i ModifyOrderNotFound)
           | Some x \<Rightarrow>
               if \<not> order_is_active x then ret (ex, modify_failure i ModifyOrderNotActive)
               else case book_cancel_order i (ex_book ex) of
                      Inl e \<Rightarrow> Some (Inl e)
                    | Inr (b, None) \<Rightarrow> ret (ex\<lparr>ex_book := b\<rparr>, modify_failure i ModifyOrderNotActive)
                    | Inr (b, Some cancelled) \<Rightarrow>
                        rbind (submit_limit_internal (ord_side x) new_price new_quantity (ord_tif x) (ex\<lparr>ex_book := b\<rparr>))
                          (\<lambda>(ex', r). ret (ex', modify_success i (sr_order_id r) cancelled (sr_trades r))))"

definition exchange_modify :: "order_id \<Rightarrow> price \<Rightarrow> quantity \<Rightarrow> exchange \<Rightarrow> (exchange \<times> modify_result) run" where
  "exchange_modify i new_price new_quantity ex =
     modify_internal i new_price new_quantity (log_event (Modify i new_price new_quantity) ex)"

section \<open>Stop orders\<close>

definition insert_stop_order :: "side \<Rightarrow> price \<Rightarrow> price option \<Rightarrow> quantity \<Rightarrow> time_in_force \<Rightarrow> trail_method option \<Rightarrow>
    exchange \<Rightarrow> (exchange \<times> stop_submit_result) run" where
  "insert_stop_order s stop_price limit_price q tif trail ex =
     (let (b1, i) = book_take_order_id (ex_book ex);
          (b2, ts) = book_take_timestamp b1;
          x = \<lparr>so_id = i, so_side = s, so_stop_price = stop_price, so_limit_price = limit_price,
               so_quantity = q, so_tif = tif, so_timestamp = ts, so_status = StopPending,
               so_trail_method = trail, so_watermark = None\<rparr>;
          ex1 = ex\<lparr>ex_book := b2, ex_stop_book := stop_insert x (ex_stop_book ex)\<rparr>
      in case (trail, ex_last_trade_price ex) of
           (None, Some last_price) \<Rightarrow>
             if (case s of Buy \<Rightarrow> last_price \<ge> stop_price | Sell \<Rightarrow> last_price \<le> stop_price)
             then rbind (process_trade_triggers ex1)
                    (\<lambda>ex2. ret (ex2, \<lparr>ss_order_id = i,
                       ss_status = (case stop_get (ex_stop_book ex2) i of
                                      Some y \<Rightarrow> so_status y | None \<Rightarrow> StopTriggered)\<rparr>))
             else ret (ex1, \<lparr>ss_order_id = i, ss_status = StopPending\<rparr>)
         | _ \<Rightarrow> ret (ex1, \<lparr>ss_order_id = i, ss_status = StopPending\<rparr>))"

definition submit_stop_internal :: "side \<Rightarrow> price \<Rightarrow> price option \<Rightarrow> quantity \<Rightarrow> time_in_force \<Rightarrow> exchange \<Rightarrow>
    (exchange \<times> stop_submit_result) run" where
  "submit_stop_internal s sp lp q tif ex = insert_stop_order s sp lp q tif None ex"

definition submit_trailing_stop_internal :: "side \<Rightarrow> price \<Rightarrow> price option \<Rightarrow> quantity \<Rightarrow> time_in_force \<Rightarrow>
    trail_method \<Rightarrow> exchange \<Rightarrow> (exchange \<times> stop_submit_result) run" where
  "submit_trailing_stop_internal s sp lp q tif tm ex = insert_stop_order s sp lp q tif (Some tm) ex"

definition submit_stop_market :: "side \<Rightarrow> price \<Rightarrow> quantity \<Rightarrow> exchange \<Rightarrow> (exchange \<times> stop_submit_result) run" where
  "submit_stop_market s sp q ex =
     submit_stop_internal s sp None q GTC (log_event (SubmitStopMarket s sp q) ex)"

definition submit_stop_limit :: "side \<Rightarrow> price \<Rightarrow> price \<Rightarrow> quantity \<Rightarrow> time_in_force \<Rightarrow> exchange \<Rightarrow>
    (exchange \<times> stop_submit_result) run" where
  "submit_stop_limit s sp lp q tif ex =
     submit_stop_internal s sp (Some lp) q tif (log_event (SubmitStopLimit s sp lp q tif) ex)"

definition submit_trailing_stop_market :: "side \<Rightarrow> price \<Rightarrow> quantity \<Rightarrow> trail_method \<Rightarrow> exchange \<Rightarrow>
    (exchange \<times> stop_submit_result) run" where
  "submit_trailing_stop_market s sp q tm ex =
     submit_trailing_stop_internal s sp None q GTC tm (log_event (SubmitTrailingStopMarket s sp q tm) ex)"

definition submit_trailing_stop_limit :: "side \<Rightarrow> price \<Rightarrow> price \<Rightarrow> quantity \<Rightarrow> time_in_force \<Rightarrow> trail_method \<Rightarrow>
    exchange \<Rightarrow> (exchange \<times> stop_submit_result) run" where
  "submit_trailing_stop_limit s sp lp q tif tm ex =
     submit_trailing_stop_internal s sp (Some lp) q tif tm
       (log_event (SubmitTrailingStopLimit s sp lp q tif tm) ex)"

section \<open>Memory management\<close>

definition clear_trades :: "exchange \<Rightarrow> exchange" where
  "clear_trades ex = ex\<lparr>ex_trades := []\<rparr>"

definition clear_order_history :: "exchange \<Rightarrow> exchange \<times> nat" where
  "clear_order_history ex =
     (let (b, n) = book_clear_history (ex_book ex)
      in (ex\<lparr>ex_stop_book := stop_clear_history (ex_stop_book ex), ex_book := b\<rparr>, n))"

definition exchange_compact :: "exchange \<Rightarrow> exchange" where
  "exchange_compact ex = ex\<lparr>ex_book := book_compact (ex_book ex)\<rparr>"

section \<open>Queries\<close>

definition exchange_get_order :: "exchange \<Rightarrow> order_id \<Rightarrow> order option" where
  "exchange_get_order ex i = book_get_order (ex_book ex) i"

definition exchange_best_bid_ask :: "exchange \<Rightarrow> price option \<times> price option" where
  "exchange_best_bid_ask ex = best_bid_ask (ex_book ex)"

definition exchange_spread :: "exchange \<Rightarrow> int option" where
  "exchange_spread ex = book_spread (ex_book ex)"

definition get_stop_order :: "exchange \<Rightarrow> order_id \<Rightarrow> stop_order option" where
  "get_stop_order ex i = stop_get (ex_stop_book ex) i"

definition pending_stop_count :: "exchange \<Rightarrow> nat" where
  "pending_stop_count ex = stop_pending_count (ex_stop_book ex)"

end
