(* ===== verification/Event_Log.thy ===== *)
theory Event_Log
  imports Exchange
begin

text \<open>
  The event log and replay (\<open>src/event.rs\<close>). \<open>apply_event\<close> is \<open>Exchange::apply\<close>; \<open>replay\<close> starts
  from a new exchange and applies the events one by one.
\<close>

section \<open>Applying events\<close>

definition apply_internal :: "event \<Rightarrow> exchange \<Rightarrow> (exchange \<times> trade list) run" where
  "apply_internal e ex =
     (case e of
        SubmitLimit s p q tif \<Rightarrow>
          rbind (submit_limit_internal s p q tif ex)
            (\<lambda>(ex', r). rbind (after_trades (sr_trades r) ex') (\<lambda>ex''. ret (ex'', sr_trades r)))
      | SubmitMarket s q \<Rightarrow>
          rbind (submit_limit_internal s (market_price s) q IOC ex)
            (\<lambda>(ex', r). rbind (after_trades (sr_trades r) ex') (\<lambda>ex''. ret (ex'', sr_trades r)))
      | Cancel i \<Rightarrow> rbind (Some (cancel_internal i ex)) (\<lambda>(ex', _). ret (ex', []))
      | Modify i p q \<Rightarrow>
          rbind (modify_internal i p q ex)
            (\<lambda>(ex', r). rbind (after_trades (mo_trades r) ex') (\<lambda>ex''. ret (ex'', mo_trades r)))
      | SubmitStopMarket s sp q \<Rightarrow>
          rbind (submit_stop_internal s sp None q GTC ex) (\<lambda>(ex', _). ret (ex', []))
      | SubmitStopLimit s sp lp q tif \<Rightarrow>
          rbind (submit_stop_internal s sp (Some lp) q tif ex) (\<lambda>(ex', _). ret (ex', []))
      | SubmitTrailingStopMarket s sp q tm \<Rightarrow>
          rbind (submit_trailing_stop_internal s sp None q GTC tm ex) (\<lambda>(ex', _). ret (ex', []))
      | SubmitTrailingStopLimit s sp lp q tif tm \<Rightarrow>
          rbind (submit_trailing_stop_internal s sp (Some lp) q tif tm ex) (\<lambda>(ex', _). ret (ex', [])))"

definition apply_event :: "event \<Rightarrow> exchange \<Rightarrow> (exchange \<times> apply_result) run" where
  "apply_event e ex =
     rbind (apply_internal e (log_event e ex)) (\<lambda>(ex', ts). ret (ex', \<lparr>ar_trades = ts\<rparr>))"

fun apply_all :: "event list \<Rightarrow> exchange \<Rightarrow> (exchange \<times> trade list) run" where
  "apply_all [] ex = ret (ex, [])"
| "apply_all (e # es) ex =
     rbind (apply_event e ex)
       (\<lambda>(ex', r). rbind (apply_all es ex') (\<lambda>(ex'', ts). ret (ex'', ar_trades r @ ts)))"

fun replay_from :: "exchange \<Rightarrow> event list \<Rightarrow> exchange run" where
  "replay_from ex [] = ret ex"
| "replay_from ex (e # es) = rbind (apply_event e ex) (\<lambda>(ex', _). replay_from ex' es)"

definition replay :: "event list \<Rightarrow> exchange run" where
  "replay es = replay_from exchange_new es"

definition exchange_events :: "exchange \<Rightarrow> event list" where
  "exchange_events ex = ex_events ex"

definition clear_events :: "exchange \<Rightarrow> exchange" where
  "clear_events ex = ex\<lparr>ex_events := []\<rparr>"

section \<open>Calls of the public interface\<close>

text \<open>The public operation whose call an event records.\<close>

definition call :: "event \<Rightarrow> exchange \<Rightarrow> exchange run" where
  "call e ex =
     (case e of
        SubmitLimit s p q tif \<Rightarrow> rbind (submit_limit s p q tif ex) (\<lambda>(ex', _). ret ex')
      | SubmitMarket s q \<Rightarrow> rbind (submit_market s q ex) (\<lambda>(ex', _). ret ex')
      | Cancel i \<Rightarrow> rbind (Some (exchange_cancel i ex)) (\<lambda>(ex', _). ret ex')
      | Modify i p q \<Rightarrow> rbind (exchange_modify i p q ex) (\<lambda>(ex', _). ret ex')
      | SubmitStopMarket s sp q \<Rightarrow> rbind (submit_stop_market s sp q ex) (\<lambda>(ex', _). ret ex')
      | SubmitStopLimit s sp lp q tif \<Rightarrow> rbind (submit_stop_limit s sp lp q tif ex) (\<lambda>(ex', _). ret ex')
      | SubmitTrailingStopMarket s sp q tm \<Rightarrow> rbind (submit_trailing_stop_market s sp q tm ex) (\<lambda>(ex', _). ret ex')
      | SubmitTrailingStopLimit s sp lp q tif tm \<Rightarrow>
          rbind (submit_trailing_stop_limit s sp lp q tif tm ex) (\<lambda>(ex', _). ret ex'))"

fun calls :: "event list \<Rightarrow> exchange \<Rightarrow> exchange run" where
  "calls [] ex = ret ex"
| "calls (e # es) ex = rbind (call e ex) (calls es)"

text \<open>A call that leaves the same state as applying its event: everything but \<open>modify\<close>.\<close>

definition is_modify :: "event \<Rightarrow> bool" where
  "is_modify e = (case e of Modify _ _ _ \<Rightarrow> True | _ \<Rightarrow> False)"

lemma rbind_assoc: "rbind (rbind m f) g = rbind m (\<lambda>x. rbind (f x) g)"
  by (simp add: rbind_def split: option.splits sum.splits)

lemma rbind_cong: "m = m' \<Longrightarrow> (\<And>x. f x = g x) \<Longrightarrow> rbind m f = rbind m' g"
  by (auto simp: rbind_def split: option.splits sum.splits)

lemma rbind_prod: "rbind m (\<lambda>x. rbind (case x of (a, b) \<Rightarrow> f a b) g) = rbind m (\<lambda>(a, b). rbind (f a b) g)"
  by (rule rbind_cong) auto

lemma call_is_apply:
  assumes "\<not> is_modify e"
  shows "call e ex = rbind (apply_event e ex) (\<lambda>(ex', _). ret ex')"
  using assms
  by (cases e)
     (simp_all add: is_modify_def call_def apply_event_def apply_internal_def submit_limit_def submit_market_def
      exchange_cancel_def submit_stop_market_def submit_stop_limit_def submit_trailing_stop_market_def
      submit_trailing_stop_limit_def rbind_assoc rbind_prod case_prod_unfold)

lemma calls_replay_from:
  assumes "\<forall>e \<in> set es. \<not> is_modify e"
  shows "calls es ex = replay_from ex es"
  using assms
proof (induction es arbitrary: ex)
  case (Cons e es)
  then have "calls (e # es) ex = rbind (rbind (apply_event e ex) (\<lambda>(ex', _). ret ex')) (calls es)"
    by (simp add: call_is_apply)
  also have "\<dots> = rbind (apply_event e ex) (\<lambda>(ex', _). calls es ex')"
    by (simp add: rbind_assoc rbind_prod)
  finally show ?case using Cons by simp
qed simp

section \<open>What the log holds\<close>

text \<open>
  Only the public entry points write to the log: matching, triggering, cancellation and the
  insertion of stops leave it alone, so a sequence of calls logs exactly its own events.
\<close>

lemma settled_events:
  "(case R of Inl e \<Rightarrow> Some (Inl e)
    | Inr (b, status, resting, cancelled) \<Rightarrow> ret (ex\<lparr>ex_book := b, ex_trades := ts\<rparr>, g b status resting cancelled)) =
   ret (ex', r) \<Longrightarrow> ex_events ex' = ex_events ex"
  by (auto split: sum.splits)

lemma submit_internal_events:
  assumes "submit_limit_internal_with_owner s p q tif w ex = ret (ex', r)"
  shows "ex_events ex' = ex_events ex"
proof -
  obtain b x where "book_create_order s p q tif (ex_book ex) = (b, x)" by fastforce
  with assms show ?thesis
    by (auto simp: submit_limit_internal_with_owner_def rbind_eq_ret dest!: settled_events split: if_split_asm)
qed

lemma submit_triggered_events: "submit_triggered ts lp ex = ret (ex', lp') \<Longrightarrow> ex_events ex' = ex_events ex"
  by (induction ts lp ex rule: submit_triggered.induct)
     (auto simp: rbind_eq_ret submit_triggered_stop_def submit_limit_internal_def dest!: submit_internal_events split: option.splits)

lemma trigger_rounds_events: "trigger_rounds n ex = ret ex' \<Longrightarrow> ex_events ex' = ex_events ex"
proof (induction n arbitrary: ex)
  case (Suc n)
  then show ?case
    by (auto simp: Let_def rbind_eq_ret dest!: submit_triggered_events Suc.IH split: option.splits prod.splits if_splits)
qed simp

lemma after_trades_events: "after_trades ts ex = ret ex' \<Longrightarrow> ex_events ex' = ex_events ex"
  by (auto simp: after_trades_def process_trade_triggers_def dest!: trigger_rounds_events split: if_splits)

lemma cancel_internal_events: "cancel_internal i ex = Inr (ex', r) \<Longrightarrow> ex_events ex' = ex_events ex"
  by (auto simp: cancel_internal_def split: prod.splits bool.splits option.splits if_splits sum.splits)

lemma insert_stop_events: "insert_stop_order s sp lp q tif tm ex = ret (ex', r) \<Longrightarrow> ex_events ex' = ex_events ex"
  by (auto simp: insert_stop_order_def Let_def rbind_eq_ret process_trade_triggers_def dest!: trigger_rounds_events
      split: prod.splits option.splits side.splits if_splits)

lemmas internal_events =
  submit_internal_events after_trades_events cancel_internal_events insert_stop_events

lemma apply_internal_events:
  assumes "apply_internal e ex = ret (ex', ts)" and "\<not> is_modify e"
  shows "ex_events ex' = ex_events ex"
  using assms
  by (cases e)
     (auto simp: is_modify_def apply_internal_def rbind_eq_ret submit_limit_internal_def submit_stop_internal_def
      submit_trailing_stop_internal_def dest!: internal_events)

lemma replay_from_events:
  assumes "\<forall>e \<in> set es. \<not> is_modify e" and "replay_from ex es = ret ex'"
  shows "ex_events ex' = ex_events ex @ es"
  using assms
proof (induction es arbitrary: ex)
  case (Cons e es)
  from Cons.prems obtain ex1 r where
    "apply_event e ex = ret (ex1, r)" "replay_from ex1 es = ret ex'" by (auto simp: rbind_eq_ret)
  moreover from this Cons.prems have "ex_events ex1 = ex_events ex @ [e]"
    by (auto simp: apply_event_def rbind_eq_ret log_event_def dest!: apply_internal_events)
  ultimately show ?case using Cons by simp
qed simp

end
