(* ===== verification/Matching_Refine.thy ===== *)
theory Matching_Refine
  imports Matching
begin

text \<open>
  The engine implements the reference matcher. One iteration of the inner loop consumes the
  head of the abstract queue exactly as one unfolding of \<open>sweep\<close> does, so what \<open>sweep\<close> still
  has to do from the current state is an invariant of both loops (\<open>outcome_of\<close>), and the
  loops stop because each round shortens the queue or lowers the incoming quantity.
\<close>

section \<open>One iteration\<close>

lemma book_inv_set_side:
  assumes inv: "book_inv b" and pl': "side_inv (bk_orders b) s pl'"
    and ids: "set (side_ids pl') = set (side_ids (book_side b s))"
  shows "book_inv (book_set_side s pl' b)"
  using assms by (auto simp: book_inv_def index_inv_def)

lemma book_level_front_best:
  assumes inv: "book_inv b" and best: "pl_best (book_side b s) = Some p"
  obtains b1 x rest where "book_level_front s p b = (b1, Some (ord_id x))" and "book_inv b1"
    and "\<And>t. book_queue b1 t = book_queue b t" and "book_queue b s = x # rest" and "ord_price x = p"
    and "om_get (bk_orders b) (ord_id x) = Some x"
    and "bk_orders b1 = bk_orders b" and "bk_next_order_id b1 = bk_next_order_id b"
    and "bk_next_trade_id b1 = bk_next_trade_id b" and "bk_next_timestamp b1 = bk_next_timestamp b"
    and "book_side b1 (opposite s) = book_side b (opposite s)" and "pl_best (book_side b1 s) = Some p"
proof -
  let ?pl = "book_side b s"
  have side: "side_inv (bk_orders b) s ?pl" using inv by (rule book_inv_side)
  obtain l x js rest where l: "om_get (pl_levels ?pl) p = Some l" "level_inv (bk_orders b) s p l"
      "level_iter l = ord_id x # js" "side_queue (bk_orders b) ?pl = x # rest" "ord_price x = p"
      "om_get (bk_orders b) (ord_id x) = Some x"
    using queue_head [OF side best] by metis
  let ?l = "fst (level_front l)" and ?pl' = "pl_update_level p (\<lambda>_. fst (level_front l)) ?pl"
  have ok: "level_ok l" using l(2) by (simp add: level_inv_def)
  note f = level_front_ok [OF ok]
  have q: "side_queue (bk_orders b) ?pl' = side_queue (bk_orders b) ?pl"
    and i: "side_ids ?pl' = side_ids ?pl"
    using level_front_inv(2) [OF l(2)] f(2)
    by (rule_tac side_walk [OF side l(1) refl]; simp)+
  have "distinct (level_iter l)"
    using side by (rule_tac side_walk [OF side l(1) refl]) (simp add: side_inv_def)
  then have side': "side_inv (bk_orders b) s ?pl'"
    using side_inv_replace [OF side l(1) refl level_front_inv(1) [OF l(2)]] f by simp
  have front: "book_level_front s p b = (book_set_side s ?pl' b, Some (ord_id x))"
    using l(1,3) f(3) by (simp add: book_level_front_def)
  have "book_queue (book_set_side s ?pl' b) t = book_queue b t" for t
    using q by (simp add: book_queue_def)
  moreover have "book_inv (book_set_side s ?pl' b)"
    using inv side' i by (intro book_inv_set_side) simp_all
  moreover have "pl_best ?pl' = Some p" using best by (simp add: pl_update_level_def)
  ultimately show thesis
    using front l by (intro that [of "book_set_side s ?pl' b" x rest]) (simp_all add: book_queue_def)
qed

lemma filled_by_order_ok: "q \<le> ord_remaining x \<Longrightarrow> order_ok x \<Longrightarrow> order_ok (filled_by q x)"
  by (simp add: filled_by_def order_ok_def)

lemma filled_by_sel [simp]:
  "ord_id (filled_by q x) = ord_id x" "ord_side (filled_by q x) = ord_side x"
  "ord_price (filled_by q x) = ord_price x" "ord_tif (filled_by q x) = ord_tif x"
  "ord_owner (filled_by q x) = ord_owner x" "ord_remaining (filled_by q x) = ord_remaining x - q"
  "ord_filled (filled_by q x) = ord_filled x + q" "ord_original (filled_by q x) = ord_original x"
  by (simp_all add: filled_by_def)

lemma stp_cancelled_order_sel [simp]:
  "ord_id (stp_cancelled_order x) = ord_id x" "ord_side (stp_cancelled_order x) = ord_side x"
  "ord_price (stp_cancelled_order x) = ord_price x" "ord_tif (stp_cancelled_order x) = ord_tif x"
  "ord_owner (stp_cancelled_order x) = ord_owner x" "ord_remaining (stp_cancelled_order x) = 0"
  "ord_filled (stp_cancelled_order x) = ord_filled x"
  "ord_original (stp_cancelled_order x) = ord_original x"
  by (simp_all add: stp_cancelled_order_def)

lemma order_fill_filled_by:
  "q \<le> ord_remaining x \<Longrightarrow> order_ok x \<Longrightarrow> order_fill q x = Inr (filled_by q x)"
  by (simp add: order_fill_Inr filled_by_def)

text \<open>Settling the head of the queue after a fill of \<open>n\<close>.\<close>

lemma settle_head:
  assumes inv: "book_inv b" and best: "pl_best (book_side b s) = Some p"
    and q: "book_queue b s = x # rest" and n: "n \<le> ord_remaining x" "0 < n"
  defines "b' \<equiv> settle_level s p n (ord_remaining (filled_by n x) = 0)
                  (book_update_order (ord_id x) (\<lambda>_. filled_by n x) b)"
  shows "book_inv b'"
    and "book_queue b' s = (if n = ord_remaining x then rest else filled_by n x # rest)"
    and "bk_orders b' = om_update (ord_id x) (filled_by n) (bk_orders b)"
    and "book_side b' (opposite s) = book_side b (opposite s)"
    and "bk_next_order_id b' = bk_next_order_id b" and "bk_next_trade_id b' = bk_next_trade_id b"
    and "bk_next_timestamp b' = bk_next_timestamp b"
    and "om_get (pl_levels (book_side b' s)) p = None \<or> pl_best (book_side b' s) = Some p"
proof -
  let ?pl = "book_side b s" and ?x = "filled_by n x"
  let ?o = "om_update (ord_id x) (\<lambda>_. ?x) (bk_orders b)"
  have side: "side_inv (bk_orders b) s ?pl" using inv by (rule book_inv_side)
  have x: "x \<in> set (book_queue b s)" using q by simp
  note xf = book_queueD [OF inv x]
  have q': "side_queue (bk_orders b) ?pl = x # rest" using q by (simp add: book_queue_def)
  obtain l where l: "om_get (pl_levels ?pl) p = Some l" and px: "ord_price x = p"
    using queue_head [OF side best] q' by (metis list.inject)
  have ok: "om_ok (bk_orders b)" using inv by (simp add: book_inv_def index_inv_def)
  have orders: "?o = om_update (ord_id x) (filled_by n) (bk_orders b)"
    using xf(6) by (intro om_update_cong ok) auto
  note chg = book_inv_change [OF inv xf(6) xf(7), of ?x, simplified, OF _ filled_by_order_ok [OF n(1) xf(4)]]
  have "book_inv b' \<and> book_queue b' s = (if n = ord_remaining x then rest else ?x # rest) \<and>
        book_side b' (opposite s) = book_side b (opposite s) \<and>
        (om_get (pl_levels (book_side b' s)) p = None \<or> pl_best (book_side b' s) = Some p)"
  proof (cases "n = ord_remaining x")
    case True
    note ph = pop_head [where x' = ?x, OF side best l q' refl]
    show ?thesis
      using l True ph chg(1) [OF ph(1) ph(3)]
      by (simp add: b'_def settle_level_def book_queue_def Let_def)
  next
    case False
    have "resting_ok s p (ord_id x) ?x" "ord_remaining ?x + n = ord_remaining x"
      using xf px n False filled_by_order_ok [OF n(1) xf(4)]
      by (auto simp: resting_ok_def order_is_active_def filled_by_def)
    note dh = dec_head [OF side best l q' refl this]
    show ?thesis
      using l False dh chg(1) [OF dh(1)] xf(7) n
      by (simp add: b'_def settle_level_def book_queue_def Let_def)
  qed
  then show "book_inv b'" "book_queue b' s = (if n = ord_remaining x then rest else ?x # rest)"
    "book_side b' (opposite s) = book_side b (opposite s)"
    "om_get (pl_levels (book_side b' s)) p = None \<or> pl_best (book_side b' s) = Some p" by blast+
  show "bk_orders b' = om_update (ord_id x) (filled_by n) (bk_orders b)"
    using l orders by (simp add: b'_def settle_level_def Let_def)
  show "bk_next_order_id b' = bk_next_order_id b" "bk_next_trade_id b' = bk_next_trade_id b"
    "bk_next_timestamp b' = bk_next_timestamp b"
    using l by (simp_all add: b'_def settle_level_def Let_def)
qed

section \<open>The loop invariant\<close>

definition apply_fills :: "fill list \<Rightarrow> (order_id, order) omap \<Rightarrow> (order_id, order) omap" where
  "apply_fills fs ords = fold (\<lambda>(rid, _, q). om_update rid (filled_by q)) fs ords"

abbreviation next_counter :: "nat \<Rightarrow> nat" where
  "next_counter n \<equiv> u64_add n 1"

text \<open>
  Everything the reference matcher would produce from a state of the loops: the trades, the
  incoming order, the self-trade flag, the opposite queue, the two counters and the index.
\<close>

definition outcome_of :: "stp_policy \<Rightarrow> match_state \<Rightarrow>
    trade list \<times> order \<times> bool \<times> order list \<times> nat \<times> nat \<times> (order_id, order) omap" where
  "outcome_of policy = (\<lambda>(b, inc, res).
     case sweep policy inc (book_queue b (opposite (ord_side inc))) of
       (fs, inc', c, q) \<Rightarrow>
         (mr_trades res @ fill_trades (bk_next_trade_id b) (bk_next_timestamp b) (ord_id inc) (ord_side inc) fs,
          inc', mr_stp_cancelled res \<or> c, q,
          (next_counter ^^ length fs) (bk_next_trade_id b),
          (next_counter ^^ length fs) (bk_next_timestamp b),
          apply_fills fs (bk_orders b)))"

definition match_inv :: "stp_policy \<Rightarrow> match_state \<Rightarrow> match_state \<Rightarrow> bool" where
  "match_inv policy = (\<lambda>(b0, inc0, res0) (b, inc, res).
     book_inv b \<and> order_ok inc \<and> ord_side inc = ord_side inc0 \<and> ord_price inc = ord_price inc0 \<and>
     stp_safe policy inc (book_queue b (opposite (ord_side inc))) \<and>
     outcome_of policy (b, inc, res) = outcome_of policy (b0, inc0, res0) \<and>
     book_side b (ord_side inc) = book_side b0 (ord_side inc0) \<and>
     bk_next_order_id b = bk_next_order_id b0)"

fun match_size :: "match_state \<Rightarrow> nat" where
  "match_size (b, inc, res) = length (book_queue b (opposite (ord_side inc))) + ord_remaining inc"

lemma stp_safe_tl: "stp_safe policy inc (x # q) \<Longrightarrow> stp_safe policy inc q"
  by (auto simp: stp_safe_def)

lemma stp_safe_conflict:
  "stp_safe policy inc (x # q) \<Longrightarrow> stp_conflict (ord_owner inc) (ord_owner x) policy \<Longrightarrow>
   policy = CancelNewest \<or> policy = DecrementAndCancel \<and> ord_remaining inc < ord_remaining x"
  by (auto simp: stp_safe_def stp_conflict_def split: option.splits)

lemma stp_safe_shrink:
  "stp_safe policy inc q \<Longrightarrow> ord_owner inc' = ord_owner inc \<Longrightarrow> ord_remaining inc' \<le> ord_remaining inc \<Longrightarrow>
   stp_safe policy inc' q"
  unfolding stp_safe_def by fastforce

lemma stp_safe_no_conflict:
  "stp_safe policy inc (x # q) \<Longrightarrow> \<not> stp_conflict (ord_owner inc) (ord_owner y) policy \<Longrightarrow>
   stp_safe policy inc (y # q)"
  unfolding stp_safe_def by auto

lemma funpow_next_counter:
  "((\<lambda>n. u64_add n (Suc 0)) ^^ Suc n) k = ((\<lambda>n. u64_add n (Suc 0)) ^^ n) (u64_add k (Suc 0))"
  by (simp only: funpow_Suc_right comp_apply)

lemma outcome_fill:
  assumes q: "book_queue b (opposite (ord_side inc)) = x # rest" and rem: "0 < ord_remaining inc"
    and cross: "prices_cross (ord_side inc) (ord_price inc) (ord_price x)"
    and nc: "\<not> stp_conflict (ord_owner inc) (ord_owner x) policy"
    and n: "n = min (ord_remaining inc) (ord_remaining x)"
    and q': "book_queue b' (opposite (ord_side inc)) = (if n = ord_remaining x then rest else filled_by n x # rest)"
    and o': "bk_orders b' = om_update (ord_id x) (filled_by n) (bk_orders b)"
    and ids: "bk_next_trade_id b' = next_counter (bk_next_trade_id b)"
      "bk_next_timestamp b' = next_counter (bk_next_timestamp b)"
    and t: "t = trade_new (bk_next_trade_id b) (ord_price x) n (ord_id inc) (ord_id x) (ord_side inc) (bk_next_timestamp b)"
  shows "outcome_of policy (b', filled_by n inc, res\<lparr>mr_trades := mr_trades res @ [t]\<rparr>) =
         outcome_of policy (b, inc, res)"
proof (cases "ord_remaining x \<le> ord_remaining inc")
  case True
  then have n: "n = ord_remaining x" using n by simp
  obtain fs inc' c rs' where sw: "sweep policy (filled_by n inc) rest = (fs, inc', c, rs')"
    by (cases "sweep policy (filled_by n inc) rest") auto
  with True have "sweep policy inc (x # rest) = ((ord_id x, ord_price x, n) # fs, inc', c, rs')"
    using rem cross nc n by (simp add: Let_def min_def)
  with sw q q' o' ids t n show ?thesis
    by (simp add: outcome_of_def apply_fills_def funpow_next_counter del: funpow.simps)
next
  case False
  then have n: "n = ord_remaining inc" "n < ord_remaining x" using n by auto
  have "sweep policy inc (x # rest) = ([(ord_id x, ord_price x, n)], filled_by n inc, False, filled_by n x # rest)"
    using False rem cross nc n by (simp add: Let_def min_def)
  moreover have "sweep policy (filled_by n inc) (filled_by n x # rest) = ([], filled_by n inc, False, filled_by n x # rest)"
    using n by simp
  ultimately show ?thesis using q q' o' ids t n(2)
    by (simp add: outcome_of_def apply_fills_def)
qed

text \<open>A fill against the head of the queue is one unfolding of the reference matcher.\<close>

lemma execute_fill_step:
  assumes inv: "match_inv policy st0 (b, inc, res)" and rem: "0 < ord_remaining inc"
    and best: "pl_best (book_side b (opposite (ord_side inc))) = Some p"
    and cross: "prices_cross (ord_side inc) (ord_price inc) p"
    and q: "book_queue b (opposite (ord_side inc)) = x # rest" and px: "ord_price x = p"
    and nc: "\<not> stp_conflict (ord_owner inc) (ord_owner x) policy"
  obtains b' inc' res' where
    "execute_fill p (ord_id x) (ord_remaining x) (b, inc, res) = Next (b', inc', res')"
    and "match_inv policy st0 (b', inc', res')" and "mr_stp_cancelled res' = mr_stp_cancelled res"
    and "match_size (b', inc', res') < match_size (b, inc, res)"
    and "om_get (pl_levels (book_side b' (opposite (ord_side inc')))) p = None \<or>
         pl_best (book_side b' (opposite (ord_side inc'))) = Some p"
proof -
  let ?s = "opposite (ord_side inc)" and ?n = "min (ord_remaining inc) (ord_remaining x)"
  obtain b0 inc0 res0 where st0: "st0 = (b0, inc0, res0)" by (cases st0)
  have bi: "book_inv b" and oki: "order_ok inc" using inv by (auto simp: match_inv_def st0)
  have x: "x \<in> set (book_queue b ?s)" using q by simp
  note xf = book_queueD [OF bi x]
  let ?b2 = "b\<lparr>bk_next_trade_id := next_counter (bk_next_trade_id b),
               bk_next_timestamp := next_counter (bk_next_timestamp b)\<rparr>"
  let ?b' = "settle_level ?s p ?n (ord_remaining (filled_by ?n x) = 0)
               (book_update_order (ord_id x) (\<lambda>_. filled_by ?n x) ?b2)"
  let ?t = "trade_new (bk_next_trade_id b) p ?n (ord_id inc) (ord_id x) (ord_side inc) (bk_next_timestamp b)"
  let ?res = "res\<lparr>mr_trades := mr_trades res @ [?t]\<rparr>" and ?inc = "filled_by ?n inc"
  have n: "?n \<le> ord_remaining x" "0 < ?n" using rem xf(3) by auto
  have b2: "book_inv ?b2" "pl_best (book_side ?b2 ?s) = Some p" "book_queue ?b2 ?s = x # rest"
    using bi best q by simp_all
  note sh = settle_head [OF b2 n]
  have exec: "execute_fill p (ord_id x) (ord_remaining x) (b, inc, res) = Next (?b', ?inc, ?res)"
    using oki xf(4,6) n
    by (simp add: execute_fill_def book_take_trade_id_def book_take_timestamp_def book_get_order_def
        order_fill_filled_by Let_def)
  have out: "outcome_of policy (?b', ?inc, ?res) = outcome_of policy (b, inc, res)"
    by (rule outcome_fill [OF q rem _ nc refl]) (use sh(2,3,6,7) cross px in simp_all)
  have safe: "stp_safe policy ?inc (book_queue ?b' ?s)"
  proof -
    have s0: "stp_safe policy inc (x # rest)" using inv q by (simp add: match_inv_def st0)
    have "stp_safe policy inc (book_queue ?b' ?s)"
      unfolding sh(2) using stp_safe_tl [OF s0] stp_safe_no_conflict [OF s0, of "filled_by ?n x"] nc
      by (cases "?n = ord_remaining x") (simp_all only: if_True if_False filled_by_sel simp_thms)
    then show ?thesis by (rule stp_safe_shrink) simp_all
  qed
  have mi: "match_inv policy st0 (?b', ?inc, ?res)"
    using inv sh(1,4,5) out safe filled_by_order_ok [OF _ oki, of ?n]
    by (auto simp: match_inv_def st0)
  have sz: "match_size (?b', ?inc, ?res) < match_size (b, inc, res)"
    using sh(2) q n by auto
  show thesis by (rule that [OF exec mi _ sz]) (use sh(8) in simp_all)
qed

lemma stp_cancel_step:
  assumes inv: "match_inv policy st0 (b, inc, res)" and rem: "0 < ord_remaining inc"
    and cross: "prices_cross (ord_side inc) (ord_price inc) (ord_price x)"
    and q: "book_queue b (opposite (ord_side inc)) = x # rest"
    and c: "stp_conflict (ord_owner inc) (ord_owner x) policy"
    and newest: "policy = CancelNewest \<or> policy = DecrementAndCancel \<and> ord_remaining inc < ord_remaining x"
  shows "match_inv policy st0 (b, stp_cancelled_order inc, res\<lparr>mr_stp_cancelled := True\<rparr>)"
    and "stp_cancel_incoming (b, inc, res) =
           Stop (b, stp_cancelled_order inc, res\<lparr>mr_stp_cancelled := True\<rparr>)"
proof -
  obtain b0 inc0 res0 where st0: "st0 = (b0, inc0, res0)" by (cases st0)
  have "outcome_of policy (b, stp_cancelled_order inc, res\<lparr>mr_stp_cancelled := True\<rparr>) =
        outcome_of policy (b, inc, res)"
    using rem cross q c newest by (auto simp: outcome_of_def apply_fills_def)
  moreover have "stp_safe policy (stp_cancelled_order inc) (book_queue b (opposite (ord_side inc)))"
    by (rule stp_safe_shrink [of policy inc]) (use inv in \<open>auto simp: match_inv_def st0\<close>)
  ultimately show "match_inv policy st0 (b, stp_cancelled_order inc, res\<lparr>mr_stp_cancelled := True\<rparr>)"
    using inv by (auto simp: match_inv_def st0 order_ok_def)
  show "stp_cancel_incoming (b, inc, res) =
           Stop (b, stp_cancelled_order inc, res\<lparr>mr_stp_cancelled := True\<rparr>)"
    by (simp add: stp_cancel_incoming_def order_stp_decrement_all stp_cancelled_order_def)
qed

section \<open>The inner loop\<close>

text \<open>
  The invariant of the inner loop at price \<open>p\<close>: as long as a level exists at \<open>p\<close>, that level
  is the best one.
\<close>

definition at_price_inv :: "stp_policy \<Rightarrow> price \<Rightarrow> match_state \<Rightarrow> match_state \<Rightarrow> bool" where
  "at_price_inv policy p st0 = (\<lambda>(b, inc, res).
     match_inv policy st0 (b, inc, res) \<and> \<not> mr_stp_cancelled res \<and>
     prices_cross (ord_side inc) (ord_price inc) p \<and>
     (let pl = book_side b (opposite (ord_side inc))
      in om_get (pl_levels pl) p = None \<or> pl_best pl = Some p))"

definition at_price_post :: "stp_policy \<Rightarrow> price \<Rightarrow> match_state \<Rightarrow> match_state \<Rightarrow> bool" where
  "at_price_post policy p st0 = (\<lambda>(b, inc, res).
     match_inv policy st0 (b, inc, res) \<and>
     (mr_stp_cancelled res \<longrightarrow> ord_remaining inc = 0) \<and>
     (mr_stp_cancelled res \<or> ord_remaining inc = 0 \<or>
      om_get (pl_levels (book_side b (opposite (ord_side inc)))) p = None))"

lemma match_inv_front:
  assumes "match_inv policy st0 (b, inc, res)"
    and "\<And>t. book_queue b1 t = book_queue b t" and "book_inv b1" and "bk_orders b1 = bk_orders b"
    and "bk_next_order_id b1 = bk_next_order_id b" and "bk_next_trade_id b1 = bk_next_trade_id b"
    and "bk_next_timestamp b1 = bk_next_timestamp b"
    and "book_side b1 (ord_side inc) = book_side b (ord_side inc)"
  shows "match_inv policy st0 (b1, inc, res)"
  using assms by (cases st0) (auto simp: match_inv_def outcome_of_def)

lemma at_price_body_step:
  assumes inv: "at_price_inv policy p st0 st"
  shows "(\<exists>st'. match_at_price_body p policy st = Some (Next st') \<and> at_price_inv policy p st0 st' \<and>
                match_size st' < match_size st)
       \<or> (\<exists>st'. match_at_price_body p policy st = Some (Stop st') \<and> at_price_post policy p st0 st' \<and>
                (mr_stp_cancelled (snd (snd st')) \<or> st' = st))"
proof -
  obtain b inc res where st: "st = (b, inc, res)" by (cases st)
  let ?s = "opposite (ord_side inc)"
  have mi: "match_inv policy st0 (b, inc, res)" and ns: "\<not> mr_stp_cancelled res"
    and cross: "prices_cross (ord_side inc) (ord_price inc) p"
    using inv by (auto simp: at_price_inv_def st)
  have bi: "book_inv b" using mi by (cases st0) (simp add: match_inv_def)
  show ?thesis
  proof (cases "0 < ord_remaining inc \<and> om_get (pl_levels (book_side b ?s)) p \<noteq> None")
    case False
    then have "match_at_price_body p policy st = Some (Stop (b, inc, res))"
      by (auto simp: match_at_price_body_def st book_level_front_def)
    then show ?thesis using mi ns False by (auto simp: at_price_post_def st)
  next
    case True
    then have best: "pl_best (book_side b ?s) = Some p" using inv by (auto simp: at_price_inv_def st Let_def)
    obtain b1 x rest where f: "book_level_front ?s p b = (b1, Some (ord_id x))" "book_inv b1"
        "\<And>t. book_queue b1 t = book_queue b t" "book_queue b ?s = x # rest" "ord_price x = p"
        "om_get (bk_orders b) (ord_id x) = Some x" "bk_orders b1 = bk_orders b"
        "bk_next_order_id b1 = bk_next_order_id b" "bk_next_trade_id b1 = bk_next_trade_id b"
        "bk_next_timestamp b1 = bk_next_timestamp b" "book_side b1 (ord_side inc) = book_side b (ord_side inc)"
        "pl_best (book_side b1 ?s) = Some p"
      using book_level_front_best [OF bi best] by (metis opposite_involution)
    have mi1: "match_inv policy st0 (b1, inc, res)"
      using match_inv_front [OF mi f(3,2,7,8,9,10,11)] .
    have q1: "book_queue b1 ?s = x # rest" using f(3,4) by simp
    have body: "match_at_price_body p policy st =
        (if stp_conflict (ord_owner inc) (ord_owner x) policy
         then Some (stp_resolve policy (ord_id x) (ord_remaining x) (b1, inc, res))
         else Some (execute_fill p (ord_id x) (ord_remaining x) (b1, inc, res)))"
      using True f(1,6,7) by (simp add: match_at_price_body_def st book_get_order_def)
    show ?thesis
    proof (cases "stp_conflict (ord_owner inc) (ord_owner x) policy")
      case c: True
      have "stp_safe policy inc (x # rest)" using mi1 q1 by (cases st0) (simp add: match_inv_def)
      note newest = stp_safe_conflict [OF this c]
      with stp_cancel_step [OF mi1 _ _ q1 c] True cross f(5) body c
      show ?thesis by (auto simp: stp_resolve_def at_price_post_def)
    next
      case False
      obtain b' inc' res' where e: "execute_fill p (ord_id x) (ord_remaining x) (b1, inc, res) = Next (b', inc', res')"
          "match_inv policy st0 (b', inc', res')" "mr_stp_cancelled res' = mr_stp_cancelled res"
          "match_size (b', inc', res') < match_size (b1, inc, res)"
          "om_get (pl_levels (book_side b' (opposite (ord_side inc')))) p = None \<or>
           pl_best (book_side b' (opposite (ord_side inc'))) = Some p"
        using execute_fill_step [OF mi1 _ f(12) cross q1 f(5) False] True by metis
      have "ord_side inc' = ord_side inc" "ord_price inc' = ord_price inc"
        using e(2) mi by (cases st0; simp add: match_inv_def)+
      with e body False ns cross f(3) show ?thesis by (auto simp: at_price_inv_def st Let_def)
    qed
  qed
qed

lemma match_at_price_total:
  assumes "at_price_inv policy p st0 st"
  shows "\<exists>t. match_at_price p policy st = ret t \<and> at_price_post policy p st0 t \<and>
             (mr_stp_cancelled (snd (snd t)) \<or> t = st \<or> match_size t < match_size st)"
  unfolding match_at_price_def
proof (rule loop_total [where I = "\<lambda>t. at_price_inv policy p st0 t \<and> (t = st \<or> match_size t < match_size st)"
      and m = match_size])
  fix t assume t: "at_price_inv policy p st0 t \<and> (t = st \<or> match_size t < match_size st)"
  show "(\<exists>t'. match_at_price_body p policy t = Some (Next t') \<and>
          (at_price_inv policy p st0 t' \<and> (t' = st \<or> match_size t' < match_size st)) \<and> match_size t' < match_size t)
      \<or> (\<exists>t'. match_at_price_body p policy t = Some (Stop t') \<and> at_price_post policy p st0 t' \<and>
          (mr_stp_cancelled (snd (snd t')) \<or> t' = st \<or> match_size t' < match_size st))"
    using at_price_body_step [of policy p st0 t] t less_trans by blast
qed (use assms in simp)

section \<open>The outer loop\<close>

definition match_done :: "stp_policy \<Rightarrow> match_state \<Rightarrow> match_state \<Rightarrow> bool" where
  "match_done policy st0 = (\<lambda>(b, inc, res). match_inv policy st0 (b, inc, res) \<and>
     sweep policy inc (book_queue b (opposite (ord_side inc))) =
       ([], inc, False, book_queue b (opposite (ord_side inc))))"

lemma sweep_idle:
  "ord_remaining inc = 0 \<or> q = [] \<or> \<not> prices_cross (ord_side inc) (ord_price inc) (ord_price (hd q)) \<Longrightarrow>
   sweep policy inc q = ([], inc, False, q)"
  by (cases q) auto

lemma match_body_step:
  assumes inv: "match_inv policy st0 st" and ns: "\<not> mr_stp_cancelled (snd (snd st))"
  shows "(\<exists>st'. match_order_body policy st = Some (Next st') \<and>
                (match_inv policy st0 st' \<and> \<not> mr_stp_cancelled (snd (snd st'))) \<and> match_size st' < match_size st)
       \<or> (\<exists>st'. match_order_body policy st = Some (Stop st') \<and> match_done policy st0 st')"
proof -
  obtain b inc res where st: "st = (b, inc, res)" by (cases st)
  let ?s = "opposite (ord_side inc)"
  have bi: "book_inv b" using inv by (cases st0) (simp add: match_inv_def st)
  have best: "pl_best (book_side b ?s) = (case book_queue b ?s of [] \<Rightarrow> None | x # _ \<Rightarrow> Some (ord_price x))"
    using best_queue_head [OF book_inv_side [OF bi]] by (simp add: book_queue_def)
  show ?thesis
  proof (cases "0 < ord_remaining inc \<and> book_queue b ?s \<noteq> [] \<and>
                prices_cross (ord_side inc) (ord_price inc) (ord_price (hd (book_queue b ?s)))")
    case False
    then have "match_order_body policy st = Some (Stop (b, inc, res))"
      using best by (auto simp: match_order_body_def st book_opposite_side_def split: list.splits)
    moreover have "sweep policy inc (book_queue b ?s) = ([], inc, False, book_queue b ?s)"
      using False by (intro sweep_idle) auto
    ultimately show ?thesis using inv by (auto simp: match_done_def st)
  next
    case True
    then obtain x rest where q: "book_queue b ?s = x # rest" by (cases "book_queue b ?s") auto
    let ?p = "ord_price x"
    have bp: "pl_best (book_side b ?s) = Some ?p" using best q by simp
    have "at_price_inv policy ?p st0 st"
      using inv ns True q bp by (auto simp: at_price_inv_def st Let_def)
    then obtain b' inc' res' where t: "match_at_price ?p policy st = ret (b', inc', res')"
        "at_price_post policy ?p st0 (b', inc', res')"
        "mr_stp_cancelled res' \<or> (b', inc', res') = st \<or> match_size (b', inc', res') < match_size st"
      using match_at_price_total by (metis prod_cases3 snd_conv)
    have body: "match_order_body policy st =
        Some (if mr_stp_cancelled res' then Stop (b', inc', res') else Next (b', inc', res'))"
      using True q bp t(1) by (simp add: match_order_body_def st book_opposite_side_def)
    obtain l where "om_get (pl_levels (book_side b ?s)) ?p = Some l"
      using queue_head [OF book_inv_side [OF bi] bp] by metis
    then have "\<not> mr_stp_cancelled res' \<Longrightarrow> (b', inc', res') \<noteq> st"
      using t(2) True by (auto simp: at_price_post_def st)
    then show ?thesis
      using t(2,3) body sweep_idle [of inc' "book_queue b' (opposite (ord_side inc'))" policy]
      by (cases "mr_stp_cancelled res'") (auto simp: at_price_post_def match_done_def)
  qed
qed

section \<open>The engine implements the reference matcher\<close>

lemma match_order_refines:
  assumes inv: "book_inv b" and ok: "order_ok inc"
    and safe: "stp_safe policy inc (book_queue b (opposite (ord_side inc)))"
    and sw: "sweep policy inc (book_queue b (opposite (ord_side inc))) = (fs, inc', c, q')"
  obtains b' res where "match_order_with_policy inc policy b = ret (b', inc', res)"
    and "book_inv b'" and "mr_stp_cancelled res = c" and "mr_remaining res = ord_remaining inc'"
    and "mr_trades res = fill_trades (bk_next_trade_id b) (bk_next_timestamp b) (ord_id inc) (ord_side inc) fs"
    and "book_queue b' (opposite (ord_side inc)) = q'"
    and "book_side b' (ord_side inc) = book_side b (ord_side inc)"
    and "bk_orders b' = apply_fills fs (bk_orders b)"
    and "bk_next_order_id b' = bk_next_order_id b"
    and "bk_next_trade_id b' = (next_counter ^^ length fs) (bk_next_trade_id b)"
    and "bk_next_timestamp b' = (next_counter ^^ length fs) (bk_next_timestamp b)"
proof -
  let ?res0 = "\<lparr>mr_trades = [], mr_remaining = ord_remaining inc, mr_stp_cancelled = False\<rparr>"
  let ?st0 = "(b, inc, ?res0)"
  have "\<exists>t. loop (match_order_body policy) ?st0 = ret t \<and> match_done policy ?st0 t"
  proof (rule loop_total [where m = match_size
        and I = "\<lambda>t. match_inv policy ?st0 t \<and> \<not> mr_stp_cancelled (snd (snd t))"])
    show "match_inv policy ?st0 ?st0 \<and> \<not> mr_stp_cancelled (snd (snd ?st0))"
      using inv ok safe by (simp add: match_inv_def)
  qed (use match_body_step in blast)
  then obtain b' i r where t: "loop (match_order_body policy) ?st0 = ret (b', i, r)"
      "match_done policy ?st0 (b', i, r)"
    by (metis prod_cases3)
  then have out: "(mr_trades r, i, mr_stp_cancelled r, book_queue b' (opposite (ord_side i)),
                   bk_next_trade_id b', bk_next_timestamp b', bk_orders b') = outcome_of policy ?st0"
    and side: "ord_side i = ord_side inc"
    by (auto simp: match_done_def match_inv_def outcome_of_def apply_fills_def)
  show thesis
    by (rule that [of b' "r\<lparr>mr_remaining := ord_remaining i\<rparr>"])
       (use t out side sw in \<open>auto simp: match_order_with_policy_def outcome_of_def match_done_def match_inv_def\<close>)
qed

end
