(* ===== verification/Sweep.thy ===== *)
theory Sweep
  imports Matching_Refine
begin

text \<open>
  What the reference matcher does: the incoming order keeps its identity, quantity is
  conserved, fills follow the priority queue and stay within the limit price, and the walk
  ends because the order is done, the queue is empty or its head is out of reach. All facts
  are about \<open>sweep\<close>; \<open>match_order_refines\<close> carries them over to the engine.
\<close>

abbreviation fill_qty :: "fill list \<Rightarrow> quantity" where
  "fill_qty fs \<equiv> sum_list (map (\<lambda>(_, _, q). q) fs)"

definition crosses :: "order \<Rightarrow> order \<Rightarrow> bool" where
  "crosses inc r = prices_cross (ord_side inc) (ord_price inc) (ord_price r)"

abbreviation all_live :: "order list \<Rightarrow> bool" where
  "all_live q \<equiv> \<forall>r \<in> set q. 0 < ord_remaining r"

lemma crosses_filled_by [simp]: "crosses (filled_by n inc) = crosses inc"
  by (simp add: crosses_def [abs_def])

section \<open>Induction over a run\<close>

text \<open>The shape of a run of \<open>sweep\<close>: its end, or one step and the rest of the run.\<close>

lemma sweep_run_induct [consumes 1, case_names Empty Stop Kill Skip Part Full]:
  assumes run: "sweep policy inc q = (fs, inc', c, q')"
    and "\<And>inc. P inc [] [] inc False []"
    and "\<And>inc r rs. ord_remaining inc = 0 \<or> \<not> crosses inc r \<Longrightarrow> P inc (r # rs) [] inc False (r # rs)"
    and "\<And>inc r rs. 0 < ord_remaining inc \<Longrightarrow> crosses inc r \<Longrightarrow> stp_conflict (ord_owner inc) (ord_owner r) policy \<Longrightarrow>
           P inc (r # rs) [] (stp_cancelled_order inc) True (r # rs)"
    and "\<And>inc r rs fs inc' c q'. 0 < ord_remaining inc \<Longrightarrow> crosses inc r \<Longrightarrow> stp_conflict (ord_owner inc) (ord_owner r) policy \<Longrightarrow>
           policy \<noteq> CancelNewest \<Longrightarrow> policy = DecrementAndCancel \<longrightarrow> ord_remaining r \<le> ord_remaining inc \<Longrightarrow>
           sweep policy inc rs = (fs, inc', c, q') \<Longrightarrow> P inc rs fs inc' c q' \<Longrightarrow>
           P inc (r # rs) fs inc' c q'"
    and "\<And>inc r rs. 0 < ord_remaining inc \<Longrightarrow> crosses inc r \<Longrightarrow> \<not> stp_conflict (ord_owner inc) (ord_owner r) policy \<Longrightarrow>
           ord_remaining inc < ord_remaining r \<Longrightarrow>
           P inc (r # rs) [(ord_id r, ord_price r, ord_remaining inc)] (filled_by (ord_remaining inc) inc) False
             (filled_by (ord_remaining inc) r # rs)"
    and "\<And>inc r rs fs inc' c q'. 0 < ord_remaining inc \<Longrightarrow> crosses inc r \<Longrightarrow> \<not> stp_conflict (ord_owner inc) (ord_owner r) policy \<Longrightarrow>
           ord_remaining r \<le> ord_remaining inc \<Longrightarrow>
           sweep policy (filled_by (ord_remaining r) inc) rs = (fs, inc', c, q') \<Longrightarrow>
           P (filled_by (ord_remaining r) inc) rs fs inc' c q' \<Longrightarrow>
           P inc (r # rs) ((ord_id r, ord_price r, ord_remaining r) # fs) inc' c q'"
  shows "P inc q fs inc' c q'"
  using run
proof (induction q arbitrary: inc fs)
  case Nil
  then show ?case using assms(2) by simp
next
  case (Cons r rs)
  show ?case
  proof (cases "ord_remaining inc = 0 \<or> \<not> crosses inc r")
    case True
    then show ?thesis using Cons.prems assms(3) by (auto simp: crosses_def)
  next
    case go: False
    show ?thesis
    proof (cases "stp_conflict (ord_owner inc) (ord_owner r) policy")
      case True
      then show ?thesis
        using go Cons.prems assms(4,5) [of inc r] Cons.IH
        by (cases "policy = CancelNewest \<or> policy = DecrementAndCancel \<and> ord_remaining inc < ord_remaining r")
           (auto simp: crosses_def)
    next
      case ok: False
      show ?thesis
      proof (cases "ord_remaining r \<le> ord_remaining inc")
        case True
        then obtain fs1 where "sweep policy (filled_by (ord_remaining r) inc) rs = (fs1, inc', c, q')"
            "fs = (ord_id r, ord_price r, ord_remaining r) # fs1"
          using go ok Cons.prems by (auto simp: crosses_def Let_def split: prod.splits)
        then show ?thesis using go ok True Cons.IH assms(7) by simp
      next
        case False
        then show ?thesis using go ok Cons.prems assms(6) by (auto simp: crosses_def Let_def)
      qed
    qed
  qed
qed

section \<open>The incoming order\<close>

lemma sweep_incoming:
  assumes "sweep policy inc q = (fs, inc', c, q')"
  shows "ord_id inc' = ord_id inc" and "ord_side inc' = ord_side inc" and "ord_price inc' = ord_price inc"
    and "ord_tif inc' = ord_tif inc" and "ord_owner inc' = ord_owner inc" and "ord_original inc' = ord_original inc"
  using assms by (induction rule: sweep_run_induct) auto

lemma sweep_conserves:
  assumes "sweep policy inc q = (fs, inc', c, q')"
  shows "ord_filled inc' = ord_filled inc + fill_qty fs" and "fill_qty fs \<le> ord_remaining inc"
    and "ord_remaining inc' = (if c then 0 else ord_remaining inc - fill_qty fs)"
  using assms by (induction rule: sweep_run_induct) auto

lemma sweep_order_ok:
  assumes "sweep policy inc q = (fs, inc', c, q')" and "order_ok inc"
  shows "order_ok inc'"
  using assms
  by (induction rule: sweep_run_induct)
     (auto simp: filled_by_order_ok, auto simp: order_ok_def stp_cancelled_order_def)

lemma sweep_status:
  assumes "sweep policy inc q = (fs, inc', c, q')"
  shows "ord_status inc' = (if c then Cancelled else if fs = [] then ord_status inc
                            else if ord_remaining inc' = 0 then Filled else PartiallyFilled)"
  using assms
proof (induction rule: sweep_run_induct)
  case (Full inc r rs fs inc' c q')
  then show ?case using sweep_conserves [OF Full.hyps(5)] by (auto simp: filled_by_def)
qed (auto simp: filled_by_def stp_cancelled_order_def)

section \<open>Fills\<close>

lemma sweep_fills_cross:
  assumes "sweep policy inc q = (fs, inc', c, q')" and "all_live q" and "(i, p, n) \<in> set fs"
  shows "\<exists>r \<in> set q. i = ord_id r \<and> p = ord_price r \<and> crosses inc r \<and> 0 < n \<and> n \<le> ord_remaining r \<and>
                  \<not> stp_conflict (ord_owner inc) (ord_owner r) policy"
  using assms by (induction rule: sweep_run_induct) auto

text \<open>
  Price-time priority: the fills are taken from the head of the queue, in its order, each
  but the last one to the end; an order is only reached when all before it are gone.
\<close>

definition priority_fills :: "order list \<Rightarrow> fill list \<Rightarrow> order list \<Rightarrow> bool" where
  "priority_fills q fs q' \<longleftrightarrow>
     (\<exists>xs ys. q = xs @ ys \<and> q' = ys \<and> fs = map (\<lambda>r. (ord_id r, ord_price r, ord_remaining r)) xs) \<or>
     (\<exists>xs r ys k. q = xs @ r # ys \<and> 0 < k \<and> k < ord_remaining r \<and> q' = filled_by k r # ys \<and>
        fs = map (\<lambda>r. (ord_id r, ord_price r, ord_remaining r)) xs @ [(ord_id r, ord_price r, k)])"

lemma priority_fills_Cons:
  assumes "priority_fills rs fs q'"
  shows "priority_fills (r # rs) ((ord_id r, ord_price r, ord_remaining r) # fs) q'"
  using assms unfolding priority_fills_def [of rs]
proof (elim disjE exE conjE)
  fix xs ys assume "rs = xs @ ys" "q' = ys" "fs = map (\<lambda>r. (ord_id r, ord_price r, ord_remaining r)) xs"
  then show ?thesis
    unfolding priority_fills_def by (intro disjI1 exI [of _ "r # xs"] exI [of _ ys]) simp
next
  fix xs r' ys k
  assume "rs = xs @ r' # ys" "0 < k" "k < ord_remaining r'" "q' = filled_by k r' # ys"
    "fs = map (\<lambda>r. (ord_id r, ord_price r, ord_remaining r)) xs @ [(ord_id r', ord_price r', k)]"
  then show ?thesis
    unfolding priority_fills_def
    by (intro disjI2 exI [of _ "r # xs"] exI [of _ r'] exI [of _ ys] exI [of _ k]) simp
qed

lemma priority_fills_Nil: "priority_fills q [] q"
  by (simp add: priority_fills_def)

lemma stp_safe_fill: "stp_safe policy inc (r # rs) \<Longrightarrow> stp_safe policy (filled_by n inc) rs"
  using stp_safe_shrink [OF stp_safe_tl, of policy inc r rs "filled_by n inc"] by simp

lemma sweep_priority:
  assumes "sweep policy inc q = (fs, inc', c, q')" and "stp_safe policy inc q"
  shows "priority_fills q fs q'"
  using assms
proof (induction rule: sweep_run_induct)
  case (Skip inc r rs fs inc' c q')
  then show ?case using stp_safe_conflict [of policy inc r rs] by auto
next
  case (Part inc r rs)
  then show ?case
    unfolding priority_fills_def
    by (intro disjI2 exI [of _ "[]"] exI [of _ r] exI [of _ rs] exI [of _ "ord_remaining inc"]) simp
next
  case (Full inc r rs fs inc' c q')
  then show ?case by (intro priority_fills_Cons) (use stp_safe_fill in auto)
qed (auto simp: priority_fills_Nil)

section \<open>The end of the walk\<close>

text \<open>An order that is not done leaves nothing within its reach at the head of the queue.\<close>

lemma sweep_done:
  assumes "sweep policy inc q = (fs, inc', c, q')" and "0 < ord_remaining inc'"
  shows "case q' of [] \<Rightarrow> True | r # _ \<Rightarrow> \<not> crosses inc r"
  using assms by (induction rule: sweep_run_induct) (auto split: list.splits)

text \<open>Without self-trade prevention the filled quantity is what the limit allows.\<close>

lemma sweep_quantity:
  assumes "sweep policy inc q = (fs, inc', c, q')"
    and "\<forall>r \<in> set q. \<not> stp_conflict (ord_owner inc) (ord_owner r) policy"
  shows "\<not> c" and "fill_qty fs = min (ord_remaining inc) (qty_sum (takeWhile (crosses inc) q))"
  using assms by (induction rule: sweep_run_induct) auto

lemma sweep_queue_quantity:
  assumes "sweep policy inc q = (fs, inc', c, q')" and "stp_safe policy inc q"
  shows "qty_sum q' + fill_qty fs = qty_sum q"
  using assms
proof (induction rule: sweep_run_induct)
  case (Skip inc r rs fs inc' c q')
  then show ?case using stp_safe_conflict [of policy inc r rs] by auto
next
  case (Full inc r rs fs inc' c q')
  then have "qty_sum q' + fill_qty fs = qty_sum rs" using stp_safe_fill by auto
  then show ?case by simp
qed auto

text \<open>Self-trade prevention: no fill is against an order of the same owner.\<close>

lemma sweep_no_self_trade:
  assumes "sweep policy inc q = (fs, inc', c, q')" and "all_live q" and "policy \<noteq> Off"
    and "f \<in> set fs" and "ord_owner inc = Some w"
  shows "\<exists>r \<in> set q. fst f = ord_id r \<and> ord_owner r \<noteq> Some w"
  using sweep_fills_cross [OF assms(1,2)] assms(3-5) by (cases f) (fastforce simp: stp_conflict_def)

text \<open>On a queue in priority order, the reachable orders are a prefix.\<close>

lemma crosses_worse:
  "\<not> better (opposite (ord_side inc)) (ord_price y) (ord_price x) \<Longrightarrow> crosses inc y \<Longrightarrow> crosses inc x"
  by (cases "ord_side inc") (auto simp: crosses_def prices_cross_def better_def)

lemma takeWhile_crosses:
  assumes "sorted_wrt (\<lambda>x y. \<not> better (opposite (ord_side inc)) (ord_price y) (ord_price x)) q"
  shows "takeWhile (crosses inc) q = filter (crosses inc) q"
  using assms
proof (induction q)
  case (Cons x q)
  then show ?case
    using crosses_worse [of inc _ x] by (auto simp: filter_empty_conv eq_commute [of "[]"])
qed simp

end
