(* ===== verification/Exchange_Submit.thy ===== *)
theory Exchange_Submit
  imports Exchange Sweep
begin

text \<open>
  One submission, without the triggers it may cause: feasibility of a fill-or-kill order is
  exact, the internal submission terminates without panic and does to the two priority
  queues what the reference matcher does, whatever is left rests, is cancelled or rejects
  the order as its time in force says, and the book stays uncrossed.
\<close>

section \<open>Feasibility\<close>

lemma qty_sum_filter_levels:
  assumes "\<And>q l. (q, l) \<in> set es \<Longrightarrow> level_inv ords s q l"
  shows "qty_sum (filter (\<lambda>r. P (ord_price r)) (concat (map (\<lambda>(_, l). level_orders ords l) es))) =
         sum_list (map (\<lambda>(_, l). lvl_total l) (filter (\<lambda>(q, _). P q) es))"
  using assms
proof (induction es)
  case (Cons e es)
  obtain q l where e: "e = (q, l)" by (cases e)
  with Cons.prems have lv: "level_inv ords s q l" by simp
  have "ord_price r = q" if "r \<in> set (level_orders ords l)" for r
    using level_invD(1) [OF lv that] by (simp add: resting_ok_def)
  then have "filter (\<lambda>r. P (ord_price r)) (level_orders ords l) = (if P q then level_orders ords l else [])"
    by (auto simp: filter_id_conv filter_empty_conv)
  with Cons e level_inv_total [OF lv] show ?case by auto
qed simp

lemma side_quantity_exact:
  assumes inv: "side_inv ords s pl"
  shows "pl_quantity_at_or_better p pl = qty_sum (filter (\<lambda>r. \<not> better s p (ord_price r)) (side_queue ords pl))"
proof -
  let ?es = "pl_iter_best_to_worst pl"
  have side: "pl_side pl = s" using inv by (simp add: side_inv_def)
  have sum: "qty_sum (filter (\<lambda>r. \<not> better s p (ord_price r)) (side_queue ords pl)) =
      sum_list (map (\<lambda>(_, l). lvl_total l) (filter (\<lambda>(q, _). \<not> better s p q) (pl_levels pl)))"
    unfolding side_queue_def using qty_sum_filter_levels [of ?es ords s] side_inv_walk [OF inv] side
    by (cases s) (simp_all add: pl_iter_best_to_worst_def rev_filter [symmetric] rev_map [symmetric] sum_list_rev)
  have le: "qty_sum (filter P xs) \<le> qty_sum xs" for P xs by (induction xs) auto
  have "qty_sum (filter (\<lambda>r. \<not> better s p (ord_price r)) (side_queue ords pl)) < 2 ^ 64"
    using inv le [of "\<lambda>r. \<not> better s p (ord_price r)" "side_queue ords pl"] by (simp add: side_inv_def)
  then show ?thesis
    using side sum
    by (cases s) (simp_all add: pl_quantity_at_or_better_def better_def u64_sum_exact not_less)
qed

lemma available_exact:
  assumes "book_inv b"
  shows "available_to_fill s p b =
         qty_sum (filter (\<lambda>r. prices_cross s p (ord_price r)) (book_queue b (opposite s)))"
proof -
  have "(\<not> better (opposite s) p r) = prices_cross s p r" for r
    by (cases s) (auto simp: better_def prices_cross_def)
  then show ?thesis
    using side_quantity_exact [OF book_inv_side [OF assms, of "opposite s"], of p]
    by (simp add: available_to_fill_def book_opposite_side_def book_queue_def)
qed

section \<open>Crossed books\<close>

definition uncrossed :: "book \<Rightarrow> bool" where
  "uncrossed b \<longleftrightarrow> (\<forall>x \<in> set (book_queue b Buy). \<forall>y \<in> set (book_queue b Sell). ord_price x < ord_price y)"

lemma uncrossed_by: "uncrossed b \<longleftrightarrow>
    (\<forall>x \<in> set (book_queue b s). \<forall>y \<in> set (book_queue b (opposite s)). \<not> prices_cross s (ord_price x) (ord_price y))"
  by (cases s) (auto simp: uncrossed_def prices_cross_def not_le)

lemma queue_sorted: "book_inv b \<Longrightarrow> sorted_wrt (\<lambda>x y. \<not> better s (ord_price y) (ord_price x)) (book_queue b s)"
  unfolding book_queue_def by (rule side_queue_sorted [OF book_inv_side])

lemma is_crossed_iff:
  assumes inv: "book_inv b"
  shows "is_crossed b \<longleftrightarrow> \<not> uncrossed b"
proof -
  have best: "best_bid b = (case book_queue b Buy of [] \<Rightarrow> None | x # _ \<Rightarrow> Some (ord_price x))"
    "best_ask b = (case book_queue b Sell of [] \<Rightarrow> None | x # _ \<Rightarrow> Some (ord_price x))"
    using best_queue_head [OF book_inv_side [OF inv]] by (simp_all add: best_by_side book_queue_def)
  show ?thesis
  proof (cases "book_queue b Buy = [] \<or> book_queue b Sell = []")
    case True
    then show ?thesis by (auto simp: is_crossed_def best uncrossed_def split: list.splits)
  next
    case False
    then obtain x xs y ys where q: "book_queue b Buy = x # xs" "book_queue b Sell = y # ys"
      by (auto simp: neq_Nil_conv)
    have "ord_price z \<le> ord_price x" if "z \<in> set (x # xs)" for z
      using queue_sorted [OF inv, of Buy] that by (auto simp: q better_def not_less)
    moreover have "ord_price y \<le> ord_price z" if "z \<in> set (y # ys)" for z
      using queue_sorted [OF inv, of Sell] that by (auto simp: q better_def not_less)
    ultimately show ?thesis unfolding is_crossed_def best uncrossed_def q by fastforce
  qed
qed

text \<open>The orders left in the opposite queue have prices that were there before.\<close>

lemma sweep_prices:
  assumes "sweep policy inc q = (fs, inc', c, q')"
  shows "ord_price ` set q' \<subseteq> ord_price ` set q"
  using assms by (induction rule: sweep_run_induct) auto

lemma sweep_rest_out_of_reach:
  assumes inv: "book_inv b" and sw: "sweep policy inc (book_queue b (opposite (ord_side inc))) = (fs, inc', c, q')"
    and q': "q' = book_queue b' (opposite (ord_side inc))" "book_inv b'" and rem: "0 < ord_remaining inc'"
    and r: "r \<in> set q'"
  shows "\<not> crosses inc r"
proof -
  from r obtain r0 rs where q: "q' = r0 # rs" by (cases q') auto
  then have "\<not> crosses inc r0" using sweep_done [OF sw rem] by simp
  moreover have "r = r0 \<or> \<not> better (opposite (ord_side inc)) (ord_price r) (ord_price r0)"
    using queue_sorted [OF q'(2), of "opposite (ord_side inc)"] r q q'(1) by auto
  ultimately show ?thesis using crosses_worse by blast
qed

section \<open>Creating an order\<close>

definition incoming :: "side \<Rightarrow> price \<Rightarrow> quantity \<Rightarrow> time_in_force \<Rightarrow> order_owner option \<Rightarrow> book \<Rightarrow> order" where
  "incoming s p q tif w b = (order_new (bk_next_order_id b) s p q (bk_next_timestamp b) tif)\<lparr>ord_owner := w\<rparr>"

definition counted :: "book \<Rightarrow> book" where
  "counted b = b\<lparr>bk_next_order_id := u64_add (bk_next_order_id b) 1, bk_next_timestamp := u64_add (bk_next_timestamp b) 1\<rparr>"

lemma incoming_sel [simp]:
  "ord_id (incoming s p q tif w b) = bk_next_order_id b" "ord_side (incoming s p q tif w b) = s"
  "ord_price (incoming s p q tif w b) = p" "ord_remaining (incoming s p q tif w b) = q"
  "ord_filled (incoming s p q tif w b) = 0" "ord_original (incoming s p q tif w b) = q"
  "ord_tif (incoming s p q tif w b) = tif" "ord_owner (incoming s p q tif w b) = w"
  "ord_status (incoming s p q tif w b) = New"
  by (simp_all add: incoming_def order_new_def)

lemma create_order_eq:
  "book_create_order s p q tif b = (counted b, (incoming s p q tif w b)\<lparr>ord_owner := None\<rparr>)"
  by (simp add: book_create_order_def book_take_order_id_def book_take_timestamp_def counted_def incoming_def order_new_def)

lemma counted_ok:
  assumes "book_inv b" and "bk_next_order_id b < 2 ^ 64 - 1"
  shows "book_inv (counted b)" and "book_queue (counted b) t = book_queue b t" and "book_side (counted b) t = book_side b t"
    and "bk_next_order_id (counted b) = bk_next_order_id b + 1" and "bk_orders (counted b) = bk_orders b"
    and "bk_next_trade_id (counted b) = bk_next_trade_id b" and "bk_next_timestamp (counted b) = next_counter (bk_next_timestamp b)"
  using assms by (simp_all add: counted_def u64_add_exact book_inv_next_id)

text \<open>Recording an order that is not on the book.\<close>

lemma book_record_order_ok:
  assumes inv: "book_inv b" and fresh: "om_get (bk_orders b) (ord_id x) = None"
    and x: "0 < ord_id x" "ord_id x < bk_next_order_id b" "order_ok x"
    and off: "ord_tif x = GTC \<Longrightarrow> order_is_active x \<Longrightarrow> ord_remaining x = 0"
  shows "book_inv (book_record_order x b)" and "book_queue (book_record_order x b) t = book_queue b t"
proof -
  let ?o = "om_insert (ord_id x) x (bk_orders b)"
  have agree: "om_get ?o i = om_get (bk_orders b) i" if i: "i \<in> set (side_ids (book_side b s))" for i s
  proof (rule side_ids_get [OF inv i])
    fix y assume "om_get (bk_orders b) i = Some y"
    with fresh have "i \<noteq> ord_id x" by auto
    then show ?thesis by (simp add: om_get_insert)
  qed
  have cong: "side_queue ?o (book_side b s) = side_queue (bk_orders b) (book_side b s)"
    "side_inv ?o s (book_side b s) = side_inv (bk_orders b) s (book_side b s)" for s
    using side_inv_cong [OF agree [of _ s]] by blast+
  show "book_queue (book_record_order x b) t = book_queue b t"
    using cong(1) by (simp add: book_queue_def book_record_order_def)
  have "side_inv ?o s (book_side b s)" for s using cong(2) book_inv_side [OF inv] by blast
  moreover have "index_inv (book_record_order x b)"
    using inv x off by (auto simp: book_inv_def index_inv_def book_record_order_def om_ok_insert om_get_insert)
  ultimately show "book_inv (book_record_order x b)"
    by (simp add: book_inv_def) (simp add: book_record_order_def)
qed

lemma apply_fills_None: "om_get (apply_fills fs ords) i = None \<longleftrightarrow> om_get ords i = None"
proof (induction fs arbitrary: ords)
  case (Cons f fs)
  obtain j p n where f: "f = (j, p, n)" by (cases f)
  have "apply_fills (f # fs) ords = apply_fills fs (om_update j (filled_by n) ords)"
    by (simp add: apply_fills_def f)
  then show ?case using Cons by (simp add: om_get_update)
qed (simp add: apply_fills_def)

section \<open>The specification of a submission\<close>

text \<open>
  What a submission promises, stated on the priority queues: the trades are the fills of the
  reference matcher, the opposite queue is what it leaves, and the rest of a GTC order joins
  its own queue behind every order of the same or a better price.
\<close>

definition submit_status :: "time_in_force \<Rightarrow> bool \<Rightarrow> quantity \<Rightarrow> quantity \<Rightarrow> order_status" where
  "submit_status tif c filled remaining =
     (if \<not> c \<and> remaining = 0 then Filled
      else if 0 < filled then PartiallyFilled
      else if \<not> c \<and> tif = GTC then New else Cancelled)"

definition submit_spec :: "stp_policy \<Rightarrow> side \<Rightarrow> price \<Rightarrow> quantity \<Rightarrow> time_in_force \<Rightarrow> order_owner option \<Rightarrow>
    book \<Rightarrow> book \<Rightarrow> submit_result \<Rightarrow> bool" where
  "submit_spec policy s p q tif w b b' r \<longleftrightarrow>
     (case sweep policy (incoming s p q tif w b) (book_queue b (opposite s)) of
        (fs, x, c, q') \<Rightarrow>
          sr_order_id r = bk_next_order_id b \<and>
          sr_trades r = fill_trades (bk_next_trade_id b) (next_counter (bk_next_timestamp b)) (bk_next_order_id b) s fs \<and>
          sr_filled r = fill_qty fs \<and>
          sr_resting r = (if c \<or> tif \<noteq> GTC then 0 else ord_remaining x) \<and>
          sr_cancelled r = q - sr_filled r - sr_resting r \<and>
          sr_status r = submit_status tif c (fill_qty fs) (ord_remaining x) \<and>
          bk_next_order_id b' = bk_next_order_id b + 1 \<and>
          book_queue b' (opposite s) = q' \<and>
          (\<exists>y. om_get (bk_orders b') (bk_next_order_id b) = Some y \<and>
               y = x\<lparr>ord_status := sr_status r, ord_position := ord_position y\<rparr> \<and>
               book_queue b' s = (if 0 < sr_resting r then enqueue s y (book_queue b s) else book_queue b s) \<and>
               (0 < sr_resting r \<longrightarrow> index_accurate b' y)))"

lemma settle_off_book:
  assumes inv: "book_inv b" and fresh: "om_get (bk_orders b) (ord_id x) = None"
    and x: "0 < ord_id x" "ord_id x < bk_next_order_id b" "order_ok x"
    and off: "c \<or> ord_remaining x = 0 \<or> ord_tif x \<noteq> GTC" and c: "c \<Longrightarrow> ord_remaining x = 0"
    and q: "ord_filled x + ord_remaining x \<le> q" "\<not> c \<Longrightarrow> ord_filled x + ord_remaining x = q"
  shows "\<exists>b'. settle_submission q (ord_tif x) c x b =
           Inr (b', submit_status (ord_tif x) c (ord_filled x) (ord_remaining x), 0, q - ord_filled x) \<and>
         book_inv b' \<and> (\<forall>t. book_queue b' t = book_queue b t) \<and> bk_next_order_id b' = bk_next_order_id b \<and>
         om_get (bk_orders b') (ord_id x) =
           Some (x\<lparr>ord_status := submit_status (ord_tif x) c (ord_filled x) (ord_remaining x)\<rparr>)"
proof -
  let ?x = "x\<lparr>ord_status := submit_status (ord_tif x) c (ord_filled x) (ord_remaining x)\<rparr>"
  have "order_ok ?x" using x(3) by (simp add: order_ok_def)
  then have ok: "book_inv (book_record_order ?x b)" "book_queue (book_record_order ?x b) t = book_queue b t" for t
    using book_record_order_ok [OF inv, of ?x] fresh x off c by auto
  have "settle_submission q (ord_tif x) c x b =
      Inr (book_record_order ?x b, submit_status (ord_tif x) c (ord_filled x) (ord_remaining x), 0, q - ord_filled x)"
    using off q c by (auto simp: settle_submission_def submit_status_def Let_def u64_sub_exact)
  then show ?thesis
    using ok by (intro exI [of _ "book_record_order ?x b"]) (simp add: book_record_order_def om_get_insert)
qed

lemma settle_on_book:
  assumes inv: "book_inv b" and fresh: "om_get (bk_orders b) (ord_id x) = None"
    and x: "0 < ord_id x" "ord_id x < bk_next_order_id b" "order_ok x" "ord_tif x = GTC" "0 < ord_remaining x"
    and room: "qty_sum (book_queue b (ord_side x)) + ord_remaining x < 2 ^ 64"
  shows "\<exists>b' k. settle_submission q (ord_tif x) False x b =
           Inr (b', submit_status GTC False (ord_filled x) (ord_remaining x), ord_remaining x, 0) \<and>
         book_inv b' \<and> book_queue b' (opposite (ord_side x)) = book_queue b (opposite (ord_side x)) \<and>
         bk_next_order_id b' = bk_next_order_id b \<and>
         om_get (bk_orders b') (ord_id x) =
           Some (x\<lparr>ord_status := submit_status GTC False (ord_filled x) (ord_remaining x), ord_position := k\<rparr>) \<and>
         book_queue b' (ord_side x) = enqueue (ord_side x)
           (x\<lparr>ord_status := submit_status GTC False (ord_filled x) (ord_remaining x), ord_position := k\<rparr>)
           (book_queue b (ord_side x)) \<and>
         index_accurate b'
           (x\<lparr>ord_status := submit_status GTC False (ord_filled x) (ord_remaining x), ord_position := k\<rparr>)"
proof -
  let ?st = "submit_status GTC False (ord_filled x) (ord_remaining x)"
  let ?x = "x\<lparr>ord_status := ?st\<rparr>"
  have st: "?st = (if 0 < ord_filled x then PartiallyFilled else New)" using x(5) by (simp add: submit_status_def)
  have rest: "resting_ok (ord_side ?x) (ord_price ?x) (ord_id ?x) ?x"
    using x st by (auto simp: resting_ok_def order_is_active_def order_ok_def)
  have "\<exists>b' k. book_add_order ?x b = Inr b' \<and> book_inv b' \<and>
      book_queue b' (ord_side x) = enqueue (ord_side x) (?x\<lparr>ord_position := k\<rparr>) (book_queue b (ord_side x)) \<and>
      book_queue b' (opposite (ord_side x)) = book_queue b (opposite (ord_side x)) \<and>
      bk_orders b' = om_insert (ord_id x) (?x\<lparr>ord_position := k\<rparr>) (bk_orders b) \<and>
      bk_next_order_id b' = bk_next_order_id b \<and> index_accurate b' (?x\<lparr>ord_position := k\<rparr>)"
    by (rule book_add_order_ok [OF inv _ rest]) (use fresh x room in auto)
  then obtain b' k where "book_add_order ?x b = Inr b'" "book_inv b'"
      "book_queue b' (ord_side x) = enqueue (ord_side x) (?x\<lparr>ord_position := k\<rparr>) (book_queue b (ord_side x))"
      "book_queue b' (opposite (ord_side x)) = book_queue b (opposite (ord_side x))"
      "bk_orders b' = om_insert (ord_id x) (?x\<lparr>ord_position := k\<rparr>) (bk_orders b)"
      "bk_next_order_id b' = bk_next_order_id b" "index_accurate b' (?x\<lparr>ord_position := k\<rparr>)"
    by blast
  then show ?thesis
    using x st by (intro exI [of _ b'] exI [of _ k]) (simp add: settle_submission_def Let_def om_get_insert)
qed

lemma settle_ok:
  assumes inv: "book_inv b" and fresh: "om_get (bk_orders b) (ord_id x) = None"
    and x: "0 < ord_id x" "ord_id x < bk_next_order_id b" "order_ok x"
    and c: "c \<Longrightarrow> ord_remaining x = 0"
    and q: "ord_filled x + ord_remaining x \<le> q" "\<not> c \<Longrightarrow> ord_filled x + ord_remaining x = q"
    and room: "qty_sum (book_queue b (ord_side x)) + ord_remaining x < 2 ^ 64"
  defines "R \<equiv> if c \<or> ord_tif x \<noteq> GTC then 0 else ord_remaining x"
    and "st \<equiv> submit_status (ord_tif x) c (ord_filled x) (ord_remaining x)"
  shows "\<exists>b' y. settle_submission q (ord_tif x) c x b = Inr (b', st, R, q - ord_filled x - R) \<and>
         book_inv b' \<and> bk_next_order_id b' = bk_next_order_id b \<and>
         book_queue b' (opposite (ord_side x)) = book_queue b (opposite (ord_side x)) \<and>
         om_get (bk_orders b') (ord_id x) = Some y \<and> y = x\<lparr>ord_status := st, ord_position := ord_position y\<rparr> \<and>
         book_queue b' (ord_side x) = (if 0 < R then enqueue (ord_side x) y (book_queue b (ord_side x))
                                       else book_queue b (ord_side x)) \<and>
         (0 < R \<longrightarrow> index_accurate b' y)"
proof (cases "c \<or> ord_remaining x = 0 \<or> ord_tif x \<noteq> GTC")
  case True
  then have R: "R = 0" by (auto simp: R_def)
  obtain b' where "settle_submission q (ord_tif x) c x b = Inr (b', st, 0, q - ord_filled x)" "book_inv b'"
      "\<forall>t. book_queue b' t = book_queue b t" "bk_next_order_id b' = bk_next_order_id b"
      "om_get (bk_orders b') (ord_id x) = Some (x\<lparr>ord_status := st\<rparr>)"
    using settle_off_book [OF inv fresh x True c q] unfolding st_def by blast
  then show ?thesis by (intro exI [of _ b'] exI [of _ "x\<lparr>ord_status := st\<rparr>"]) (simp add: R)
next
  case False
  then have R: "R = ord_remaining x" "q - ord_filled x - R = 0" "\<not> c" "ord_tif x = GTC" "0 < ord_remaining x"
    using q by (auto simp: R_def)
  then have st: "st = submit_status GTC False (ord_filled x) (ord_remaining x)" by (simp add: st_def)
  obtain b' k where "settle_submission q (ord_tif x) False x b = Inr (b', st, ord_remaining x, 0)" "book_inv b'"
      "book_queue b' (opposite (ord_side x)) = book_queue b (opposite (ord_side x))"
      "bk_next_order_id b' = bk_next_order_id b"
      "om_get (bk_orders b') (ord_id x) = Some (x\<lparr>ord_status := st, ord_position := k\<rparr>)"
      "book_queue b' (ord_side x) = enqueue (ord_side x) (x\<lparr>ord_status := st, ord_position := k\<rparr>) (book_queue b (ord_side x))"
      "index_accurate b' (x\<lparr>ord_status := st, ord_position := k\<rparr>)"
    using settle_on_book [OF inv fresh x R(4,5) room] unfolding st by blast
  then show ?thesis
    using R by (intro exI [of _ b'] exI [of _ "x\<lparr>ord_status := st, ord_position := k\<rparr>"]) simp
qed

lemma apply_fills_other: "i \<notin> fst ` set fs \<Longrightarrow> om_get (apply_fills fs ords) i = om_get ords i"
proof (induction fs arbitrary: ords)
  case (Cons f fs)
  obtain j p n where f: "f = (j, p, n)" by (cases f)
  have "apply_fills (f # fs) ords = apply_fills fs (om_update j (filled_by n) ords)"
    by (simp add: apply_fills_def f)
  then show ?case using Cons f by (simp add: om_get_update)
qed (simp add: apply_fills_def)

text \<open>Matching does not touch the queue of the incoming side.\<close>

lemma match_own_queue:
  assumes inv: "book_inv b" and sw: "sweep policy x (book_queue b (opposite s)) = (fs, x', c, q')"
    and b': "book_side b' s = book_side b s" "bk_orders b' = apply_fills fs (bk_orders b)"
  shows "book_queue b' s = book_queue b s"
proof -
  have live: "all_live (book_queue b (opposite s))" using book_queueD(3) [OF inv] by blast
  have "fst ` set fs \<subseteq> set (side_ids (book_side b (opposite s)))"
    using sweep_fills_cross [OF sw live] book_queueD(7) [OF inv] by fastforce
  then have "om_get (bk_orders b') i = om_get (bk_orders b) i" if "i \<in> set (side_ids (book_side b s))" for i
    using that sides_disjoint [OF inv, of s] unfolding b' by (intro apply_fills_other) blast
  then have "side_queue (bk_orders b') (book_side b s) = side_queue (bk_orders b) (book_side b s)" by (rule side_inv_cong(1))
  then show ?thesis using b'(1) by (simp add: book_queue_def)
qed

lemma submit_internal_refines:
  assumes inv: "book_inv (ex_book ex)" and id: "bk_next_order_id (ex_book ex) < 2 ^ 64 - 1"
    and room: "qty_sum (book_queue (ex_book ex) s) + q < 2 ^ 64"
    and safe': "stp_safe (ex_stp_policy ex) (incoming s p q tif w (ex_book ex)) (book_queue (ex_book ex) (opposite s))"
    and go: "tif = FOK \<Longrightarrow> can_fully_fill s p q (ex_book ex)"
  shows "\<exists>b' r. submit_limit_internal_with_owner s p q tif w ex =
           ret (ex\<lparr>ex_book := b', ex_trades := ex_trades ex @ sr_trades r\<rparr>, r) \<and>
         book_inv b' \<and> submit_spec (ex_stp_policy ex) s p q tif w (ex_book ex) b' r"
proof -
  let ?b = "ex_book ex" and ?policy = "ex_stp_policy ex" and ?x = "incoming s p q tif w (ex_book ex)"
  let ?Q = "book_queue ?b (opposite s)" and ?i = "bk_next_order_id ?b"
  note cnt = counted_ok [OF inv id]
  obtain fs x' c q' where sw: "sweep ?policy ?x ?Q = (fs, x', c, q')" by (metis prod_cases4)
  note xi = sweep_incoming [OF sw] and xc = sweep_conserves [OF sw]
  have ok: "order_ok ?x" using room by (simp add: order_ok_def)
  have "\<exists>b1 res. match_order_with_policy ?x ?policy (counted ?b) = ret (b1, x', res) \<and> book_inv b1 \<and>
      mr_stp_cancelled res = c \<and>
      mr_trades res = fill_trades (bk_next_trade_id ?b) (next_counter (bk_next_timestamp ?b)) ?i s fs \<and>
      book_queue b1 (opposite s) = q' \<and> book_side b1 s = book_side ?b s \<and>
      bk_orders b1 = apply_fills fs (bk_orders ?b) \<and> bk_next_order_id b1 = ?i + 1"
    by (rule match_order_refines [OF cnt(1) ok, of ?policy fs x' c q']) (use safe' sw cnt in auto)
  then obtain b1 res where m: "match_order_with_policy ?x ?policy (counted ?b) = ret (b1, x', res)" "book_inv b1"
      "mr_stp_cancelled res = c"
      "mr_trades res = fill_trades (bk_next_trade_id ?b) (next_counter (bk_next_timestamp ?b)) ?i s fs"
      "book_queue b1 (opposite s) = q'" "book_side b1 s = book_side ?b s"
      "bk_orders b1 = apply_fills fs (bk_orders ?b)" "bk_next_order_id b1 = ?i + 1" by blast
  have own: "book_queue b1 s = book_queue ?b s"
    by (rule match_own_queue [OF inv sw m(6,7)])
  have "om_get (bk_orders ?b) ?i = None"
    using book_inv_orderD(3) [OF inv, of ?i] by (cases "om_get (bk_orders ?b) ?i") auto
  then have fresh: "om_get (bk_orders b1) (ord_id x') = None" using m(7) xi by (simp add: apply_fills_None)
  have x': "0 < ord_id x'" "ord_id x' < bk_next_order_id b1" "order_ok x'"
    using inv m(8) xi sweep_order_ok [OF sw ok] by (auto simp: book_inv_def index_inv_def)
  have tot: "c \<Longrightarrow> ord_remaining x' = 0" "ord_filled x' + ord_remaining x' \<le> q" "\<not> c \<Longrightarrow> ord_filled x' + ord_remaining x' = q"
    "qty_sum (book_queue b1 (ord_side x')) + ord_remaining x' < 2 ^ 64"
    using xi xc own room by (simp_all split: if_splits)
  obtain b' y where st: "settle_submission q (ord_tif x') c x' b1 =
        Inr (b', submit_status (ord_tif x') c (ord_filled x') (ord_remaining x'),
          if c \<or> ord_tif x' \<noteq> GTC then 0 else ord_remaining x',
          q - ord_filled x' - (if c \<or> ord_tif x' \<noteq> GTC then 0 else ord_remaining x'))"
      "book_inv b'" "bk_next_order_id b' = bk_next_order_id b1"
      "book_queue b' (opposite (ord_side x')) = book_queue b1 (opposite (ord_side x'))"
      "om_get (bk_orders b') (ord_id x') = Some y"
      "y = x'\<lparr>ord_status := submit_status (ord_tif x') c (ord_filled x') (ord_remaining x'), ord_position := ord_position y\<rparr>"
      "book_queue b' (ord_side x') = (if 0 < (if c \<or> ord_tif x' \<noteq> GTC then 0 else ord_remaining x')
          then enqueue (ord_side x') y (book_queue b1 (ord_side x')) else book_queue b1 (ord_side x'))"
      "0 < (if c \<or> ord_tif x' \<noteq> GTC then 0 else ord_remaining x') \<longrightarrow> index_accurate b' y"
    by (atomize_elim, rule settle_ok [of b1 x' c q, OF m(2) fresh x' _ tot(2) _ tot(4)]) (use tot in auto)
  let ?r = "\<lparr>sr_order_id = ?i, sr_status = submit_status tif c (fill_qty fs) (ord_remaining x'), sr_trades = mr_trades res,
      sr_filled = fill_qty fs, sr_resting = (if c \<or> tif \<noteq> GTC then 0 else ord_remaining x'),
      sr_cancelled = q - fill_qty fs - (if c \<or> tif \<noteq> GTC then 0 else ord_remaining x')\<rparr>"
  have xt: "ord_tif x' = tif" "ord_side x' = s" "ord_id x' = ?i" "ord_filled x' = fill_qty fs" using xi xc by simp_all
  note st = st [unfolded xt]
  have "submit_limit_internal_with_owner s p q tif w ex =
      ret (ex\<lparr>ex_book := b', ex_trades := ex_trades ex @ sr_trades ?r\<rparr>, ?r)"
    using go m(1,3) st(1) xt(4)
    by (auto simp: submit_limit_internal_with_owner_def create_order_eq [of _ _ _ _ _ w] incoming_def Let_def)
  moreover have "submit_spec ?policy s p q tif w ?b b' ?r"
    unfolding submit_spec_def sw prod.case using m(4,5,8) st(3-8) own by simp
  ultimately show ?thesis using st(2) by blast
qed

section \<open>Consequences of the specification\<close>

lemma submit_rejected:
  assumes "tif = FOK" and "\<not> can_fully_fill s p q (ex_book ex)"
  shows "submit_limit_internal_with_owner s p q tif w ex =
    ret (ex\<lparr>ex_book := counted (ex_book ex)\<rparr>,
         \<lparr>sr_order_id = bk_next_order_id (ex_book ex), sr_status = Cancelled, sr_trades = [], sr_filled = 0,
          sr_resting = 0, sr_cancelled = q\<rparr>)"
  using assms by (simp add: submit_limit_internal_with_owner_def create_order_eq [of _ _ _ _ _ w])

lemma enqueue_set: "set (enqueue s x q) = insert x (set q)"
  by (simp add: enqueue_def) (metis set_append takeWhile_dropWhile_id)

lemma enqueue_qty: "qty_sum (enqueue s x q) = qty_sum q + ord_remaining x"
proof -
  have "qty_sum q = qty_sum (takeWhile P q) + qty_sum (dropWhile P q)" for P
    by (metis map_append sum_list_append takeWhile_dropWhile_id)
  then show ?thesis by (simp add: enqueue_def)
qed

lemma submit_spec_conserves:
  assumes "submit_spec policy s p q tif w b b' r"
  shows "sr_filled r + sr_resting r + sr_cancelled r = q"
proof -
  obtain fs x c q' where sw: "sweep policy (incoming s p q tif w b) (book_queue b (opposite s)) = (fs, x, c, q')"
    by (metis prod_cases4)
  with assms sweep_conserves [OF sw] show ?thesis by (auto simp: submit_spec_def)
qed

lemma stp_safe_policy:
  "policy = Off \<or> policy = CancelNewest \<or> w = None \<Longrightarrow> stp_safe policy (incoming s p q tif w b) queue"
  by (auto simp: stp_safe_def stp_conflict_def)

lemma submit_internal_ok:
  assumes "book_inv (ex_book ex)" and "bk_next_order_id (ex_book ex) < 2 ^ 64 - 1"
    and "qty_sum (book_queue (ex_book ex) s) + q < 2 ^ 64"
    and "ex_stp_policy ex = Off \<or> ex_stp_policy ex = CancelNewest \<or> w = None"
    and "tif = FOK \<Longrightarrow> can_fully_fill s p q (ex_book ex)"
  shows "\<exists>b' r. submit_limit_internal_with_owner s p q tif w ex =
           ret (ex\<lparr>ex_book := b', ex_trades := ex_trades ex @ sr_trades r\<rparr>, r) \<and>
         book_inv b' \<and> submit_spec (ex_stp_policy ex) s p q tif w (ex_book ex) b' r"
  by (rule submit_internal_refines [OF assms(1-3) stp_safe_policy [OF assms(4)] assms(5)])

lemma submit_spec_queues:
  assumes spec: "submit_spec policy s p q tif w b b' r"
    and safe: "policy = Off \<or> policy = CancelNewest \<or> w = None"
  shows "qty_sum (book_queue b' s) = qty_sum (book_queue b s) + sr_resting r"
    and "qty_sum (book_queue b' (opposite s)) + sr_filled r = qty_sum (book_queue b (opposite s))"
    and "bk_next_order_id b' = bk_next_order_id b + 1"
proof -
  obtain fs x c q' where sw: "sweep policy (incoming s p q tif w b) (book_queue b (opposite s)) = (fs, x, c, q')"
    by (metis prod_cases4)
  note sp = spec [unfolded submit_spec_def sw prod.case]
  have "stp_safe policy (incoming s p q tif w b) (book_queue b (opposite s))"
    using safe by (rule stp_safe_policy)
  then show "qty_sum (book_queue b' (opposite s)) + sr_filled r = qty_sum (book_queue b (opposite s))"
    using sweep_queue_quantity [OF sw] sp by simp
  show "bk_next_order_id b' = bk_next_order_id b + 1" using sp by simp
  obtain y where y: "y = x\<lparr>ord_status := sr_status r, ord_position := ord_position y\<rparr>"
      "book_queue b' s = (if 0 < sr_resting r then enqueue s y (book_queue b s) else book_queue b s)"
    using sp by blast
  have "ord_remaining y = ord_remaining x" by (subst y(1)) simp
  moreover have "0 < sr_resting r \<Longrightarrow> sr_resting r = ord_remaining x" using sp by (simp split: if_splits)
  ultimately show "qty_sum (book_queue b' s) = qty_sum (book_queue b s) + sr_resting r"
    using y(2) by (auto simp: enqueue_qty)
qed

lemma submit_spec_uncrossed:
  assumes inv: "book_inv b" "book_inv b'" and unc: "uncrossed b" and spec: "submit_spec policy s p q tif w b b' r"
  shows "uncrossed b'"
proof -
  obtain fs x c q' where sw: "sweep policy (incoming s p q tif w b) (book_queue b (opposite s)) = (fs, x, c, q')"
    by (metis prod_cases4)
  note sp = spec [unfolded submit_spec_def sw prod.case]
  obtain y where y: "y = x\<lparr>ord_status := sr_status r, ord_position := ord_position y\<rparr>"
      "book_queue b' s = (if 0 < sr_resting r then enqueue s y (book_queue b s) else book_queue b s)"
    using sp by blast
  have "ord_price y = ord_price x" by (subst y(1)) simp
  then have py: "ord_price y = p" using sweep_incoming(3) [OF sw] by simp
  have q': "q' = book_queue b' (opposite s)" using sp by simp
  have old: "\<not> prices_cross s (ord_price z) (ord_price u)" if "z \<in> set (book_queue b s)" "u \<in> set q'" for z u
    using that unc sweep_prices [OF sw] by (fastforce simp: uncrossed_by [of b s])
  have new: "\<not> prices_cross s p (ord_price u)" if "0 < sr_resting r" "u \<in> set q'" for u
  proof -
    have "0 < ord_remaining x" using that(1) sp by (simp split: if_splits)
    from sweep_rest_out_of_reach [OF inv(1) _ _ inv(2) this that(2), of policy "incoming s p q tif w b" fs c] sw q'
    show ?thesis by (simp add: crosses_def)
  qed
  have "\<not> prices_cross s (ord_price z) (ord_price u)" if "z \<in> set (book_queue b' s)" "u \<in> set q'" for z u
    using that old new py y(2) by (auto simp: enqueue_set split: if_splits)
  then show ?thesis using q' by (simp add: uncrossed_by [of b' s])
qed

end
