(* ===== verification/Stop_Inv.thy ===== *)
theory Stop_Inv
  imports Stop_Book
begin

text \<open>
  The invariant of the stop book: the two price indexes hold exactly the pending orders, each
  under its own stop price, and the trailing list holds exactly the pending trailing ones.
  Every operation keeps it. Triggering takes out exactly the orders whose price is reached,
  and the trailing update moves a stop in its favourable direction only.
\<close>

section \<open>The price index as an interface\<close>

definition index_ids :: "(price, order_id list) omap \<Rightarrow> price \<Rightarrow> order_id list" where
  "index_ids m p = (case om_get m p of None \<Rightarrow> [] | Some ids \<Rightarrow> ids)"

definition index_ok :: "(price, order_id list) omap \<Rightarrow> bool" where
  "index_ok m \<longleftrightarrow> om_ok m \<and> (\<forall>p. distinct (index_ids m p)) \<and> (\<forall>p ids. om_get m p = Some ids \<longrightarrow> ids \<noteq> [])"

locale price_index =
  fixes ok :: "'m \<Rightarrow> bool" and ids :: "'m \<Rightarrow> price \<Rightarrow> order_id list"
    and push :: "price \<Rightarrow> order_id \<Rightarrow> 'm \<Rightarrow> 'm" and drop :: "price \<Rightarrow> order_id \<Rightarrow> 'm \<Rightarrow> 'm"
  assumes push_ids: "ids (push p i m) q = (if q = p then ids m p @ [i] else ids m q)"
    and push_ok: "ok m \<Longrightarrow> i \<notin> set (ids m p) \<Longrightarrow> ok (push p i m)"
    and drop_ids: "ids (drop p i m) q = (if q = p then filter (\<lambda>j. j \<noteq> i) (ids m p) else ids m q)"
    and drop_ok: "ok m \<Longrightarrow> ok (drop p i m)"
begin

text \<open>Moving an identifier to another price: nothing else moves.\<close>

lemma move_member:
  assumes "\<And>r. i \<in> set (ids m r) \<longleftrightarrow> r = p"
  shows "j \<in> set (ids (push q i (drop p i m)) r) \<longleftrightarrow> (if j = i then r = q else j \<in> set (ids m r))"
  using assms by (auto simp: push_ids drop_ids)

lemma move_ok:
  assumes "ok m" and "\<And>r. i \<in> set (ids m r) \<longleftrightarrow> r = p"
  shows "ok (push q i (drop p i m))"
  using assms by (intro push_ok drop_ok) (auto simp: drop_ids)

lemma drop_member: "j \<in> set (ids (drop p i m) r) \<longleftrightarrow> j \<in> set (ids m r) \<and> \<not> (r = p \<and> j = i)"
  by (auto simp: drop_ids)

lemma push_member: "j \<in> set (ids (push p i m) r) \<longleftrightarrow> j \<in> set (ids m r) \<or> (r = p \<and> j = i)"
  by (auto simp: push_ids)

end

lemma index_push_ids: "index_ids (index_push p i m) q = (if q = p then index_ids m p @ [i] else index_ids m q)"
  by (simp add: index_ids_def index_push_def om_get_insert split: option.splits)

lemma index_drop_ids:
  "index_ids (index_drop p i m) q = (if q = p then filter (\<lambda>j. j \<noteq> i) (index_ids m p) else index_ids m q)"
  by (auto simp: index_ids_def index_drop_def Let_def om_get_remove om_get_update split: option.splits)

interpretation px: price_index index_ok index_ids index_push index_drop
proof
  fix m p i assume ok: "index_ok m"
  show "i \<notin> set (index_ids m p) \<Longrightarrow> index_ok (index_push p i m)"
    using ok by (simp add: index_ok_def index_push_ids) (auto simp: index_push_def om_ok_insert om_get_insert)
  show "index_ok (index_drop p i m)"
    using ok unfolding index_ok_def index_drop_ids
    by (auto simp: index_drop_def Let_def om_ok_remove om_ok_update om_get_remove om_get_update
        split: option.splits if_splits)
qed (rule index_push_ids index_drop_ids)+

section \<open>The invariant\<close>

definition pending_at :: "stop_book \<Rightarrow> side \<Rightarrow> price \<Rightarrow> order_id \<Rightarrow> bool" where
  "pending_at b s p i \<longleftrightarrow>
     (\<exists>x. om_get (sb_orders b) i = Some x \<and> so_status x = StopPending \<and> so_side x = s \<and> so_stop_price x = p)"

definition stop_inv :: "stop_book \<Rightarrow> bool" where
  "stop_inv b \<longleftrightarrow> om_ok (sb_orders b) \<and> (\<forall>s. index_ok (sb_stops b s)) \<and>
     (\<forall>s p i. i \<in> set (index_ids (sb_stops b s) p) \<longleftrightarrow> pending_at b s p i) \<and>
     (\<forall>i x. om_get (sb_orders b) i = Some x \<longrightarrow> so_id x = i) \<and> distinct (sb_trailing_ids b) \<and>
     (\<forall>i. i \<in> set (sb_trailing_ids b) \<longleftrightarrow>
        (\<exists>x. om_get (sb_orders b) i = Some x \<and> so_status x = StopPending \<and> so_trail_method x \<noteq> None))"

lemma sb_stops_set [simp]: "sb_stops (sb_set_stops s m b) t = (if t = s then m else sb_stops b t)"
  by (cases s; cases t) (simp_all add: sb_stops_def sb_set_stops_def)

lemma sb_set_stops_proj [simp]:
  "sb_orders (sb_set_stops s m b) = sb_orders b" "sb_trailing_ids (sb_set_stops s m b) = sb_trailing_ids b"
  "sb_price_changes (sb_set_stops s m b) = sb_price_changes b" "sb_last_price (sb_set_stops s m b) = sb_last_price b"
  by (cases s; simp add: sb_set_stops_def)+

lemma sb_stops_updates [simp]:
  "sb_stops (b\<lparr>sb_orders := os\<rparr>) s = sb_stops b s" "sb_stops (b\<lparr>sb_trailing_ids := ts\<rparr>) s = sb_stops b s"
  "sb_stops (b\<lparr>sb_price_changes := cs\<rparr>) s = sb_stops b s" "sb_stops (b\<lparr>sb_last_price := lp\<rparr>) s = sb_stops b s"
  by (cases s; simp add: sb_stops_def)+

lemma stop_book_new_inv: "stop_inv stop_book_new"
proof -
  have "sb_stops stop_book_new s = []" for s by (cases s) (simp_all add: sb_stops_def stop_book_new_def)
  then show ?thesis
    by (simp add: stop_inv_def index_ok_def index_ids_def pending_at_def) (simp add: stop_book_new_def)
qed

lemma stop_insert_inv:
  assumes inv: "stop_inv b" and fresh: "om_get (sb_orders b) (so_id x) = None" and x: "so_status x = StopPending"
  shows "stop_inv (stop_insert x b)"
proof -
  have notin: "so_id x \<notin> set (index_ids (sb_stops b s) p)" for s p
    using inv fresh by (simp add: stop_inv_def pending_at_def)
  have not_trailing: "so_id x \<notin> set (sb_trailing_ids b)" using inv fresh by (simp add: stop_inv_def)
  have stops: "sb_stops (stop_insert x b) s =
      (if s = so_side x then index_push (so_stop_price x) (so_id x) (sb_stops b s) else sb_stops b s)" for s
    by (simp add: stop_insert_def Let_def)
  have orders: "sb_orders (stop_insert x b) = om_insert (so_id x) x (sb_orders b)"
    by (simp add: stop_insert_def Let_def)
  have trailing: "sb_trailing_ids (stop_insert x b) =
      sb_trailing_ids b @ (if so_trail_method x \<noteq> None then [so_id x] else [])"
    by (simp add: stop_insert_def Let_def)
  have "i \<in> set (index_ids (sb_stops (stop_insert x b) s) p) \<longleftrightarrow> pending_at (stop_insert x b) s p i" for s p i
    using inv notin x by (auto simp: stop_inv_def pending_at_def stops orders om_get_insert px.push_member)
  moreover have "index_ok (sb_stops (stop_insert x b) s)" for s
    using inv notin by (simp add: stops stop_inv_def px.push_ok)
  ultimately show ?thesis
    using inv x not_trailing
    by (auto simp: stop_inv_def orders trailing om_ok_insert om_get_insert)
qed

text \<open>Taking a pending order out of the indexes, as cancellation does.\<close>

lemma pending_unique:
  assumes "stop_inv b" and "om_get (sb_orders b) i = Some x" and "so_status x = StopPending"
  shows "i \<in> set (index_ids (sb_stops b (so_side x)) r) \<longleftrightarrow> r = so_stop_price x"
  using assms by (auto simp: stop_inv_def pending_at_def)

lemma stop_cancel_inv:
  assumes inv: "stop_inv b"
  shows "stop_inv (fst (stop_cancel i b))" and "snd (stop_cancel i b) = contains_pending b i"
    and "om_get (sb_orders (fst (stop_cancel i b))) j =
      (if j = i \<and> contains_pending b i
       then map_option (\<lambda>x. x\<lparr>so_status := StopCancelled\<rparr>) (om_get (sb_orders b) i) else om_get (sb_orders b) j)"
proof -
  have "stop_inv (fst (stop_cancel i b)) \<and> snd (stop_cancel i b) = contains_pending b i \<and>
    om_get (sb_orders (fst (stop_cancel i b))) j =
      (if j = i \<and> contains_pending b i
       then map_option (\<lambda>x. x\<lparr>so_status := StopCancelled\<rparr>) (om_get (sb_orders b) i) else om_get (sb_orders b) j)"
  proof (cases "contains_pending b i")
    case False
    then show ?thesis using inv by (auto simp: stop_cancel_def contains_pending_def split: option.splits)
  next
    case True
    then obtain x where x: "om_get (sb_orders b) i = Some x" "so_status x = StopPending"
      by (auto simp: contains_pending_def split: option.splits)
    let ?b = "fst (stop_cancel i b)"
    have stops: "sb_stops ?b s = (if s = so_side x then index_drop (so_stop_price x) i (sb_stops b s) else sb_stops b s)" for s
      using x by (simp add: stop_cancel_def Let_def)
    have orders: "sb_orders ?b = om_update i (\<lambda>x. x\<lparr>so_status := StopCancelled\<rparr>) (sb_orders b)"
      using x by (simp add: stop_cancel_def Let_def)
    have trailing: "sb_trailing_ids ?b = filter (\<lambda>j. j \<noteq> i) (sb_trailing_ids b)"
      using x by (simp add: stop_cancel_def Let_def)
    have "j \<in> set (index_ids (sb_stops ?b s) p) \<longleftrightarrow> pending_at ?b s p j" for s p j
      using inv x by (auto simp: stop_inv_def pending_at_def stops orders om_get_update px.drop_member)
    moreover have "index_ok (sb_stops ?b s)" for s
      using inv by (simp add: stops stop_inv_def px.drop_ok)
    ultimately have "stop_inv ?b"
      using inv x by (auto simp: stop_inv_def orders trailing om_ok_update om_get_update)
    moreover have "snd (stop_cancel i b)" using x by (simp add: stop_cancel_def Let_def)
    ultimately show ?thesis using True x by (auto simp: orders om_get_update)
  qed
  then show "stop_inv (fst (stop_cancel i b))" "snd (stop_cancel i b) = contains_pending b i"
    "om_get (sb_orders (fst (stop_cancel i b))) j =
      (if j = i \<and> contains_pending b i
       then map_option (\<lambda>x. x\<lparr>so_status := StopCancelled\<rparr>) (om_get (sb_orders b) i) else om_get (sb_orders b) j)"
    by blast+
qed

lemma stop_clear_history_inv:
  assumes inv: "stop_inv b"
  shows "stop_inv (stop_clear_history b)"
    and "om_get (sb_orders (stop_clear_history b)) i =
      (case om_get (sb_orders b) i of None \<Rightarrow> None | Some x \<Rightarrow> if so_status x = StopPending then Some x else None)"
proof -
  have ok: "om_ok (sb_orders b)" using inv by (simp add: stop_inv_def)
  have orders: "sb_orders (stop_clear_history b) = filter (\<lambda>(_, x). so_status x = StopPending) (sb_orders b)"
    by (simp add: stop_clear_history_def Let_def)
  note get = om_get_filter [OF ok, of "\<lambda>x. so_status x = StopPending"]
  show "om_get (sb_orders (stop_clear_history b)) i =
      (case om_get (sb_orders b) i of None \<Rightarrow> None | Some x \<Rightarrow> if so_status x = StopPending then Some x else None)"
    unfolding orders by (rule get)
  have stops: "sb_stops (stop_clear_history b) s = sb_stops b s" for s
    by (simp add: stop_clear_history_def Let_def)
  have pend: "pending_at (stop_clear_history b) s p j = pending_at b s p j" for s p j
    unfolding pending_at_def orders get by (auto split: option.splits)
  have trailing: "sb_trailing_ids (stop_clear_history b) = sb_trailing_ids b"
    using inv unfolding stop_clear_history_def Let_def
    by (auto simp: stop_inv_def get filter_id_conv split: option.splits)
  show "stop_inv (stop_clear_history b)"
    unfolding stop_inv_def stops pend trailing
    using inv om_ok_filter [OF ok] by (auto simp: stop_inv_def orders get split: option.splits if_splits)
qed

section \<open>Triggering\<close>

definition triggered :: "stop_order \<Rightarrow> stop_order" where
  "triggered x = x\<lparr>so_status := StopTriggered\<rparr>"

lemma triggered_sel [simp]:
  "so_status (triggered x) = StopTriggered" "so_id (triggered x) = so_id x" "so_side (triggered x) = so_side x"
  "so_stop_price (triggered x) = so_stop_price x" "so_timestamp (triggered x) = so_timestamp x"
  by (simp_all add: triggered_def)

definition trigger_in :: "order_id set \<Rightarrow> (order_id \<rightharpoonup> stop_order) \<Rightarrow> (order_id \<rightharpoonup> stop_order)" where
  "trigger_in I f = (\<lambda>i. if i \<in> I then map_option triggered (f i) else f i)"

lemma trigger_in_union: "I \<inter> J = {} \<Longrightarrow> trigger_in J (trigger_in I f) = trigger_in (I \<union> J) f"
  by (auto simp: trigger_in_def fun_eq_iff)

lemma trigger_ids_all:
  assumes "distinct q" and "\<And>i. i \<in> set q \<Longrightarrow> \<exists>x. om_get os i = Some x \<and> so_status x = StopPending"
  shows "om_get (fst (trigger_ids q os)) = trigger_in (set q) (om_get os) \<and>
         snd (trigger_ids q os) = map (\<lambda>i. triggered (the (om_get os i))) q \<and>
         om_ok (fst (trigger_ids q os)) = om_ok os"
  using assms
proof (induction q arbitrary: os)
  case (Cons i q)
  obtain x where x: "om_get os i = Some x" "so_status x = StopPending" using Cons.prems(2) [of i] by auto
  let ?os = "om_update i (\<lambda>_. triggered x) os"
  have step: "trigger_ids (i # q) os = (fst (trigger_ids q ?os), triggered x # snd (trigger_ids q ?os))"
    using x by (simp add: triggered_def Let_def split: prod.splits)
  have get: "om_get ?os j = (if j = i then Some (triggered x) else om_get os j)" for j
    using x by (simp add: om_get_update)
  have pre: "distinct q" "\<And>j. j \<in> set q \<Longrightarrow> \<exists>x. om_get ?os j = Some x \<and> so_status x = StopPending"
    using Cons.prems by (auto simp: get)
  from Cons.IH [OF pre] x Cons.prems(1) show ?case
    unfolding step fst_conv snd_conv by (auto simp: get trigger_in_def fun_eq_iff om_ok_update)
qed (simp add: trigger_in_def)

lemmas trigger_ids_spec = trigger_ids_all [THEN conjunct1] trigger_ids_all [THEN conjunct2, THEN conjunct1]
  trigger_ids_all [THEN conjunct2, THEN conjunct2]

definition ids_of_keys :: "(price, order_id list) omap \<Rightarrow> price list \<Rightarrow> order_id list" where
  "ids_of_keys m ks = concat (map (index_ids m) ks)"

lemma ids_of_keys_Cons [simp]: "ids_of_keys m (k # ks) = index_ids m k @ ids_of_keys m ks"
  by (simp add: ids_of_keys_def)

lemma trigger_keys_spec:
  assumes "distinct ks" and "distinct (ids_of_keys m ks)"
    and "\<And>i. i \<in> set (ids_of_keys m ks) \<Longrightarrow> \<exists>x. om_get os i = Some x \<and> so_status x = StopPending"
    and "set ks \<subseteq> set (om_keys m)"
  shows "\<exists>m' os'. trigger_keys ks m os = (m', os', map (\<lambda>i. triggered (the (om_get os i))) (ids_of_keys m ks)) \<and>
           om_get m' = (\<lambda>k. if k \<in> set ks then None else om_get m k) \<and> (om_ok m \<longrightarrow> om_ok m') \<and>
           om_get os' = trigger_in (set (ids_of_keys m ks)) (om_get os) \<and> om_ok os' = om_ok os"
  using assms
proof (induction ks arbitrary: m os)
  case Nil
  show ?case by (simp add: ids_of_keys_def trigger_in_def)
next
  case (Cons k ks)
  obtain ids where ids: "om_get m k = Some ids" "index_ids m k = ids"
    using Cons.prems(4) by (auto simp: om_keys_def index_ids_def dest: weak_map_of_SomeI)
  let ?os = "fst (trigger_ids ids os)" and ?m = "om_remove k m"
  have rest: "ids_of_keys ?m ks = ids_of_keys m ks"
    using Cons.prems(1) by (auto simp: ids_of_keys_def index_ids_def om_get_remove intro!: arg_cong [where f = concat] map_cong)
  have disj: "set ids \<inter> set (ids_of_keys m ks) = {}" and dis: "distinct ids" "distinct (ids_of_keys m ks)"
    using Cons.prems(2) ids(2) by auto
  have pend: "\<And>i. i \<in> set ids \<Longrightarrow> \<exists>x. om_get os i = Some x \<and> so_status x = StopPending"
    using Cons.prems(3) ids(2) by simp
  note t = trigger_ids_spec [OF dis(1) pend]
  have same: "om_get ?os i = om_get os i" if "i \<in> set (ids_of_keys m ks)" for i
    using that disj t(1) by (auto simp: trigger_in_def)
  have "set ks \<subseteq> set (om_keys ?m)" using Cons.prems(1,4) by (auto simp: om_keys_remove)
  then obtain m' os' where r: "trigger_keys ks ?m ?os =
      (m', os', map (\<lambda>i. triggered (the (om_get ?os i))) (ids_of_keys m ks))"
    "om_get m' = (\<lambda>j. if j \<in> set ks then None else om_get ?m j)" "om_ok ?m \<longrightarrow> om_ok m'"
    "om_get os' = trigger_in (set (ids_of_keys m ks)) (om_get ?os)" "om_ok os' = om_ok ?os"
    using Cons.IH [of ?m ?os] Cons.prems(1,3) dis(2) same unfolding rest by auto
  have eq: "trigger_keys (k # ks) m os =
      (m', os', map (\<lambda>i. triggered (the (om_get os i))) (ids_of_keys m (k # ks)))"
    using ids r(1) t(2) same by (cases "trigger_ids ids os") (simp add: Let_def)
  show ?case
    using eq r(2-5) t(1,3) ids(2) disj
    by (intro exI [of _ m'] exI [of _ os'])
       (auto simp: om_get_remove om_ok_remove trigger_in_union fun_eq_iff)
qed

text \<open>The orders a trade at price \<open>p\<close> triggers.\<close>

definition stop_hit :: "price \<Rightarrow> stop_order \<Rightarrow> bool" where
  "stop_hit p x \<longleftrightarrow> so_status x = StopPending \<and>
     (case so_side x of Buy \<Rightarrow> so_stop_price x \<le> p | Sell \<Rightarrow> p \<le> so_stop_price x)"

lemma distinct_ids_of_keys:
  assumes "index_ok m" and "distinct ks" and "\<And>i p q. i \<in> set (index_ids m p) \<Longrightarrow> i \<in> set (index_ids m q) \<Longrightarrow> p = q"
  shows "distinct (ids_of_keys m ks)"
  using assms(2)
proof (induction ks)
  case (Cons k ks)
  with assms(1) show ?case
    by (auto simp: index_ok_def) (auto simp: ids_of_keys_def dest: assms(3))
qed (simp add: ids_of_keys_def)

lemma index_keys_iff: "i \<in> set (ids_of_keys m (filter P (om_keys m))) \<longleftrightarrow> (\<exists>p. P p \<and> i \<in> set (index_ids m p))"
proof -
  have "p \<in> set (om_keys m)" if "i \<in> set (index_ids m p)" for p
    using that om_get_Some_key by (cases "om_get m p") (auto simp: index_ids_def)
  then show ?thesis by (auto simp: ids_of_keys_def)
qed

end
