(* ===== verification/Stop_Ops.thy ===== *)
theory Stop_Ops
  imports Stop_Inv
begin

text \<open>
  The two operations a trade runs on the stop book. \<open>collect_triggered\<close> returns exactly the
  pending orders whose stop price the trade reached, in the order of their timestamps, and
  leaves none of them pending. \<open>update_trailing_stops\<close> keeps every order and its side and
  quantity, and only ever tightens a stop.
\<close>

section \<open>Triggering\<close>

text \<open>One side: the prices in the range of the trade are emptied, all others stay.\<close>

lemma trigger_side:
  assumes ok: "index_ok m"
    and mem: "\<And>r i. i \<in> set (index_ids m r) \<longleftrightarrow>
      (\<exists>x. om_get os i = Some x \<and> so_status x = StopPending \<and> so_side x = s \<and> so_stop_price x = r)"
  obtains m' os' q where "trigger_keys (filter P (om_keys m)) m os = (m', os', map (\<lambda>i. triggered (the (om_get os i))) q)"
    and "distinct q"
    and "\<And>i. i \<in> set q \<longleftrightarrow> (\<exists>x. om_get os i = Some x \<and> so_status x = StopPending \<and> so_side x = s \<and> P (so_stop_price x))"
    and "index_ok m'" and "\<And>r. index_ids m' r = (if P r then [] else index_ids m r)"
    and "om_get os' = trigger_in (set q) (om_get os)" and "om_ok os' = om_ok os"
proof -
  let ?ks = "filter P (om_keys m)" and ?q = "ids_of_keys m (filter P (om_keys m))"
  have okm: "om_ok m" using ok by (simp add: index_ok_def)
  have keys: "distinct (om_keys m)" using om_ok_distinct [OF okm] by (simp add: om_keys_def)
  have dis: "distinct ?q"
    using keys by (intro distinct_ids_of_keys ok distinct_filter) (auto simp: mem)
  have q: "i \<in> set ?q \<longleftrightarrow> (\<exists>x. om_get os i = Some x \<and> so_status x = StopPending \<and> so_side x = s \<and> P (so_stop_price x))" for i
    unfolding index_keys_iff mem by auto
  obtain m' os' where t: "trigger_keys ?ks m os = (m', os', map (\<lambda>i. triggered (the (om_get os i))) ?q)"
      "om_get m' = (\<lambda>k. if k \<in> set ?ks then None else om_get m k)" "om_ok m'"
      "om_get os' = trigger_in (set ?q) (om_get os)" "om_ok os' = om_ok os"
    using trigger_keys_spec [of ?ks m os] keys dis okm q by auto
  have ids: "index_ids m' r = (if P r then [] else index_ids m r)" for r
    using om_get_None_iff [of m r] by (auto simp: index_ids_def t(2))
  then have "index_ok m'" using ok t(2,3) by (auto simp: index_ok_def split: if_splits)
  with that t dis q ids show thesis by blast
qed

lemma stop_inv_index:
  assumes "stop_inv b"
  shows "index_ok (sb_stops b s)"
    and "i \<in> set (index_ids (sb_stops b s) r) \<longleftrightarrow>
      (\<exists>x. om_get (sb_orders b) i = Some x \<and> so_status x = StopPending \<and> so_side x = s \<and> so_stop_price x = r)"
  using assms by (simp_all add: stop_inv_def pending_at_def)

lemma stop_hit_side: "stop_hit p x \<longleftrightarrow> so_status x = StopPending \<and> so_side x = Buy \<and> so_stop_price x \<le> p \<or>
    so_status x = StopPending \<and> so_side x = Sell \<and> p \<le> so_stop_price x"
  by (cases "so_side x") (auto simp: stop_hit_def)

text \<open>The two sides together.\<close>

lemma collect_triggered_sides:
  assumes inv: "stop_inv b"
  obtains q b1 where "collect_triggered p b = (b1, sort_key so_timestamp (map (\<lambda>i. triggered (the (om_get (sb_orders b) i))) q))"
    and "distinct q" and "\<And>i. i \<in> set q \<longleftrightarrow> (\<exists>x. om_get (sb_orders b) i = Some x \<and> stop_hit p x)"
    and "\<And>i. om_get (sb_orders b1) i = map_option (\<lambda>x. if stop_hit p x then triggered x else x) (om_get (sb_orders b) i)"
    and "om_ok (sb_orders b1)" and "\<And>s. index_ok (sb_stops b1 s)"
    and "\<And>s r. index_ids (sb_stops b1 s) r =
           (if (case s of Buy \<Rightarrow> r \<le> p | Sell \<Rightarrow> p \<le> r) then [] else index_ids (sb_stops b s) r)"
    and "sb_trailing_ids b1 = (if q = [] then sb_trailing_ids b
           else filter (\<lambda>i. case om_get (sb_orders b1) i of Some x \<Rightarrow> so_status x = StopPending | None \<Rightarrow> False) (sb_trailing_ids b))"
    and "sb_price_changes b1 = sb_price_changes b" and "sb_last_price b1 = sb_last_price b"
proof -
  let ?os = "sb_orders b"
  note idx = stop_inv_index [OF inv]
  have stops: "sb_stops b Buy = sb_buy_stops b" "sb_stops b Sell = sb_sell_stops b" by (simp_all add: sb_stops_def)
  obtain mb os1 qb where tb: "trigger_keys (filter (\<lambda>k. k \<le> p) (om_keys (sb_buy_stops b))) (sb_buy_stops b) ?os =
        (mb, os1, map (\<lambda>i. triggered (the (om_get ?os i))) qb)" "distinct qb"
      "\<And>i. i \<in> set qb \<longleftrightarrow> (\<exists>x. om_get ?os i = Some x \<and> so_status x = StopPending \<and> so_side x = Buy \<and> so_stop_price x \<le> p)"
      "index_ok mb" "\<And>r. index_ids mb r = (if r \<le> p then [] else index_ids (sb_buy_stops b) r)"
      "om_get os1 = trigger_in (set qb) (om_get ?os)" "om_ok os1 = om_ok ?os"
    by (rule trigger_side [where P = "\<lambda>k. k \<le> p", OF idx(1) [of Buy, unfolded stops] idx(2) [of _ Buy, unfolded stops]], rule that)
  have mem: "i \<in> set (index_ids (sb_sell_stops b) r) \<longleftrightarrow>
      (\<exists>x. om_get os1 i = Some x \<and> so_status x = StopPending \<and> so_side x = Sell \<and> so_stop_price x = r)" for i r
    using idx(2) [of i Sell r] tb(3) [of i] by (cases "om_get ?os i") (auto simp: stops tb(6) trigger_in_def)
  obtain ms os2 qs where ts: "trigger_keys (filter (\<lambda>k. p \<le> k) (om_keys (sb_sell_stops b))) (sb_sell_stops b) os1 =
        (ms, os2, map (\<lambda>i. triggered (the (om_get os1 i))) qs)" "distinct qs"
      "\<And>i. i \<in> set qs \<longleftrightarrow> (\<exists>x. om_get os1 i = Some x \<and> so_status x = StopPending \<and> so_side x = Sell \<and> p \<le> so_stop_price x)"
      "index_ok ms" "\<And>r. index_ids ms r = (if p \<le> r then [] else index_ids (sb_sell_stops b) r)"
      "om_get os2 = trigger_in (set qs) (om_get os1)" "om_ok os2 = om_ok os1"
    by (rule trigger_side [where P = "\<lambda>k. p \<le> k", OF idx(1) [of Sell, unfolded stops] mem], rule that)
  have qs: "i \<in> set qs \<longleftrightarrow> (\<exists>x. om_get ?os i = Some x \<and> so_status x = StopPending \<and> so_side x = Sell \<and> p \<le> so_stop_price x)" for i
    using ts(3) [of i] tb(3) [of i] by (cases "om_get ?os i") (auto simp: tb(6) trigger_in_def)
  have disj: "set qb \<inter> set qs = {}" using tb(3) qs by fastforce
  have hit: "i \<in> set (qb @ qs) \<longleftrightarrow> (\<exists>x. om_get ?os i = Some x \<and> stop_hit p x)" for i
    unfolding set_append Un_iff tb(3) qs stop_hit_side by blast
  have get: "om_get os2 i = map_option (\<lambda>x. if stop_hit p x then triggered x else x) (om_get ?os i)" for i
    using hit [of i] disj by (cases "om_get ?os i") (auto simp: ts(6) tb(6) trigger_in_union trigger_in_def)
  have out: "map (\<lambda>i. triggered (the (om_get os1 i))) qs = map (\<lambda>i. triggered (the (om_get ?os i))) qs"
    using disj by (auto simp: tb(6) trigger_in_def)
  let ?t = "sort_key so_timestamp (map (\<lambda>i. triggered (the (om_get ?os i))) (qb @ qs))"
  have nil: "?t = [] \<longleftrightarrow> qb @ qs = []" by (metis length_0_conv length_map length_sort)
  let ?b1 = "b\<lparr>sb_buy_stops := mb, sb_sell_stops := ms, sb_orders := os2\<rparr>"
  let ?live = "\<lambda>i. case om_get os2 i of Some x \<Rightarrow> so_status x = StopPending | None \<Rightarrow> False"
  have res: "collect_triggered p b =
      (if qb @ qs = [] then ?b1 else ?b1\<lparr>sb_trailing_ids := filter ?live (sb_trailing_ids b)\<rparr>, ?t)"
    using nil by (simp add: collect_triggered_def tb(1) ts(1) out Let_def)
  have side: "sb_stops (if c then ?b1 else ?b1\<lparr>sb_trailing_ids := ts\<rparr>) s = (case s of Buy \<Rightarrow> mb | Sell \<Rightarrow> ms)" for c ts s
    by (cases s) (simp_all add: sb_stops_def)
  show thesis
  proof (rule that [OF res _ hit])
    show "distinct (qb @ qs)" using tb(2) ts(2) disj by simp
    show "index_ids (sb_stops (if qb @ qs = [] then ?b1 else ?b1\<lparr>sb_trailing_ids := filter ?live (sb_trailing_ids b)\<rparr>) s) r =
           (if (case s of Buy \<Rightarrow> r \<le> p | Sell \<Rightarrow> p \<le> r) then [] else index_ids (sb_stops b s) r)" for s r
      unfolding side by (cases s) (simp_all add: tb(5) ts(5) stops)
    show "index_ok (sb_stops (if qb @ qs = [] then ?b1 else ?b1\<lparr>sb_trailing_ids := filter ?live (sb_trailing_ids b)\<rparr>) s)" for s
      unfolding side using tb(4) ts(4) by (cases s) simp_all
  qed (use get tb(7) ts(7) inv in \<open>simp_all add: stop_inv_def\<close>)
qed

lemma triggered_neq: "so_status x = StopPending \<Longrightarrow> triggered x \<noteq> x"
  by (metis stop_status.distinct(1) triggered_sel(1))

lemma collect_triggered_ok:
  assumes inv: "stop_inv b" and res: "collect_triggered p b = (b', ts)"
  shows "stop_inv b'" and "set ts = triggered ` {x. \<exists>i. om_get (sb_orders b) i = Some x \<and> stop_hit p x}"
    and "sorted (map so_timestamp ts)" and "distinct (map so_id ts)"
    and "om_get (sb_orders b') i = map_option (\<lambda>x. if stop_hit p x then triggered x else x) (om_get (sb_orders b) i)"
    and "om_get (sb_orders b') i = Some x \<Longrightarrow> \<not> stop_hit p x"
    and "sb_last_price b' = sb_last_price b" and "sb_price_changes b' = sb_price_changes b"
proof -
  obtain q b1 where c: "collect_triggered p b = (b1, sort_key so_timestamp (map (\<lambda>i. triggered (the (om_get (sb_orders b) i))) q))"
    and q2: "distinct q" and q3: "\<And>i. i \<in> set q \<longleftrightarrow> (\<exists>x. om_get (sb_orders b) i = Some x \<and> stop_hit p x)"
    and get1: "\<And>i. om_get (sb_orders b1) i = map_option (\<lambda>x. if stop_hit p x then triggered x else x) (om_get (sb_orders b) i)"
    and ok1: "om_ok (sb_orders b1)" "\<And>s. index_ok (sb_stops b1 s)"
    and ids1: "\<And>s r. index_ids (sb_stops b1 s) r =
           (if (case s of Buy \<Rightarrow> r \<le> p | Sell \<Rightarrow> p \<le> r) then [] else index_ids (sb_stops b s) r)"
    and tr1: "sb_trailing_ids b1 = (if q = [] then sb_trailing_ids b
           else filter (\<lambda>i. case om_get (sb_orders b1) i of Some x \<Rightarrow> so_status x = StopPending | None \<Rightarrow> False) (sb_trailing_ids b))"
    and h1: "sb_price_changes b1 = sb_price_changes b" "sb_last_price b1 = sb_last_price b"
    by (rule collect_triggered_sides [OF inv, of p], rule that)
  have b1: "b1 = b'" and q1: "ts = sort_key so_timestamp (map (\<lambda>i. triggered (the (om_get (sb_orders b) i))) q)"
    using c res by simp_all
  note q = q1 q2 q3
  note get = get1 [unfolded b1] and ok = ok1 [unfolded b1] and ids = ids1 [unfolded b1] and tr = tr1 [unfolded b1]
    and h = h1 [unfolded b1]
  show "om_get (sb_orders b') i = map_option (\<lambda>x. if stop_hit p x then triggered x else x) (om_get (sb_orders b) i)" for i
    by (rule get)
  show "om_get (sb_orders b') i = Some x \<Longrightarrow> \<not> stop_hit p x" for i x
    by (auto simp: get stop_hit_def triggered_neq split: if_splits)
  show "sb_last_price b' = sb_last_price b" "sb_price_changes b' = sb_price_changes b" by (rule h)+
  show "sorted (map so_timestamp ts)" by (simp add: q(1))
  show "set ts = triggered ` {x. \<exists>i. om_get (sb_orders b) i = Some x \<and> stop_hit p x}"
    using q(3) by (force simp: q(1))
  have sid: "so_id x = i" if "om_get (sb_orders b) i = Some x" for i x using inv that by (simp add: stop_inv_def)
  have "map (\<lambda>i. so_id (triggered (the (om_get (sb_orders b) i)))) q = q"
    using q(3) sid by (auto intro!: map_idI)
  then have "distinct (map so_id (map (\<lambda>i. triggered (the (om_get (sb_orders b) i))) q))"
    using q(2) by (simp add: comp_def)
  then show "distinct (map so_id ts)"
    unfolding q(1) by (simp only: distinct_map distinct_sort set_sort)
  have pend: "pending_at b' s r i \<longleftrightarrow> pending_at b s r i \<and> \<not> (case s of Buy \<Rightarrow> r \<le> p | Sell \<Rightarrow> p \<le> r)" for s r i
    unfolding pending_at_def get by (cases "om_get (sb_orders b) i"; cases s) (auto simp: stop_hit_def)
  have idx: "i \<in> set (index_ids (sb_stops b' s) r) \<longleftrightarrow> pending_at b' s r i" for i s r
    using inv unfolding ids pend by (simp add: stop_inv_def)
  have live: "i \<in> set (sb_trailing_ids b') \<longleftrightarrow>
      (\<exists>x. om_get (sb_orders b') i = Some x \<and> so_status x = StopPending \<and> so_trail_method x \<noteq> None)" for i
    using inv q(3) [of i] unfolding tr get
    by (cases "om_get (sb_orders b) i") (auto simp: stop_inv_def stop_hit_def)
  show "stop_inv b'"
    unfolding stop_inv_def using inv ok idx live tr
    by (auto simp: stop_inv_def get split: if_splits)
qed

section \<open>Trailing\<close>

text \<open>\<open>tighter x y\<close>: \<open>y\<close> is \<open>x\<close> with another watermark and a stop price that is nowhere less
  protective, higher for a sell stop and lower for a buy stop.\<close>

definition tighter :: "stop_order \<Rightarrow> stop_order \<Rightarrow> bool" where
  "tighter x y \<longleftrightarrow> y = x\<lparr>so_stop_price := so_stop_price y, so_watermark := so_watermark y\<rparr> \<and>
     (case so_side x of Sell \<Rightarrow> so_stop_price x \<le> so_stop_price y | Buy \<Rightarrow> so_stop_price y \<le> so_stop_price x)"

lemma tighter_refl [simp]: "tighter x x"
  by (cases "so_side x") (simp_all add: tighter_def)

lemma tighter_fields:
  assumes "tighter x y"
  shows "so_id y = so_id x" and "so_side y = so_side x" and "so_limit_price y = so_limit_price x"
    and "so_quantity y = so_quantity x" and "so_tif y = so_tif x" and "so_timestamp y = so_timestamp x"
    and "so_status y = so_status x" and "so_trail_method y = so_trail_method x"
  using assms by (metis stop_order.simps stop_order.surjective stop_order.update_convs tighter_def)+

lemma tighter_trans:
  assumes "tighter x y" and "tighter y z"
  shows "tighter x z"
proof -
  have "y = x\<lparr>so_stop_price := so_stop_price y, so_watermark := so_watermark y\<rparr>"
    and z: "z = y\<lparr>so_stop_price := so_stop_price z, so_watermark := so_watermark z\<rparr>"
    using assms by (simp_all add: tighter_def)
  then have "z = x\<lparr>so_stop_price := so_stop_price z, so_watermark := so_watermark z\<rparr>"
    by (cases x; cases y; cases z) simp
  then show ?thesis using assms tighter_fields(2) [OF assms(1)] by (cases "so_side x") (auto simp: tighter_def)
qed

abbreviation orders_tighter :: "stop_book \<Rightarrow> stop_book \<Rightarrow> bool" where
  "orders_tighter b b' \<equiv> \<forall>i. rel_option tighter (om_get (sb_orders b) i) (om_get (sb_orders b') i)"

lemma orders_tighter_refl: "orders_tighter b b"
  by (simp add: option.rel_refl)

lemma orders_tighter_trans: "orders_tighter a b \<Longrightarrow> orders_tighter b c \<Longrightarrow> orders_tighter a c"
proof
  fix i assume "orders_tighter a b" "orders_tighter b c"
  then have "rel_option tighter (om_get (sb_orders a) i) (om_get (sb_orders b) i)"
    "rel_option tighter (om_get (sb_orders b) i) (om_get (sb_orders c) i)" by blast+
  then show "rel_option tighter (om_get (sb_orders a) i) (om_get (sb_orders c) i)"
    by (auto simp: rel_option_iff split: option.splits dest: tighter_trans)
qed

text \<open>A change of one order's stop price with the index following it.\<close>

lemma move_stop_inv:
  assumes inv: "stop_inv b" and x: "om_get (sb_orders b) i = Some x" "so_status x = StopPending"
    and b': "sb_orders b' = om_update i (\<lambda>x. x\<lparr>so_stop_price := q, so_watermark := w\<rparr>) (sb_orders b)"
    and st: "\<And>s. sb_stops b' s =
      (if s = so_side x \<and> q \<noteq> so_stop_price x then index_push q i (index_drop (so_stop_price x) i (sb_stops b s)) else sb_stops b s)"
    and tr: "sb_trailing_ids b' = sb_trailing_ids b"
  shows "stop_inv b'"
proof -
  note u = pending_unique [OF inv x]
  have ok: "index_ok (sb_stops b s)" for s using inv by (simp add: stop_inv_def)
  have "index_ok (sb_stops b' s)" for s
    using ok px.move_ok [OF ok u] by (simp add: st)
  moreover have "j \<in> set (index_ids (sb_stops b' s) r) \<longleftrightarrow> pending_at b' s r j" for j s r
    using inv x px.move_member [OF u] by (auto simp: st stop_inv_def pending_at_def b' om_get_update)
  ultimately show ?thesis
    using inv x by (auto simp: stop_inv_def b' tr om_ok_update om_get_update)
qed

lemma trail_step_ok:
  assumes inv: "stop_inv b"
  shows "stop_inv (trail_step p i b)" and "orders_tighter b (trail_step p i b)"
    and "sb_trailing_ids (trail_step p i b) = sb_trailing_ids b"
    and "sb_price_changes (trail_step p i b) = sb_price_changes b"
    and "sb_last_price (trail_step p i b) = sb_last_price b"
proof -
  let ?b = "trail_step p i b"
  have "stop_inv ?b \<and> orders_tighter b ?b \<and> sb_trailing_ids ?b = sb_trailing_ids b \<and>
    sb_price_changes ?b = sb_price_changes b \<and> sb_last_price ?b = sb_last_price b"
  proof (cases "\<exists>x meth. om_get (sb_orders b) i = Some x \<and> so_status x = StopPending \<and> so_trail_method x = Some meth")
    case False
    then have "?b = b"
      by (auto simp: trail_step_def split: option.splits stop_status.splits prod.splits)
    then show ?thesis using inv orders_tighter_refl by simp
  next
    case True
    then obtain x meth where x: "om_get (sb_orders b) i = Some x" "so_status x = StopPending" "so_trail_method x = Some meth"
      by blast
    define w where "w = new_watermark (so_side x) p (so_watermark x)"
    define off where "off = trail_offset (sb_price_changes b) w meth"
    define n where "n = i64_wrap (case so_side x of Sell \<Rightarrow> w - off | Buy \<Rightarrow> w + off)"
    define up where "up \<longleftrightarrow> 0 < off \<and> (case so_side x of Sell \<Rightarrow> so_stop_price x < n | Buy \<Rightarrow> n < so_stop_price x)"
    define q where "q = (if up then n else so_stop_price x)"
    have q_move: "q \<noteq> so_stop_price x \<longleftrightarrow> up" by (cases "so_side x") (auto simp: q_def up_def)
    have step: "?b = (if up then sb_set_stops (so_side x)
            (index_push n i (index_drop (so_stop_price x) i (sb_stops b (so_side x)))) b else b)
        \<lparr>sb_orders := om_update i (\<lambda>y. if up then y\<lparr>so_stop_price := n, so_watermark := Some w\<rparr>
                                      else y\<lparr>so_watermark := Some w\<rparr>) (sb_orders b)\<rparr>"
      by (cases "so_side x") (auto simp: trail_step_def x Let_def up_def n_def off_def w_def)
    have orders: "sb_orders ?b = om_update i (\<lambda>x. x\<lparr>so_stop_price := q, so_watermark := Some w\<rparr>) (sb_orders b)"
      unfolding step using inv x by (auto simp: stop_inv_def q_def intro!: om_update_cong)
    have stops: "sb_stops ?b s = (if s = so_side x \<and> q \<noteq> so_stop_price x
        then index_push q i (index_drop (so_stop_price x) i (sb_stops b s)) else sb_stops b s)" for s
      unfolding step q_move by (simp add: q_def)
    have rest: "sb_trailing_ids ?b = sb_trailing_ids b" "sb_price_changes ?b = sb_price_changes b" "sb_last_price ?b = sb_last_price b"
      by (simp_all add: step)
    have "tighter x (x\<lparr>so_stop_price := q, so_watermark := Some w\<rparr>)"
      by (cases "so_side x") (auto simp: tighter_def q_def up_def)
    then have "orders_tighter b ?b"
      using x unfolding orders by (auto simp: om_get_update option.rel_refl)
    then show ?thesis using move_stop_inv [OF inv x(1,2) orders stops rest(1)] rest by simp
  qed
  then show "stop_inv ?b" "orders_tighter b ?b" "sb_trailing_ids ?b = sb_trailing_ids b"
    "sb_price_changes ?b = sb_price_changes b" "sb_last_price ?b = sb_last_price b" by blast+
qed

lemma record_price_inv: "stop_inv b \<Longrightarrow> stop_inv (record_price p b)"
  by (simp add: stop_inv_def record_price_def pending_at_def)

lemma trail_fold_ok:
  assumes "stop_inv b"
  shows "stop_inv (fold (trail_step p) q b) \<and> orders_tighter b (fold (trail_step p) q b) \<and>
         sb_trailing_ids (fold (trail_step p) q b) = sb_trailing_ids b \<and>
         sb_last_price (fold (trail_step p) q b) = sb_last_price b"
  using assms
proof (induction q arbitrary: b)
  case Nil
  then show ?case by (simp add: option.rel_refl)
next
  case (Cons i q)
  note s = trail_step_ok [OF Cons.prems, of p i]
  from Cons.IH [OF s(1)] s(2-) show ?case using orders_tighter_trans [OF s(2)] by simp
qed

lemma update_trailing_stops_ok:
  assumes "stop_inv b"
  shows "stop_inv (update_trailing_stops p b)" and "orders_tighter b (update_trailing_stops p b)"
    and "sb_trailing_ids (update_trailing_stops p b) = sb_trailing_ids b"
    and "sb_last_price (update_trailing_stops p b) = Some p"
proof -
  have same: "sb_orders (record_price p b) = sb_orders b" "sb_trailing_ids (record_price p b) = sb_trailing_ids b"
    "sb_last_price (record_price p b) = Some p" by (simp_all add: record_price_def)
  note f = trail_fold_ok [OF record_price_inv [OF assms], of p "sb_trailing_ids b" p, unfolded same]
  show "stop_inv (update_trailing_stops p b)" "orders_tighter b (update_trailing_stops p b)"
    "sb_trailing_ids (update_trailing_stops p b) = sb_trailing_ids b"
    "sb_last_price (update_trailing_stops p b) = Some p"
    using f by (simp_all add: update_trailing_stops_def Let_def same)
qed

section \<open>Properties\<close>

definition demo_sell_stop :: stop_order where
  "demo_sell_stop = \<lparr>so_id = 3, so_side = Sell, so_stop_price = 95, so_limit_price = None, so_quantity = 10, so_tif = GTC,
     so_timestamp = 3, so_status = StopPending, so_trail_method = Some (Fixed 4), so_watermark = None\<rparr>"

definition demo_buy_stop :: stop_order where
  "demo_buy_stop = demo_sell_stop\<lparr>so_id := 2, so_side := Buy, so_stop_price := 105, so_timestamp := 2, so_trail_method := None\<rparr>"

definition demo_stops :: stop_book where
  "demo_stops = stop_insert demo_sell_stop (stop_insert demo_buy_stop stop_book_new)"

lemma demo_stops_inv: "stop_inv demo_stops"
proof -
  have a: "om_get (sb_orders stop_book_new) (so_id demo_buy_stop) = None" "so_status demo_buy_stop = StopPending"
    and b: "om_get (sb_orders (stop_insert demo_buy_stop stop_book_new)) (so_id demo_sell_stop) = None"
      "so_status demo_sell_stop = StopPending" by code_simp+
  show ?thesis unfolding demo_stops_def
    by (intro stop_insert_inv [OF stop_insert_inv [OF stop_book_new_inv a] b])
qed

text \<open>C30. A trade triggers exactly the pending stops whose price it reached: buy stops at or
  below the trade price and sell stops at or above it. They come back once each, ordered by
  time of submission, and are marked; nothing else in the book changes and none of them is
  pending afterwards.\<close>

theorem triggers_exactly_reached_stops:
  assumes "stop_inv b" and "collect_triggered p b = (b', ts)"
  shows "stop_inv b' \<and> set ts = triggered ` {x. \<exists>i. stop_get b i = Some x \<and> stop_hit p x} \<and>
         sorted (map so_timestamp ts) \<and> distinct (map so_id ts) \<and>
         (\<forall>i. stop_get b' i = map_option (\<lambda>x. if stop_hit p x then triggered x else x) (stop_get b i)) \<and>
         (\<forall>i x. stop_get b' i = Some x \<longrightarrow> \<not> stop_hit p x)"
  using collect_triggered_ok [OF assms] unfolding stop_get_def by blast

theorem triggers_exactly_reached_stops_witness:
  "set (snd (collect_triggered 105 demo_stops)) = triggered ` {x. \<exists>i. stop_get demo_stops i = Some x \<and> stop_hit 105 x} \<and>
   snd (collect_triggered 105 demo_stops) = [triggered demo_buy_stop]"
proof -
  have "snd (collect_triggered 105 demo_stops) = [triggered demo_buy_stop]" by code_simp
  then show ?thesis
    using triggers_exactly_reached_stops [OF demo_stops_inv prod.collapse [symmetric], of 105] by blast
qed

text \<open>A trailing stop only tightens: an update for a trade price keeps every order with its
  side, quantity, limit and status, never lowers the price of a sell stop and never raises
  that of a buy stop, whatever the trail method and whatever the arithmetic wraps to.\<close>

lemma trailing_stop_only_tightens:
  assumes "stop_inv b" and "stop_get b i = Some x"
  shows "\<exists>y. stop_get (update_trailing_stops p b) i = Some y \<and>
           so_id y = so_id x \<and> so_side y = so_side x \<and> so_quantity y = so_quantity x \<and>
           so_limit_price y = so_limit_price x \<and> so_tif y = so_tif x \<and> so_status y = so_status x \<and>
           (so_side x = Sell \<longrightarrow> so_stop_price x \<le> so_stop_price y) \<and>
           (so_side x = Buy \<longrightarrow> so_stop_price y \<le> so_stop_price x) \<and>
           stop_inv (update_trailing_stops p b)"
proof -
  note u = update_trailing_stops_ok [OF assms(1), of p]
  have "rel_option tighter (stop_get b i) (stop_get (update_trailing_stops p b) i)" using u(2) by (simp add: stop_get_def)
  with assms(2) obtain y where y: "stop_get (update_trailing_stops p b) i = Some y" "tighter x y"
    by (auto simp: rel_option_iff split: option.splits)
  with u(1) tighter_fields [OF y(2)] show ?thesis by (auto simp: tighter_def)
qed

text \<open>C31. The stop book stays consistent: inserting a new pending order, cancelling, triggering,
  trailing and clearing the history keep the price indexes equal to the set of pending
  orders; a cancellation succeeds exactly for pending orders.\<close>

theorem stop_book_consistent:
  assumes "stop_inv b"
  shows "(stop_get b (so_id x) = None \<and> so_status x = StopPending \<longrightarrow> stop_inv (stop_insert x b)) \<and>
         stop_inv (fst (stop_cancel i b)) \<and> snd (stop_cancel i b) = contains_pending b i \<and>
         \<not> contains_pending (fst (stop_cancel i b)) i \<and>
         stop_inv (fst (collect_triggered p b)) \<and> stop_inv (update_trailing_stops p b) \<and> stop_inv (stop_clear_history b)"
proof -
  have "\<not> contains_pending (fst (stop_cancel i b)) i"
    using stop_cancel_inv(3) [OF assms, of i i] by (auto simp: contains_pending_def split: option.splits)
  moreover have "stop_inv (fst (collect_triggered p b))"
    using collect_triggered_ok(1) [OF assms, of p "fst (collect_triggered p b)" "snd (collect_triggered p b)"] by simp
  ultimately show ?thesis
    using assms stop_insert_inv stop_cancel_inv(1,2) update_trailing_stops_ok(1) stop_clear_history_inv(1)
    by (simp add: stop_get_def)
qed

theorem stop_book_consistent_witness: "stop_inv (fst (stop_cancel 3 demo_stops)) \<and> \<not> contains_pending (fst (stop_cancel 3 demo_stops)) 3"
  using stop_book_consistent [OF demo_stops_inv] by blast

end
