(* ===== verification/Exchange_Inv.thy ===== *)
theory Exchange_Inv
  imports Exchange_Submit Stop_Ops
begin

text \<open>
  The invariant of the exchange and its public operations. The stop book and the order book
  share the identifier counter, and a trade may set off a cascade of stop orders, so the
  facts that keep a cascade from overflowing a counter or a level total are stated on the
  exchange as a whole (\<open>ex_room\<close>).
\<close>

section \<open>Invariant and room\<close>

definition pend_sum :: "(stop_order \<Rightarrow> nat) \<Rightarrow> stop_book \<Rightarrow> nat" where
  "pend_sum f sb = sum_list (map f (filter (\<lambda>x. so_status x = StopPending) (om_values (sb_orders sb))))"

definition total_qty :: "book \<Rightarrow> nat" where
  "total_qty b = qty_sum (book_queue b Buy) + qty_sum (book_queue b Sell)"

definition ex_inv :: "exchange \<Rightarrow> bool" where
  "ex_inv ex \<longleftrightarrow> book_inv (ex_book ex) \<and> uncrossed (ex_book ex) \<and> stop_inv (ex_stop_book ex) \<and>
     (\<forall>i x. om_get (sb_orders (ex_stop_book ex)) i = Some x \<longrightarrow> i < bk_next_order_id (ex_book ex))"

text \<open>
  Resting quantity, quantity of pending stops and \<open>q\<close> more fit a \<open>u64\<close>, and so do the
  identifiers for the pending stops and \<open>n\<close> more orders.
\<close>

definition ex_room :: "quantity \<Rightarrow> nat \<Rightarrow> exchange \<Rightarrow> bool" where
  "ex_room q n ex \<longleftrightarrow> total_qty (ex_book ex) + pend_sum so_quantity (ex_stop_book ex) + q < 2 ^ 64 \<and>
     bk_next_order_id (ex_book ex) + pend_sum (\<lambda>_. 1) (ex_stop_book ex) + n < 2 ^ 64"

lemma total_qty_by: "total_qty b = qty_sum (book_queue b s) + qty_sum (book_queue b (opposite s))"
  by (cases s) (simp_all add: total_qty_def)

lemma exchange_new_inv: "ex_inv exchange_new"
proof -
  have "book_queue book_new s = []" for s
    by (cases s) (simp_all add: book_queue_def book_new_def side_queue_def book_side_def pl_new_def pl_iter_best_to_worst_def)
  then have "uncrossed book_new" by (simp add: uncrossed_def)
  then show ?thesis
    using book_new_inv stop_book_new_inv by (simp add: ex_inv_def exchange_new_def stop_book_new_def)
qed

section \<open>One submission\<close>

definition book_ready :: "exchange \<Rightarrow> bool" where
  "book_ready ex \<longleftrightarrow> book_inv (ex_book ex) \<and> uncrossed (ex_book ex)"

definition same_context :: "exchange \<Rightarrow> exchange \<Rightarrow> bool" where
  "same_context ex ex' \<longleftrightarrow> ex_stop_book ex' = ex_stop_book ex \<and> ex_stp_policy ex' = ex_stp_policy ex \<and>
     ex_last_trade_price ex' = ex_last_trade_price ex \<and> ex_events ex' = ex_events ex"

lemma same_context_trans: "same_context a b \<Longrightarrow> same_context b c \<Longrightarrow> same_context a c"
  by (simp add: same_context_def)

lemma submit_step:
  assumes ready: "book_ready ex" and id: "bk_next_order_id (ex_book ex) < 2 ^ 64 - 1"
    and room: "total_qty (ex_book ex) + q < 2 ^ 64"
    and safe: "ex_stp_policy ex = Off \<or> ex_stp_policy ex = CancelNewest \<or> w = None"
  shows "\<exists>ex' r. submit_limit_internal_with_owner s p q tif w ex = ret (ex', r) \<and> book_ready ex' \<and>
           same_context ex ex' \<and> ex_trades ex' = ex_trades ex @ sr_trades r \<and>
           bk_next_order_id (ex_book ex') = bk_next_order_id (ex_book ex) + 1 \<and>
           total_qty (ex_book ex') \<le> total_qty (ex_book ex) + q \<and> sr_order_id r = bk_next_order_id (ex_book ex)"
proof (cases "tif = FOK \<and> \<not> can_fully_fill s p q (ex_book ex)")
  case True
  note cnt = counted_ok [OF _ id]
  have "book_ready (ex\<lparr>ex_book := counted (ex_book ex)\<rparr>)"
    using ready cnt by (simp add: book_ready_def uncrossed_def)
  then show ?thesis
    using submit_rejected [of tif s p q ex w] True ready cnt
    by (simp add: same_context_def total_qty_def book_ready_def)
next
  case False
  have inv: "book_inv (ex_book ex)" "uncrossed (ex_book ex)" using ready by (simp_all add: book_ready_def)
  have "qty_sum (book_queue (ex_book ex) s) + q < 2 ^ 64" using room by (simp add: total_qty_by [of _ s])
  from submit_internal_ok [OF inv(1) id this safe] False
  obtain b' r where r: "submit_limit_internal_with_owner s p q tif w ex =
      ret (ex\<lparr>ex_book := b', ex_trades := ex_trades ex @ sr_trades r\<rparr>, r)" "book_inv b'"
      "submit_spec (ex_stp_policy ex) s p q tif w (ex_book ex) b' r" by blast
  note q = submit_spec_queues [OF r(3) safe] and c = submit_spec_conserves [OF r(3)]
  have "total_qty b' \<le> total_qty (ex_book ex) + q" using q c by (simp add: total_qty_by [of _ s])
  moreover have "sr_order_id r = bk_next_order_id (ex_book ex)" using r(3) by (auto simp: submit_spec_def split: prod.splits)
  ultimately show ?thesis
    using r q(3) submit_spec_uncrossed [OF inv(1) r(2) inv(2) r(3)] by (simp add: book_ready_def same_context_def)
qed

section \<open>A round of triggered stops\<close>

lemma submit_triggered_ok:
  assumes "book_ready ex" and "bk_next_order_id (ex_book ex) + length ts < 2 ^ 64"
    and "total_qty (ex_book ex) + sum_list (map so_quantity ts) < 2 ^ 64"
  shows "\<exists>ex' lp'. submit_triggered ts lp ex = ret (ex', lp') \<and> book_ready ex' \<and> same_context ex ex' \<and>
           bk_next_order_id (ex_book ex') = bk_next_order_id (ex_book ex) + length ts \<and>
           total_qty (ex_book ex') \<le> total_qty (ex_book ex) + sum_list (map so_quantity ts) \<and>
           (\<exists>new. ex_trades ex' = ex_trades ex @ new)"
  using assms
proof (induction ts arbitrary: ex lp)
  case Nil
  then show ?case by (simp add: same_context_def)
next
  case (Cons x ts)
  have pre: "bk_next_order_id (ex_book ex) < 2 ^ 64 - 1" "total_qty (ex_book ex) + so_quantity x < 2 ^ 64"
    using Cons.prems by simp_all
  obtain p tif where call: "submit_triggered_stop x ex = submit_limit_internal_with_owner (so_side x) p (so_quantity x) tif None ex"
    by (cases "so_limit_price x") (simp_all add: submit_triggered_stop_def submit_limit_internal_def)
  from submit_step [OF Cons.prems(1) pre, of None] obtain ex1 r where
    r: "submit_triggered_stop x ex = ret (ex1, r)" "book_ready ex1" "same_context ex ex1"
      "ex_trades ex1 = ex_trades ex @ sr_trades r"
      "bk_next_order_id (ex_book ex1) = bk_next_order_id (ex_book ex) + 1"
      "total_qty (ex_book ex1) \<le> total_qty (ex_book ex) + so_quantity x"
    unfolding call by blast
  have "bk_next_order_id (ex_book ex1) + length ts < 2 ^ 64" "total_qty (ex_book ex1) + sum_list (map so_quantity ts) < 2 ^ 64"
    using Cons.prems r(5,6) by simp_all
  from Cons.IH [OF r(2) this, of "last_price_of (sr_trades r) lp"] obtain ex2 lp2 new where
    "submit_triggered ts (last_price_of (sr_trades r) lp) ex1 = ret (ex2, lp2)" "book_ready ex2" "same_context ex1 ex2"
    "bk_next_order_id (ex_book ex2) = bk_next_order_id (ex_book ex1) + length ts"
    "total_qty (ex_book ex2) \<le> total_qty (ex_book ex1) + sum_list (map so_quantity ts)" "ex_trades ex2 = ex_trades ex1 @ new"
    by blast
  then show ?case using r same_context_trans [OF r(3)] by auto
qed

section \<open>Pending stops\<close>

lemma pend_sum_alt:
  assumes "stop_inv sb"
  shows "pend_sum f sb = (\<Sum>i \<in> {i. \<exists>x. om_get (sb_orders sb) i = Some x \<and> so_status x = StopPending}.
                            f (the (om_get (sb_orders sb) i)))"
  using assms unfolding pend_sum_def by (intro om_sum) (simp add: stop_inv_def)

lemma pend_sum_tighter:
  assumes inv: "stop_inv sb" "stop_inv sb'" and t: "orders_tighter sb sb'" and f: "\<And>x y. tighter x y \<Longrightarrow> f y = f x"
  shows "pend_sum f sb' = pend_sum f sb"
proof -
  have rel: "rel_option tighter (om_get (sb_orders sb) i) (om_get (sb_orders sb') i)" for i using t by blast
  have some: "(\<exists>x. om_get (sb_orders sb') i = Some x \<and> so_status x = StopPending) \<longleftrightarrow>
      (\<exists>x. om_get (sb_orders sb) i = Some x \<and> so_status x = StopPending)" for i
    using rel [of i] tighter_fields(7) by (auto simp: rel_option_iff split: option.splits)
  have val: "f (the (om_get (sb_orders sb') i)) = f (the (om_get (sb_orders sb) i))"
    if "\<exists>x. om_get (sb_orders sb) i = Some x \<and> so_status x = StopPending" for i
    using rel [of i] that f by (auto simp: rel_option_iff split: option.splits)
  show ?thesis unfolding pend_sum_alt [OF inv(1)] pend_sum_alt [OF inv(2)] some
    by (rule sum.cong) (use val in auto)
qed

lemma pend_sum_collect:
  assumes inv: "stop_inv sb" and c: "collect_triggered p sb = (sb', ts)" and f: "\<And>x. f (triggered x) = f x"
  shows "pend_sum f sb = pend_sum f sb' + sum_list (map f ts)"
proof -
  note k = collect_triggered_ok [OF inv c]
  let ?g = "om_get (sb_orders sb)" and ?g' = "om_get (sb_orders sb')"
  let ?P = "{i. \<exists>x. ?g i = Some x \<and> so_status x = StopPending}" and ?P' = "{i. \<exists>x. ?g' i = Some x \<and> so_status x = StopPending}"
  let ?H = "{i. \<exists>x. ?g i = Some x \<and> stop_hit p x}"
  have fin: "finite (dom ?g)" by (rule finite_dom_map_of)
  have id: "so_id x = i" if "?g i = Some x" for i x using inv that by (simp add: stop_inv_def)
  have P: "?P = ?P' \<union> ?H" "?P' \<inter> ?H = {}"
    by (auto simp: k(5) stop_hit_def triggered_neq triggered_neq [symmetric] split: if_splits)
  have "finite ?P" using fin by (rule rev_finite_subset) auto
  then have "finite ?P'" "finite ?H" unfolding P(1) by simp_all
  then have sum: "pend_sum f sb = (\<Sum>i \<in> ?P'. f (the (?g i))) + (\<Sum>i \<in> ?H. f (the (?g i)))"
    unfolding pend_sum_alt [OF inv] P(1) using P(2) by (intro sum.union_disjoint)
  have "(\<Sum>i \<in> ?P'. f (the (?g i))) = pend_sum f sb'"
    unfolding pend_sum_alt [OF k(1)] by (rule sum.cong) (auto simp: k(5) f split: if_splits)
  moreover have "(\<Sum>i \<in> ?H. f (the (?g i))) = sum_list (map f ts)"
  proof -
    have inj: "inj_on so_id (set ts)" "distinct ts" using k(4) by (simp_all add: distinct_map)
    have H: "so_id ` set ts = ?H" unfolding k(2) using id by (force simp: image_iff)
    have "f x = f (the (?g (so_id x)))" if "x \<in> set ts" for x
      using that id f unfolding k(2) by force
    then have "sum_list (map f ts) = (\<Sum>x \<in> set ts. f (the (?g (so_id x))))"
      using inj(2) by (simp add: sum_list_distinct_conv_sum_set)
    also have "\<dots> = (\<Sum>i \<in> so_id ` set ts. f (the (?g i)))" using inj(1) by (simp add: sum.reindex)
    finally show ?thesis by (simp add: H)
  qed
  ultimately show ?thesis using sum by simp
qed

section \<open>The cascade\<close>

text \<open>Collecting the stops a price triggers, after the trailing update.\<close>

lemma trigger_round:
  assumes inv: "ex_inv ex" and room: "ex_room q n ex"
    and c: "collect_triggered p (update_trailing_stops p (ex_stop_book ex)) = (sb, ts)"
  shows "stop_inv sb" and "pend_sum so_quantity sb + sum_list (map so_quantity ts) = pend_sum so_quantity (ex_stop_book ex)"
    and "pend_sum (\<lambda>_. 1) sb + length ts = pend_sum (\<lambda>_. 1) (ex_stop_book ex)"
    and "om_get (sb_orders sb) i = Some x \<Longrightarrow> i < bk_next_order_id (ex_book ex)"
proof -
  let ?sb = "ex_stop_book ex" and ?u = "update_trailing_stops p (ex_stop_book ex)"
  have sinv: "stop_inv ?sb" using inv by (simp add: ex_inv_def)
  note u = update_trailing_stops_ok [OF sinv, of p]
  note k = collect_triggered_ok [OF u(1) c]
  show "stop_inv sb" by (rule k(1))
  have q: "pend_sum so_quantity ?u = pend_sum so_quantity ?sb"
    by (rule pend_sum_tighter [OF sinv u(1,2)]) (rule tighter_fields)
  have n: "pend_sum (\<lambda>_. 1) ?u = pend_sum (\<lambda>_. 1) ?sb"
    by (rule pend_sum_tighter [OF sinv u(1,2)]) simp
  show "pend_sum so_quantity sb + sum_list (map so_quantity ts) = pend_sum so_quantity ?sb"
    using pend_sum_collect [OF u(1) c, of so_quantity] q by (simp add: triggered_def)
  show "pend_sum (\<lambda>_. 1) sb + length ts = pend_sum (\<lambda>_. 1) ?sb"
    using pend_sum_collect [OF u(1) c, of "\<lambda>_. 1"] n by (simp add: sum_list_triv)
  have "rel_option tighter (om_get (sb_orders ?sb) i) (om_get (sb_orders ?u) i)" using u(2) by blast
  then show "om_get (sb_orders sb) i = Some x \<Longrightarrow> i < bk_next_order_id (ex_book ex)"
    using inv by (auto simp: k(5) ex_inv_def rel_option_iff split: option.splits)
qed

lemma trigger_rounds_ok:
  assumes "ex_inv ex" and "ex_room q k ex"
  shows "\<exists>ex'. trigger_rounds n ex = ret ex' \<and> ex_inv ex' \<and> ex_room q k ex' \<and>
           bk_next_order_id (ex_book ex) \<le> bk_next_order_id (ex_book ex') \<and>
           ex_stp_policy ex' = ex_stp_policy ex \<and> ex_events ex' = ex_events ex \<and>
           (\<exists>new. ex_trades ex' = ex_trades ex @ new)"
  using assms
proof (induction n arbitrary: ex)
  case (Suc n)
  show ?case
  proof (cases "ex_last_trade_price ex")
    case None
    then show ?thesis using Suc.prems by simp
  next
    case (Some p)
    obtain sb ts where c: "collect_triggered p (update_trailing_stops p (ex_stop_book ex)) = (sb, ts)" by fastforce
    note t = trigger_round [OF Suc.prems c]
    let ?ex1 = "ex\<lparr>ex_stop_book := sb\<rparr>"
    have one: "ex_inv ?ex1" "ex_room q k ?ex1"
      using Suc.prems t by (auto simp: ex_inv_def ex_room_def)
    show ?thesis
    proof (cases "ts = []")
      case True
      then show ?thesis using Some c one by auto
    next
      case False
      have ready: "book_ready ?ex1" using one by (simp add: book_ready_def ex_inv_def)
      have "bk_next_order_id (ex_book ?ex1) + length ts < 2 ^ 64"
        "total_qty (ex_book ?ex1) + sum_list (map so_quantity ts) < 2 ^ 64"
        using Suc.prems(2) t(2,3) by (simp_all add: ex_room_def)
      from submit_triggered_ok [OF ready this, of None] obtain ex2 lp new where
        s: "submit_triggered ts None ?ex1 = ret (ex2, lp)" "book_ready ex2" "same_context ?ex1 ex2"
          "bk_next_order_id (ex_book ex2) = bk_next_order_id (ex_book ex) + length ts"
          "total_qty (ex_book ex2) \<le> total_qty (ex_book ex) + sum_list (map so_quantity ts)"
          "ex_trades ex2 = ex_trades ex @ new" by auto
      have two: "ex_inv ex2 \<and> ex_room q k ex2"
        using s(2-5) one t Suc.prems(2)
        by (auto simp: ex_inv_def ex_room_def book_ready_def same_context_def intro: trans_less_add1)
      show ?thesis
      proof (cases lp)
        case None
        then show ?thesis using Some c False s two by (auto simp: same_context_def)
      next
        case (Some p')
        let ?ex3 = "ex2\<lparr>ex_last_trade_price := Some p'\<rparr>"
        have "ex_inv ?ex3" "ex_room q k ?ex3" using two by (simp_all add: ex_inv_def ex_room_def)
        from Suc.IH [OF this] show ?thesis
          using Some \<open>ex_last_trade_price ex = Some p\<close> c False s by (auto simp: same_context_def)
      qed
    qed
  qed
qed simp

lemma after_trades_ok:
  assumes "ex_inv ex" and "ex_room q k ex"
  shows "\<exists>ex'. after_trades ts ex = ret ex' \<and> ex_inv ex' \<and> ex_room q k ex' \<and>
           bk_next_order_id (ex_book ex) \<le> bk_next_order_id (ex_book ex') \<and>
           ex_stp_policy ex' = ex_stp_policy ex \<and> ex_events ex' = ex_events ex \<and>
           (\<exists>new. ex_trades ex' = ex_trades ex @ new)"
proof (cases "ts = []")
  case True
  then show ?thesis using assms by (simp add: after_trades_def)
next
  case False
  let ?ex = "ex\<lparr>ex_last_trade_price := Some (trd_price (last ts))\<rparr>"
  have "ex_inv ?ex" "ex_room q k ?ex" using assms by (simp_all add: ex_inv_def ex_room_def)
  from trigger_rounds_ok [OF this, of MAX_CASCADE_DEPTH] show ?thesis
    using False by (simp add: after_trades_def process_trade_triggers_def)
qed

section \<open>Public operations\<close>

lemma log_event_sel [simp]:
  "ex_book (log_event e ex) = ex_book ex" "ex_trades (log_event e ex) = ex_trades ex"
  "ex_stop_book (log_event e ex) = ex_stop_book ex" "ex_stp_policy (log_event e ex) = ex_stp_policy ex"
  "ex_last_trade_price (log_event e ex) = ex_last_trade_price ex" "ex_events (log_event e ex) = ex_events ex @ [e]"
  by (simp_all add: log_event_def)

lemma log_event_inv [simp]: "ex_inv (log_event e ex) = ex_inv ex" "ex_room q n (log_event e ex) = ex_room q n ex"
  by (simp_all add: ex_inv_def ex_room_def)

text \<open>A submission followed by its triggers, for every public submission.\<close>

lemma submit_and_trigger:
  assumes inv: "ex_inv ex" and room: "ex_room q 1 ex"
    and safe: "ex_stp_policy ex = Off \<or> ex_stp_policy ex = CancelNewest \<or> w = None"
  shows "\<exists>ex' r. rbind (submit_limit_internal_with_owner s p q tif w ex)
           (\<lambda>(ex', r). rbind (after_trades (sr_trades r) ex') (\<lambda>ex''. ret (ex'', r))) = ret (ex', r) \<and>
         ex_inv ex' \<and> ex_room 0 0 ex' \<and> ex_stp_policy ex' = ex_stp_policy ex \<and> ex_events ex' = ex_events ex \<and>
         (\<exists>new. ex_trades ex' = ex_trades ex @ sr_trades r @ new)"
proof -
  have ready: "book_ready ex" using inv by (simp add: ex_inv_def book_ready_def)
  have pre: "bk_next_order_id (ex_book ex) < 2 ^ 64 - 1" "total_qty (ex_book ex) + q < 2 ^ 64"
    using room by (simp_all add: ex_room_def)
  from submit_step [OF ready pre safe] obtain ex1 r where
    r: "submit_limit_internal_with_owner s p q tif w ex = ret (ex1, r)" "book_ready ex1" "same_context ex ex1"
      "ex_trades ex1 = ex_trades ex @ sr_trades r"
      "bk_next_order_id (ex_book ex1) = bk_next_order_id (ex_book ex) + 1"
      "total_qty (ex_book ex1) \<le> total_qty (ex_book ex) + q" by blast
  have "ex_inv ex1" "ex_room 0 0 ex1"
    using inv room r(2-6) by (auto simp: ex_inv_def ex_room_def book_ready_def same_context_def intro: less_SucI)
  from after_trades_ok [OF this, of "sr_trades r"] obtain ex2 new where
    "after_trades (sr_trades r) ex1 = ret ex2" "ex_inv ex2" "ex_room 0 0 ex2" "ex_stp_policy ex2 = ex_stp_policy ex1"
    "ex_events ex2 = ex_events ex1" "ex_trades ex2 = ex_trades ex1 @ new" by blast
  then show ?thesis using r by (auto simp: same_context_def)
qed

lemma insert_stop_ok:
  assumes inv: "ex_inv ex" and room: "ex_room q 2 ex"
  shows "\<exists>ex' r. insert_stop_order s sp lp q tif trail ex = ret (ex', r) \<and> ex_inv ex' \<and> ex_room 0 0 ex' \<and>
           ex_stp_policy ex' = ex_stp_policy ex \<and> ex_events ex' = ex_events ex \<and>
           ss_order_id r = bk_next_order_id (ex_book ex)"
proof -
  let ?b = "ex_book ex" and ?sb = "ex_stop_book ex" and ?i = "bk_next_order_id (ex_book ex)"
  let ?x = "\<lparr>so_id = ?i, so_side = s, so_stop_price = sp, so_limit_price = lp, so_quantity = q, so_tif = tif,
      so_timestamp = bk_next_timestamp ?b, so_status = StopPending, so_trail_method = trail, so_watermark = None\<rparr>"
  let ?ex1 = "ex\<lparr>ex_book := counted ?b, ex_stop_book := stop_insert ?x ?sb\<rparr>"
  have base: "book_inv ?b" "uncrossed ?b" "stop_inv ?sb" using inv by (simp_all add: ex_inv_def)
  have id: "?i < 2 ^ 64 - 1" using room by (simp add: ex_room_def)
  note cnt = counted_ok [OF base(1) id]
  have fresh: "om_get (sb_orders ?sb) ?i = None"
    using inv by (cases "om_get (sb_orders ?sb) ?i") (auto simp: ex_inv_def)
  have orders: "sb_orders (stop_insert ?x ?sb) = om_insert ?i ?x (sb_orders ?sb)" by (simp add: stop_insert_def Let_def)
  have sinv: "stop_inv (stop_insert ?x ?sb)" using stop_insert_inv [OF base(3)] fresh by simp
  have sum: "pend_sum f (stop_insert ?x ?sb) = pend_sum f ?sb + f ?x" for f
    unfolding pend_sum_def orders by (simp add: om_sum_insert [OF fresh])
  have one: "ex_inv ?ex1" "ex_room 0 0 ?ex1"
    using inv room cnt sinv by (auto simp: ex_inv_def ex_room_def uncrossed_def total_qty_def sum orders om_get_insert
        intro: less_SucI split: if_splits)
  have call: "insert_stop_order s sp lp q tif trail ex =
      (case (trail, ex_last_trade_price ex) of
           (None, Some last_price) \<Rightarrow>
             if (case s of Buy \<Rightarrow> last_price \<ge> sp | Sell \<Rightarrow> last_price \<le> sp)
             then rbind (process_trade_triggers ?ex1)
                    (\<lambda>ex2. ret (ex2, \<lparr>ss_order_id = ?i,
                       ss_status = (case stop_get (ex_stop_book ex2) ?i of
                                      Some y \<Rightarrow> so_status y | None \<Rightarrow> StopTriggered)\<rparr>))
             else ret (?ex1, \<lparr>ss_order_id = ?i, ss_status = StopPending\<rparr>)
         | _ \<Rightarrow> ret (?ex1, \<lparr>ss_order_id = ?i, ss_status = StopPending\<rparr>))"
    by (cases trail; cases "ex_last_trade_price ex")
       (simp_all add: insert_stop_order_def book_take_order_id_def book_take_timestamp_def counted_def Let_def)
  obtain ex2 where t: "process_trade_triggers ?ex1 = ret ex2" "ex_inv ex2" "ex_room 0 0 ex2"
      "ex_stp_policy ex2 = ex_stp_policy ex" "ex_events ex2 = ex_events ex"
    using trigger_rounds_ok [OF one, of MAX_CASCADE_DEPTH] by (auto simp: process_trade_triggers_def)
  show ?thesis unfolding call using one t by (auto split: option.splits side.splits)
qed

end
