(* ===== verification/Examples.thy ===== *)
theory Examples
  imports Event_Log Exchange_Inv
begin

text \<open>
  Concrete states on which the properties are applied. \<open>book_check\<close> decides the invariant of a
  book, so that a book written out as a literal can be shown to satisfy it by evaluation.
\<close>

definition level_check :: "(order_id, order) omap \<Rightarrow> side \<Rightarrow> price \<times> level \<Rightarrow> bool" where
  "level_check ords s e = (case e of (p, l) \<Rightarrow> level_ok l \<and> lvl_price l = p \<and>
     list_all (\<lambda>i. case om_get ords i of None \<Rightarrow> False | Some x \<Rightarrow> resting_ok s p i x) (level_iter l) \<and>
     lvl_total l = qty_sum (level_orders ords l) \<and> 0 < lvl_total l)"

definition side_check :: "(order_id, order) omap \<Rightarrow> side \<Rightarrow> price_levels \<Rightarrow> bool" where
  "side_check ords s pl \<longleftrightarrow> pl_side pl = s \<and> pl_struct_ok pl \<and> list_all (level_check ords s) (pl_levels pl) \<and>
     distinct (side_ids pl) \<and> qty_sum (side_queue ords pl) < 2 ^ 64"

definition book_check :: "book \<Rightarrow> bool" where
  "book_check b \<longleftrightarrow> side_check (bk_orders b) Buy (book_side b Buy) \<and> side_check (bk_orders b) Sell (book_side b Sell) \<and>
     om_ok (bk_orders b) \<and> 0 < bk_next_order_id b \<and>
     list_all (\<lambda>(i, x). ord_id x = i \<and> 0 < i \<and> i < bk_next_order_id b \<and> order_ok x \<and>
        (ord_tif x = GTC \<and> order_is_active x \<and> 0 < ord_remaining x \<longrightarrow>
         i \<in> set (side_ids (book_side b (ord_side x))))) (bk_orders b)"

lemma level_check_inv: "level_check ords s (p, l) \<Longrightarrow> level_inv ords s p l"
  by (auto simp: level_check_def level_inv_def list_all_iff split: option.splits)

lemma side_check_inv: "side_check ords s pl \<Longrightarrow> side_inv ords s pl"
  by (auto simp: side_check_def side_inv_def list_all_iff intro: level_check_inv)

lemma book_check_inv: "book_check b \<Longrightarrow> book_inv b"
proof -
  assume c: "book_check b"
  have "side_inv (bk_orders b) s (book_side b s)" for s
    using c by (cases s) (simp_all add: book_check_def side_check_inv)
  moreover have "index_inv b"
    using c by (auto simp: index_inv_def book_check_def list_all_iff dest: map_of_SomeD)
  ultimately show ?thesis by (simp add: book_inv_def)
qed

text \<open>Two asks at 100, one ask at 101 and one bid at 98.\<close>

definition demo_events :: "event list" where
  "demo_events = [SubmitLimit Sell 100 5 GTC, SubmitLimit Sell 100 7 GTC, SubmitLimit Sell 101 4 GTC,
                  SubmitLimit Buy 98 6 GTC]"

definition resting :: "order_id \<Rightarrow> side \<Rightarrow> price \<Rightarrow> quantity \<Rightarrow> timestamp \<Rightarrow> nat \<Rightarrow> order" where
  "resting i s p q ts k = (order_new i s p q ts GTC)\<lparr>ord_position := k\<rparr>"

definition demo_book :: book where
  "demo_book =
     \<lparr>bk_bids = \<lparr>pl_levels = [(98, \<lparr>lvl_price = 98, lvl_orders = [4], lvl_total = 6, lvl_tombstones = 0\<rparr>)],
                 pl_best = Some 98, pl_side = Buy\<rparr>,
      bk_asks = \<lparr>pl_levels = [(100, \<lparr>lvl_price = 100, lvl_orders = [1, 2], lvl_total = 12, lvl_tombstones = 0\<rparr>),
                              (101, \<lparr>lvl_price = 101, lvl_orders = [3], lvl_total = 4, lvl_tombstones = 0\<rparr>)],
                 pl_best = Some 100, pl_side = Sell\<rparr>,
      bk_orders = [(1, resting 1 Sell 100 5 1 0), (2, resting 2 Sell 100 7 2 1), (3, resting 3 Sell 101 4 3 0),
                   (4, resting 4 Buy 98 6 4 0)],
      bk_next_order_id = 5, bk_next_trade_id = 1, bk_next_timestamp = 5\<rparr>"

definition demo_exchange :: exchange where
  "demo_exchange = \<lparr>ex_book = demo_book, ex_trades = [], ex_stop_book = stop_book_new,
                    ex_last_trade_price = None, ex_stp_policy = Off, ex_events = demo_events\<rparr>"

lemma demo_calls: "calls demo_events exchange_new = ret demo_exchange"
  by code_simp

lemma demo_book_inv: "book_inv demo_book"
  by (rule book_check_inv) code_simp

lemma demo_uncrossed: "uncrossed demo_book"
  by code_simp

lemma demo_inv: "ex_inv demo_exchange"
  using demo_book_inv demo_uncrossed stop_book_new_inv
  by (simp add: ex_inv_def demo_exchange_def) (simp add: stop_book_new_def)

lemma demo_room: "ex_room 1000 10 demo_exchange"
  by code_simp

end
