(* ===== verification/Matching_Properties.thy ===== *)
theory Matching_Properties
  imports Examples
begin

text \<open>
  The properties of the matching engine: it refines the reference matcher, and so it obeys
  price-time priority, the limit price, the conservation of quantity and the self-trade
  policy, and it leaves nothing within reach of an order that is not done.
\<close>

section \<open>Shared facts\<close>

lemma fill_trades_member:
  assumes "t \<in> set (fill_trades tid ts i s fs)"
  shows "(trd_passive_order_id t, trd_price t, trd_quantity t) \<in> set fs \<and> trd_aggressor_order_id t = i \<and> trd_aggressor_side t = s"
  using assms
proof (induction fs arbitrary: tid ts)
  case (Cons f fs)
  obtain j p q where f: "f = (j, p, q)" by (cases f)
  from Cons.prems consider "t = trade_new tid p q i j s ts" | "t \<in> set (fill_trades (u64_add tid 1) (u64_add ts 1) i s fs)"
    by (auto simp: f)
  then show ?case
  proof cases
    case 1
    then show ?thesis by (simp add: f trade_new_def)
  next
    case 2
    from Cons.IH [OF this] show ?thesis by simp
  qed
qed simp

lemma fill_trades_quantities: "map trd_quantity (fill_trades tid ts i s fs) = map (\<lambda>(_, _, q). q) fs"
  by (induction fs arbitrary: tid ts) (auto simp: trade_new_def)

lemma queue_live: "book_inv b \<Longrightarrow> all_live (book_queue b s)"
  using book_queueD(3) by blast

lemma engine_run:
  assumes "book_inv b" and "order_ok inc" and "stp_safe policy inc (book_queue b (opposite (ord_side inc)))"
  obtains b' inc' res fs where "match_order_with_policy inc policy b = ret (b', inc', res)" and "book_inv b'"
    and "sweep policy inc (book_queue b (opposite (ord_side inc))) =
           (fs, inc', mr_stp_cancelled res, book_queue b' (opposite (ord_side inc)))"
    and "mr_trades res = fill_trades (bk_next_trade_id b) (bk_next_timestamp b) (ord_id inc) (ord_side inc) fs"
    and "mr_remaining res = ord_remaining inc'" and "book_side b' (ord_side inc) = book_side b (ord_side inc)"
    and "bk_orders b' = apply_fills fs (bk_orders b)"
proof -
  obtain fs inc' c q' where sw: "sweep policy inc (book_queue b (opposite (ord_side inc))) = (fs, inc', c, q')"
    by (metis prod_cases4)
  show thesis by (rule match_order_refines [OF assms sw]) (rule that; use sw in simp)
qed

definition demo_taker :: order where
  "demo_taker = (order_new 5 Buy 101 14 5 GTC)\<lparr>ord_owner := Some 7\<rparr>"

lemma demo_taker_ok: "order_ok demo_taker" "ord_side demo_taker = Buy" "opposite (ord_side demo_taker) = Sell"
  "stp_safe CancelNewest demo_taker q" "ord_owner demo_taker = Some 7" "ord_remaining demo_taker = 14" "ord_price demo_taker = 101"
  by (simp_all add: demo_taker_def order_ok_def order_new_def stp_safe_def)

text \<open>A smaller order of that owner, on a book in which the second ask is his.\<close>

definition small_taker :: order where
  "small_taker = (order_new 5 Buy 101 6 5 GTC)\<lparr>ord_owner := Some 7\<rparr>"

definition owned_book :: book where
  "owned_book = demo_book\<lparr>bk_orders := om_update 2 (\<lambda>x. x\<lparr>ord_owner := Some 7\<rparr>) (bk_orders demo_book)\<rparr>"

lemma owned_book_inv: "book_inv owned_book"
  by (rule book_check_inv) code_simp

section \<open>Properties\<close>

text \<open>C1. The two nested matching loops terminate without a panic and implement the reference
  matcher on the priority queue: same fills, same final state of the incoming order, same
  queue, and the book invariant holds afterwards. The own side of the book is not touched.
  The book satisfies its invariant, the order is well formed, and self-trade
  prevention is safe (\<open>stp_safe\<close>): the policy is \<open>Off\<close> or \<open>CancelNewest\<close>, or no order of the
  opposite queue has the owner of the incoming one, or the policy is \<open>DecrementAndCancel\<close> and
  every such order is larger than the incoming one. (Under the remaining policies the loops
  can run for ever, see \<^theory_text>\<open>Defects\<close>.)\<close>

theorem matching_refines_sweep:
  assumes "book_inv b" and "order_ok inc" and "stp_safe policy inc (book_queue b (opposite (ord_side inc)))"
  shows "case sweep policy inc (book_queue b (opposite (ord_side inc))) of
           (fs, inc', c, q') \<Rightarrow>
             \<exists>b' res. match_order_with_policy inc policy b = ret (b', inc', res) \<and> book_inv b' \<and>
               mr_trades res = fill_trades (bk_next_trade_id b) (bk_next_timestamp b) (ord_id inc) (ord_side inc) fs \<and>
               mr_remaining res = ord_remaining inc' \<and> mr_stp_cancelled res = c \<and>
               book_queue b' (opposite (ord_side inc)) = q' \<and>
               book_side b' (ord_side inc) = book_side b (ord_side inc) \<and>
               bk_orders b' = apply_fills fs (bk_orders b)"
  by (rule engine_run [OF assms]) auto

theorem matching_refines_sweep_witness:
  "(\<exists>b' res x'. match_order_with_policy demo_taker CancelNewest demo_book = ret (b', x', res) \<and> book_inv b' \<and>
      map trd_quantity (mr_trades res) = [5, 7, 2]) \<and>
   (\<exists>b' res x'. match_order_with_policy small_taker DecrementAndCancel owned_book = ret (b', x', res) \<and> book_inv b' \<and>
      map trd_quantity (mr_trades res) = [5] \<and> mr_stp_cancelled res)"
proof -
  have small: "order_ok small_taker" "ord_side small_taker = Buy" "opposite (ord_side small_taker) = Sell"
    "stp_safe DecrementAndCancel small_taker (book_queue owned_book Sell)" by code_simp+
  have "(case sweep DecrementAndCancel small_taker (book_queue owned_book Sell) of (fs, _, c, _) \<Rightarrow> (fs, c)) =
      ([(1, 100, 5)], True)" by code_simp
  then have "\<exists>b' res x'. match_order_with_policy small_taker DecrementAndCancel owned_book = ret (b', x', res) \<and> book_inv b' \<and>
      map trd_quantity (mr_trades res) = [5] \<and> mr_stp_cancelled res"
    using matching_refines_sweep [OF owned_book_inv small(1), of DecrementAndCancel] small(2-4)
    by (auto simp: fill_trades_quantities simp del: fill_trades.simps split: prod.splits)
  moreover have "sweep CancelNewest demo_taker (book_queue demo_book Sell) =
      ([(1, 100, 5), (2, 100, 7), (3, 101, 2)], filled_by 2 (filled_by 7 (filled_by 5 demo_taker)), False,
       [filled_by 2 (resting 3 Sell 101 4 3 0)])" by code_simp
  then have "\<exists>b' res x'. match_order_with_policy demo_taker CancelNewest demo_book = ret (b', x', res) \<and> book_inv b' \<and>
      map trd_quantity (mr_trades res) = [5, 7, 2]"
    using matching_refines_sweep [of demo_book demo_taker CancelNewest] demo_book_inv
    by (auto simp: demo_taker_ok fill_trades_quantities simp del: fill_trades.simps)
  ultimately show ?thesis by blast
qed

text \<open>C2. Price-time priority: the queue of the opposite side is ordered by price, the trades
  take its orders from the head without skipping one, every order but the last one is
  filled to the end, and what remains of the queue keeps its order.
  The book satisfies its invariant, the order is well formed, and self-trade
  prevention is safe (\<open>stp_safe\<close>): the policy is \<open>Off\<close> or \<open>CancelNewest\<close>, or no order of the
  opposite queue has the owner of the incoming one, or the policy is \<open>DecrementAndCancel\<close> and
  every such order is larger than the incoming one. (Otherwise an order of the same owner is
  cancelled where it stands and the orders behind it trade.)\<close>

theorem price_time_priority:
  assumes "book_inv b" and "order_ok inc" and "stp_safe policy inc (book_queue b (opposite (ord_side inc)))"
  shows "sorted_wrt (\<lambda>x y. \<not> better (opposite (ord_side inc)) (ord_price y) (ord_price x))
           (book_queue b (opposite (ord_side inc))) \<and>
         (\<exists>b' inc' res fs. match_order_with_policy inc policy b = ret (b', inc', res) \<and>
            map (\<lambda>t. (trd_passive_order_id t, trd_price t, trd_quantity t)) (mr_trades res) = fs \<and>
            priority_fills (book_queue b (opposite (ord_side inc))) fs (book_queue b' (opposite (ord_side inc))))"
proof (rule engine_run [OF assms])
  fix b' inc' res fs
  assume r: "match_order_with_policy inc policy b = ret (b', inc', res)"
    and sw: "sweep policy inc (book_queue b (opposite (ord_side inc))) =
           (fs, inc', mr_stp_cancelled res, book_queue b' (opposite (ord_side inc)))"
    and t: "mr_trades res = fill_trades (bk_next_trade_id b) (bk_next_timestamp b) (ord_id inc) (ord_side inc) fs"
  have "map (\<lambda>t. (trd_passive_order_id t, trd_price t, trd_quantity t)) (fill_trades m n i s fs) = fs" for m n i s
    by (induction fs arbitrary: m n) (auto simp: trade_new_def)
  with r t sweep_priority [OF sw assms(3)] queue_sorted [OF assms(1)] show ?thesis by auto
qed

theorem price_time_priority_witness:
  "\<exists>b' inc' res. match_order_with_policy demo_taker CancelNewest demo_book = ret (b', inc', res) \<and>
     priority_fills (book_queue demo_book Sell)
       (map (\<lambda>t. (trd_passive_order_id t, trd_price t, trd_quantity t)) (mr_trades res)) (book_queue b' Sell)"
  using price_time_priority [of demo_book demo_taker CancelNewest] demo_book_inv
  by (auto simp: demo_taker_ok)

text \<open>C3. Every trade executes at the price of a resting order that the limit price of the
  incoming order reaches, for a positive quantity that the resting order had left.
  The book satisfies its invariant, the order is well formed, and self-trade
  prevention is safe (\<open>stp_safe\<close>): the policy is \<open>Off\<close> or \<open>CancelNewest\<close>, or no order of the
  opposite queue has the owner of the incoming one, or the policy is \<open>DecrementAndCancel\<close> and
  every such order is larger than the incoming one.\<close>

theorem trades_within_limit:
  assumes "book_inv b" and "order_ok inc" and "stp_safe policy inc (book_queue b (opposite (ord_side inc)))"
  shows "\<exists>b' inc' res. match_order_with_policy inc policy b = ret (b', inc', res) \<and>
           (\<forall>t \<in> set (mr_trades res). prices_cross (ord_side inc) (ord_price inc) (trd_price t) \<and> 0 < trd_quantity t \<and>
              trd_aggressor_order_id t = ord_id inc \<and>
              (\<exists>r \<in> set (book_queue b (opposite (ord_side inc))). trd_passive_order_id t = ord_id r \<and>
                 trd_price t = ord_price r \<and> trd_quantity t \<le> ord_remaining r))"
proof (rule engine_run [OF assms])
  fix b' inc' res fs
  assume r: "match_order_with_policy inc policy b = ret (b', inc', res)"
    and sw: "sweep policy inc (book_queue b (opposite (ord_side inc))) =
           (fs, inc', mr_stp_cancelled res, book_queue b' (opposite (ord_side inc)))"
    and t: "mr_trades res = fill_trades (bk_next_trade_id b) (bk_next_timestamp b) (ord_id inc) (ord_side inc) fs"
  note cross = sweep_fills_cross [OF sw queue_live [OF assms(1)]]
  have "prices_cross (ord_side inc) (ord_price inc) (trd_price u) \<and> 0 < trd_quantity u \<and> trd_aggressor_order_id u = ord_id inc \<and>
      (\<exists>x \<in> set (book_queue b (opposite (ord_side inc))). trd_passive_order_id u = ord_id x \<and>
         trd_price u = ord_price x \<and> trd_quantity u \<le> ord_remaining x)" if "u \<in> set (mr_trades res)" for u
    using fill_trades_member [OF that [unfolded t]] cross [of "trd_passive_order_id u" "trd_price u" "trd_quantity u"]
    by (auto simp: crosses_def)
  with r show ?thesis by blast
qed

theorem trades_within_limit_witness:
  "\<exists>b' inc' res. match_order_with_policy demo_taker CancelNewest demo_book = ret (b', inc', res) \<and>
     (\<forall>t \<in> set (mr_trades res). trd_price t \<le> 101)"
  using trades_within_limit [OF demo_book_inv demo_taker_ok(1) demo_taker_ok(4)]
  by (auto simp: demo_taker_ok prices_cross_def)

text \<open>C4. Quantity is conserved: what the incoming order lost is what was traded (all of the
  rest is dropped when self-trade prevention cancels it), and the opposite queue lost
  exactly the traded quantity. \<open>filled_quantity\<close> does not wrap.
  The book satisfies its invariant, the order is well formed, and self-trade
  prevention is safe (\<open>stp_safe\<close>): the policy is \<open>Off\<close> or \<open>CancelNewest\<close>, or no order of the
  opposite queue has the owner of the incoming one, or the policy is \<open>DecrementAndCancel\<close> and
  every such order is larger than the incoming one. (Otherwise the queue also loses the orders that
  self-trade prevention cancels.)\<close>

theorem matching_conserves_quantity:
  assumes "book_inv b" and "order_ok inc" and "stp_safe policy inc (book_queue b (opposite (ord_side inc)))"
  shows "\<exists>b' inc' res. match_order_with_policy inc policy b = ret (b', inc', res) \<and>
           mr_filled_quantity res = sum_list (map trd_quantity (mr_trades res)) \<and>
           mr_remaining res = (if mr_stp_cancelled res then 0 else ord_remaining inc - mr_filled_quantity res) \<and>
           mr_filled_quantity res \<le> ord_remaining inc \<and>
           ord_filled inc' = ord_filled inc + mr_filled_quantity res \<and>
           qty_sum (book_queue b' (opposite (ord_side inc))) + mr_filled_quantity res =
             qty_sum (book_queue b (opposite (ord_side inc)))"
proof (rule engine_run [OF assms])
  fix b' inc' res fs
  assume r: "match_order_with_policy inc policy b = ret (b', inc', res)" "mr_remaining res = ord_remaining inc'"
    and sw: "sweep policy inc (book_queue b (opposite (ord_side inc))) =
           (fs, inc', mr_stp_cancelled res, book_queue b' (opposite (ord_side inc)))"
    and t: "mr_trades res = fill_trades (bk_next_trade_id b) (bk_next_timestamp b) (ord_id inc) (ord_side inc) fs"
  note c = sweep_conserves [OF sw] and q = sweep_queue_quantity [OF sw assms(3)]
  have "sum_list (map trd_quantity (mr_trades res)) = fill_qty fs" by (simp add: t fill_trades_quantities)
  moreover have "fill_qty fs < 2 ^ 64" using c(2) assms(2) by (simp add: order_ok_def)
  ultimately have "mr_filled_quantity res = fill_qty fs" "mr_filled_quantity res = sum_list (map trd_quantity (mr_trades res))"
    by (simp_all add: mr_filled_quantity_def u64_sum_exact)
  with r c q show ?thesis by auto
qed

theorem matching_conserves_quantity_witness:
  "\<exists>b' inc' res. match_order_with_policy demo_taker CancelNewest demo_book = ret (b', inc', res) \<and>
     qty_sum (book_queue b' Sell) + mr_filled_quantity res = 16"
proof -
  have "qty_sum (book_queue demo_book Sell) = 16" by code_simp
  then show ?thesis
    using matching_conserves_quantity [of demo_book demo_taker CancelNewest] demo_book_inv
    by (auto simp: demo_taker_ok)
qed

text \<open>An order that is not done has taken everything in its reach: no order left in the
  opposite queue crosses its price, and neither does the best price of that side.\<close>

lemma matching_exhausts_reach:
  assumes "book_inv b" and "order_ok inc" and "stp_safe policy inc (book_queue b (opposite (ord_side inc)))"
  shows "\<exists>b' inc' res. match_order_with_policy inc policy b = ret (b', inc', res) \<and>
           (0 < mr_remaining res \<longrightarrow>
             (\<forall>r \<in> set (book_queue b' (opposite (ord_side inc))). \<not> prices_cross (ord_side inc) (ord_price inc) (ord_price r)) \<and>
             (\<forall>p. pl_best (book_opposite_side b' (ord_side inc)) = Some p \<longrightarrow>
                \<not> prices_cross (ord_side inc) (ord_price inc) p))"
proof (rule engine_run [OF assms])
  fix b' inc' res fs
  assume r: "match_order_with_policy inc policy b = ret (b', inc', res)" "mr_remaining res = ord_remaining inc'" "book_inv b'"
    and sw: "sweep policy inc (book_queue b (opposite (ord_side inc))) =
           (fs, inc', mr_stp_cancelled res, book_queue b' (opposite (ord_side inc)))"
  have out: "\<not> crosses inc x" if "0 < ord_remaining inc'" "x \<in> set (book_queue b' (opposite (ord_side inc)))" for x
    using sweep_rest_out_of_reach [OF assms(1) sw refl r(3) that] .
  have "pl_best (book_opposite_side b' (ord_side inc)) =
      (case book_queue b' (opposite (ord_side inc)) of [] \<Rightarrow> None | x # _ \<Rightarrow> Some (ord_price x))"
    using best_queue_head [OF book_inv_side [OF r(3)]] by (simp add: book_opposite_side_def book_queue_def)
  then show ?thesis using r out by (auto simp: crosses_def split: list.splits)
qed

text \<open>C5. Self-trade prevention: under every policy but \<open>Off\<close> no trade pairs the incoming order
  with a resting order of the same owner.
  The book satisfies its invariant, the order is well formed, and self-trade
  prevention is safe (\<open>stp_safe\<close>): the policy is \<open>Off\<close> or \<open>CancelNewest\<close>, or no order of the
  opposite queue has the owner of the incoming one, or the policy is \<open>DecrementAndCancel\<close> and
  every such order is larger than the incoming one.\<close>

theorem no_self_trade:
  assumes "book_inv b" and "order_ok inc" and "stp_safe policy inc (book_queue b (opposite (ord_side inc)))"
    and "policy \<noteq> Off" and "ord_owner inc = Some w"
  shows "\<exists>b' inc' res. match_order_with_policy inc policy b = ret (b', inc', res) \<and>
           (\<forall>t \<in> set (mr_trades res). \<forall>r. om_get (bk_orders b) (trd_passive_order_id t) = Some r \<longrightarrow> ord_owner r \<noteq> Some w)"
proof (rule engine_run [OF assms(1-3)])
  fix b' inc' res fs
  assume r: "match_order_with_policy inc policy b = ret (b', inc', res)"
    and sw: "sweep policy inc (book_queue b (opposite (ord_side inc))) =
           (fs, inc', mr_stp_cancelled res, book_queue b' (opposite (ord_side inc)))"
    and t: "mr_trades res = fill_trades (bk_next_trade_id b) (bk_next_timestamp b) (ord_id inc) (ord_side inc) fs"
  have "ord_owner x \<noteq> Some w" if "u \<in> set (mr_trades res)" "om_get (bk_orders b) (trd_passive_order_id u) = Some x" for u x
  proof -
    from that(1) t have "(trd_passive_order_id u, trd_price u, trd_quantity u) \<in> set fs"
      using fill_trades_member by metis
    from sweep_no_self_trade [OF sw queue_live [OF assms(1)] assms(4) this assms(5)] obtain y
      where "y \<in> set (book_queue b (opposite (ord_side inc)))" "trd_passive_order_id u = ord_id y" "ord_owner y \<noteq> Some w"
      by auto
    with book_queueD(6) [OF assms(1) this(1)] that(2) show ?thesis by simp
  qed
  with r show ?thesis by blast
qed

theorem no_self_trade_witness:
  "\<exists>b' inc' res. match_order_with_policy demo_taker CancelNewest demo_book = ret (b', inc', res) \<and>
     (\<forall>t \<in> set (mr_trades res). \<forall>r. om_get (bk_orders demo_book) (trd_passive_order_id t) = Some r \<longrightarrow> ord_owner r \<noteq> Some 7)"
  by (rule no_self_trade [of demo_book demo_taker CancelNewest]) (simp_all add: demo_book_inv demo_taker_ok)

text \<open>C6. The feasibility test of fill-or-kill orders is exact: it succeeds exactly when
  matching without self-trade prevention would fill the whole order.\<close>

theorem can_fully_fill_exact:
  assumes "book_inv b" and "order_ok inc"
  shows "\<exists>b' inc' res. match_order_with_policy inc Off b = ret (b', inc', res) \<and>
           (can_fully_fill (ord_side inc) (ord_price inc) (ord_remaining inc) b \<longleftrightarrow> mr_remaining res = 0)"
proof (rule engine_run [OF assms, of Off])
  show "stp_safe Off inc (book_queue b (opposite (ord_side inc)))" by (simp add: stp_safe_def)
  fix b' inc' res fs
  assume r: "match_order_with_policy inc Off b = ret (b', inc', res)" "mr_remaining res = ord_remaining inc'"
    and sw: "sweep Off inc (book_queue b (opposite (ord_side inc))) =
           (fs, inc', mr_stp_cancelled res, book_queue b' (opposite (ord_side inc)))"
  have "\<forall>r \<in> set (book_queue b (opposite (ord_side inc))). \<not> stp_conflict (ord_owner inc) (ord_owner r) Off"
    by (simp add: stp_conflict_def split: option.splits)
  note q = sweep_quantity [OF sw this]
  have "fill_qty fs = min (ord_remaining inc) (available_to_fill (ord_side inc) (ord_price inc) b)"
    using q(2) takeWhile_crosses [OF queue_sorted [OF assms(1)], of inc] available_exact [OF assms(1)]
    by (simp add: crosses_def [abs_def])
  then show ?thesis using r q(1) sweep_conserves [OF sw] by (auto simp: can_fully_fill_def min_def)
qed

theorem can_fully_fill_exact_witness:
  "\<exists>b' inc' res. match_order_with_policy demo_taker Off demo_book = ret (b', inc', res) \<and>
     (can_fully_fill Buy (ord_price demo_taker) 14 demo_book \<longleftrightarrow> mr_remaining res = 0)"
  using can_fully_fill_exact [OF demo_book_inv demo_taker_ok(1)] by (simp add: demo_taker_ok)

end
