(* ===== verification/Exchange_Properties.thy ===== *)
theory Exchange_Properties
  imports Matching_Properties
begin

text \<open>
  Facts about the public operations of the exchange that several properties share: the
  completeness of the trigger cascade, submissions that do not trade, cancellation through
  the exchange, and maintenance.
\<close>

section \<open>Completeness of the cascade\<close>

text \<open>
  The cascade leaves its loop by a \<open>break\<close> within \<open>n\<close> rounds: no last price, no stop reached, or
  no trade by the stops that were. The depth bound cuts it off otherwise.
\<close>

fun ends_within :: "nat \<Rightarrow> exchange \<Rightarrow> bool" where
  "ends_within 0 ex = False"
| "ends_within (Suc n) ex =
     (case ex_last_trade_price ex of
        None \<Rightarrow> True
      | Some p \<Rightarrow>
          let (sb, ts) = collect_triggered p (update_trailing_stops p (ex_stop_book ex))
          in ts = [] \<or>
             (case submit_triggered ts None (ex\<lparr>ex_stop_book := sb\<rparr>) of
                Some (Inr (ex2, Some p')) \<Rightarrow> ends_within n (ex2\<lparr>ex_last_trade_price := Some p'\<rparr>)
              | _ \<Rightarrow> True))"

text \<open>Every round but the last triggers a stop, so with fewer pending stops than rounds it ends.\<close>

lemma trigger_rounds_complete:
  assumes "ex_inv ex" and "ex_room q k ex" and "trigger_rounds n ex = ret ex'"
  shows "pend_sum (\<lambda>_. 1) (ex_stop_book ex) < n \<Longrightarrow> ends_within n ex"
    and "ends_within n ex \<Longrightarrow> ex_last_trade_price ex' = Some p \<Longrightarrow>
         om_get (sb_orders (ex_stop_book ex')) i = Some x \<Longrightarrow> \<not> stop_hit p x"
proof -
  have "(pend_sum (\<lambda>_. 1) (ex_stop_book ex) < n \<longrightarrow> ends_within n ex) \<and>
    (ends_within n ex \<longrightarrow> ex_last_trade_price ex' = Some p \<longrightarrow>
       om_get (sb_orders (ex_stop_book ex')) i = Some x \<longrightarrow> \<not> stop_hit p x)"
    using assms
  proof (induction n arbitrary: ex)
    case (Suc n)
    show ?case
    proof (cases "ex_last_trade_price ex")
      case None
      then show ?thesis using Suc.prems by simp
    next
      case (Some p0)
      obtain sb ts where c: "collect_triggered p0 (update_trailing_stops p0 (ex_stop_book ex)) = (sb, ts)" by fastforce
      note t = trigger_round [OF Suc.prems(1,2) c]
      have sinv: "stop_inv (ex_stop_book ex)" using Suc.prems(1) by (simp add: ex_inv_def)
      have none: "\<not> stop_hit p0 y" if "om_get (sb_orders sb) j = Some y" for j y
        using collect_triggered_ok(6) [OF update_trailing_stops_ok(1) [OF sinv] c that] .
      let ?ex1 = "ex\<lparr>ex_stop_book := sb\<rparr>"
      have one: "ex_inv ?ex1" "ex_room q k ?ex1" using Suc.prems t by (auto simp: ex_inv_def ex_room_def)
      show ?thesis
      proof (cases "ts = []")
        case True
        then have "ex' = ?ex1" using Suc.prems(3) Some c by simp
        then show ?thesis using Some none c True by auto
      next
        case False
        have ready: "book_ready ?ex1" using one by (simp add: book_ready_def ex_inv_def)
        have "bk_next_order_id (ex_book ?ex1) + length ts < 2 ^ 64"
          "total_qty (ex_book ?ex1) + sum_list (map so_quantity ts) < 2 ^ 64"
          using Suc.prems(2) t(2,3) by (simp_all add: ex_room_def)
        from submit_triggered_ok [OF ready this, of None] obtain ex2 lp where
          s: "submit_triggered ts None ?ex1 = ret (ex2, lp)" "book_ready ex2" "same_context ?ex1 ex2"
            "bk_next_order_id (ex_book ex2) = bk_next_order_id (ex_book ex) + length ts"
            "total_qty (ex_book ex2) \<le> total_qty (ex_book ex) + sum_list (map so_quantity ts)" by auto
        show ?thesis
        proof (cases lp)
          case None
          then have "ex' = ex2" using Suc.prems(3) Some c False s(1) by simp
          then show ?thesis using Some none s(1,3) None c False by (auto simp: same_context_def)
        next
          case lp: (Some p')
          let ?ex3 = "ex2\<lparr>ex_last_trade_price := Some p'\<rparr>"
          have "ex_inv ?ex3" "ex_room q k ?ex3"
            using s(2-5) one t Suc.prems(2)
            by (auto simp: ex_inv_def ex_room_def book_ready_def same_context_def intro: trans_less_add1)
          moreover have "trigger_rounds n ?ex3 = ret ex'" using Suc.prems(3) Some c False s(1) lp by simp
          moreover have "pend_sum (\<lambda>_. 1) (ex_stop_book ex) < Suc n \<Longrightarrow> pend_sum (\<lambda>_. 1) (ex_stop_book ?ex3) < n"
            using t(3) False s(3) by (cases ts) (simp_all add: same_context_def)
          moreover have "ends_within (Suc n) ex = ends_within n ?ex3" using Some c False s(1) lp by simp
          ultimately show ?thesis using Suc.IH [of ?ex3] by blast
        qed
      qed
    qed
  qed simp
  then show "pend_sum (\<lambda>_. 1) (ex_stop_book ex) < n \<Longrightarrow> ends_within n ex"
    and "ends_within n ex \<Longrightarrow> ex_last_trade_price ex' = Some p \<Longrightarrow>
         om_get (sb_orders (ex_stop_book ex')) i = Some x \<Longrightarrow> \<not> stop_hit p x" by blast+
qed

section \<open>Submissions\<close>

lemma submit_no_cross:
  assumes "\<forall>r \<in> set q. \<not> crosses inc r"
  shows "sweep policy inc q = ([], inc, False, q)"
  using assms by (cases q) (simp_all add: crosses_def)

lemma queue_ids_old: "book_inv b \<Longrightarrow> x \<in> set (book_queue b s) \<Longrightarrow> ord_id x < bk_next_order_id b"
  using book_queueD(6) [of b x s] book_inv_orderD(3) [of b "ord_id x" x] by simp

lemma enqueue_filter:
  assumes "\<forall>y \<in> set q. ord_id y \<noteq> ord_id x"
  shows "filter (\<lambda>y. ord_id y \<noteq> ord_id x) (enqueue s x q) = q"
proof -
  have "filter (\<lambda>y. ord_id y \<noteq> ord_id x) (takeWhile P q) = takeWhile P q"
    "filter (\<lambda>y. ord_id y \<noteq> ord_id x) (dropWhile P q) = dropWhile P q" for P
    using assms by (auto simp: filter_id_conv dest: set_takeWhileD set_dropWhileD)
  then show ?thesis by (simp add: enqueue_def)
qed

text \<open>The public submission, seen from its internal part.\<close>

lemma submit_public:
  assumes inv: "ex_inv ex" and room: "ex_room q 1 ex"
    and sub: "submit_limit_internal_with_owner s p q tif w ex = ret (ex1, r)" "book_ready ex1" "same_context ex ex1"
      "bk_next_order_id (ex_book ex1) = bk_next_order_id (ex_book ex) + 1"
      "total_qty (ex_book ex1) \<le> total_qty (ex_book ex) + q"
  shows "\<exists>ex'. after_trades (sr_trades r) ex1 = ret ex' \<and> ex_inv ex' \<and> ex_room 0 0 ex' \<and>
           (sr_trades r = [] \<longrightarrow> ex' = ex1)"
proof -
  have "ex_inv ex1" "ex_room 0 0 ex1"
    using inv room sub by (auto simp: ex_inv_def ex_room_def book_ready_def same_context_def intro: less_SucI)
  from after_trades_ok [OF this, of "sr_trades r"] show ?thesis by (auto simp: after_trades_def)
qed

section \<open>Cancellation\<close>

lemma cancel_resting_order:
  assumes inv: "ex_inv ex" and x: "om_get (bk_orders (ex_book ex)) i = Some x" "x \<in> set (book_queue (ex_book ex) (ord_side x))"
    and acc: "index_accurate (ex_book ex) x" and stop: "\<not> contains_pending (ex_stop_book ex) i"
  shows "\<exists>b'. cancel_internal i ex = Inr (ex\<lparr>ex_book := b'\<rparr>, cancel_success (ord_remaining x)) \<and>
           ex_inv (ex\<lparr>ex_book := b'\<rparr>) \<and>
           book_queue b' (ord_side x) = filter (\<lambda>y. ord_id y \<noteq> i) (book_queue (ex_book ex) (ord_side x)) \<and>
           book_queue b' (opposite (ord_side x)) = book_queue (ex_book ex) (opposite (ord_side x)) \<and>
           book_cancel_order i (ex_book ex) = Inr (b', Some (ord_remaining x)) \<and>
           bk_next_order_id b' = bk_next_order_id (ex_book ex)"
proof -
  have binv: "book_inv (ex_book ex)" using inv by (simp add: ex_inv_def)
  note xf = book_queueD [OF binv x(2)]
  have xi: "ord_id x = i" using book_inv_orderD(1) [OF binv x(1)] .
  have "\<exists>b'. book_cancel_order i (ex_book ex) = Inr (b', Some (ord_remaining x)) \<and> book_inv b' \<and>
      book_queue b' (ord_side x) = filter (\<lambda>y. ord_id y \<noteq> i) (book_queue (ex_book ex) (ord_side x)) \<and>
      book_queue b' (opposite (ord_side x)) = book_queue (ex_book ex) (opposite (ord_side x)) \<and>
      bk_next_order_id b' = bk_next_order_id (ex_book ex)"
    by (rule book_cancel_order_ok [OF binv x(1) _ acc]) (use xf(7) xi in auto)
  then obtain b' where b: "book_cancel_order i (ex_book ex) = Inr (b', Some (ord_remaining x))" "book_inv b'"
      "book_queue b' (ord_side x) = filter (\<lambda>y. ord_id y \<noteq> i) (book_queue (ex_book ex) (ord_side x))"
      "book_queue b' (opposite (ord_side x)) = book_queue (ex_book ex) (opposite (ord_side x))"
      "bk_next_order_id b' = bk_next_order_id (ex_book ex)" by blast
  have "uncrossed b'"
    using inv b(3,4) by (auto simp: ex_inv_def uncrossed_by [of _ "ord_side x"])
  then have "ex_inv (ex\<lparr>ex_book := b'\<rparr>)" using inv b by (simp add: ex_inv_def)
  moreover have "cancel_internal i ex = Inr (ex\<lparr>ex_book := b'\<rparr>, cancel_success (ord_remaining x))"
    using stop x(1) xf(2) b(1) by (simp add: cancel_internal_def book_get_order_def)
  ultimately show ?thesis using b by blast
qed

section \<open>Maintenance\<close>

lemma maintenance_ok:
  assumes inv: "ex_inv ex"
  shows "ex_inv (exchange_compact ex)" and "ex_inv (fst (clear_order_history ex))" and "ex_inv (clear_trades ex)"
    and "book_queue (ex_book (exchange_compact ex)) s = book_queue (ex_book ex) s"
    and "book_queue (ex_book (fst (clear_order_history ex))) s = book_queue (ex_book ex) s"
proof -
  have b: "book_inv (ex_book ex)" and st: "stop_inv (ex_stop_book ex)" using inv by (simp_all add: ex_inv_def)
  note k = book_compact_ok [OF b] and h = book_clear_history_ok [OF b] and sh = stop_clear_history_inv [OF st]
  show "book_queue (ex_book (exchange_compact ex)) s = book_queue (ex_book ex) s"
    using k(2) by (simp add: exchange_compact_def)
  show "book_queue (ex_book (fst (clear_order_history ex))) s = book_queue (ex_book ex) s"
    using h(2) by (simp add: clear_order_history_def Let_def case_prod_unfold)
  show "ex_inv (exchange_compact ex)"
    using inv k by (simp add: ex_inv_def exchange_compact_def uncrossed_def)
  have "bk_next_order_id (fst (book_clear_history (ex_book ex))) = bk_next_order_id (ex_book ex)"
    by (simp add: book_clear_history_def Let_def)
  then show "ex_inv (fst (clear_order_history ex))"
    using inv h sh by (auto simp: ex_inv_def clear_order_history_def Let_def case_prod_unfold uncrossed_def split: option.splits if_splits)
  show "ex_inv (clear_trades ex)" using inv by (simp add: ex_inv_def clear_trades_def)
qed

end
