(* ===== verification/Symbols.thy ===== *)
theory Symbols
  imports Prelude "HOL-Library.List_Lexorder"
begin

text \<open>
  The inline symbol of \<open>src/types.rs\<close>: eight bytes and a length. A string is its list of UTF-8
  bytes; \<open>valid_up_to\<close> is the scan of \<open>std::str::from_utf8\<close>. The lemma the unsafe block of
  \<open>as_str\<close> rests on is \<open>symbol_ok\<close>: the used bytes of every symbol are valid UTF-8.
\<close>

section \<open>UTF-8\<close>

definition utf8_cont :: "nat \<Rightarrow> bool" where
  "utf8_cont b \<longleftrightarrow> 128 \<le> b \<and> b \<le> 191"

text \<open>The length of the well-formed character at the head of a byte list.\<close>

fun utf8_head :: "nat list \<Rightarrow> nat option" where
  "utf8_head [] = None"
| "utf8_head (b0 # r) =
     (if b0 < 128 then Some 1
      else if 194 \<le> b0 \<and> b0 \<le> 223 then
        (case r of b1 # _ \<Rightarrow> if utf8_cont b1 then Some 2 else None | _ \<Rightarrow> None)
      else if 224 \<le> b0 \<and> b0 \<le> 239 then
        (case r of
           b1 # b2 # _ \<Rightarrow>
             if (if b0 = 224 then 160 else 128) \<le> b1 \<and> b1 \<le> (if b0 = 237 then 159 else 191) \<and> utf8_cont b2
             then Some 3 else None
         | _ \<Rightarrow> None)
      else if 240 \<le> b0 \<and> b0 \<le> 244 then
        (case r of
           b1 # b2 # b3 # _ \<Rightarrow>
             if (if b0 = 240 then 144 else 128) \<le> b1 \<and> b1 \<le> (if b0 = 244 then 143 else 191) \<and>
                utf8_cont b2 \<and> utf8_cont b3
             then Some 4 else None
         | _ \<Rightarrow> None)
      else None)"

lemma utf8_head_bounds: "utf8_head bs = Some n \<Longrightarrow> 0 < n \<and> n \<le> length bs"
  by (cases bs) (auto split: if_splits list.splits)

lemma utf8_head_take: "utf8_head bs = Some n \<Longrightarrow> n \<le> k \<Longrightarrow> utf8_head (take k bs) = Some n"
  by (cases bs; cases k) (auto split: if_splits list.splits simp: take_Cons' numeral_eq_Suc)

function valid_up_to :: "nat list \<Rightarrow> nat" where
  "valid_up_to bs = (case utf8_head bs of None \<Rightarrow> 0 | Some n \<Rightarrow> n + valid_up_to (drop n bs))"
  by auto
termination
  by (relation "measure length") (auto dest: utf8_head_bounds)

declare valid_up_to.simps [simp del]

definition utf8_valid :: "nat list \<Rightarrow> bool" where
  "utf8_valid bs \<longleftrightarrow> valid_up_to bs = length bs"

lemma valid_up_to_le: "valid_up_to bs \<le> length bs"
proof (induction bs rule: valid_up_to.induct)
  case (1 bs)
  show ?case
  proof (cases "utf8_head bs")
    case (Some n)
    with 1 [OF Some] utf8_head_bounds [OF Some] show ?thesis by (subst valid_up_to.simps) auto
  qed (simp add: valid_up_to.simps)
qed

lemma valid_up_to_take: "valid_up_to (take (valid_up_to bs) bs) = valid_up_to bs"
proof (induction bs rule: valid_up_to.induct)
  case (1 bs)
  show ?case
  proof (cases "utf8_head bs")
    case None
    then have "valid_up_to bs = 0" by (subst valid_up_to.simps) simp
    then show ?thesis by (simp add: valid_up_to.simps)
  next
    case (Some n)
    have v: "valid_up_to bs = n + valid_up_to (drop n bs)" using Some by (subst valid_up_to.simps) simp
    have "utf8_head (take (valid_up_to bs) bs) = Some n"
      using utf8_head_take [OF Some] v by simp
    then have "valid_up_to (take (valid_up_to bs) bs) = n + valid_up_to (drop n (take (valid_up_to bs) bs))"
      by (subst valid_up_to.simps) simp
    also have "drop n (take (valid_up_to bs) bs) = take (valid_up_to (drop n bs)) (drop n bs)"
      by (simp add: v drop_take)
    finally show ?thesis using 1 [OF Some] v by simp
  qed
qed

lemma utf8_valid_prefix: "utf8_valid (take (valid_up_to bs) bs)"
  using valid_up_to_take [of bs] valid_up_to_le [of bs] by (simp add: utf8_valid_def)

section \<open>Symbols\<close>

datatype symbol = Symbol (sym_buf: "nat list") (sym_len: nat)

text \<open>The derived order: the buffer first, then the length.\<close>

instantiation symbol :: linorder
begin

definition less_eq_symbol :: "symbol \<Rightarrow> symbol \<Rightarrow> bool" where
  "less_eq_symbol a b \<longleftrightarrow> sym_buf a < sym_buf b \<or> sym_buf a = sym_buf b \<and> sym_len a \<le> sym_len b"

definition less_symbol :: "symbol \<Rightarrow> symbol \<Rightarrow> bool" where
  "less_symbol a b \<longleftrightarrow> sym_buf a < sym_buf b \<or> sym_buf a = sym_buf b \<and> sym_len a < sym_len b"

instance
  by standard (auto simp: less_eq_symbol_def less_symbol_def intro: symbol.expand)

end

definition symbol_try_new :: "nat list \<Rightarrow> symbol option" where
  "symbol_try_new s =
     (if length s > 8 then None else Some (Symbol (s @ replicate (8 - length s) 0) (length s)))"

definition symbol_new :: "nat list \<Rightarrow> symbol outcome" where
  "symbol_new s =
     (case symbol_try_new s of
        None \<Rightarrow> Inl (Panic ''Symbol must be at most 8 bytes'')
      | Some y \<Rightarrow> Inr y)"

definition from_str_truncated :: "nat list \<Rightarrow> symbol" where
  "from_str_truncated s =
     (let len = min (length s) 8; truncated = take len s;
          valid_len = (if utf8_valid truncated then len else valid_up_to truncated)
      in Symbol (take valid_len s @ replicate (8 - valid_len) 0) valid_len)"

definition as_str :: "symbol \<Rightarrow> nat list" where
  "as_str y = take (sym_len y) (sym_buf y)"

definition symbol_ok :: "symbol \<Rightarrow> bool" where
  "symbol_ok y \<longleftrightarrow> length (sym_buf y) = 8 \<and> sym_len y \<le> 8 \<and> utf8_valid (as_str y) \<and>
     (\<forall>b \<in> set (drop (sym_len y) (sym_buf y)). b = 0)"

lemma symbol_try_new_ok: "utf8_valid s \<Longrightarrow> symbol_try_new s = Some y \<Longrightarrow> symbol_ok y \<and> as_str y = s"
  by (auto simp: symbol_try_new_def symbol_ok_def as_str_def split: if_splits)

lemma from_str_truncated_len:
  "sym_len (from_str_truncated s) = valid_up_to (take 8 s)"
  "sym_buf (from_str_truncated s) = take (valid_up_to (take 8 s)) s @ replicate (8 - valid_up_to (take 8 s)) 0"
  "as_str (from_str_truncated s) = take (valid_up_to (take 8 s)) s"
  "valid_up_to (take 8 s) \<le> min (length s) 8"
proof -
  have t: "take (min (length s) 8) s = take 8 s" by (simp add: min_def)
  show le: "valid_up_to (take 8 s) \<le> min (length s) 8" using valid_up_to_le [of "take 8 s"] by simp
  have "(if utf8_valid (take 8 s) then min (length s) 8 else valid_up_to (take 8 s)) = valid_up_to (take 8 s)"
    by (simp add: utf8_valid_def)
  then have def: "from_str_truncated s =
      Symbol (take (valid_up_to (take 8 s)) s @ replicate (8 - valid_up_to (take 8 s)) 0) (valid_up_to (take 8 s))"
    by (simp only: from_str_truncated_def Let_def t)
  then show "sym_len (from_str_truncated s) = valid_up_to (take 8 s)"
    "sym_buf (from_str_truncated s) = take (valid_up_to (take 8 s)) s @ replicate (8 - valid_up_to (take 8 s)) 0"
    by simp_all
  show "as_str (from_str_truncated s) = take (valid_up_to (take 8 s)) s"
    using le by (simp add: as_str_def def)
qed

lemma from_str_truncated_ok: "symbol_ok (from_str_truncated s)"
proof -
  let ?v = "valid_up_to (take 8 s)"
  note f = from_str_truncated_len [of s]
  have "take ?v s = take ?v (take 8 s)" using f(4) by simp
  then have "utf8_valid (as_str (from_str_truncated s))"
    using utf8_valid_prefix [of "take 8 s"] f(3) by simp
  then show ?thesis using f(1,2,4) by (auto simp: symbol_ok_def)
qed

lemma utf8_head_append: "utf8_head bs = Some n \<Longrightarrow> utf8_head (bs @ cs) = Some n"
  by (cases bs) (auto split: if_splits list.splits)

section \<open>Properties\<close>

text \<open>C32. Truncation is safe: for every byte string the symbol holds the longest well-formed
  prefix of its first eight bytes, so \<open>as_str\<close> always yields valid UTF-8, also when the
  eighth byte splits a character.\<close>

theorem truncated_symbol_valid:
  "symbol_ok (from_str_truncated s) \<and> utf8_valid (as_str (from_str_truncated s)) \<and>
   as_str (from_str_truncated s) = take (valid_up_to (take 8 s)) s \<and> length (as_str (from_str_truncated s)) \<le> 8"
  using from_str_truncated_ok [of s] from_str_truncated_len [of s] by (simp add: symbol_ok_def)

text \<open>Round trip: a valid string of at most eight bytes is read back from its symbol, longer
  ones are refused, and truncating a short string changes nothing.\<close>

lemma symbol_roundtrip:
  assumes "utf8_valid s"
  shows "(length s \<le> 8 \<longrightarrow> symbol_try_new s = Some (from_str_truncated s) \<and> as_str (from_str_truncated s) = s) \<and>
         (8 < length s \<longrightarrow> symbol_try_new s = None)"
  using assms by (simp add: symbol_try_new_def from_str_truncated_def as_str_def utf8_valid_def Let_def)

end
