(* ===== verification/Multi_Exchange.thy ===== *)
theory Multi_Exchange
  imports Exchange Symbols
begin

text \<open>
  The multi-symbol exchange (\<open>src/multi_exchange.rs\<close>): one exchange per symbol. The hash map
  is an ordered map over the derived order of symbols; the order of its iteration, which
  \<open>FxHashMap\<close> leaves open, is the key order here. \<open>get_or_create\<close> hands out a mutable
  reference, so an operation on it is \<open>me_update\<close>.
\<close>

record multi_exchange =
  me_exchanges :: "(symbol, exchange) omap"

definition multi_exchange_new :: multi_exchange where
  "multi_exchange_new = \<lparr>me_exchanges = []\<rparr>"

definition me_get_or_create :: "symbol \<Rightarrow> multi_exchange \<Rightarrow> multi_exchange \<times> exchange" where
  "me_get_or_create y m =
     (case om_get (me_exchanges m) y of
        Some ex \<Rightarrow> (m, ex)
      | None \<Rightarrow> (m\<lparr>me_exchanges := om_insert y exchange_new (me_exchanges m)\<rparr>, exchange_new))"

definition me_get :: "multi_exchange \<Rightarrow> symbol \<Rightarrow> exchange option" where
  "me_get m y = om_get (me_exchanges m) y"

definition me_get_mut :: "symbol \<Rightarrow> (exchange \<Rightarrow> exchange) \<Rightarrow> multi_exchange \<Rightarrow> multi_exchange" where
  "me_get_mut y f m = m\<lparr>me_exchanges := om_update y f (me_exchanges m)\<rparr>"

text \<open>A call through the reference that \<open>get_or_create\<close> returns.\<close>

definition me_update :: "symbol \<Rightarrow> (exchange \<Rightarrow> (exchange \<times> 'r) run) \<Rightarrow> multi_exchange \<Rightarrow> (multi_exchange \<times> 'r) run" where
  "me_update y f m =
     (case me_get_or_create y m of
        (m', ex) \<Rightarrow> rbind (f ex) (\<lambda>(ex', r). ret (me_get_mut y (\<lambda>_. ex') m', r)))"

definition me_symbols :: "multi_exchange \<Rightarrow> symbol list" where
  "me_symbols m = om_keys (me_exchanges m)"

definition me_len :: "multi_exchange \<Rightarrow> nat" where
  "me_len m = length (me_exchanges m)"

definition me_is_empty :: "multi_exchange \<Rightarrow> bool" where
  "me_is_empty m \<longleftrightarrow> me_exchanges m = []"

definition me_best_prices :: "multi_exchange \<Rightarrow> (symbol \<times> price option \<times> price option) list" where
  "me_best_prices m =
     map (\<lambda>(y, ex). case exchange_best_bid_ask ex of (bid, ask) \<Rightarrow> (y, bid, ask)) (me_exchanges m)"

lemma me_update_get:
  assumes "me_update y f m = ret (m', r)"
  obtains ex where "f (case me_get m y of Some ex \<Rightarrow> ex | None \<Rightarrow> exchange_new) = ret (ex, r)"
    and "me_get m' y = Some ex" and "\<And>z. z \<noteq> y \<Longrightarrow> me_get m' z = me_get m z"
proof -
  let ?m = "fst (me_get_or_create y m)" and ?ex = "snd (me_get_or_create y m)"
  have ex: "?ex = (case me_get m y of Some ex \<Rightarrow> ex | None \<Rightarrow> exchange_new)"
    and get: "me_get ?m z = (if z = y then Some ?ex else me_get m z)" for z
    by (auto simp: me_get_or_create_def me_get_def om_get_insert split: option.splits)
  obtain ex' where "f ?ex = ret (ex', r)" "m' = me_get_mut y (\<lambda>_. ex') ?m"
    using assms by (auto simp: me_update_def rbind_eq_ret split: prod.splits)
  then show thesis
    using that [of ex'] get by (simp add: ex me_get_mut_def om_get_update flip: me_get_def) (simp add: me_get_def om_get_update)
qed

end
