(* ===== verification/Snapshot.thy ===== *)
theory Snapshot
  imports Book_Inv Float64
begin

text \<open>
  Market data (\<open>src/snapshot.rs\<close>): the top levels of both sides with their cached totals, and
  the quantities derived from them.
\<close>

section \<open>Data and operations\<close>

record level_snapshot =
  ls_price :: price
  ls_quantity :: quantity
  ls_order_count :: nat

record book_snapshot =
  bs_bids :: "level_snapshot list"
  bs_asks :: "level_snapshot list"
  bs_timestamp :: timestamp

definition snapshot_levels :: "price_levels \<Rightarrow> nat \<Rightarrow> level_snapshot list" where
  "snapshot_levels pl depth =
     map (\<lambda>(p, l). \<lparr>ls_price = p, ls_quantity = lvl_total l, ls_order_count = level_order_count l\<rparr>)
       (take depth (pl_iter_best_to_worst pl))"

definition snapshot :: "nat \<Rightarrow> book \<Rightarrow> book_snapshot" where
  "snapshot depth b = \<lparr>bs_bids = snapshot_levels (bk_bids b) depth, bs_asks = snapshot_levels (bk_asks b) depth,
                       bs_timestamp = book_peek_next_order_id b\<rparr>"

definition full_snapshot :: "book \<Rightarrow> book_snapshot" where
  "full_snapshot b = snapshot u64_max b"

definition bs_best_bid :: "book_snapshot \<Rightarrow> price option" where
  "bs_best_bid s = (case bs_bids s of [] \<Rightarrow> None | l # _ \<Rightarrow> Some (ls_price l))"

definition bs_best_ask :: "book_snapshot \<Rightarrow> price option" where
  "bs_best_ask s = (case bs_asks s of [] \<Rightarrow> None | l # _ \<Rightarrow> Some (ls_price l))"

definition bs_spread :: "book_snapshot \<Rightarrow> int option" where
  "bs_spread s =
     (case (bs_best_bid s, bs_best_ask s) of
        (Some bid, Some ask) \<Rightarrow> Some (i64_wrap (ask - bid)) | _ \<Rightarrow> None)"

definition mid_price :: "book_snapshot \<Rightarrow> f64 option" where
  "mid_price s =
     (case (bs_best_bid s, bs_best_ask s) of
        (Some bid, Some ask) \<Rightarrow> Some (f64_div (f64_of_int (i64_wrap (bid + ask))) (f64_of_int 2))
      | _ \<Rightarrow> None)"

definition total_bid_quantity :: "book_snapshot \<Rightarrow> quantity" where
  "total_bid_quantity s = u64_sum (map ls_quantity (bs_bids s))"

definition total_ask_quantity :: "book_snapshot \<Rightarrow> quantity" where
  "total_ask_quantity s = u64_sum (map ls_quantity (bs_asks s))"

definition imbalance :: "book_snapshot \<Rightarrow> f64 option" where
  "imbalance s =
     (let bid_qty = total_bid_quantity s; ask_qty = total_ask_quantity s; total = u64_add bid_qty ask_qty
      in if total = 0 then None
         else Some (f64_div (f64_sub (f64_of_int (int bid_qty)) (f64_of_int (int ask_qty))) (f64_of_int (int total))))"

definition weighted_mid :: "book_snapshot \<Rightarrow> f64 option" where
  "weighted_mid s =
     (case (bs_bids s, bs_asks s) of
        (bid # _, ask # _) \<Rightarrow>
          let total = u64_add (ls_quantity bid) (ls_quantity ask)
          in if total = 0 then None
             else Some (f64_div
               (f64_add (f64_mul (f64_of_int (int (ls_quantity ask))) (f64_of_int (ls_price bid)))
                        (f64_mul (f64_of_int (int (ls_quantity bid))) (f64_of_int (ls_price ask))))
               (f64_of_int (int total)))
      | _ \<Rightarrow> None)"

section \<open>Snapshots of a well-formed book\<close>

lemma snapshot_levels_totals:
  assumes inv: "side_inv ords s pl" and n: "length (pl_iter_best_to_worst pl) \<le> n"
  shows "sum_list (map ls_quantity (snapshot_levels pl n)) = qty_sum (side_queue ords pl)"
proof -
  have "lvl_total l = qty_sum (level_orders ords l)" if "(p, l) \<in> set (pl_iter_best_to_worst pl)" for p l
    using side_inv_walk [OF inv that] by (simp add: level_inv_def)
  then have "map (\<lambda>(p, l). lvl_total l) (pl_iter_best_to_worst pl) =
      map (\<lambda>(p, l). qty_sum (level_orders ords l)) (pl_iter_best_to_worst pl)" by auto
  moreover have "qty_sum (concat (map (\<lambda>(_, l). level_orders ords l) es)) =
      sum_list (map (\<lambda>(p, l). qty_sum (level_orders ords l)) es)" for es :: "(price \<times> level) list"
    by (induction es) auto
  ultimately show ?thesis
    using n by (simp add: snapshot_levels_def side_queue_def comp_def case_prod_unfold cong: map_cong)
qed

lemma snapshot_levels_head:
  assumes inv: "side_inv ords s pl" and n: "0 < n"
  shows "(case snapshot_levels pl n of [] \<Rightarrow> None | l # _ \<Rightarrow> Some (ls_price l)) = pl_best pl"
proof -
  have "pl_best pl = first_price pl" using inv by (simp add: side_inv_def pl_struct_ok_def)
  then show ?thesis
    using n by (cases "pl_iter_best_to_worst pl"; cases n) (auto simp: snapshot_levels_def first_price_def)
qed

lemma snapshot_levels_counts:
  assumes inv: "side_inv ords s pl" and n: "length (pl_iter_best_to_worst pl) \<le> n"
  shows "sum_list (map ls_order_count (snapshot_levels pl n)) = length (side_queue ords pl)"
proof -
  have "level_order_count l = length (level_iter l)" if "(p, l) \<in> set (pl_iter_best_to_worst pl)" for p l
    using side_inv_walk [OF inv that] by (simp add: level_inv_def level_order_count_iter)
  then have "map (\<lambda>(p, l). level_order_count l) (pl_iter_best_to_worst pl) =
      map (\<lambda>(p, l). length (level_iter l)) (pl_iter_best_to_worst pl)" by auto
  then show ?thesis
    using n by (simp add: snapshot_levels_def side_queue_def comp_def case_prod_unfold length_concat level_orders_def
        cong: map_cong)
qed

section \<open>The imbalance stays within its documented range\<close>

fun f64_abs_le_one :: "f64 \<Rightarrow> bool" where
  "f64_abs_le_one (FFin _ x) = (0 \<le> x \<and> x \<le> 1)"
| "f64_abs_le_one _ = False"

lemma round_mag_one: "round_mag 1 = 1"
proof -
  have "bin_exp 1 = 0" using bin_exp_bounds [of 1] by (simp add: bin_exp_def quotient_of_number bit_len.simps pow2_def)
  then have "ulp_exp 1 = - 52" by (simp add: ulp_exp_def)
  then show ?thesis using round_mag_exact [of 1 "2 ^ 52"] by (simp add: pow2_def)
qed

lemma f64_of_nat_fin:
  assumes "n < 2 ^ 64"
  shows "f64_of_int (int n) = FFin False (round_mag (of_nat n))" and "round_mag (of_nat n) < pow2 1024"
proof -
  have e: "bin_exp (2 ^ 64) = 64"
  proof -
    have "bit_len (2 ^ k) = Suc k" for k by (induction k) (simp_all add: bit_len.simps)
    from this [of 64] show ?thesis
      by (simp add: bin_exp_def quotient_of_int [of "2 ^ 64", simplified] bit_len.simps pow2_def)
  qed
  have "round_mag (2 ^ 64) = 2 ^ 64"
    using round_mag_exact [of "2 ^ 64" "2 ^ 52"] e [simplified] by (simp add: ulp_exp_def pow2_def)
  moreover have "round_mag (of_nat n) \<le> round_mag (2 ^ 64)"
  proof (rule round_mag_mono)
    have "rat_of_nat n \<le> rat_of_nat (2 ^ 64)" using assms by (intro of_nat_mono) simp
    then show "rat_of_nat n \<le> 2 ^ 64" by simp
  qed simp
  ultimately show lt: "round_mag (of_nat n) < pow2 1024" by (simp add: pow2_def)
  then show "f64_of_int (int n) = FFin False (round_mag (of_nat n))"
    by (simp add: f64_of_int_def f64_of_rat_def f64_round_def)
qed

lemma f64_diff_bound:
  assumes "0 \<le> x" "x \<le> t" "0 \<le> y" "y \<le> t" and t: "round_mag t = t" "t < pow2 1024"
  shows "\<exists>neg m. f64_sub (FFin False x) (FFin False y) = FFin neg m \<and> 0 \<le> m \<and> m \<le> t"
proof (cases "x = y")
  case False
  have "\<bar>x - y\<bar> \<le> t" using assms by linarith
  then have "round_mag \<bar>x - y\<bar> \<le> t" using round_mag_mono [of "\<bar>x - y\<bar>" t] t(1) by simp
  moreover from this have "round_mag \<bar>x - y\<bar> < pow2 1024" using t(2) by linarith
  ultimately show ?thesis
    using False round_mag_nonneg [of "\<bar>x - y\<bar>"]
    by (auto simp: f64_sub_def Let_def f64_signed_def f64_of_rat_def f64_round_def)
qed (use assms in \<open>auto simp: f64_sub_def Let_def f64_signed_def\<close>)

lemma f64_ratio_bound:
  assumes "0 \<le> m" "m \<le> t" "0 < t"
  shows "f64_abs_le_one (f64_div (FFin neg m) (FFin False t))"
proof -
  have "m / t \<le> 1" "0 \<le> m / t" using assms by simp_all
  then have "round_mag (m / t) \<le> 1" "0 \<le> round_mag (m / t)"
    using round_mag_mono [of "m / t" 1] round_mag_one round_mag_nonneg by auto
  moreover from this have "round_mag (m / t) < pow2 1024" by (simp add: pow2_def)
  ultimately show ?thesis using assms by (simp add: f64_round_def)
qed

lemma imbalance_bounds:
  assumes "a + c < 2 ^ 64" and "0 < a + c"
  shows "f64_abs_le_one (f64_div (f64_sub (f64_of_int (int a)) (f64_of_int (int c))) (f64_of_int (int (a + c))))"
proof -
  let ?t = "round_mag (of_nat (a + c))"
  have fin: "f64_of_int (int a) = FFin False (round_mag (of_nat a))" "f64_of_int (int c) = FFin False (round_mag (of_nat c))"
    "f64_of_int (int (a + c)) = FFin False ?t" "?t < pow2 1024"
    using f64_of_nat_fin [of a] f64_of_nat_fin [of c] f64_of_nat_fin [of "a + c"] assms by simp_all
  have "rat_of_nat 1 \<le> rat_of_nat (a + c)" using assms(2) by (intro of_nat_mono) linarith
  then have "round_mag (of_nat a) \<le> ?t" "round_mag (of_nat c) \<le> ?t" "round_mag 1 \<le> ?t"
    by (intro round_mag_mono; simp)+
  then obtain neg m where "f64_sub (f64_of_int (int a)) (f64_of_int (int c)) = FFin neg m" "0 \<le> m" "m \<le> ?t" "0 < ?t"
    using f64_diff_bound [of "round_mag (of_nat a)" ?t "round_mag (of_nat c)"] fin round_mag_idem [of "of_nat (a + c)"]
    by (auto simp: round_mag_nonneg round_mag_one simp del: of_nat_add)
  then show ?thesis unfolding fin(3) by (simp only: f64_ratio_bound)
qed

section \<open>Properties\<close>

text \<open>The imbalance of a snapshot is a number in the documented range from -1 to 1, rounding
  of the three conversions, the difference and the quotient included, as long as the two
  sides together hold less than 2 to the 64.\<close>

lemma imbalance_in_range:
  assumes "imbalance s = Some x"
    and "sum_list (map ls_quantity (bs_bids s)) + sum_list (map ls_quantity (bs_asks s)) < 2 ^ 64"
  shows "f64_abs_le_one x"
proof -
  let ?a = "total_bid_quantity s" and ?c = "total_ask_quantity s"
  have "?a = sum_list (map ls_quantity (bs_bids s))" "?c = sum_list (map ls_quantity (bs_asks s))"
    using assms(2) by (simp_all add: total_bid_quantity_def total_ask_quantity_def u64_sum_exact)
  then have lt: "?a + ?c < 2 ^ 64" using assms(2) by simp
  then have "0 < ?a + ?c" and x: "x = f64_div (f64_sub (f64_of_int (int ?a)) (f64_of_int (int ?c))) (f64_of_int (int (?a + ?c)))"
    using assms(1) by (auto simp: imbalance_def Let_def u64_add_exact split: if_splits)
  then show ?thesis using imbalance_bounds [OF lt] by simp
qed

end
