(* ===== verification/Defects.thy ===== *)
theory Defects
  imports Examples
begin

text \<open>
  What the code does against its own documentation. The common cause of the first cases is the
  position recorded in an order when it joins a level: nothing updates it when the head of the
  queue is popped, when tombstones at the head are dropped or when the level is compacted. The
  two consequences that matter most are proved for every book in which they can occur; the
  others are runs of the model that the kernel evaluates.
\<close>

section \<open>Divergence of a loop\<close>

lemma loop_fixpoint: "body s = Some (Next s) \<Longrightarrow> loop body s = None"
  by (rule loop_diverges [of "\<lambda>t. t = s"]) auto

definition start_state :: "order \<Rightarrow> book \<Rightarrow> match_state" where
  "start_state x b = (b, x, \<lparr>mr_trades = [], mr_remaining = ord_remaining x, mr_stp_cancelled = False\<rparr>)"

lemma submit_diverges:
  assumes "loop (match_order_body (ex_stp_policy ex)) (start_state (incoming s p q tif w (ex_book ex)) (counted (ex_book ex))) = None"
    and "tif = FOK \<Longrightarrow> can_fully_fill s p q (ex_book ex)"
  shows "submit_limit_internal_with_owner s p q tif w ex = None"
  using assms
  by (simp add: submit_limit_internal_with_owner_def create_order_eq [of _ _ _ _ _ w] incoming_def
      match_order_with_policy_def start_state_def Let_def)

section \<open>Stale positions\<close>

definition fill_calls :: "event list" where
  "fill_calls = [SubmitLimit Sell 100 5 GTC, SubmitLimit Sell 100 7 GTC, SubmitLimit Sell 100 9 GTC, SubmitLimit Buy 100 5 GTC]"

definition after_fill :: exchange where
  "after_fill = (case calls fill_calls exchange_new of Some (Inr ex) \<Rightarrow> ex | _ \<Rightarrow> exchange_new)"

text \<open>What a cancellation does to the level, whatever the recorded position points at.\<close>

definition cancelled_book :: "order_id \<Rightarrow> order \<Rightarrow> level \<Rightarrow> book \<Rightarrow> book" where
  "cancelled_book i x l b =
     book_set_side (ord_side x) (pl_update_level (ord_price x) (\<lambda>_. l) (book_side b (ord_side x)))
       (book_update_order i (\<lambda>_. x\<lparr>ord_remaining := 0, ord_status := Cancelled\<rparr>) b)"

lemma cancel_marks_position:
  assumes "om_get (bk_orders b) i = Some x" and "order_is_active x"
    and "om_get (pl_levels (book_side b (ord_side x))) (ord_price x) = Some l"
    and "\<not> level_is_empty (level_mark_tombstone (ord_position x) (ord_remaining x) l)"
  shows "book_cancel_order i b =
           Inr (cancelled_book i x (level_mark_tombstone (ord_position x) (ord_remaining x) l) b, Some (ord_remaining x))"
  using assms
  by (simp add: book_cancel_order_def book_get_order_def order_cancel_active pl_mark_tombstone_def cancelled_book_def Let_def)

lemma cancelled_book_sel:
  assumes "om_get (bk_orders b) i = Some x"
    and "om_get (pl_levels (book_side b (ord_side x))) (ord_price x) = Some l0"
  shows "book_side (cancelled_book i x l b) (ord_side x) = pl_update_level (ord_price x) (\<lambda>_. l) (book_side b (ord_side x))"
    and "om_get (pl_levels (book_side (cancelled_book i x l b) (ord_side x))) (ord_price x) = Some l"
    and "om_get (bk_orders (cancelled_book i x l b)) j =
           (if j = i then Some (x\<lparr>ord_remaining := 0, ord_status := Cancelled\<rparr>) else om_get (bk_orders b) j)"
  using assms by (simp_all add: cancelled_book_def pl_update_level_def book_update_order_def om_get_update)

text \<open>The recorded position of an order is the one of another queued order of its price.\<close>

definition position_of_other :: "book \<Rightarrow> order \<Rightarrow> order_id \<Rightarrow> bool" where
  "position_of_other b x j =
     (case om_get (pl_levels (book_side b (ord_side x))) (ord_price x) of
        None \<Rightarrow> False
      | Some l \<Rightarrow> ord_position x < length (lvl_orders l) \<and> lvl_orders l ! ord_position x = j \<and> j \<noteq> 0 \<and> j \<noteq> ord_id x)"

lemma two_quantities:
  assumes "level_inv ords s p l" and "distinct (level_iter l)" and "i \<in> set (level_iter l)" and "j \<in> set (level_iter l)"
    and "i \<noteq> j" and "om_get ords i = Some x"
  shows "ord_remaining x < lvl_total l"
proof -
  obtain y where y: "om_get ords j = Some y" "resting_ok s p j y" using assms(1,4) by (auto simp: level_inv_def)
  have x: "ord_id x = i" using assms(1,3,6) by (auto simp: level_inv_def resting_ok_def)
  have mem: "x \<in> set (level_orders ords l)" "y \<in> set (level_orders ords l)"
    using assms(3,4,6) y(1) by (force simp: level_orders_def)+
  have ids: "map ord_id (level_orders ords l) = level_iter l"
    using assms(1) by (auto simp: level_orders_def level_inv_def resting_ok_def intro!: map_idI)
  let ?rest = "filter (\<lambda>z. ord_id z \<noteq> ord_id x) (level_orders ords l)"
  have "y \<in> set ?rest" using mem(2) y(2) x assms(5) by (auto simp: resting_ok_def)
  then have "ord_remaining y \<le> qty_sum ?rest" by (intro member_le_sum_list) auto
  moreover have "0 < ord_remaining y" using y(2) by (simp add: resting_ok_def)
  moreover have "qty_sum ?rest + ord_remaining x = lvl_total l"
    using filter_remove_sum [OF _ mem(1)] ids assms(1,2) by (simp add: level_inv_def)
  ultimately show ?thesis by linarith
qed

text \<open>C35. Cancelling through a stale position: when the recorded position of a queued order is
  the one of another order queued at its price, as it is once the head of that queue has been
  filled, the call reports success with the quantity of the order it was asked to cancel, but
  the queue entry that goes away is the one of the other order. The order reported as cancelled
  stays queued, and the other one stays active, with its quantity, without a queue entry.\<close>

theorem cancel_removes_wrong_order:
  assumes inv: "book_inv (ex_book ex)" and get: "om_get (bk_orders (ex_book ex)) i = Some x"
    and queued: "x \<in> set (book_queue (ex_book ex) (ord_side x))"
    and other: "position_of_other (ex_book ex) x j" and stop: "\<not> contains_pending (ex_stop_book ex) i"
  shows "\<exists>ex' y. exchange_cancel i ex = Inr (ex', cancel_success (ord_remaining x)) \<and>
           j \<in> set (side_ids (book_side (ex_book ex) (ord_side x))) \<and>
           side_ids (book_side (ex_book ex') (ord_side x)) =
             filter (\<lambda>k. k \<noteq> j) (side_ids (book_side (ex_book ex) (ord_side x))) \<and>
           i \<in> set (side_ids (book_side (ex_book ex') (ord_side x))) \<and>
           map_option order_is_active (exchange_get_order ex' i) = Some False \<and>
           exchange_get_order ex' j = Some y \<and> order_is_active y \<and> 0 < ord_remaining y"
proof -
  let ?b = "ex_book ex" and ?s = "ord_side x" and ?pl = "book_side (ex_book ex) (ord_side x)"
  note xf = book_queueD [OF inv queued] and xi = book_inv_orderD(1) [OF inv get]
  have side: "side_inv (bk_orders ?b) ?s ?pl" using inv by (rule book_inv_side)
  have ids: "i \<in> set (side_ids ?pl)" using xf(7) xi by simp
  obtain l where l: "om_get (pl_levels ?pl) (ord_price x) = Some l" "i \<in> set (level_iter l)"
    using side_ids_level [OF side get ids] .
  have k: "ord_position x < length (lvl_orders l)" "lvl_orders l ! ord_position x = j" "j \<noteq> 0" "j \<noteq> i"
    using other l(1) xi by (auto simp: position_of_other_def)
  have j: "j \<in> set (level_iter l)" using k(1-3) by (auto simp: level_iter_def dest: nth_mem)
  have lv: "level_inv (bk_orders ?b) ?s (ord_price x) l" using side_inv_level [OF side l(1)] .
  have dis: "distinct (level_iter l)" using side_level_distinct [OF side l(1)] .
  have "level_ok l" using lv by (simp add: level_inv_def)
  note mt = level_mark_tombstone_ok [OF this dis k(1-3), of "ord_remaining x"]
  let ?l = "level_mark_tombstone (ord_position x) (ord_remaining x) l" and ?b' = "cancelled_book i x
    (level_mark_tombstone (ord_position x) (ord_remaining x) l) ?b"
  have "\<not> level_is_empty ?l"
    using two_quantities [OF lv dis l(2) j _ get] k(4) mt(3) by (simp add: level_is_empty_def)
  note bc = cancel_marks_position [OF get xf(2) l(1) this]
  note sel = cancelled_book_sel [OF get l(1), of ?l]
  obtain as bs where w: "side_ids ?pl = as @ level_iter l @ bs"
      "side_ids (pl_update_level (ord_price x) (\<lambda>_. ?l) ?pl) = as @ level_iter ?l @ bs"
    using side_walk [OF side l(1) refl] by metis
  have "distinct (side_ids ?pl)" using side by (simp add: side_inv_def)
  then have "j \<notin> set as" "j \<notin> set bs" using w(1) j by auto
  then have "filter (\<lambda>k. k \<noteq> j) as = as" "filter (\<lambda>k. k \<noteq> j) bs = bs" by (auto simp: filter_id_conv)
  then have "side_ids (book_side ?b' ?s) = filter (\<lambda>k. k \<noteq> j) (side_ids ?pl)"
    unfolding sel(1) w mt(2) by simp
  moreover have "exchange_cancel i ex = Inr ((log_event (Cancel i) ex)\<lparr>ex_book := ?b'\<rparr>, cancel_success (ord_remaining x))"
    using stop get xf(2) bc by (simp add: exchange_cancel_def cancel_internal_def book_get_order_def log_event_def)
  moreover obtain y where "om_get (bk_orders ?b) j = Some y" "order_is_active y" "0 < ord_remaining y"
    using lv j by (auto simp: level_inv_def resting_ok_def)
  ultimately show ?thesis
    using sel(3) k(4) j w(1) ids
    by (intro exI [of _ "(log_event (Cancel i) ex)\<lparr>ex_book := ?b'\<rparr>"] exI [of _ y])
       (simp add: exchange_get_order_def book_get_order_def)
qed

theorem cancel_removes_wrong_order_witness:
  "\<exists>ex' y. calls fill_calls exchange_new = ret after_fill \<and>
     exchange_cancel 2 after_fill = Inr (ex', cancel_success 7) \<and>
     side_ids (bk_asks (ex_book after_fill)) = [2, 3] \<and> side_ids (bk_asks (ex_book ex')) = [2] \<and>
     map_option order_is_active (exchange_get_order ex' 2) = Some False \<and>
     exchange_get_order ex' 3 = Some y \<and> order_is_active y \<and> 0 < ord_remaining y"
proof -
  let ?x = "the (om_get (bk_orders (ex_book after_fill)) 2)"
  have "book_inv (ex_book after_fill)" by (rule book_check_inv) code_simp
  moreover have x: "om_get (bk_orders (ex_book after_fill)) 2 = Some ?x"
    "?x \<in> set (book_queue (ex_book after_fill) (ord_side ?x))" "position_of_other (ex_book after_fill) ?x 3"
    "\<not> contains_pending (ex_stop_book after_fill) 2" "ord_remaining ?x = 7" "ord_side ?x = Sell" by code_simp+
  ultimately obtain ex' y where "exchange_cancel 2 after_fill = Inr (ex', cancel_success 7)"
      "side_ids (book_side (ex_book ex') Sell) = filter (\<lambda>k. k \<noteq> 3) (side_ids (book_side (ex_book after_fill) Sell))"
      "map_option order_is_active (exchange_get_order ex' 2) = Some False"
      "exchange_get_order ex' 3 = Some y" "order_is_active y" "0 < ord_remaining y"
    using cancel_removes_wrong_order [OF _ x(1-4)] unfolding x(5,6) by blast
  moreover have "calls fill_calls exchange_new = ret after_fill" "side_ids (bk_asks (ex_book after_fill)) = [2, 3]"
    by code_simp+
  ultimately show ?thesis by (auto simp: book_side_def)
qed

definition ghost_calls :: "event list" where
  "ghost_calls = [SubmitLimit Sell 100 5 GTC, SubmitLimit Sell 100 7 GTC, SubmitLimit Buy 100 5 GTC, Cancel 2]"

definition ghost_order :: "order_id \<Rightarrow> side \<Rightarrow> quantity \<Rightarrow> quantity \<Rightarrow> order_status \<Rightarrow> nat \<Rightarrow> order" where
  "ghost_order i s q filled st k = (order_new i s 100 q i GTC)\<lparr>ord_remaining := 0, ord_filled := filled, ord_status := st, ord_position := k\<rparr>"

definition ghost_level :: exchange where
  "ghost_level =
     \<lparr>ex_book =
        \<lparr>bk_bids = pl_new Buy,
         bk_asks = \<lparr>pl_levels = [(100, \<lparr>lvl_price = 100, lvl_orders = [2], lvl_total = 7, lvl_tombstones = 0\<rparr>)],
                    pl_best = Some 100, pl_side = Sell\<rparr>,
         bk_orders = [(1, ghost_order 1 Sell 5 5 Filled 0), (2, ghost_order 2 Sell 7 0 Cancelled 1), (3, ghost_order 3 Buy 5 5 Filled 0)],
         bk_next_order_id = 4, bk_next_trade_id = 2, bk_next_timestamp = 5\<rparr>,
      ex_trades = [trade_new 1 100 5 3 1 Buy 4], ex_stop_book = stop_book_new\<lparr>sb_last_price := Some 100\<rparr>,
      ex_last_trade_price = Some 100, ex_stp_policy = Off, ex_events = ghost_calls\<rparr>"

definition ghost_start :: match_state where
  "ghost_start = start_state (incoming Buy 100 1 GTC None (ex_book ghost_level)) (counted (ex_book ghost_level))"

definition ghost_stuck :: match_state where
  "ghost_stuck =
     (\<lparr>bk_bids = pl_new Buy,
       bk_asks = \<lparr>pl_levels = [(100, \<lparr>lvl_price = 100, lvl_orders = [], lvl_total = 7, lvl_tombstones = 0\<rparr>)],
                  pl_best = Some 100, pl_side = Sell\<rparr>,
       bk_orders = [(1, ghost_order 1 Sell 5 5 Filled 0), (2, ghost_order 2 Sell 7 0 Filled 1), (3, ghost_order 3 Buy 5 5 Filled 0)],
       bk_next_order_id = 5, bk_next_trade_id = 3, bk_next_timestamp = 7\<rparr>,
      (order_new 4 Buy 100 1 5 GTC)\<lparr>ord_status := PartiallyFilled\<rparr>,
      \<lparr>mr_trades = [trade_new 2 100 0 4 2 Buy 6], mr_remaining = 1, mr_stp_cancelled = False\<rparr>)"

text \<open>Two sell orders rest at one price, the first is filled and the second cancelled. The
  recorded position is past the end of the queue, so the level keeps the cancelled quantity;
  the next buy order that reaches the price records a trade of quantity zero and then runs
  for ever.\<close>

lemma cancel_then_submit_diverges:
  "calls ghost_calls exchange_new = ret ghost_level \<and>
   match_order_body Off (start_state (incoming Buy 100 1 GTC None (ex_book ghost_level)) (counted (ex_book ghost_level))) =
     Some (Next ghost_stuck) \<and>
   map trd_quantity (mr_trades (snd (snd ghost_stuck))) = [0] \<and>
   submit_limit Buy 100 1 GTC ghost_level = None"
proof -
  have calls: "calls ghost_calls exchange_new = ret ghost_level" by code_simp
  have trade: "map trd_quantity (mr_trades (snd (snd ghost_stuck))) = [0]" by code_simp
  have step: "match_order_body Off ghost_start = Some (Next ghost_stuck)" by code_simp
  have stuck: "match_order_body Off ghost_stuck = Some (Next ghost_stuck)" by code_simp
  have "loop (match_order_body Off) ghost_start = None"
    using loop_Next [where body = "match_order_body Off", OF step] loop_fixpoint [where body = "match_order_body Off", OF stuck] by simp
  then have "submit_limit_internal_with_owner Buy 100 1 GTC None (log_event e ghost_level) = None" for e
    by (intro submit_diverges) (simp_all add: ghost_start_def ghost_level_def log_event_def)
  then show ?thesis using calls trade step by (simp add: submit_limit_def submit_limit_internal_def ghost_start_def)
qed

section \<open>Self-trade prevention\<close>

definition run_of :: "(exchange \<times> 'r) run \<Rightarrow> exchange" where
  "run_of r = (case r of Some (Inr (ex, _)) \<Rightarrow> ex | _ \<Rightarrow> exchange_new)"

definition owned :: "order_id \<Rightarrow> nat \<Rightarrow> order" where
  "owned i k = (order_new i Sell 100 5 i GTC)\<lparr>ord_owner := Some 7, ord_position := k\<rparr>"

definition two_owned :: exchange where
  "two_owned = exchange_new\<lparr>ex_stp_policy := CancelOldest,
     ex_events := [SubmitLimit Sell 100 5 GTC, SubmitLimit Sell 100 5 GTC],
     ex_book :=
        \<lparr>bk_bids = pl_new Buy,
         bk_asks = \<lparr>pl_levels = [(100, \<lparr>lvl_price = 100, lvl_orders = [1, 2], lvl_total = 10, lvl_tombstones = 0\<rparr>)],
                    pl_best = Some 100, pl_side = Sell\<rparr>,
         bk_orders = [(1, owned 1 0), (2, owned 2 1)],
         bk_next_order_id = 3, bk_next_trade_id = 1, bk_next_timestamp = 3\<rparr>\<rparr>"

text \<open>
  The head of the best level is an order of the same owner that is no longer active. Each round
  of the inner loop asks the book to cancel it, which changes nothing, and meets it again.
\<close>

definition own_dead_head :: "stp_policy \<Rightarrow> price \<Rightarrow> order_id \<Rightarrow> match_state \<Rightarrow> bool" where
  "own_dead_head policy p j = (\<lambda>(b, inc, res).
     0 < ord_remaining inc \<and> j \<noteq> 0 \<and>
     (\<exists>l q x. om_get (pl_levels (book_side b (opposite (ord_side inc)))) p = Some l \<and> lvl_orders l = j # q \<and>
        om_get (bk_orders b) j = Some x \<and> \<not> order_is_active x \<and> ord_remaining x = 0 \<and>
        stp_conflict (ord_owner inc) (ord_owner x) policy \<and> policy \<noteq> CancelNewest))"

text \<open>A round of the inner loop at a level whose first live entry belongs to the same owner.\<close>

definition front_book :: "side \<Rightarrow> price \<Rightarrow> level \<Rightarrow> book \<Rightarrow> book" where
  "front_book s p l b = book_set_side s (pl_update_level p (\<lambda>_. l) (book_side b s)) b"

lemma front_book_sel:
  assumes "om_get (pl_levels (book_side b s)) p = Some l0"
  shows "om_get (pl_levels (book_side (front_book s p l b) s)) p = Some l" "bk_orders (front_book s p l b) = bk_orders b"
  using assms by (simp_all add: front_book_def pl_update_level_def om_get_update)

lemma own_head_round:
  assumes "0 < ord_remaining inc" and "om_get (pl_levels (book_side b (opposite (ord_side inc)))) p = Some l"
    and "level_front l = (l', Some j)" and "om_get (bk_orders b) j = Some x"
    and "stp_conflict (ord_owner inc) (ord_owner x) policy" and "policy \<noteq> CancelNewest"
    and "policy = DecrementAndCancel \<Longrightarrow> ord_remaining x \<le> ord_remaining inc"
  shows "match_at_price_body p policy (b, inc, res) =
           Some (stp_cancel_resting j (front_book (opposite (ord_side inc)) p l' b, inc, res))"
  using assms
  by (cases policy)
     (auto simp: match_at_price_body_def book_level_front_def front_book_def book_get_order_def stp_resolve_def stp_conflict_def
      split: option.splits)

lemma own_dead_head_round:
  assumes "own_dead_head policy p j st"
  shows "\<exists>st'. match_at_price_body p policy st = Some (Next st') \<and> own_dead_head policy p j st'"
proof -
  obtain b inc res where st: "st = (b, inc, res)" by (cases st)
  from assms obtain l q x where
    d: "0 < ord_remaining inc" "j \<noteq> 0" "om_get (pl_levels (book_side b (opposite (ord_side inc)))) p = Some l"
      "lvl_orders l = j # q" "om_get (bk_orders b) j = Some x" "\<not> order_is_active x" "ord_remaining x = 0"
      "stp_conflict (ord_owner inc) (ord_owner x) policy" "policy \<noteq> CancelNewest"
    by (auto simp: own_dead_head_def st)
  have f: "level_front l = (l, Some j)" using d(2,4) by (simp add: level_front_def)
  let ?b = "front_book (opposite (ord_side inc)) p l b"
  note sel = front_book_sel [OF d(3), of l]
  have "book_cancel_order j ?b = Inr (?b, None)" using d(5,6) sel(2) by (simp add: book_cancel_order_def book_get_order_def)
  then have "match_at_price_body p policy st = Some (Next (?b, inc, res))"
    using own_head_round [OF d(1,3) f d(5,8,9), of res] d(7) by (simp add: st stp_cancel_resting_def)
  moreover have "own_dead_head policy p j (?b, inc, res)" using d sel by (auto simp: own_dead_head_def)
  ultimately show ?thesis by blast
qed

lemma own_dead_head_diverges: "own_dead_head policy p j st \<Longrightarrow> match_at_price p policy st = None"
  unfolding match_at_price_def by (rule loop_diverges [of "own_dead_head policy p j"]) (use own_dead_head_round in auto)

text \<open>
  The best level of a side starts with two orders of one owner, at the positions that were
  recorded for them, and the policy makes an incoming order of quantity \<open>q\<close> cancel both.
\<close>

definition two_own_heads :: "stp_policy \<Rightarrow> order_owner \<Rightarrow> quantity \<Rightarrow> side \<Rightarrow> price \<Rightarrow> book \<Rightarrow> bool" where
  "two_own_heads policy w q s p b \<longleftrightarrow>
     (\<exists>l i j rest x y. pl_best (book_side b s) = Some p \<and> om_get (pl_levels (book_side b s)) p = Some l \<and>
        lvl_orders l = i # j # rest \<and> i \<noteq> 0 \<and> j \<noteq> 0 \<and>
        om_get (bk_orders b) i = Some x \<and> om_get (bk_orders b) j = Some y \<and>
        ord_position x = 0 \<and> ord_position y = 1 \<and> ord_owner x = Some w \<and> ord_owner y = Some w \<and>
        (policy = CancelOldest \<or>
         policy = DecrementAndCancel \<and> ord_remaining x \<le> q \<and> ord_remaining y \<le> q))"

lemma two_own_heads_stuck:
  assumes inv: "book_inv b" and two: "two_own_heads policy w (ord_remaining inc) (opposite (ord_side inc)) p b"
    and inc: "0 < ord_remaining inc" "ord_owner inc = Some w"
  shows "match_at_price p policy (b, inc, res) = None"
proof -
  let ?s = "opposite (ord_side inc)"
  from two obtain l i j rest x y where
    l: "om_get (pl_levels (book_side b ?s)) p = Some l" "lvl_orders l = i # j # rest" "i \<noteq> 0" "j \<noteq> 0"
    and o: "om_get (bk_orders b) i = Some x" "om_get (bk_orders b) j = Some y"
      "ord_position x = 0" "ord_position y = 1" "ord_owner x = Some w" "ord_owner y = Some w"
    and pol: "policy = CancelOldest \<or> policy = DecrementAndCancel \<and> ord_remaining x \<le> ord_remaining inc \<and> ord_remaining y \<le> ord_remaining inc"
    by (auto simp: two_own_heads_def)
  have conflict: "stp_conflict (Some w) (Some w) policy" "policy \<noteq> CancelNewest" using pol by (auto simp: stp_conflict_def)
  have side: "side_inv (bk_orders b) ?s (book_side b ?s)" using inv by (rule book_inv_side)
  have lv: "level_inv (bk_orders b) ?s p l" using side_inv_level [OF side l(1)] .
  have it: "level_iter l = i # j # filter (\<lambda>k. k \<noteq> 0) rest" using l(2-4) by (simp add: level_iter_def)
  have ij: "i \<noteq> j" using side_level_distinct [OF side l(1)] it by simp
  have xf: "resting_ok ?s p i x" "resting_ok ?s p j y" using lv it o(1,2) by (auto simp: level_inv_def)
  then have act: "order_is_active x" "order_is_active y" "ord_side x = ?s" "ord_side y = ?s" "ord_price x = p"
    "ord_price y = p" "0 < ord_remaining x" "0 < ord_remaining y" by (auto simp: resting_ok_def)
  let ?R = "qty_sum (map (\<lambda>k. the (om_get (bk_orders b) k)) (filter (\<lambda>k. k \<noteq> 0) rest))"
  have total: "lvl_total l = ord_remaining x + ord_remaining y + ?R"
    using lv it o(1,2) by (simp add: level_inv_def level_orders_def)
  have more: "0 < ?R" if nonempty: "rest \<noteq> []" "hd rest \<noteq> 0"
  proof -
    obtain k ks where r: "rest = k # ks" "k \<noteq> 0" using nonempty by (cases rest) auto
    with lv it obtain z where "om_get (bk_orders b) k = Some z" "resting_ok ?s p k z" by (auto simp: level_inv_def)
    then show ?thesis by (simp add: r resting_ok_def)
  qed
  have tomb: "lvl_tombstones l = count_list rest 0" using lv l(2-4) by (simp add: level_inv_def level_ok_def)
  let ?b1 = "front_book ?s p l b"
  note b1 = front_book_sel [OF l(1), of l]
  have f1: "level_front l = (l, Some i)" using l(2,3) by (simp add: level_front_def)
  define l1 where "l1 = level_mark_tombstone 0 (ord_remaining x) l"
  have l1: "lvl_orders l1 = 0 # j # rest" "lvl_total l1 = ord_remaining y + ?R" "lvl_tombstones l1 = Suc (count_list rest 0)"
    using l(2,3) total tomb by (simp_all add: l1_def level_mark_tombstone_def u64_sat_sub_def)
  define b2 where "b2 = cancelled_book i x l1 ?b1"
  have c1: "book_cancel_order i ?b1 = Inr (b2, Some (ord_remaining x))"
    using cancel_marks_position [of ?b1 i x l] b1 o(1,3) act l1(2) by (simp add: l1_def b2_def level_is_empty_def)
  note b2 = cancelled_book_sel [of ?b1 i x l l1, folded b2_def, unfolded act(3,5) b1(2), OF o(1) b1(1)]
  have s1: "match_at_price_body p policy (b, inc, res) = Some (Next (b2, inc, res))"
    using own_head_round [OF inc(1) l(1) f1 o(1), of policy res] conflict pol o(5) inc(2) c1
    by (auto simp: stp_cancel_resting_def)
  define l2 where "l2 = l1\<lparr>lvl_orders := j # rest, lvl_tombstones := count_list rest 0\<rparr>"
  have f2: "level_front l1 = (l2, Some j)" using l1 l(4) by (simp add: level_front_def l2_def u64_sub_exact)
  let ?b3 = "front_book ?s p l2 b2"
  note b3 = front_book_sel [OF b2(2), of l2]
  define l3 where "l3 = level_mark_tombstone 1 (ord_remaining y) l2"
  have l3: "\<exists>q. lvl_orders l3 = j # q" "\<not> level_is_empty l3"
    using more l1(2) act(8)
    by (cases rest; simp add: l3_def l2_def level_mark_tombstone_def u64_sat_sub_def level_is_empty_def)+
  define b4 where "b4 = cancelled_book j y l3 ?b3"
  have y: "om_get (bk_orders ?b3) j = Some y" using b3(2) b2(3) ij o(2) by simp
  have c2: "book_cancel_order j ?b3 = Inr (b4, Some (ord_remaining y))"
    using cancel_marks_position [OF y act(2), of l2] b3(1) act o(4) l3(2) by (simp add: l3_def b4_def)
  note b4 = cancelled_book_sel [of ?b3 j y l2 l3, folded b4_def, unfolded act(4,6), OF y b3(1)]
  have s2: "match_at_price_body p policy (b2, inc, res) = Some (Next (b4, inc, res))"
    using own_head_round [OF inc(1) b2(2) f2, of y policy res] conflict pol o(2,6) inc(2) c2 b2(3) ij
    by (auto simp: stp_cancel_resting_def)
  have "own_dead_head policy p j (b4, inc, res)"
    using inc l(4) b4(2,3) l3(1) conflict o(6) by (auto simp: own_dead_head_def)
  from own_dead_head_diverges [OF this] show ?thesis
    unfolding match_at_price_def
    using loop_Next [where body = "match_at_price_body p policy", OF s1]
      loop_Next [where body = "match_at_price_body p policy", OF s2] by simp
qed

text \<open>C36. Under \<open>CancelOldest\<close>, an owned order that reaches a best price whose queue starts with
  two orders of the same owner never returns from its submission: the first is cancelled and
  its queue entry dropped, the recorded position of the second then misses its entry, and the
  loop meets the cancelled order for ever. The same holds under \<open>DecrementAndCancel\<close> when neither
  of the two is larger than the incoming order. (An infeasible fill-or-kill order is rejected
  before.)\<close>

theorem cancel_oldest_diverges:
  assumes inv: "book_inv (ex_book ex)" and id: "bk_next_order_id (ex_book ex) < 2 ^ 64 - 1"
    and two: "two_own_heads (ex_stp_policy ex) w q (opposite s) p (ex_book ex)"
    and cross: "prices_cross s limit p" and q: "0 < q"
    and go: "tif = FOK \<Longrightarrow> can_fully_fill s limit q (ex_book ex)"
  shows "submit_limit_with_owner s limit q tif w ex = None"
proof -
  let ?ex = "log_event (SubmitLimit s limit q tif) ex" and ?x = "incoming s limit q tif (Some w) (ex_book ex)"
  have b: "book_inv (counted (ex_book ex))" "\<And>t. book_side (counted (ex_book ex)) t = book_side (ex_book ex) t"
    "bk_orders (counted (ex_book ex)) = bk_orders (ex_book ex)"
    using counted_ok [OF inv id] by simp_all
  have two': "two_own_heads (ex_stp_policy ex) w (ord_remaining ?x) (opposite (ord_side ?x)) p (counted (ex_book ex))"
    using two by (simp add: two_own_heads_def b)
  have "pl_best (book_side (ex_book ex) (opposite s)) = Some p" using two by (auto simp: two_own_heads_def)
  then have "match_order_body (ex_stp_policy ex) (start_state ?x (counted (ex_book ex))) = None"
    using two_own_heads_stuck [OF b(1) two'] cross q
    by (simp add: match_order_body_def start_state_def b book_opposite_side_def)
  then have "submit_limit_internal_with_owner s limit q tif (Some w) ?ex = None"
    using go by (intro submit_diverges) (simp_all add: loop.simps)
  then show ?thesis by (simp add: submit_limit_with_owner_def)
qed

theorem cancel_oldest_diverges_witness:
  "run_of (submit_limit_with_owner Sell 100 5 GTC 7
     (run_of (submit_limit_with_owner Sell 100 5 GTC 7 (with_stp_policy CancelOldest exchange_new)))) = two_owned \<and>
   submit_limit_with_owner Buy 100 3 GTC 7 two_owned = None"
proof -
  have state: "run_of (submit_limit_with_owner Sell 100 5 GTC 7
     (run_of (submit_limit_with_owner Sell 100 5 GTC 7 (with_stp_policy CancelOldest exchange_new)))) = two_owned" by code_simp
  have inv: "book_inv (ex_book two_owned)" by (rule book_check_inv) code_simp
  have id: "bk_next_order_id (ex_book two_owned) < 2 ^ 64 - 1" by code_simp
  have "two_own_heads (ex_stp_policy two_owned) 7 3 (opposite Buy) 100 (ex_book two_owned)"
    by (simp add: two_own_heads_def two_owned_def owned_def book_side_def order_new_def)
  from cancel_oldest_diverges [OF inv id this, of 100 GTC] state show ?thesis by (simp add: prices_cross_def)
qed

definition mixed_owners :: exchange where
  "mixed_owners = run_of (submit_limit_with_owner Sell 100 5 GTC 7
                    (run_of (submit_limit Sell 100 5 GTC (with_stp_policy CancelNewest exchange_new))))"

text \<open>A fill-or-kill order can be filled in part: the feasibility test counts the resting
  orders of the same owner, which self-trade prevention then refuses to trade with.\<close>

lemma fok_partial_fill_with_owner:
  "\<exists>ex' r. submit_limit_with_owner Buy 100 10 FOK 7 mixed_owners = ret (ex', r) \<and>
     can_fully_fill Buy 100 10 (ex_book mixed_owners) \<and>
     sr_filled r = 5 \<and> sr_cancelled r = 5 \<and> sr_status r = PartiallyFilled"
proof -
  let ?f = "\<lambda>r. case r of Some (Inr (_, r)) \<Rightarrow> Some (sr_filled r, sr_cancelled r, sr_status r) | _ \<Rightarrow> None"
  have "?f (submit_limit_with_owner Buy 100 10 FOK 7 mixed_owners) = Some (5, 5, PartiallyFilled)"
    "can_fully_fill Buy 100 10 (ex_book mixed_owners)" by code_simp+
  then show ?thesis by (auto split: option.splits sum.splits)
qed

section \<open>Orders that are not on the book\<close>

definition ioc_calls :: "event list" where
  "ioc_calls = [SubmitLimit Sell 100 5 GTC, SubmitLimit Buy 100 8 IOC, SubmitLimit Buy 100 4 GTC]"

definition after_ioc :: exchange where
  "after_ioc = (case calls ioc_calls exchange_new of Some (Inr ex) \<Rightarrow> ex | _ \<Rightarrow> exchange_new)"

text \<open>A partly filled immediate-or-cancel order, whose rest was reported as cancelled, is
  stored as active. Cancelling it succeeds, and takes the queue entry of an unrelated order
  at the same price off the book.\<close>

lemma ioc_remainder_stays_active:
  "\<exists>ex'. calls ioc_calls exchange_new = ret after_ioc \<and>
     map_option (\<lambda>x. (order_is_active x, ord_remaining x)) (exchange_get_order after_ioc 2) = Some (True, 3) \<and>
     side_ids (bk_bids (ex_book after_ioc)) = [3] \<and>
     exchange_cancel 2 after_ioc = Inr (ex', cancel_success 3) \<and> side_ids (bk_bids (ex_book ex')) = [] \<and>
     map_option (\<lambda>x. (order_is_active x, ord_remaining x)) (exchange_get_order ex' 3) = Some (True, 4)"
proof -
  let ?ex = "case exchange_cancel 2 after_ioc of Inr (ex', _) \<Rightarrow> ex' | _ \<Rightarrow> after_ioc"
  have "calls ioc_calls exchange_new = ret after_ioc"
    "map_option (\<lambda>x. (order_is_active x, ord_remaining x)) (exchange_get_order after_ioc 2) = Some (True, 3)"
    "side_ids (bk_bids (ex_book after_ioc)) = [3]" "exchange_cancel 2 after_ioc = Inr (?ex, cancel_success 3)"
    "side_ids (bk_bids (ex_book ?ex)) = []"
    "map_option (\<lambda>x. (order_is_active x, ord_remaining x)) (exchange_get_order ?ex 3) = Some (True, 4)"
    by code_simp+
  then show ?thesis by blast
qed

section \<open>Replay\<close>

definition modify_log :: "event list" where
  "modify_log = [SubmitLimit Sell 100 5 GTC, SubmitLimit Buy 90 5 GTC, Modify 2 100 5]"

text \<open>Replaying a log with a modification does not give the original state: \<open>modify\<close> leaves
  the last trade price alone and checks no stops, while applying the logged event does both.\<close>

lemma replay_of_modify_differs:
  "\<exists>ex ex'. calls modify_log exchange_new = ret ex \<and> ex_events ex = modify_log \<and> replay modify_log = ret ex' \<and>
     ex_trades ex' = ex_trades ex \<and> ex_trades ex \<noteq> [] \<and> ex_last_trade_price ex = None \<and> ex_last_trade_price ex' = Some 100"
proof -
  let ?ex = "case calls modify_log exchange_new of Some (Inr ex) \<Rightarrow> ex | _ \<Rightarrow> exchange_new"
  let ?ex' = "case replay modify_log of Some (Inr ex) \<Rightarrow> ex | _ \<Rightarrow> exchange_new"
  have "calls modify_log exchange_new = ret ?ex" "ex_events ?ex = modify_log" "replay modify_log = ret ?ex'"
    "ex_trades ?ex' = ex_trades ?ex" "ex_trades ?ex \<noteq> []" "ex_last_trade_price ?ex = None"
    "ex_last_trade_price ?ex' = Some 100" by code_simp+
  then show ?thesis by blast
qed

end
