(* ===== verification/Itch.thy ===== *)
theory Itch
  imports Symbols Results
begin

text \<open>
  The NASDAQ ITCH 5.0 parser (\<open>src/itch.rs\<close>) and the conversion of its messages to events.
  Bytes are natural numbers; the reader is the list of the bytes still to come, and the only
  transport failure is the end of the input, as for the \<open>Read\<close> instances of byte slices and
  cursors. Slicing and indexing panic out of range, so the parser returns an \<open>outcome\<close>; inside
  it an I/O error is a value. Text fields are UTF-8 byte lists, as in \<^theory_text>\<open>Symbols\<close>.
\<close>

section \<open>Errors\<close>

datatype io_error =
    ShortPayload string
  | ZeroLength
  | MessageTooShort nat nat nat
  | UnexpectedEof

definition is_invalid_data :: "io_error \<Rightarrow> bool" where
  "is_invalid_data e \<longleftrightarrow> e \<noteq> UnexpectedEof"

type_synonym 'a parse = "(io_error + 'a) outcome"

text \<open>The \<open>?\<close> operator.\<close>

fun pbind :: "'a parse \<Rightarrow> ('a \<Rightarrow> 'b parse) \<Rightarrow> 'b parse" where
  "pbind (Inl e) f = Inl e"
| "pbind (Inr (Inl e)) f = Inr (Inl e)"
| "pbind (Inr (Inr x)) f = f x"

section \<open>Reading fields\<close>

text \<open>\<open>uN::from_be_bytes\<close>.\<close>

definition from_be_bytes :: "nat list \<Rightarrow> nat" where
  "from_be_bytes bs = foldl (\<lambda>a b. a * 256 + b) 0 bs"

definition read_u16_be :: "nat list \<Rightarrow> string \<Rightarrow> io_error + nat" where
  "read_u16_be bs field =
     (if length bs < 2 then Inl (ShortPayload field) else Inr (from_be_bytes (take 2 bs)))"

definition read_u32_be :: "nat list \<Rightarrow> string \<Rightarrow> io_error + nat" where
  "read_u32_be bs field =
     (if length bs < 4 then Inl (ShortPayload field) else Inr (from_be_bytes (take 4 bs)))"

definition read_u64_be :: "nat list \<Rightarrow> string \<Rightarrow> io_error + nat" where
  "read_u64_be bs field =
     (if length bs < 8 then Inl (ShortPayload field) else Inr (from_be_bytes (take 8 bs)))"

definition read_u48_be :: "nat list \<Rightarrow> string \<Rightarrow> io_error + nat" where
  "read_u48_be bs field =
     (if length bs < 6 then Inl (ShortPayload field) else Inr (from_be_bytes ([0, 0] @ take 6 bs)))"

text \<open>\<open>payload[a..b]\<close> and \<open>payload[i]\<close>.\<close>

definition slice_range :: "nat \<Rightarrow> nat \<Rightarrow> nat list \<Rightarrow> nat list parse" where
  "slice_range a b xs =
     (if a \<le> b \<and> b \<le> length xs then Inr (Inr (take (b - a) (drop a xs)))
      else Inl (Panic ''slice index out of range''))"

definition byte_at :: "nat \<Rightarrow> nat list \<Rightarrow> nat parse" where
  "byte_at i xs = (if i < length xs then Inr (Inr (xs ! i)) else Inl (Panic ''index out of bounds''))"

definition field_at :: "(nat list \<Rightarrow> string \<Rightarrow> io_error + nat) \<Rightarrow> nat \<Rightarrow> nat \<Rightarrow> string \<Rightarrow> nat list \<Rightarrow> nat parse" where
  "field_at rd a b field payload = pbind (slice_range a b payload) (\<lambda>bs. Inr (rd bs field))"

section \<open>Text fields\<close>

text \<open>
  \<open>String::from_utf8_lossy\<close>: well-formed characters are kept, and each maximal ill-formed part
  is replaced by U+FFFD. \<open>utf8_bad\<close> is the length of that part.
\<close>

fun utf8_bad :: "nat list \<Rightarrow> nat" where
  "utf8_bad (b0 # b1 # r) =
     (if 224 \<le> b0 \<and> b0 \<le> 239 then
        if (if b0 = 224 then 160 else 128) \<le> b1 \<and> b1 \<le> (if b0 = 237 then 159 else 191) then 2 else 1
      else if 240 \<le> b0 \<and> b0 \<le> 244 then
        if (if b0 = 240 then 144 else 128) \<le> b1 \<and> b1 \<le> (if b0 = 244 then 143 else 191)
        then (case r of b2 # _ \<Rightarrow> if utf8_cont b2 then 3 else 2 | [] \<Rightarrow> 2) else 1
      else 1)"
| "utf8_bad bs = 1"

lemma utf8_bad_pos: "0 < utf8_bad bs"
  by (induction bs rule: utf8_bad.induct) (auto split: list.splits)

function from_utf8_lossy :: "nat list \<Rightarrow> nat list" where
  "from_utf8_lossy bs =
     (if bs = [] then []
      else case utf8_head bs of
             Some n \<Rightarrow> take n bs @ from_utf8_lossy (drop n bs)
           | None \<Rightarrow> [239, 191, 189] @ from_utf8_lossy (drop (utf8_bad bs) bs))"
  by auto
termination
  by (relation "measure length") (auto dest: utf8_head_bounds simp: utf8_bad_pos)

declare from_utf8_lossy.simps [simp del]

text \<open>\<open>str::trim\<close>: the encodings of the White\_Space characters are stripped at both ends.\<close>

definition white_space :: "nat list list" where
  "white_space =
     [[9], [10], [11], [12], [13], [32], [194, 133], [194, 160], [225, 154, 128]] @
     map (\<lambda>b. [226, 128, b]) ([128..<139] @ [168, 169, 175]) @ [[226, 129, 159], [227, 128, 128]]"

definition starts :: "nat list \<Rightarrow> nat list \<Rightarrow> bool" where
  "starts w bs \<longleftrightarrow> w \<noteq> [] \<and> length w \<le> length bs \<and> take (length w) bs = w"

function strip_front :: "nat list list \<Rightarrow> nat list \<Rightarrow> nat list" where
  "strip_front ws bs =
     (case find (\<lambda>w. starts w bs) ws of
        None \<Rightarrow> bs
      | Some w \<Rightarrow> strip_front ws (drop (length w) bs))"
  by auto
termination
proof (relation "measure (\<lambda>(_, bs). length bs)")
  fix ws :: "nat list list" and bs w
  assume "find (\<lambda>w. starts w bs) ws = Some w"
  then have "w \<noteq> []" "length w \<le> length bs" by (auto simp: find_Some_iff starts_def)
  then show "((ws, drop (length w) bs), (ws, bs)) \<in> measure (\<lambda>(_, bs). length bs)" by (cases w) auto
qed simp

declare strip_front.simps [simp del]

definition str_trim :: "nat list \<Rightarrow> nat list" where
  "str_trim bs = rev (strip_front (map rev white_space) (rev (strip_front white_space bs)))"

definition text_at :: "nat \<Rightarrow> nat \<Rightarrow> nat list \<Rightarrow> nat list parse" where
  "text_at a b payload = pbind (slice_range a b payload) (\<lambda>bs. Inr (Inr (str_trim (from_utf8_lossy bs))))"

section \<open>Messages\<close>

datatype itch_message =
    AddOrder (im_timestamp: nat) (im_order_ref: nat) side (im_shares: nat) "nat list" (im_price: nat)
  | OrderExecuted nat nat nat nat
  | OrderExecutedWithPrice nat nat nat nat bool nat
  | OrderCancel nat nat nat
  | OrderDelete nat nat
  | OrderReplace nat nat nat nat nat
  | ItchTrade nat side nat "nat list" nat nat
  | StockDirectory "nat list" nat
  | Other nat

record itch_parser =
  ip_reader :: "nat list"
  ip_stock_locates :: "(nat, nat list) omap"

definition itch_parser_new :: "nat list \<Rightarrow> itch_parser" where
  "itch_parser_new bytes = \<lparr>ip_reader = bytes, ip_stock_locates = []\<rparr>"

text \<open>The message types are ASCII codes: A 65, C 67, D 68, E 69, F 70, P 80, R 82, U 85, X 88.\<close>

definition min_payload :: "nat \<Rightarrow> nat" where
  "min_payload t =
     (if t = 65 \<or> t = 70 then 35 else if t = 69 then 30 else if t = 67 then 35 else if t = 88 then 22
      else if t = 68 then 18 else if t = 85 then 34 else if t = 80 then 43 else if t = 82 then 10 else 0)"

definition side_of_byte :: "nat \<Rightarrow> side" where
  "side_of_byte b = (if b = 66 then Buy else Sell)"

definition parse_payload :: "nat \<Rightarrow> nat list \<Rightarrow> itch_message parse" where
  "parse_payload t payload =
     (if t = 65 \<or> t = 70 then
        pbind (field_at read_u48_be 4 10 ''A/F.timestamp'' payload) (\<lambda>timestamp.
        pbind (field_at read_u64_be 10 18 ''A/F.order_ref'' payload) (\<lambda>order_ref.
        pbind (byte_at 18 payload) (\<lambda>sb.
        pbind (field_at read_u32_be 19 23 ''A/F.shares'' payload) (\<lambda>shares.
        pbind (text_at 23 31 payload) (\<lambda>stock.
        pbind (field_at read_u32_be 31 35 ''A/F.price'' payload) (\<lambda>price.
        Inr (Inr (AddOrder timestamp order_ref (side_of_byte sb) shares stock price))))))))
      else if t = 69 then
        pbind (field_at read_u48_be 4 10 ''E.timestamp'' payload) (\<lambda>timestamp.
        pbind (field_at read_u64_be 10 18 ''E.order_ref'' payload) (\<lambda>order_ref.
        pbind (field_at read_u32_be 18 22 ''E.shares'' payload) (\<lambda>shares.
        pbind (field_at read_u64_be 22 30 ''E.match_number'' payload) (\<lambda>match_number.
        Inr (Inr (OrderExecuted timestamp order_ref shares match_number))))))
      else if t = 67 then
        pbind (field_at read_u48_be 4 10 ''C.timestamp'' payload) (\<lambda>timestamp.
        pbind (field_at read_u64_be 10 18 ''C.order_ref'' payload) (\<lambda>order_ref.
        pbind (field_at read_u32_be 18 22 ''C.shares'' payload) (\<lambda>shares.
        pbind (field_at read_u64_be 22 30 ''C.match_number'' payload) (\<lambda>match_number.
        pbind (byte_at 30 payload) (\<lambda>pb.
        pbind (field_at read_u32_be 31 35 ''C.price'' payload) (\<lambda>price.
        Inr (Inr (OrderExecutedWithPrice timestamp order_ref shares match_number (pb = 89) price))))))))
      else if t = 88 then
        pbind (field_at read_u48_be 4 10 ''X.timestamp'' payload) (\<lambda>timestamp.
        pbind (field_at read_u64_be 10 18 ''X.order_ref'' payload) (\<lambda>order_ref.
        pbind (field_at read_u32_be 18 22 ''X.shares'' payload) (\<lambda>shares.
        Inr (Inr (OrderCancel timestamp order_ref shares)))))
      else if t = 68 then
        pbind (field_at read_u48_be 4 10 ''D.timestamp'' payload) (\<lambda>timestamp.
        pbind (field_at read_u64_be 10 18 ''D.order_ref'' payload) (\<lambda>order_ref.
        Inr (Inr (OrderDelete timestamp order_ref))))
      else if t = 85 then
        pbind (field_at read_u48_be 4 10 ''U.timestamp'' payload) (\<lambda>timestamp.
        pbind (field_at read_u64_be 10 18 ''U.old_order_ref'' payload) (\<lambda>old_order_ref.
        pbind (field_at read_u64_be 18 26 ''U.new_order_ref'' payload) (\<lambda>new_order_ref.
        pbind (field_at read_u32_be 26 30 ''U.shares'' payload) (\<lambda>shares.
        pbind (field_at read_u32_be 30 34 ''U.price'' payload) (\<lambda>price.
        Inr (Inr (OrderReplace timestamp old_order_ref new_order_ref shares price)))))))
      else if t = 80 then
        pbind (field_at read_u48_be 4 10 ''P.timestamp'' payload) (\<lambda>timestamp.
        pbind (byte_at 18 payload) (\<lambda>sb.
        pbind (field_at read_u32_be 19 23 ''P.shares'' payload) (\<lambda>shares.
        pbind (text_at 23 31 payload) (\<lambda>stock.
        pbind (field_at read_u32_be 31 35 ''P.price'' payload) (\<lambda>price.
        pbind (field_at read_u64_be 35 43 ''P.match_number'' payload) (\<lambda>match_number.
        Inr (Inr (ItchTrade timestamp (side_of_byte sb) shares stock price match_number))))))))
      else if t = 82 then
        pbind (field_at read_u16_be 0 2 ''R.locate'' payload) (\<lambda>locate.
        pbind (text_at 2 10 payload) (\<lambda>stock.
        Inr (Inr (StockDirectory stock locate))))
      else Inr (Inr (Other t)))"

text \<open>The insertion into \<open>stock_locates\<close> that the arm of \<open>R\<close> makes.\<close>

definition note_directory :: "itch_message parse \<Rightarrow> itch_parser \<Rightarrow> itch_parser" where
  "note_directory r p =
     (case r of
        Inr (Inr (StockDirectory stock locate)) \<Rightarrow>
          p\<lparr>ip_stock_locates := om_insert locate stock (ip_stock_locates p)\<rparr>
      | _ \<Rightarrow> p)"

text \<open>A failed \<open>read_exact\<close> leaves the reader at its end.\<close>

definition next_message :: "itch_parser \<Rightarrow> itch_parser \<times> itch_message option parse" where
  "next_message p =
     (let input = ip_reader p
      in if length input < 2 then (p\<lparr>ip_reader := []\<rparr>, Inr (Inr None))
         else let len = from_be_bytes (take 2 input); rest = drop 2 input; p1 = p\<lparr>ip_reader := rest\<rparr>
              in if len = 0 then (p1, Inr (Inl ZeroLength))
                 else if length rest < len then (p1\<lparr>ip_reader := []\<rparr>, Inr (Inl UnexpectedEof))
                 else let msg_buf = take len rest; p2 = p1\<lparr>ip_reader := drop len rest\<rparr>;
                          t = msg_buf ! 0; payload = drop 1 msg_buf
                      in if length payload < min_payload t
                         then (p2, Inr (Inl (MessageTooShort t (length payload) (min_payload t))))
                         else let r = parse_payload t payload
                              in (note_directory r p2, pbind r (\<lambda>m. Inr (Inr (Some m)))))"

definition itch_to_event :: "itch_message \<Rightarrow> (nat list \<times> event) option" where
  "itch_to_event msg =
     (case msg of
        AddOrder timestamp order_ref side shares stock price \<Rightarrow>
          Some (stock, SubmitLimit side (int (price div 100)) shares GTC)
      | OrderCancel timestamp order_ref shares \<Rightarrow> Some ([], Cancel order_ref)
      | OrderDelete timestamp order_ref \<Rightarrow> Some ([], Cancel order_ref)
      | OrderReplace timestamp old_order_ref new_order_ref shares price \<Rightarrow>
          Some ([], Modify old_order_ref (int (price div 100)) shares)
      | _ \<Rightarrow> None)"

section \<open>Every frame is handled\<close>

lemma field_at_ok:
  assumes "b \<le> length xs" "a \<le> b"
  shows "b - a = 2 \<Longrightarrow> field_at read_u16_be a b f xs = Inr (Inr (from_be_bytes (take 2 (drop a xs))))"
    and "b - a = 4 \<Longrightarrow> field_at read_u32_be a b f xs = Inr (Inr (from_be_bytes (take 4 (drop a xs))))"
    and "b - a = 8 \<Longrightarrow> field_at read_u64_be a b f xs = Inr (Inr (from_be_bytes (take 8 (drop a xs))))"
    and "b - a = 6 \<Longrightarrow> field_at read_u48_be a b f xs = Inr (Inr (from_be_bytes (take 6 (drop a xs))))"
  using assms
  by (simp_all add: field_at_def slice_range_def read_u16_be_def read_u32_be_def read_u64_be_def
      read_u48_be_def from_be_bytes_def)

lemma text_at_ok:
  "a \<le> b \<Longrightarrow> b \<le> length xs \<Longrightarrow> text_at a b xs = Inr (Inr (str_trim (from_utf8_lossy (take (b - a) (drop a xs)))))"
  by (simp add: text_at_def slice_range_def)

lemma byte_at_ok: "i < length xs \<Longrightarrow> byte_at i xs = Inr (Inr (xs ! i))"
  by (simp add: byte_at_def)

lemmas field_reads = field_at_ok text_at_ok byte_at_ok

lemma parse_payload_ok:
  assumes "min_payload t \<le> length payload"
  shows "\<exists>m. parse_payload t payload = Inr (Inr m)"
proof -
  consider "t = 65" | "t = 70" | "t = 69" | "t = 67" | "t = 88" | "t = 68" | "t = 85" | "t = 80" | "t = 82"
    | "t \<notin> {65, 70, 69, 67, 88, 68, 85, 80, 82}" by blast
  then show ?thesis using assms
    by cases (simp_all add: min_payload_def parse_payload_def field_reads)
qed

section \<open>The wire format\<close>

text \<open>
  The layout of ITCH 5.0, written as an encoder: every message starts with its type, the locate
  code (2 bytes), the tracking number (2 bytes) and the timestamp (6 bytes), as \<open>timestamp_ns\<close> in
  \<open>src/bin/itch-slice.rs\<close> also has it; integers are big-endian and text is padded with blanks to
  eight bytes. \<open>hdr\<close> is the four bytes of locate and tracking number, \<open>time\<close> the timestamp of the
  messages for which the parser does not report one, \<open>skipped\<close> the order reference it skips in
  a trade message, and \<open>rest\<close> anything that follows the fields it reads.
\<close>

fun be_bytes :: "nat \<Rightarrow> nat \<Rightarrow> nat list" where
  "be_bytes 0 v = []"
| "be_bytes (Suc n) v = be_bytes n (v div 256) @ [v mod 256]"

definition padded :: "nat list \<Rightarrow> nat list" where
  "padded s = s @ replicate (8 - length s) 32"

definition side_byte :: "side \<Rightarrow> nat" where
  "side_byte s = (case s of Buy \<Rightarrow> 66 | Sell \<Rightarrow> 83)"

fun itch_body :: "nat list \<Rightarrow> nat list \<Rightarrow> nat list \<Rightarrow> itch_message \<Rightarrow> nat list" where
  "itch_body hdr time skipped (AddOrder ts r s n stock p) =
     [65] @ hdr @ be_bytes 6 ts @ be_bytes 8 r @ [side_byte s] @ be_bytes 4 n @ padded stock @ be_bytes 4 p"
| "itch_body hdr time skipped (OrderExecuted ts r n k) =
     [69] @ hdr @ be_bytes 6 ts @ be_bytes 8 r @ be_bytes 4 n @ be_bytes 8 k"
| "itch_body hdr time skipped (OrderExecutedWithPrice ts r n k pr p) =
     [67] @ hdr @ be_bytes 6 ts @ be_bytes 8 r @ be_bytes 4 n @ be_bytes 8 k @ [if pr then 89 else 78] @ be_bytes 4 p"
| "itch_body hdr time skipped (OrderCancel ts r n) = [88] @ hdr @ be_bytes 6 ts @ be_bytes 8 r @ be_bytes 4 n"
| "itch_body hdr time skipped (OrderDelete ts r) = [68] @ hdr @ be_bytes 6 ts @ be_bytes 8 r"
| "itch_body hdr time skipped (OrderReplace ts r r' n p) =
     [85] @ hdr @ be_bytes 6 ts @ be_bytes 8 r @ be_bytes 8 r' @ be_bytes 4 n @ be_bytes 4 p"
| "itch_body hdr time skipped (ItchTrade ts s n stock p k) =
     [80] @ hdr @ be_bytes 6 ts @ skipped @ [side_byte s] @ be_bytes 4 n @ padded stock @ be_bytes 4 p @ be_bytes 8 k"
| "itch_body hdr time skipped (StockDirectory stock l) =
     [82] @ be_bytes 2 l @ drop 2 hdr @ time @ padded stock"
| "itch_body hdr time skipped (Other t) = [t] @ hdr @ time"

definition stock_ok :: "nat list \<Rightarrow> bool" where
  "stock_ok s \<longleftrightarrow> length s \<le> 8 \<and> (\<forall>b \<in> set s. 33 \<le> b \<and> b \<le> 126)"

fun message_ok :: "itch_message \<Rightarrow> bool" where
  "message_ok (AddOrder ts r s n stock p) \<longleftrightarrow> ts < 2 ^ 48 \<and> r < 2 ^ 64 \<and> n < 2 ^ 32 \<and> stock_ok stock \<and> p < 2 ^ 32"
| "message_ok (OrderExecuted ts r n k) \<longleftrightarrow> ts < 2 ^ 48 \<and> r < 2 ^ 64 \<and> n < 2 ^ 32 \<and> k < 2 ^ 64"
| "message_ok (OrderExecutedWithPrice ts r n k pr p) \<longleftrightarrow>
     ts < 2 ^ 48 \<and> r < 2 ^ 64 \<and> n < 2 ^ 32 \<and> k < 2 ^ 64 \<and> p < 2 ^ 32"
| "message_ok (OrderCancel ts r n) \<longleftrightarrow> ts < 2 ^ 48 \<and> r < 2 ^ 64 \<and> n < 2 ^ 32"
| "message_ok (OrderDelete ts r) \<longleftrightarrow> ts < 2 ^ 48 \<and> r < 2 ^ 64"
| "message_ok (OrderReplace ts r r' n p) \<longleftrightarrow>
     ts < 2 ^ 48 \<and> r < 2 ^ 64 \<and> r' < 2 ^ 64 \<and> n < 2 ^ 32 \<and> p < 2 ^ 32"
| "message_ok (ItchTrade ts s n stock p k) \<longleftrightarrow>
     ts < 2 ^ 48 \<and> n < 2 ^ 32 \<and> stock_ok stock \<and> p < 2 ^ 32 \<and> k < 2 ^ 64"
| "message_ok (StockDirectory stock l) \<longleftrightarrow> stock_ok stock \<and> l < 2 ^ 16"
| "message_ok (Other t) \<longleftrightarrow> t < 256 \<and> t \<notin> {65, 67, 68, 69, 70, 80, 82, 85, 88}"

lemma length_be_bytes [simp]: "length (be_bytes n v) = n"
  by (induction n arbitrary: v) simp_all

lemma length_padded [simp]: "stock_ok s \<Longrightarrow> length (padded s) = 8"
  by (simp add: padded_def stock_ok_def)

lemma from_be_bytes_be_bytes: "from_be_bytes (be_bytes n v) = v mod 256 ^ n"
proof (induction n arbitrary: v)
  case (Suc n)
  have "v div 256 mod 256 ^ n * 256 + v mod 256 = v mod (256 * 256 ^ n)"
    by (simp add: mod_mult2_eq)
  with Suc [of "v div 256"] show ?case by (simp add: from_be_bytes_def)
qed (simp add: from_be_bytes_def)

lemma be_field [simp]:
  "v < 2 ^ 16 \<Longrightarrow> from_be_bytes (be_bytes 2 v) = v" "v < 2 ^ 32 \<Longrightarrow> from_be_bytes (be_bytes 4 v) = v"
  "v < 2 ^ 48 \<Longrightarrow> from_be_bytes (be_bytes 6 v) = v" "v < 2 ^ 64 \<Longrightarrow> from_be_bytes (be_bytes 8 v) = v"
  by (simp_all add: from_be_bytes_be_bytes)

lemma side_of_side_byte [simp]: "side_of_byte (side_byte s) = s"
  by (cases s) (simp_all add: side_of_byte_def side_byte_def)

lemma lossy_ascii: "\<forall>b \<in> set bs. b < 128 \<Longrightarrow> from_utf8_lossy bs = bs"
proof (induction bs)
  case (Cons b bs)
  then show ?case by (subst from_utf8_lossy.simps) simp
qed (simp add: from_utf8_lossy.simps)

lemma starts_hd: "starts w (b # bs) \<Longrightarrow> hd w = b"
  by (cases w) (simp_all add: starts_def)

lemma strip_front_blank:
  assumes "[32] \<in> set ws" and "\<forall>w \<in> set ws. hd w = 32 \<longrightarrow> w = [32]"
  shows "strip_front ws (32 # bs) = strip_front ws bs"
proof (cases "find (\<lambda>w. starts w (32 # bs)) ws")
  case None
  then have "\<not> starts [32] (32 # bs)" using assms(1) by (simp add: find_None_iff)
  then show ?thesis by (simp add: starts_def)
next
  case (Some w)
  then have "w \<in> set ws" "starts w (32 # bs)" by (auto simp: find_Some_iff)
  with assms(2) have "w = [32]" by (auto dest: starts_hd)
  with Some show ?thesis by (subst strip_front.simps) simp
qed

lemma strip_front_blanks:
  assumes "[32] \<in> set ws" and "\<forall>w \<in> set ws. hd w = 32 \<longrightarrow> w = [32]"
  shows "strip_front ws (replicate n 32 @ bs) = strip_front ws bs"
  by (induction n) (simp_all add: strip_front_blank [OF assms])

lemma strip_front_keep:
  assumes "\<forall>w \<in> set ws. hd w \<noteq> b"
  shows "strip_front ws (b # bs) = b # bs"
proof -
  have "find (\<lambda>w. starts w (b # bs)) ws = None" using assms by (auto simp: find_None_iff dest: starts_hd)
  then show ?thesis by (subst strip_front.simps) simp
qed

lemma strip_front_Nil [simp]: "strip_front ws [] = []"
proof -
  have "find (\<lambda>w. starts w []) ws = None" by (auto simp: find_None_iff starts_def)
  then show ?thesis by (subst strip_front.simps) simp
qed

lemma white_space_hd:
  "w \<in> set white_space \<Longrightarrow> hd w < 33 \<or> 126 < hd w"
  "w \<in> set (map rev white_space) \<Longrightarrow> hd w < 33 \<or> 126 < hd w"
  by (auto simp: white_space_def)

lemma white_space_blank:
  "[32] \<in> set white_space \<and> (\<forall>w \<in> set white_space. hd w = 32 \<longrightarrow> w = [32])"
  "[32] \<in> set (map rev white_space) \<and> (\<forall>w \<in> set (map rev white_space). hd w = 32 \<longrightarrow> w = [32])"
  by (auto simp: white_space_def)

lemma strip_front_text:
  assumes "\<forall>b \<in> set s. 33 \<le> b \<and> b \<le> 126" and "ws = white_space \<or> ws = map rev white_space" and "s \<noteq> []"
  shows "strip_front ws (s @ r) = s @ r"
proof (cases s)
  case (Cons b s')
  have "\<forall>w \<in> set ws. hd w \<noteq> b"
    using assms(1,2) Cons white_space_hd by (metis list.set_intros(1) not_le)
  then show ?thesis using Cons strip_front_keep by simp
qed (use assms in simp)

lemma trim_padded:
  assumes "stock_ok s"
  shows "str_trim (from_utf8_lossy (padded s)) = s"
proof -
  let ?k = "8 - length s"
  have chars: "\<forall>b \<in> set s. 33 \<le> b \<and> b \<le> 126" using assms by (simp add: stock_ok_def)
  then have "from_utf8_lossy (padded s) = padded s"
    by (intro lossy_ascii) (auto simp: padded_def)
  moreover have "str_trim (padded s) = s"
  proof (cases "s = []")
    case True
    have "strip_front white_space (replicate 8 32 @ []) = strip_front white_space []"
      by (rule strip_front_blanks) (use white_space_blank(1) in auto)
    with True show ?thesis by (simp add: str_trim_def padded_def)
  next
    case False
    have "strip_front white_space (padded s) = padded s"
      using strip_front_text [OF chars _ False] by (simp add: padded_def)
    moreover have "strip_front (map rev white_space) (replicate ?k 32 @ rev s) = strip_front (map rev white_space) (rev s)"
      by (rule strip_front_blanks) (use white_space_blank(2) in auto)
    moreover have "strip_front (map rev white_space) (rev s) = rev s"
      using strip_front_text [of "rev s" "map rev white_space" "[]"] chars False by simp
    ultimately show ?thesis by (simp add: str_trim_def padded_def)
  qed
  ultimately show ?thesis by simp
qed

section \<open>Round trip\<close>

text \<open>
  What the parser makes of a message: the message itself, but for a stock directory, whose text
  it takes from the eight bytes after the locate code, where the tracking number and the
  timestamp stand.
\<close>

fun parsed_as :: "nat list \<Rightarrow> nat list \<Rightarrow> itch_message \<Rightarrow> itch_message" where
  "parsed_as hdr time (StockDirectory stock l) = StockDirectory (str_trim (from_utf8_lossy (drop 2 hdr @ time))) l"
| "parsed_as hdr time m = m"

lemma parse_body:
  assumes "message_ok m" and "length hdr = 4" and "length time = 6" and "length skipped = 8"
  shows "min_payload (itch_body hdr time skipped m ! 0) \<le> length (drop 1 (itch_body hdr time skipped m @ rest)) \<and>
         parse_payload (itch_body hdr time skipped m ! 0) (drop 1 (itch_body hdr time skipped m @ rest)) =
           Inr (Inr (parsed_as hdr time m))"
  using assms
  by (cases m)
     (simp_all add: min_payload_def parse_payload_def field_reads trim_padded nth_append)

record frame =
  fr_hdr :: "nat list"
  fr_time :: "nat list"
  fr_skipped :: "nat list"
  fr_message :: itch_message
  fr_rest :: "nat list"

definition frame_body :: "frame \<Rightarrow> nat list" where
  "frame_body f = itch_body (fr_hdr f) (fr_time f) (fr_skipped f) (fr_message f) @ fr_rest f"

definition frame_bytes :: "frame \<Rightarrow> nat list" where
  "frame_bytes f = be_bytes 2 (length (frame_body f)) @ frame_body f"

definition frame_ok :: "frame \<Rightarrow> bool" where
  "frame_ok f \<longleftrightarrow> message_ok (fr_message f) \<and> length (fr_hdr f) = 4 \<and> length (fr_time f) = 6 \<and> length (fr_skipped f) = 8 \<and>
                  length (frame_body f) < 2 ^ 16"

definition received :: "frame \<Rightarrow> itch_message" where
  "received f = parsed_as (fr_hdr f) (fr_time f) (fr_message f)"

lemma itch_body_nonempty: "itch_body hdr time skipped m \<noteq> []"
  by (cases m) simp_all

lemma next_message_frame:
  assumes "frame_ok f" and "ip_reader p = frame_bytes f @ bs"
  shows "snd (next_message p) = Inr (Inr (Some (received f)))" and "ip_reader (fst (next_message p)) = bs"
proof -
  let ?b = "frame_body f"
  have len: "from_be_bytes (take 2 (ip_reader p)) = length ?b"
    using assms by (simp add: frame_bytes_def frame_ok_def)
  have rest: "drop 2 (ip_reader p) = ?b @ bs" using assms(2) by (simp add: frame_bytes_def)
  have long: "\<not> length (ip_reader p) < 2" using assms(2) by (simp add: frame_bytes_def)
  have ne: "length ?b \<noteq> 0" using itch_body_nonempty by (simp add: frame_body_def)
  have t: "?b ! 0 = itch_body (fr_hdr f) (fr_time f) (fr_skipped f) (fr_message f) ! 0"
    using itch_body_nonempty by (simp add: frame_body_def nth_append)
  have parsed: "min_payload (?b ! 0) \<le> length (drop 1 ?b)" "parse_payload (?b ! 0) (drop 1 ?b) = Inr (Inr (received f))"
    using parse_body [of "fr_message f" "fr_hdr f" "fr_time f" "fr_skipped f" "fr_rest f"] assms(1) t
    by (simp_all add: frame_ok_def frame_body_def received_def)
  then show "snd (next_message p) = Inr (Inr (Some (received f)))" "ip_reader (fst (next_message p)) = bs"
    using len rest long ne
    by (simp_all add: next_message_def Let_def note_directory_def split: itch_message.split)
qed

text \<open>What one call does to the reader, for any input.\<close>

lemma note_directory_reader [simp]: "ip_reader (note_directory r p) = ip_reader p"
  by (simp add: note_directory_def split: sum.split itch_message.split)

lemma next_message_cases:
  defines "n bs \<equiv> from_be_bytes (take 2 bs)"
  shows "\<exists>p' r. next_message p = (p', Inr r) \<and>
    (let bs = ip_reader p
     in if length bs < 2 then r = Inr None \<and> ip_reader p' = []
        else if n bs = 0 then r = Inl ZeroLength \<and> ip_reader p' = drop 2 bs
        else if length bs < 2 + n bs then r = Inl UnexpectedEof \<and> ip_reader p' = []
        else ip_reader p' = drop (2 + n bs) bs \<and>
             (if n bs - 1 < min_payload (bs ! 2) then r = Inl (MessageTooShort (bs ! 2) (n bs - 1) (min_payload (bs ! 2)))
              else \<exists>m. parse_payload (bs ! 2) (take (n bs - 1) (drop 3 bs)) = Inr (Inr m) \<and> r = Inr (Some m)))"
proof -
  let ?bs = "ip_reader p"
  let ?buf = "take (n ?bs) (drop 2 ?bs)"
  show ?thesis
  proof (cases "length ?bs < 2 \<or> n ?bs = 0 \<or> length ?bs < 2 + n ?bs")
    case True
    then show ?thesis by (auto simp: next_message_def n_def Let_def)
  next
    case False
    then have head: "?buf ! 0 = ?bs ! 2" "length (drop 1 ?buf) = n ?bs - 1" by (simp_all, linarith)
    have body: "drop 1 ?buf = take (n ?bs - 1) (drop 3 ?bs)" by (simp add: drop_take numeral_3_eq_3)
    show ?thesis
    proof (cases "n ?bs - 1 < min_payload (?bs ! 2)")
      case True
      with False head show ?thesis by (auto simp: next_message_def n_def Let_def add.commute)
    next
      case long: False
      then obtain m where "parse_payload (?bs ! 2) (drop 1 ?buf) = Inr (Inr m)"
        using parse_payload_ok [of "?bs ! 2" "drop 1 ?buf"] head by auto
      with False long head body [unfolded One_nat_def] show ?thesis
        by (auto simp: next_message_def n_def Let_def add.commute)
    qed
  qed
qed

lemma next_message_shrinks:
  "snd (next_message p) = Inr (Inr (Some m)) \<Longrightarrow> length (ip_reader (fst (next_message p))) < length (ip_reader p)"
  using next_message_cases [of p] by (auto simp: Let_def split: if_splits)

text \<open>The loop of a client: read until the end of the input or an error.\<close>

function read_messages :: "itch_parser \<Rightarrow> itch_message list \<times> itch_message option parse" where
  "read_messages p =
     (case next_message p of
        (p', Inr (Inr (Some m))) \<Rightarrow> (let (ms, r) = read_messages p' in (m # ms, r))
      | (p', r) \<Rightarrow> ([], r))"
  by pat_completeness auto
termination
proof (relation "measure (\<lambda>p. length (ip_reader p))")
  fix p p' m
  fix x :: "itch_message option parse" and y :: "io_error + itch_message option" and z
  assume "(p', x) = next_message p" "x = Inr y" "y = Inr z" "z = Some m"
  then show "(p', p) \<in> measure (\<lambda>p. length (ip_reader p))"
    using next_message_shrinks [of p m] by (metis fst_conv in_measure snd_conv)
qed simp

declare read_messages.simps [simp del]

text \<open>C11. The parser handles every input without a panic. The number of bytes left, the length
  prefix and the message type decide whether the call reports the end of the input, one of the
  three errors, or a message, and how many bytes it takes; the message is the one
  \<open>parse_payload\<close> reads from the bytes of the frame, which never fails there, so that the
  per-field length checks are never reached. In particular each call that does not report the
  end of the input consumes at least two bytes, and a single stray byte is taken for a clean
  end of the input, against the documentation of \<open>next_message\<close>.\<close>

theorem next_message_outcome:
  "\<exists>p' r. next_message p = (p', Inr r) \<and>
    (let bs = ip_reader p; n = from_be_bytes (take 2 bs)
     in if length bs < 2 then r = Inr None \<and> ip_reader p' = []
        else if n = 0 then r = Inl ZeroLength \<and> ip_reader p' = drop 2 bs
        else if length bs < 2 + n then r = Inl UnexpectedEof \<and> ip_reader p' = []
        else ip_reader p' = drop (2 + n) bs \<and>
             (if n - 1 < min_payload (bs ! 2) then r = Inl (MessageTooShort (bs ! 2) (n - 1) (min_payload (bs ! 2)))
              else \<exists>m. parse_payload (bs ! 2) (take (n - 1) (drop 3 bs)) = Inr (Inr m) \<and> r = Inr (Some m)))"
  using next_message_cases [of p] by (simp add: Let_def)

text \<open>C13. Round trip of a feed: reading the ITCH 5.0 encoding of any sequence of well-formed
  messages, whatever the bytes the parser skips and whatever follows the fields it reads, gives
  back these messages, one for one and in order, and then the end of the input. The one
  exception is the stock directory: its locate code is right, but its stock text is what the
  tracking number and the timestamp happen to spell.\<close>

theorem itch_stream_roundtrip:
  assumes "\<forall>f \<in> set fs. frame_ok f" and "length stray < 2" and "ip_reader p = concat (map frame_bytes fs) @ stray"
  shows "read_messages p = (map received fs, Inr (Inr None))"
  using assms
proof (induction fs arbitrary: p)
  case Nil
  then show ?case by (subst read_messages.simps) (simp add: next_message_def)
next
  case (Cons f fs)
  then have f: "snd (next_message p) = Inr (Inr (Some (received f)))"
    "ip_reader (fst (next_message p)) = concat (map frame_bytes fs) @ stray"
    using next_message_frame [of f p] by simp_all
  then have "read_messages (fst (next_message p)) = (map received fs, Inr (Inr None))" using Cons by simp
  with f show ?case by (subst read_messages.simps, cases "next_message p") simp
qed

text \<open>A directory entry for \<open>AAPL\<close>, an order in it, and its replacement.\<close>

definition demo_frames :: "frame list" where
  "demo_frames =
     [\<lparr>fr_hdr = [0, 7, 0, 0], fr_time = be_bytes 6 34200000000000, fr_skipped = replicate 8 0,
       fr_message = StockDirectory [65, 65, 80, 76] 7, fr_rest = [78]\<rparr>,
      \<lparr>fr_hdr = [0, 7, 0, 1], fr_time = replicate 6 0, fr_skipped = replicate 8 0,
       fr_message = AddOrder 34200000000000 901 Sell 100 [65, 65, 80, 76] 1899700, fr_rest = []\<rparr>,
      \<lparr>fr_hdr = [0, 7, 0, 2], fr_time = replicate 6 0, fr_skipped = replicate 8 0,
       fr_message = OrderReplace 34200000000500 901 902 50 1899800, fr_rest = []\<rparr>]"

theorem itch_stream_roundtrip_witness:
  "\<exists>stock. read_messages (itch_parser_new (concat (map frame_bytes demo_frames))) =
     ([StockDirectory stock 7, AddOrder 34200000000000 901 Sell 100 [65, 65, 80, 76] 1899700,
       OrderReplace 34200000000500 901 902 50 1899800], Inr (Inr None)) \<and> stock \<noteq> [65, 65, 80, 76] \<and>
   length (concat (map frame_bytes demo_frames)) = 97"
proof -
  let ?stock = "str_trim (from_utf8_lossy ([0, 0] @ be_bytes 6 34200000000000))"
  have ok: "\<forall>f \<in> set demo_frames. frame_ok f" and len: "length (concat (map frame_bytes demo_frames)) = 97" by code_simp+
  have "?stock \<noteq> [65, 65, 80, 76]" by code_simp
  moreover have "map received demo_frames =
      [StockDirectory ?stock 7, AddOrder 34200000000000 901 Sell 100 [65, 65, 80, 76] 1899700,
       OrderReplace 34200000000500 901 902 50 1899800]"
    by (simp add: demo_frames_def received_def del: be_bytes.simps)
  ultimately show ?thesis
    using itch_stream_roundtrip [OF ok, of "[]" "itch_parser_new (concat (map frame_bytes demo_frames))"] len
    by (auto simp: itch_parser_new_def)
qed

end
