(* ===== verification/Float_Order.thy ===== *)
theory Float_Order
  imports Float64
begin

text \<open>
  Comparison of \<open>f64\<close> values, as the operators of the sources compare them: every comparison
  with NaN is false, the two zeros are equal, and the infinities are the extremes. Saturation
  of integers to \<open>i64\<close> is here too, with the facts that a sum or product of non-negative
  numbers may be saturated at every step or once at the end.
\<close>

section \<open>Equations for evaluation\<close>

text \<open>The powers are taken on integers, and the comparison with \<open>2 ^ 1024\<close> is the exception.\<close>

lemma pow2_code [code]:
  "pow2 e = (if 0 \<le> e then of_int (2 ^ nat e) else 1 / of_int (2 ^ nat (- e)))"
  by (simp add: pow2_def)

lemma f64_round_code [code]:
  "f64_round neg x =
     (let r = round_mag x
      in if r < 18446744073709551616 then FFin neg r
         else if r < pow2 1024 then FFin neg r else FInf neg)"
proof -
  have "r < pow2 1024" if "r < 18446744073709551616" for r :: rat
    using that by (simp add: pow2_def)
  then show ?thesis by (simp add: f64_round_def Let_def)
qed

section \<open>Comparison\<close>

fun f64_lt :: "f64 \<Rightarrow> f64 \<Rightarrow> bool" where
  "f64_lt FNaN _ = False"
| "f64_lt _ FNaN = False"
| "f64_lt (FInf s) (FInf t) = (s \<and> \<not> t)"
| "f64_lt (FInf s) (FFin _ _) = s"
| "f64_lt (FFin _ _) (FInf t) = (\<not> t)"
| "f64_lt (FFin s x) (FFin t y) = (f64_signed s x < f64_signed t y)"

fun f64_le :: "f64 \<Rightarrow> f64 \<Rightarrow> bool" where
  "f64_le FNaN _ = False"
| "f64_le _ FNaN = False"
| "f64_le (FInf s) (FInf t) = (s \<or> \<not> t)"
| "f64_le (FInf s) (FFin _ _) = s"
| "f64_le (FFin _ _) (FInf t) = (\<not> t)"
| "f64_le (FFin s x) (FFin t y) = (f64_signed s x \<le> f64_signed t y)"

definition f64_eq :: "f64 \<Rightarrow> f64 \<Rightarrow> bool" where
  "f64_eq a b \<longleftrightarrow> f64_le a b \<and> f64_le b a"

fun f64_abs :: "f64 \<Rightarrow> f64" where
  "f64_abs FNaN = FNaN"
| "f64_abs (FInf s) = FInf False"
| "f64_abs (FFin s x) = FFin False x"

fun f64_is_finite :: "f64 \<Rightarrow> bool" where
  "f64_is_finite (FFin s x) = True"
| "f64_is_finite _ = False"

lemma f64_lt_irrefl [simp]: "\<not> f64_lt a a"
  by (cases a) simp_all

lemma f64_lt_trans: "f64_lt a b \<Longrightarrow> f64_lt b c \<Longrightarrow> f64_lt a c"
  by (cases a; cases b; cases c) auto

lemma f64_le_trans: "f64_le a b \<Longrightarrow> f64_le b c \<Longrightarrow> f64_le a c"
  by (cases a; cases b; cases c) auto

lemma f64_lt_le_trans: "f64_lt a b \<Longrightarrow> f64_le b c \<Longrightarrow> f64_lt a c"
  by (cases a; cases b; cases c) auto

lemma f64_le_lt_trans: "f64_le a b \<Longrightarrow> f64_lt b c \<Longrightarrow> f64_lt a c"
  by (cases a; cases b; cases c) auto

lemma f64_not_lt: "a \<noteq> FNaN \<Longrightarrow> b \<noteq> FNaN \<Longrightarrow> \<not> f64_lt a b \<longleftrightarrow> f64_le b a"
  by (cases a; cases b) auto

lemma f64_lt_not_nan: "f64_lt a b \<Longrightarrow> a \<noteq> FNaN \<and> b \<noteq> FNaN"
  by (cases a; cases b) auto

section \<open>Saturation\<close>

definition i64_sat :: "int \<Rightarrow> int" where
  "i64_sat x = clamp_int i64_min i64_max x"

lemma i64_sat_id: "\<bar>x\<bar> \<le> i64_max \<Longrightarrow> i64_sat x = x"
  by (auto simp: i64_sat_def clamp_int_def i64_min_def i64_max_def)

lemma i64_sat_nonneg: "0 \<le> x \<Longrightarrow> i64_sat x = min x i64_max"
  by (auto simp: i64_sat_def clamp_int_def i64_min_def i64_max_def)

lemma i64_sat_sum: "0 \<le> x \<Longrightarrow> 0 \<le> y \<Longrightarrow> i64_sat (i64_sat x + i64_sat y) = i64_sat (x + y)"
  by (simp add: i64_sat_nonneg min_def i64_max_def)

lemma i64_sat_mult:
  assumes "0 \<le> x" "0 \<le> y"
  shows "i64_sat (i64_sat x * i64_sat y) = i64_sat (x * y)"
proof -
  have *: "min (min x i64_max * y) i64_max = min (x * y) i64_max" if "0 \<le> x" "0 \<le> y" for x y :: int
  proof (cases "x \<le> i64_max \<or> y = 0")
    case False
    then have "i64_max * 1 \<le> i64_max * y" "x * 1 \<le> x * y" using that by (intro mult_left_mono; simp add: i64_max_def)+
    with False show ?thesis by (simp add: min_def)
  qed auto
  have "min (min x i64_max * min y i64_max) i64_max = min (x * min y i64_max) i64_max"
    using * [of x "min y i64_max"] assms by (simp add: i64_max_def)
  also have "\<dots> = min (x * y) i64_max" using * [of y x] assms by (simp add: mult.commute)
  finally show ?thesis using assms by (simp add: i64_sat_nonneg i64_max_def)
qed

lemma i64_sat_fold:
  "0 \<le> x \<Longrightarrow> (\<forall>y \<in> set ys. 0 \<le> y) \<Longrightarrow> fold (\<lambda>y acc. i64_sat (acc + i64_sat y)) ys (i64_sat x) = i64_sat (x + sum_list ys)"
proof (induction ys arbitrary: x)
  case (Cons y ys)
  then show ?case using Cons.IH [of "x + y"] by (simp add: i64_sat_sum add.assoc)
qed simp

lemma i64_sat_gt: "0 \<le> limit \<Longrightarrow> limit < i64_max \<Longrightarrow> 0 \<le> x \<Longrightarrow> i64_sat x > limit \<longleftrightarrow> x > limit"
  by (auto simp: i64_sat_nonneg)

end
