(* ===== verification/Position.thy ===== *)
theory Position
  imports Symbols Float_Order
begin

text \<open>
  Positions (\<open>src/portfolio/position.rs\<close>): share counts in fixed-point micro-shares and the
  position of one symbol, with its average entry price, realised profit and cost of entry.
  The \<open>i128\<close> intermediates of the sources cannot overflow (the factors are \<open>i64\<close> values), so
  they are exact integers, clamped to \<open>i64\<close> at the end as the code does.
\<close>

section \<open>Share counts\<close>

datatype shares = Shares (raw: int)

definition SCALE :: int where
  "SCALE = 1000000"

definition shares_ZERO :: shares where
  "shares_ZERO = Shares 0"

definition from_whole :: "int \<Rightarrow> shares" where
  "from_whole n = Shares (i64_wrap (n * SCALE))"

definition from_raw :: "int \<Rightarrow> shares" where
  "from_raw r = Shares r"

definition shares_to_f64 :: "shares \<Rightarrow> f64" where
  "shares_to_f64 q = f64_div (f64_of_int (raw q)) (f64_of_int SCALE)"

definition shares_whole :: "shares \<Rightarrow> int" where
  "shares_whole q = trunc_div (raw q) SCALE"

definition is_zero :: "shares \<Rightarrow> bool" where
  "is_zero q \<longleftrightarrow> raw q = 0"

definition is_positive :: "shares \<Rightarrow> bool" where
  "is_positive q \<longleftrightarrow> raw q > 0"

definition is_negative :: "shares \<Rightarrow> bool" where
  "is_negative q \<longleftrightarrow> raw q < 0"

definition shares_abs :: "shares \<Rightarrow> shares" where
  "shares_abs q = Shares (i64_sat \<bar>raw q\<bar>)"

definition unsigned_abs :: "shares \<Rightarrow> nat" where
  "unsigned_abs q = nat \<bar>raw q\<bar>"

definition shares_add :: "shares \<Rightarrow> shares \<Rightarrow> shares" where
  "shares_add a b = Shares (i64_sat (raw a + raw b))"

definition shares_sub :: "shares \<Rightarrow> shares \<Rightarrow> shares" where
  "shares_sub a b = Shares (i64_sat (raw a - raw b))"

definition shares_neg :: "shares \<Rightarrow> shares" where
  "shares_neg a = Shares (i64_sat (- raw a))"

definition shares_min :: "shares \<Rightarrow> shares \<Rightarrow> shares" where
  "shares_min a b = Shares (min (raw a) (raw b))"

section \<open>Positions\<close>

record position =
  pos_symbol :: symbol
  pos_quantity :: shares
  pos_avg_entry_price :: int
  pos_realized_pnl :: int
  pos_total_cost :: int

definition notional_cents :: "int \<Rightarrow> int \<Rightarrow> int" where
  "notional_cents shares_raw price_cents = i64_sat (trunc_div (shares_raw * price_cents) SCALE)"

definition position_new :: "symbol \<Rightarrow> position" where
  "position_new y = \<lparr>pos_symbol = y, pos_quantity = shares_ZERO, pos_avg_entry_price = 0,
                     pos_realized_pnl = 0, pos_total_cost = 0\<rparr>"

definition avg_price :: "int \<Rightarrow> shares \<Rightarrow> int" where
  "avg_price total_cost_cents q =
     (if is_zero q then 0 else i64_sat (trunc_div (total_cost_cents * SCALE) (raw q)))"

definition apply_fill :: "shares \<Rightarrow> int \<Rightarrow> position \<Rightarrow> position" where
  "apply_fill qty price pos =
     (if is_zero qty then pos
      else
        let quantity = pos_quantity pos;
            same_direction = (raw quantity \<ge> 0 \<and> is_positive qty \<or> raw quantity \<le> 0 \<and> is_negative qty)
        in if is_zero quantity
           then pos\<lparr>pos_quantity := qty, pos_avg_entry_price := price, pos_total_cost := notional_cents (raw qty) price\<rparr>
           else if same_direction
           then let total_cost = i64_sat (pos_total_cost pos + notional_cents (raw qty) price);
                    quantity' = shares_add quantity qty
                in pos\<lparr>pos_total_cost := total_cost, pos_quantity := quantity',
                       pos_avg_entry_price := avg_price total_cost quantity'\<rparr>
           else
             let close_qty = shares_min (shares_abs qty) (shares_abs quantity);
                 pnl_per_unit = (if is_positive quantity then i64_wrap (price - pos_avg_entry_price pos)
                                 else i64_wrap (pos_avg_entry_price pos - price));
                 pos1 = pos\<lparr>pos_realized_pnl := i64_sat (pos_realized_pnl pos + notional_cents (raw close_qty) pnl_per_unit)\<rparr>;
                 net = shares_add quantity qty
             in if is_zero net
                then pos1\<lparr>pos_quantity := shares_ZERO, pos_avg_entry_price := 0, pos_total_cost := 0\<rparr>
                else if is_positive net = is_positive quantity
                then let total_cost = i64_sat (pos_total_cost pos1 - notional_cents (raw close_qty) (pos_avg_entry_price pos1))
                     in pos1\<lparr>pos_total_cost := total_cost, pos_quantity := net,
                             pos_avg_entry_price := avg_price total_cost net\<rparr>
                else pos1\<lparr>pos_quantity := net, pos_avg_entry_price := price, pos_total_cost := notional_cents (raw net) price\<rparr>)"

definition market_value :: "int \<Rightarrow> position \<Rightarrow> int" where
  "market_value price pos = notional_cents (raw (pos_quantity pos)) price"

definition unrealized_pnl :: "int \<Rightarrow> position \<Rightarrow> int" where
  "unrealized_pnl price pos =
     (if is_zero (pos_quantity pos) then 0
      else notional_cents (raw (pos_quantity pos)) (i64_sat (price - pos_avg_entry_price pos)))"

definition is_flat :: "position \<Rightarrow> bool" where
  "is_flat pos \<longleftrightarrow> is_zero (pos_quantity pos)"

section \<open>Whole shares\<close>

text \<open>
  With \<open>quantity_step\<close> at its default every quantity is a number of whole shares. Then the
  notional is the exact product, and the average entry price is the truncated quotient of
  the cost of entry and the number of shares.
\<close>

definition whole_position :: "int \<Rightarrow> position \<Rightarrow> bool" where
  "whole_position n pos \<longleftrightarrow>
     raw (pos_quantity pos) = SCALE * n \<and> pos_avg_entry_price pos = trunc_div (pos_total_cost pos) n \<and>
     (n = 0 \<longrightarrow> pos_total_cost pos = 0)"

text \<open>All intermediate results of a fill of \<open>m\<close> shares at price \<open>p\<close> fit \<open>i64\<close>.\<close>

definition fill_fits :: "int \<Rightarrow> int \<Rightarrow> int \<Rightarrow> position \<Rightarrow> bool" where
  "fill_fits n m p pos \<longleftrightarrow>
     SCALE * (\<bar>n\<bar> + \<bar>m\<bar>) \<le> i64_max \<and>
     (\<bar>n\<bar> + \<bar>m\<bar>) * (\<bar>p\<bar> + \<bar>pos_avg_entry_price pos\<bar>) + \<bar>pos_total_cost pos\<bar> + \<bar>pos_realized_pnl pos\<bar> \<le> i64_max"

text \<open>What the books gain beyond the cash of a fill.\<close>

definition closes :: "int \<Rightarrow> int \<Rightarrow> bool" where
  "closes n m \<longleftrightarrow> n > 0 \<and> n + m \<le> 0 \<or> n < 0 \<and> n + m \<ge> 0"

definition fill_residue :: "int \<Rightarrow> int \<Rightarrow> position \<Rightarrow> int" where
  "fill_residue n m pos =
     (if closes n m then trunc_mod (pos_total_cost pos) n
      else if n < 0 \<and> 0 < m then 2 * m * pos_avg_entry_price pos
      else 0)"

lemma i64_wrap_small: "\<bar>x\<bar> \<le> i64_max \<Longrightarrow> i64_wrap x = x"
  by (intro i64_wrap_id) (auto simp: i64_min_def i64_max_def)

lemma trunc_div_scale: "trunc_div (SCALE * a) SCALE = a"
  by (simp add: trunc_div_def SCALE_def abs_mult sgn_mult mult_sgn_abs)

lemma trunc_div_scaled: "trunc_div (a * SCALE) (SCALE * n) = trunc_div a n"
  by (simp add: trunc_div_def SCALE_def abs_mult sgn_mult mult.commute)

lemma trunc_div_mult: "n \<noteq> 0 \<Longrightarrow> trunc_div (n * p) n = p"
  by (simp add: trunc_div_def abs_mult sgn_mult) (simp add: sgn_if)

lemma notional_whole: "\<bar>m * p\<bar> \<le> i64_max \<Longrightarrow> notional_cents (SCALE * m) p = m * p"
  by (simp add: notional_cents_def trunc_div_scale i64_sat_id mult.assoc)

lemma avg_whole: "n \<noteq> 0 \<Longrightarrow> \<bar>c\<bar> \<le> i64_max \<Longrightarrow> avg_price c (Shares (SCALE * n)) = trunc_div c n"
proof -
  assume "n \<noteq> 0" "\<bar>c\<bar> \<le> i64_max"
  moreover have "SCALE * n \<noteq> 0" using \<open>n \<noteq> 0\<close> by (simp add: SCALE_def)
  ultimately show ?thesis using trunc_div_le [of c n]
    by (simp add: avg_price_def is_zero_def trunc_div_scaled i64_sat_id)
qed

section \<open>Accounting\<close>

text \<open>The bound of \<open>fill_fits\<close> covers every product a fill forms.\<close>

lemma fits_product:
  assumes "fill_fits n m p pos" and "\<bar>k\<bar> \<le> \<bar>n\<bar> + \<bar>m\<bar>" and "\<bar>v\<bar> \<le> \<bar>p\<bar> + \<bar>pos_avg_entry_price pos\<bar>"
  shows "\<bar>k * v\<bar> + \<bar>pos_total_cost pos\<bar> + \<bar>pos_realized_pnl pos\<bar> \<le> i64_max"
proof -
  have "\<bar>k * v\<bar> \<le> (\<bar>n\<bar> + \<bar>m\<bar>) * (\<bar>p\<bar> + \<bar>pos_avg_entry_price pos\<bar>)"
    using assms(2,3) by (simp add: abs_mult mult_mono)
  with assms(1) show ?thesis by (simp add: fill_fits_def)
qed

lemma SCALE_pos [simp]: "0 < SCALE" "SCALE \<noteq> 0" "0 \<le> SCALE"
  by (simp_all add: SCALE_def)

lemma scaled_sign [simp]:
  "SCALE * k = 0 \<longleftrightarrow> k = 0" "0 < SCALE * k \<longleftrightarrow> 0 < k" "SCALE * k < 0 \<longleftrightarrow> k < 0"
  "0 \<le> SCALE * k \<longleftrightarrow> 0 \<le> k" "SCALE * k \<le> 0 \<longleftrightarrow> k \<le> 0" "\<bar>SCALE * k\<bar> = SCALE * \<bar>k\<bar>"
  "min (SCALE * k) (SCALE * l) = SCALE * min k l" "SCALE * k \<le> SCALE * l \<longleftrightarrow> k \<le> l"
  by (simp_all add: SCALE_def zero_less_mult_iff mult_less_0_iff zero_le_mult_iff mult_le_0_iff abs_mult min_def)

lemmas shares_defs = is_zero_def is_positive_def is_negative_def shares_ZERO_def

lemma shares_whole_ops:
  "SCALE * (\<bar>n\<bar> + \<bar>m\<bar>) \<le> i64_max \<Longrightarrow> shares_add (Shares (SCALE * n)) (Shares (SCALE * m)) = Shares (SCALE * (n + m))"
  "SCALE * \<bar>n\<bar> \<le> i64_max \<Longrightarrow> shares_abs (Shares (SCALE * n)) = Shares (SCALE * \<bar>n\<bar>)"
proof -
  assume "SCALE * (\<bar>n\<bar> + \<bar>m\<bar>) \<le> i64_max"
  moreover have "SCALE * \<bar>n + m\<bar> \<le> SCALE * (\<bar>n\<bar> + \<bar>m\<bar>)" by (intro mult_left_mono) auto
  ultimately have "SCALE * \<bar>n + m\<bar> \<le> i64_max" by (rule order_trans [rotated])
  then have "i64_sat (SCALE * (n + m)) = SCALE * (n + m)" by (intro i64_sat_id) (simp only: scaled_sign)
  then show "shares_add (Shares (SCALE * n)) (Shares (SCALE * m)) = Shares (SCALE * (n + m))"
    by (simp add: shares_add_def distrib_left)
qed (simp add: shares_abs_def i64_sat_id)

lemma fill_fits_scale: "fill_fits n m p pos \<Longrightarrow> SCALE * (\<bar>n\<bar> + \<bar>m\<bar>) \<le> i64_max \<and> SCALE * \<bar>n\<bar> \<le> i64_max \<and> SCALE * \<bar>m\<bar> \<le> i64_max"
proof -
  assume "fill_fits n m p pos"
  then have "SCALE * (\<bar>n\<bar> + \<bar>m\<bar>) \<le> i64_max" by (simp add: fill_fits_def)
  moreover have "SCALE * \<bar>n\<bar> \<le> SCALE * (\<bar>n\<bar> + \<bar>m\<bar>)" "SCALE * \<bar>m\<bar> \<le> SCALE * (\<bar>n\<bar> + \<bar>m\<bar>)"
    by (intro mult_left_mono, auto)+
  ultimately show ?thesis by linarith
qed

text \<open>The three branches of \<open>apply_fill\<close> on whole shares: open, add, reduce.\<close>

lemma fill_open:
  assumes "raw (pos_quantity pos) = 0" and "m \<noteq> 0" and "fill_fits 0 m p pos"
  shows "apply_fill (Shares (SCALE * m)) p pos =
           pos\<lparr>pos_quantity := Shares (SCALE * m), pos_avg_entry_price := p, pos_total_cost := m * p\<rparr>"
  using assms fits_product [OF assms(3), of m p]
  by (simp add: apply_fill_def shares_defs notional_whole)

lemma fill_add:
  assumes "pos_quantity pos = Shares (SCALE * n)" and "n > 0 \<and> m > 0 \<or> n < 0 \<and> m < 0" and "fill_fits n m p pos"
  shows "apply_fill (Shares (SCALE * m)) p pos =
           pos\<lparr>pos_quantity := Shares (SCALE * (n + m)), pos_total_cost := pos_total_cost pos + m * p,
               pos_avg_entry_price := trunc_div (pos_total_cost pos + m * p) (n + m)\<rparr>"
proof -
  have f: "\<bar>m * p\<bar> + \<bar>pos_total_cost pos\<bar> \<le> i64_max" using fits_product [OF assms(3), of m p] by simp
  have add: "shares_add (Shares (SCALE * n)) (Shares (SCALE * m)) = Shares (SCALE * (n + m))"
    using assms(3) by (intro shares_whole_ops) (simp add: fill_fits_def)
  have "notional_cents (SCALE * m) p = m * p" "i64_sat (pos_total_cost pos + m * p) = pos_total_cost pos + m * p"
    using f by (simp_all add: notional_whole i64_sat_id)
  moreover have "avg_price (pos_total_cost pos + m * p) (Shares (SCALE * (n + m))) = trunc_div (pos_total_cost pos + m * p) (n + m)"
    using f assms(2) by (intro avg_whole) auto
  ultimately show ?thesis using assms(1,2) add by (auto simp: apply_fill_def shares_defs Let_def)
qed

definition close_gain :: "int \<Rightarrow> int \<Rightarrow> int \<Rightarrow> position \<Rightarrow> int" where
  "close_gain n m p pos = min \<bar>m\<bar> \<bar>n\<bar> * (if n > 0 then p - pos_avg_entry_price pos else pos_avg_entry_price pos - p)"

lemma fill_reduce:
  assumes "pos_quantity pos = Shares (SCALE * n)" and "n > 0 \<and> m < 0 \<or> n < 0 \<and> m > 0" and fits: "fill_fits n m p pos"
  shows "apply_fill (Shares (SCALE * m)) p pos =
           (let pos1 = pos\<lparr>pos_realized_pnl := pos_realized_pnl pos + close_gain n m p pos\<rparr>;
                c = pos_total_cost pos - min \<bar>m\<bar> \<bar>n\<bar> * pos_avg_entry_price pos
            in if n + m = 0 then pos1\<lparr>pos_quantity := Shares 0, pos_avg_entry_price := 0, pos_total_cost := 0\<rparr>
               else if n + m > 0 \<longleftrightarrow> n > 0
               then pos1\<lparr>pos_quantity := Shares (SCALE * (n + m)), pos_total_cost := c,
                         pos_avg_entry_price := trunc_div c (n + m)\<rparr>
               else pos1\<lparr>pos_quantity := Shares (SCALE * (n + m)), pos_avg_entry_price := p,
                         pos_total_cost := (n + m) * p\<rparr>)"
proof -
  let ?a = "pos_avg_entry_price pos"
  define k where "k = min \<bar>m\<bar> \<bar>n\<bar>"
  let ?u = "if n > 0 then p - ?a else ?a - p"
  note sc = fill_fits_scale [OF fits] and prod = fits_product [OF fits]
  have k: "\<bar>k\<bar> \<le> \<bar>n\<bar> + \<bar>m\<bar>" and u: "\<bar>?u\<bar> \<le> \<bar>p\<bar> + \<bar>?a\<bar>" by (auto simp: k_def)
  have ops: "shares_add (Shares (SCALE * n)) (Shares (SCALE * m)) = Shares (SCALE * (n + m))"
    "shares_min (shares_abs (Shares (SCALE * m))) (shares_abs (Shares (SCALE * n))) = Shares (SCALE * k)"
    using sc by (simp_all add: shares_whole_ops shares_min_def k_def)
  have unit: "(if n > 0 then i64_wrap (p - ?a) else i64_wrap (?a - p)) = ?u"
    using prod [of 1 ?u] u assms(2) by (auto intro!: i64_wrap_small)
  have gain: "notional_cents (SCALE * k) ?u = close_gain n m p pos"
    "i64_sat (pos_realized_pnl pos + close_gain n m p pos) = pos_realized_pnl pos + close_gain n m p pos"
    using prod [OF k u] by (auto simp: close_gain_def notional_whole i64_sat_id simp flip: k_def)
  have cost: "notional_cents (SCALE * k) ?a = k * ?a" "i64_sat (pos_total_cost pos - k * ?a) = pos_total_cost pos - k * ?a"
    "\<bar>pos_total_cost pos - k * ?a\<bar> \<le> i64_max"
    using prod [OF k, of ?a] by (auto simp: notional_whole i64_sat_id)
  have net: "notional_cents (SCALE * (n + m)) p = (n + m) * p"
    using prod [of "n + m" p] abs_triangle_ineq [of n m] by (intro notional_whole) linarith
  from assms(2) have dir: "\<not> (n \<ge> 0 \<and> m > 0 \<or> n \<le> 0 \<and> m < 0)" "m \<noteq> 0" "n \<noteq> 0" by auto
  have avg: "n + m \<noteq> 0 \<Longrightarrow> avg_price (pos_total_cost pos - k * ?a) (Shares (SCALE * (n + m))) = trunc_div (pos_total_cost pos - k * ?a) (n + m)"
    by (rule avg_whole [OF _ cost(3)])
  show ?thesis
    unfolding apply_fill_def assms(1) Let_def ops
    by (simp only: shares_defs shares.sel scaled_sign dir unit gain net k_def [symmetric]
        if_False if_True simp_thms cong: if_cong) (simp add: cost avg)
qed

text \<open>Realised profit minus cost of entry: what the books owe to the cash account.\<close>

definition book_value :: "position \<Rightarrow> int" where
  "book_value pos = pos_realized_pnl pos - pos_total_cost pos"

lemma reduce_accounting:
  assumes whole: "whole_position n pos" and fits: "fill_fits n m p pos" and dir: "n > 0 \<and> m < 0 \<or> n < 0 \<and> m > 0"
  defines "pos' \<equiv> apply_fill (Shares (SCALE * m)) p pos"
  shows "whole_position (n + m) pos' \<and> book_value pos' = book_value pos - m * p + fill_residue n m pos"
proof -
  have q: "pos_quantity pos = Shares (SCALE * n)" using whole by (cases "pos_quantity pos") (simp add: whole_position_def)
  have mod: "trunc_mod (pos_total_cost pos) n = pos_total_cost pos - n * pos_avg_entry_price pos"
    using whole by (simp add: whole_position_def trunc_mod_def)
  note step = fill_reduce [OF q dir fits, folded pos'_def]
  from dir consider "m = - n" | "n + m \<noteq> 0" "n + m > 0 \<longleftrightarrow> n > 0" | "n + m \<noteq> 0" "n + m > 0 \<longleftrightarrow> n < 0" by linarith
  then show ?thesis
  proof cases
    case 1
    then show ?thesis using dir mod step
      by (auto simp: whole_position_def book_value_def closes_def fill_residue_def close_gain_def Let_def algebra_simps)
  next
    case 2
    then have "min \<bar>m\<bar> \<bar>n\<bar> = \<bar>m\<bar>" "\<not> closes n m" using dir by (auto simp: closes_def)
    then show ?thesis using 2 dir step
      by (auto simp: whole_position_def book_value_def fill_residue_def close_gain_def Let_def algebra_simps)
  next
    case 3
    then have "min \<bar>m\<bar> \<bar>n\<bar> = \<bar>n\<bar>" "closes n m" using dir by (auto simp: closes_def)
    then show ?thesis using 3 dir mod step trunc_div_mult [of "n + m" p]
      by (auto simp: whole_position_def book_value_def fill_residue_def close_gain_def Let_def algebra_simps)
  qed
qed

text \<open>C33. Book-keeping of a position in whole shares: a fill moves the quantity by exactly its
  size, keeps the average entry price equal to the truncated cost per share, and changes
  realised profit minus cost of entry by exactly the cash the fill brings in plus a residue.
  The residue is zero when a position is opened, increased or, on the long side, reduced. A
  fill that closes or flips the position drops the remainder of the truncated average, fewer
  cents than shares. A fill that covers part of a short position subtracts the cost of the
  covered shares from a negative cost of entry, which is off by twice that cost.\<close>

theorem fill_accounting:
  assumes whole: "whole_position n pos" and fits: "fill_fits n m p pos"
  defines "pos' \<equiv> apply_fill (Shares (SCALE * m)) p pos"
  shows "whole_position (n + m) pos' \<and> raw (pos_quantity pos') = SCALE * (n + m) \<and>
         book_value pos' = book_value pos - m * p + fill_residue n m pos \<and>
         (n \<noteq> 0 \<longrightarrow> \<bar>trunc_mod (pos_total_cost pos) n\<bar> < \<bar>n\<bar>)"
proof -
  have q: "pos_quantity pos = Shares (SCALE * n)" using whole by (cases "pos_quantity pos") (simp add: whole_position_def)
  consider "m = 0" | "m \<noteq> 0" "n = 0" | "n > 0 \<and> m > 0 \<or> n < 0 \<and> m < 0" | "n > 0 \<and> m < 0 \<or> n < 0 \<and> m > 0"
    by linarith
  then have "whole_position (n + m) pos' \<and> raw (pos_quantity pos') = SCALE * (n + m) \<and>
         book_value pos' = book_value pos - m * p + fill_residue n m pos"
  proof cases
    case 1
    then show ?thesis using whole q by (auto simp: pos'_def apply_fill_def shares_defs closes_def fill_residue_def book_value_def)
  next
    case 2
    then have "pos' = pos\<lparr>pos_quantity := Shares (SCALE * m), pos_avg_entry_price := p, pos_total_cost := m * p\<rparr>"
      unfolding pos'_def using q fits by (intro fill_open) simp_all
    then show ?thesis using 2 whole by (simp add: whole_position_def closes_def trunc_div_mult fill_residue_def book_value_def)
  next
    case 3
    then have "fill_residue n m pos = 0" by (auto simp: fill_residue_def closes_def)
    with 3 show ?thesis by (auto simp: pos'_def fill_add [OF q 3 fits] whole_position_def book_value_def)
  next
    case 4
    show ?thesis using reduce_accounting [OF whole fits 4] by (simp add: pos'_def whole_position_def)
  qed
  with trunc_mod_bound show ?thesis by blast
qed

definition demo_short :: position where
  "demo_short = apply_fill (from_whole (-10)) 100 (position_new (from_str_truncated [65]))"

theorem fill_accounting_witness:
  "whole_position (-5) (apply_fill (Shares (SCALE * 5)) 90 demo_short) \<and>
   pos_realized_pnl (apply_fill (Shares (SCALE * 5)) 90 demo_short) = 50 \<and>
   pos_total_cost (apply_fill (Shares (SCALE * 5)) 90 demo_short) = - 1500 \<and>
   pos_avg_entry_price (apply_fill (Shares (SCALE * 5)) 90 demo_short) = 300"
proof -
  let ?pos = "apply_fill (Shares (SCALE * 5)) 90 demo_short"
  have h: "whole_position (-10) demo_short" "fill_fits (-10) 5 90 demo_short" by code_simp+
  have "pos_realized_pnl ?pos = 50" "pos_avg_entry_price ?pos = 300" "fill_residue (-10) 5 demo_short = 1000"
    "book_value demo_short = 1000"
    by code_simp+
  with fill_accounting [OF h] show ?thesis by (simp add: book_value_def)
qed

end
