(* ===== verification/Broker.thy ===== *)
theory Broker
  imports Symbols Core_Types Float_Order
begin

text \<open>
  The broker interface (\<open>broker/src\<close>): the shared types, the checked conversion of money from
  floating point to cents, client order identifiers, and the mock broker, which implements
  the trait without a network. A method of the trait that changes the broker's state returns
  the new state next to its result.
\<close>

section \<open>Types\<close>

datatype broker_error =
    Connection string
  | OrderError string
  | NotConnected
  | BrokerInvalidSymbol string
  | Auth string
  | RateLimit
  | NoQuoteForMarketOrder string
  | MarketOrderRejected
  | NonFiniteValue string f64
  | ValueOutOfRange string f64
  | CancelReject int string
  | ConnectionLost int int
  | ReconnectFailed nat string
  | DuplicateOrder string
  | OtherError string

datatype broker_side = BrokerBuy | BrokerSell

datatype broker_order_type = MarketOrder | LimitOrder price | StopOrder price | StopLimitOrder price price

datatype order_state = OrdPending | OrdSubmitted | OrdPartiallyFilled | OrdFilled | OrdCancelled | OrdRejected

record account =
  ac_equity_cents :: int
  ac_buying_power_cents :: int
  ac_cash_cents :: int
  ac_gross_position_value_cents :: int

record broker_position =
  bp_symbol :: symbol
  bp_quantity :: int
  bp_avg_cost_cents :: int
  bp_market_value_cents :: int
  bp_unrealized_pnl_cents :: int

record broker_order_status =
  bos_id :: nat
  bos_status :: order_state
  bos_filled_quantity :: nat
  bos_remaining_quantity :: nat
  bos_avg_fill_price_cents :: int

section \<open>Money from floating point\<close>

text \<open>\<open>i64::MAX as f64\<close> is \<open>2 ^ 63\<close>, so the upper end of the range is excluded.\<close>

definition f64_to_fixed_checked :: "f64 \<Rightarrow> f64 \<Rightarrow> string \<Rightarrow> broker_error + int" where
  "f64_to_fixed_checked value scale field =
     (if \<not> f64_is_finite value then Inl (NonFiniteValue field value)
      else let rounded = f64_round_int (f64_mul value scale)
           in if \<not> (f64_le (f64_of_int i64_min) rounded \<and> f64_lt rounded (f64_of_int i64_max))
              then Inl (ValueOutOfRange field value)
              else Inr (f64_to_i64 rounded))"

definition f64_cents_checked :: "f64 \<Rightarrow> string \<Rightarrow> broker_error + int" where
  "f64_cents_checked value field = f64_to_fixed_checked value (f64_of_int 100) field"

section \<open>Client order identifiers\<close>

text \<open>
  \<open>derive\<close> hashes the order with SHA-256, a function of the \<open>sha2\<close> crate, which is a parameter
  here, and prints the first sixteen bytes in hexadecimal.
\<close>

definition le_bytes8 :: "nat \<Rightarrow> nat list" where
  "le_bytes8 n = map (\<lambda>i. n div 256 ^ i mod 256) [0..<8]"

definition hex_digit :: "nat \<Rightarrow> nat" where
  "hex_digit d = (if d < 10 then 48 + d else 87 + d)"

definition hex_bytes :: "nat list \<Rightarrow> nat list" where
  "hex_bytes bs = concat (map (\<lambda>b. [hex_digit (b div 16), hex_digit (b mod 16)]) bs)"

definition derive_id :: "(nat list \<Rightarrow> nat list) \<Rightarrow> nat list \<Rightarrow> nat list \<Rightarrow> broker_side \<Rightarrow> nat \<Rightarrow> nat list" where
  "derive_id sha256 scope ticker side qty =
     hex_bytes (take 16 (sha256 (scope @ [0] @ ticker @ [0] @ [case side of BrokerBuy \<Rightarrow> 66 | BrokerSell \<Rightarrow> 83] @
                                 [0] @ le_bytes8 qty)))"

definition safe_id_byte :: "nat \<Rightarrow> bool" where
  "safe_id_byte b \<longleftrightarrow> 48 \<le> b \<and> b \<le> 57 \<or> 65 \<le> b \<and> b \<le> 90 \<or> 97 \<le> b \<and> b \<le> 122 \<or> b = 95 \<or> b = 46 \<or> b = 45"

definition client_order_id_new :: "nat list \<Rightarrow> broker_error + nat list" where
  "client_order_id_new value =
     (if value = [] \<or> length value > 36
      then Inl (OrderError ''client_order_id must be 1..=36 ASCII-safe characters'')
      else if \<not> list_all safe_id_byte value
      then Inl (OrderError ''client_order_id contains unsafe query characters'')
      else Inr value)"

section \<open>The mock broker\<close>

datatype fill_mode = ImmediateFull | ImmediatePartial f64 | Reject

record broker_order =
  bo_symbol :: symbol
  bo_side :: broker_side
  bo_quantity :: nat
  bo_order_type :: broker_order_type
  bo_client_order_id :: "nat list option"

record mock_broker =
  mb_connected :: bool
  mb_fill_mode :: fill_mode
  mb_positions :: "broker_position list"
  mb_equity_cents :: int
  mb_cash_cents :: int
  mb_next_order_id :: nat
  mb_submitted_orders :: "broker_order list"
  mb_open_orders :: "nat list"

definition mock_builder :: mock_broker where
  "mock_builder =
     \<lparr>mb_connected = False, mb_fill_mode = ImmediateFull, mb_positions = [], mb_equity_cents = 100000000,
      mb_cash_cents = 100000000, mb_next_order_id = 1, mb_submitted_orders = [], mb_open_orders = []\<rparr>"

definition with_position :: "symbol \<Rightarrow> int \<Rightarrow> int \<Rightarrow> mock_broker \<Rightarrow> mock_broker" where
  "with_position y q c b =
     b\<lparr>mb_positions := mb_positions b @
         [\<lparr>bp_symbol = y, bp_quantity = q, bp_avg_cost_cents = c, bp_market_value_cents = i64_wrap (q * c),
           bp_unrealized_pnl_cents = 0\<rparr>]\<rparr>"

text \<open>The cast of a float to \<open>u64\<close>.\<close>

fun f64_to_u64 :: "f64 \<Rightarrow> nat" where
  "f64_to_u64 FNaN = 0"
| "f64_to_u64 (FInf s) = (if s then 0 else u64_max)"
| "f64_to_u64 (FFin s x) = (if s then 0 else min (nat \<lfloor>x\<rfloor>) u64_max)"

definition fill_status :: "mock_broker \<Rightarrow> order_state \<times> nat \<times> nat" where
  "fill_status b =
     (case mb_fill_mode b of
        ImmediateFull \<Rightarrow> (OrdFilled, 100, 0)
      | ImmediatePartial fraction \<Rightarrow>
          let filled = f64_to_u64 (f64_mul (f64_of_int 100) fraction) in (OrdPartiallyFilled, filled, u64_sub 100 filled)
      | Reject \<Rightarrow> (OrdRejected, 0, 0))"

definition mock_connect :: "mock_broker \<Rightarrow> mock_broker \<times> (broker_error + unit)" where
  "mock_connect b = (b\<lparr>mb_connected := True\<rparr>, Inr ())"

definition mock_disconnect :: "mock_broker \<Rightarrow> mock_broker \<times> (broker_error + unit)" where
  "mock_disconnect b = (b\<lparr>mb_connected := False\<rparr>, Inr ())"

definition mock_positions :: "mock_broker \<Rightarrow> broker_error + broker_position list" where
  "mock_positions b = (if \<not> mb_connected b then Inl NotConnected else Inr (mb_positions b))"

definition mock_account :: "mock_broker \<Rightarrow> broker_error + account" where
  "mock_account b =
     (if \<not> mb_connected b then Inl NotConnected
      else Inr \<lparr>ac_equity_cents = mb_equity_cents b, ac_buying_power_cents = mb_cash_cents b,
                ac_cash_cents = mb_cash_cents b,
                ac_gross_position_value_cents =
                  foldl (\<lambda>a p. i64_wrap (a + i64_wrap \<bar>bp_market_value_cents p\<bar>)) 0 (mb_positions b)\<rparr>)"

definition mock_submit_order :: "broker_order \<Rightarrow> mock_broker \<Rightarrow> mock_broker \<times> (broker_error + nat)" where
  "mock_submit_order x b =
     (if \<not> mb_connected b then (b, Inl NotConnected)
      else let b1 = b\<lparr>mb_submitted_orders := mb_submitted_orders b @ [x]\<rparr>
           in case mb_fill_mode b of
                Reject \<Rightarrow> (b1, Inl (OrderError ''mock: order rejected''))
              | _ \<Rightarrow> (b1\<lparr>mb_next_order_id := u64_add (mb_next_order_id b1) 1,
                       mb_open_orders := mb_open_orders b1 @ [mb_next_order_id b1]\<rparr>, Inr (mb_next_order_id b1)))"

definition mock_status :: "mock_broker \<Rightarrow> nat \<Rightarrow> broker_order_status" where
  "mock_status b i =
     (let (status, filled, remaining) = fill_status b
      in \<lparr>bos_id = i, bos_status = status, bos_filled_quantity = filled, bos_remaining_quantity = remaining,
          bos_avg_fill_price_cents = 0\<rparr>)"

definition mock_order_status :: "nat \<Rightarrow> mock_broker \<Rightarrow> broker_error + broker_order_status" where
  "mock_order_status i b = (if \<not> mb_connected b then Inl NotConnected else Inr (mock_status b i))"

definition mock_open_orders :: "mock_broker \<Rightarrow> mock_broker \<times> (broker_error + broker_order_status list)" where
  "mock_open_orders b =
     (if \<not> mb_connected b then (b, Inl NotConnected) else (b, Inr (map (mock_status b) (mb_open_orders b))))"

definition mock_cancel_order :: "nat \<Rightarrow> mock_broker \<Rightarrow> mock_broker \<times> (broker_error + unit)" where
  "mock_cancel_order i b =
     (if \<not> mb_connected b then (b, Inl NotConnected)
      else (b\<lparr>mb_open_orders := filter (\<lambda>j. j \<noteq> i) (mb_open_orders b)\<rparr>, Inr ()))"

section \<open>Conversion is exact\<close>

lemma f64_round_int_value: "f64_round_int (FFin s x) = FFin s (of_int \<lfloor>x + 1 / 2\<rfloor>)"
  by simp

lemma f64_of_i64_bounds:
  "f64_of_int i64_min = FFin True (2 ^ 63)" "f64_of_int i64_max = FFin False (2 ^ 63)"
proof -
  have "bit_len 9223372036854775808 = 64" "bit_len 9223372036854775807 = 63" "bit_len (Suc 0) = 1"
    by (simp_all add: bit_len.simps)
  then have e: "bin_exp 9223372036854775808 = 63" "bin_exp 9223372036854775807 = 62"
    by (simp_all add: bin_exp_def quotient_of_number Let_def pow2_def)
  have "\<lfloor>9223372036854775807 / 1024 :: rat\<rfloor> = 9007199254740991" by (simp add: floor_eq_iff)
  then have "round_half_even (9223372036854775807 / 1024) = 9007199254740992" by (simp add: round_half_even_def Let_def)
  moreover have "round_half_even 4503599627370496 = 4503599627370496" by (simp add: round_half_even_def Let_def)
  ultimately have "round_mag 9223372036854775808 = 2 ^ 63" "round_mag 9223372036854775807 = 2 ^ 63"
    by (simp_all add: round_mag_def ulp_exp_def e pow2_def)
  then show "f64_of_int i64_min = FFin True (2 ^ 63)" "f64_of_int i64_max = FFin False (2 ^ 63)"
    by (simp_all add: f64_of_int_def f64_of_rat_def f64_round_def i64_min_def i64_max_def pow2_def)
qed

text \<open>
  A successful conversion does not saturate: the product with the scale is finite, the result
  is that product rounded half away from zero, and it is an \<open>i64\<close>.
\<close>

lemma f64_to_fixed_exact:
  assumes "f64_to_fixed_checked value scale field = Inr n"
  shows "\<exists>s x. f64_mul value scale = FFin s x \<and> n = (if s then - \<lfloor>x + 1 / 2\<rfloor> else \<lfloor>x + 1 / 2\<rfloor>) \<and>
               i64_min \<le> n \<and> n \<le> i64_max"
proof (cases "f64_mul value scale")
  case (FFin s x)
  let ?m = "\<lfloor>x + 1 / 2\<rfloor>"
  have r: "f64_le (FFin True (2 ^ 63)) (FFin s (of_int ?m))" "f64_lt (FFin s (of_int ?m)) (FFin False (2 ^ 63))"
    and n: "n = f64_to_i64 (FFin s (of_int ?m))"
    using assms FFin by (auto simp: f64_to_fixed_checked_def Let_def f64_of_i64_bounds split: if_splits)
  let ?v = "if s then - ?m else ?m"
  have "rat_of_int (- (2 ^ 63)) \<le> rat_of_int ?v" "rat_of_int ?v < rat_of_int (2 ^ 63)"
    using r by (auto simp: f64_signed_def)
  then have "- (2 ^ 63) \<le> ?v" "?v < 2 ^ 63" by (simp_all only: of_int_le_iff of_int_less_iff)
  with FFin n show ?thesis by (auto simp: clamp_int_def i64_min_def i64_max_def)
qed (use assms in \<open>auto simp: f64_to_fixed_checked_def Let_def f64_of_i64_bounds split: if_splits\<close>)

lemma derived_id_valid:
  assumes "length (sha256 (scope @ [0] @ ticker @ [0] @ [case side of BrokerBuy \<Rightarrow> 66 | BrokerSell \<Rightarrow> 83] @ [0] @ le_bytes8 qty)) = 32"
    and "\<And>m b. b \<in> set (sha256 m) \<Longrightarrow> b < 256"
  shows "client_order_id_new (derive_id sha256 scope ticker side qty) = Inr (derive_id sha256 scope ticker side qty)"
proof -
  have len: "length (hex_bytes bs) = 2 * length bs" for bs by (induction bs) (simp_all add: hex_bytes_def)
  have "d < 16 \<Longrightarrow> safe_id_byte (hex_digit d)" for d by (auto simp: safe_id_byte_def hex_digit_def)
  then have "(\<forall>b \<in> set bs. b < 256) \<Longrightarrow> list_all safe_id_byte (hex_bytes bs)" for bs
    by (induction bs) (simp_all add: hex_bytes_def div_less_iff_less_mult)
  moreover have "\<forall>b \<in> set (take 16 (sha256 m)). b < 256" for m using assms(2) by (auto dest: in_set_takeD)
  ultimately have "list_all safe_id_byte (derive_id sha256 scope ticker side qty)" by (simp add: derive_id_def)
  moreover have "length (derive_id sha256 scope ticker side qty) = 32" unfolding derive_id_def len using assms(1) by simp
  ultimately show ?thesis by (auto simp: client_order_id_new_def)
qed

end
