(* ===== verification/Risk.thy ===== *)
theory Risk
  imports Broker Ordered_Map
begin

text \<open>
  The pre-trade risk engine (\<open>risk/src\<close>): the configuration and its validation, the check of a
  single order, which computes with the plain operators, and the check of a batch, which
  saturates. A check is its name and its status; the printed detail of a check, a formatted
  line for the operator, is left out. The hash maps of the sources are ordered maps: the only
  folds over them add saturated non-negative numbers, for which the order does not matter.
\<close>

section \<open>Configuration\<close>

record risk_config =
  rk_max_position_pct :: f64
  rk_max_order_value_cents :: int
  rk_max_batch_value_cents :: int
  rk_max_leverage :: f64
  rk_max_drawdown_pct :: f64
  rk_allow_short :: bool
  rk_max_short_pct :: f64
  rk_min_trade_usd :: f64
  rk_max_trade_usd :: f64

abbreviation f64_zero :: f64 where
  "f64_zero \<equiv> FFin False 0"

abbreviation f64_one :: f64 where
  "f64_one \<equiv> FFin False 1"

datatype risk_error = InvalidConfig string

definition config_validate :: "risk_config \<Rightarrow> string + unit" where
  "config_validate c =
     (if \<not> f64_is_finite (rk_max_position_pct c) \<or> f64_le (rk_max_position_pct c) f64_zero \<or>
         f64_lt f64_one (rk_max_position_pct c)
      then Inl ''max_position_pct must be in (0, 1]''
      else if \<not> f64_is_finite (rk_max_leverage c) \<or> f64_lt (rk_max_leverage c) f64_one
      then Inl ''max_leverage must be >= 1.0 and finite''
      else if \<not> f64_is_finite (rk_max_drawdown_pct c) \<or> f64_lt (rk_max_drawdown_pct c) f64_zero \<or>
              f64_lt f64_one (rk_max_drawdown_pct c)
      then Inl ''max_drawdown_pct must be in [0, 1]''
      else if \<not> f64_is_finite (rk_max_short_pct c) \<or> f64_lt (rk_max_short_pct c) f64_zero
      then Inl ''max_short_pct must be >= 0 and finite''
      else if \<not> f64_is_finite (rk_min_trade_usd c) \<or> f64_lt (rk_min_trade_usd c) f64_zero
      then Inl ''min_trade_usd must be >= 0 and finite''
      else if rk_max_order_value_cents c < 0 then Inl ''max_order_value_cents must be >= 0''
      else if rk_max_batch_value_cents c < 0 then Inl ''max_batch_value_cents must be >= 0''
      else if \<not> f64_is_finite (rk_max_trade_usd c) \<or> f64_lt (rk_max_trade_usd c) f64_zero
      then Inl ''max_trade_usd must be >= 0 and finite''
      else Inr ())"

definition default_config :: risk_config where
  "default_config =
     \<lparr>rk_max_position_pct = f64_of_rat (1 / 4), rk_max_order_value_cents = 10000000,
      rk_max_batch_value_cents = 100000000, rk_max_leverage = f64_of_rat (3 / 2),
      rk_max_drawdown_pct = f64_of_rat (1 / 5), rk_allow_short = True, rk_max_short_pct = f64_of_rat (3 / 10),
      rk_min_trade_usd = f64_of_int 100, rk_max_trade_usd = f64_of_int 100000\<rparr>"

definition engine_new :: "risk_config \<Rightarrow> risk_error + risk_config" where
  "engine_new c = (case config_validate c of Inl msg \<Rightarrow> Inl (InvalidConfig msg) | Inr _ \<Rightarrow> Inr c)"

section \<open>Reports\<close>

datatype risk_status = Pass | Warn | FailStatus

type_synonym risk_check = "string \<times> risk_status"

definition risk_status_display :: "risk_status \<Rightarrow> string" where
  "risk_status_display s = (case s of Pass \<Rightarrow> ''PASS'' | Warn \<Rightarrow> ''WARN'' | FailStatus \<Rightarrow> ''FAIL'')"

definition has_failures :: "risk_check list \<Rightarrow> bool" where
  "has_failures cs \<longleftrightarrow> list_ex (\<lambda>c. snd c = FailStatus) cs"

definition has_warnings :: "risk_check list \<Rightarrow> bool" where
  "has_warnings cs \<longleftrightarrow> list_ex (\<lambda>c. snd c = Warn) cs"

abbreviation fail_if :: "bool \<Rightarrow> risk_status" where
  "fail_if b \<equiv> if b then FailStatus else Pass"

section \<open>One order\<close>

text \<open>\<open>quantity as i64\<close> reinterprets the bits; the products and the sum wrap.\<close>

definition check_order :: "risk_config \<Rightarrow> symbol \<Rightarrow> broker_side \<Rightarrow> nat \<Rightarrow> int \<Rightarrow> account \<Rightarrow> (symbol \<times> int) list \<Rightarrow>
    risk_check list" where
  "check_order c y side quantity price_cents account current_positions =
     (let equity = ac_equity_cents account;
          q = i64_wrap (int quantity);
          notional = i64_wrap (q * price_cents);
          max_order = rk_max_order_value_cents c;
          order_status = fail_if (max_order > 0 \<and> notional > max_order);
          current_qty = (case find (\<lambda>e. fst e = y) current_positions of Some e \<Rightarrow> snd e | None \<Rightarrow> 0);
          delta = (case side of BrokerBuy \<Rightarrow> q | BrokerSell \<Rightarrow> i64_wrap (- q));
          post_qty = i64_wrap (current_qty + delta);
          post_value = i64_wrap (i64_wrap \<bar>post_qty\<bar> * price_cents);
          post_pct = (if equity > 0 then f64_div (f64_of_int post_value) (f64_of_int equity) else f64_zero);
          pos_status = fail_if (f64_lt (rk_max_position_pct c) post_pct);
          max_cents = f64_to_i64 (f64_mul (rk_max_trade_usd c) (f64_of_int 100));
          size_status = (if notional > max_cents then Warn else Pass)
      in [(''Max order value'', order_status), (''Max position'', pos_status), (''Order size'', size_status)] @
         (if side = BrokerSell \<and> post_qty < 0 \<and> \<not> rk_allow_short c then [(''Short selling'', FailStatus)] else []))"

section \<open>A batch\<close>

type_synonym batch_order = "symbol \<times> broker_side \<times> nat \<times> int"

definition ratio_or_inf :: "int \<Rightarrow> int \<Rightarrow> f64" where
  "ratio_or_inf numerator equity =
     (if equity > 0 then f64_div (f64_of_int numerator) (f64_of_int equity) else FInf False)"

text \<open>\<open>iter().copied().collect()\<close> into a hash map: later entries win.\<close>

definition collect_map :: "('k::linorder \<times> 'v) list \<Rightarrow> ('k, 'v) omap" where
  "collect_map es = fold (\<lambda>(k, v). om_insert k v) es []"

definition worst_weight :: "(symbol \<times> f64) list \<Rightarrow> f64" where
  "worst_weight ws = fold (\<lambda>(_, w) worst. if f64_lt worst (f64_abs w) then f64_abs w else worst) ws f64_zero"

text \<open>\<open>i64::try_from(qty).unwrap_or(i64::MAX)\<close>.\<close>

definition qty_i64 :: "nat \<Rightarrow> int" where
  "qty_i64 qty = min (int qty) i64_max"

definition order_delta :: "broker_side \<Rightarrow> nat \<Rightarrow> int" where
  "order_delta side qty = i64_sat ((case side of BrokerBuy \<Rightarrow> 1 | BrokerSell \<Rightarrow> - 1) * qty_i64 qty)"

definition post_quantities :: "batch_order list \<Rightarrow> (symbol \<times> int) list \<Rightarrow> (symbol, int) omap" where
  "post_quantities orders positions =
     fold (\<lambda>(y, side, qty, price) m.
             om_insert y (i64_wrap ((case om_get m y of Some q \<Rightarrow> q | None \<Rightarrow> 0) + order_delta side qty)) m)
       orders (collect_map positions)"

definition price_table :: "batch_order list \<Rightarrow> (symbol, int) omap" where
  "price_table orders = collect_map (map (\<lambda>(y, side, qty, price). (y, price)) orders)"

definition exposure :: "(int \<Rightarrow> bool) \<Rightarrow> (symbol, int) omap \<Rightarrow> (symbol, int) omap \<Rightarrow> int" where
  "exposure keep post_qty prices =
     fold (\<lambda>(y, qty) acc.
             i64_sat (acc + i64_sat (i64_sat \<bar>qty\<bar> * i64_sat \<bar>case om_get prices y of Some p \<Rightarrow> p | None \<Rightarrow> 0\<bar>)))
       (filter (\<lambda>(y, qty). keep qty) post_qty) 0"

definition order_notional :: "nat \<Rightarrow> int \<Rightarrow> int" where
  "order_notional qty price = i64_sat (qty_i64 qty * i64_sat \<bar>price\<bar>)"

definition batch_value :: "batch_order list \<Rightarrow> int" where
  "batch_value orders = fold (\<lambda>(y, side, qty, price) acc. i64_sat (acc + order_notional qty price)) orders 0"

definition check_batch :: "risk_config \<Rightarrow> batch_order list \<Rightarrow> account \<Rightarrow> (symbol \<times> int) list \<Rightarrow> (symbol \<times> f64) list \<Rightarrow>
    risk_check list" where
  "check_batch c orders account current_positions target_weights =
     (let equity = ac_equity_cents account;
          post_qty = post_quantities orders current_positions;
          prices = price_table orders;
          leverage = ratio_or_inf (exposure (\<lambda>_. True) post_qty prices) equity;
          short_pct = ratio_or_inf (exposure (\<lambda>q. q < 0) post_qty prices) equity;
          has_shorts = (list_ex (\<lambda>(y, side, qty, price). side = BrokerSell) orders \<and>
                        list_ex (\<lambda>q. q < 0) (om_values post_qty));
          max_order = rk_max_order_value_cents c;
          max_batch = rk_max_batch_value_cents c;
          max_cents = f64_to_i64 (f64_mul (rk_max_trade_usd c) (f64_of_int 100))
      in [(''Max position'', fail_if (f64_lt (rk_max_position_pct c) (worst_weight target_weights))),
          (''Leverage'', fail_if (f64_lt (rk_max_leverage c) leverage)),
          (if has_shorts \<and> \<not> rk_allow_short c then (''Short selling'', FailStatus)
           else (''Short exposure'', fail_if (f64_lt (rk_max_short_pct c) short_pct)))] @
         concat (map (\<lambda>(y, side, qty, price).
                        if max_order > 0 \<and> order_notional qty price > max_order then [(''Max order value'', FailStatus)] else [])
                   orders) @
         (if max_batch > 0 \<and> batch_value orders > max_batch then [(''Max batch value'', FailStatus)] else []) @
         concat (map (\<lambda>(y, side, qty, price).
                        if order_notional qty price > max_cents then [(''Max trade size'', Warn)] else [])
                   orders) @
         [(''Order count'', Pass), (''Weight allocation'', Pass)])"

section \<open>Saturation loses nothing\<close>

definition exact_notional :: "batch_order \<Rightarrow> int" where
  "exact_notional x = (case x of (y, side, qty, price) \<Rightarrow> int qty * \<bar>price\<bar>)"

definition exact_exposure :: "(int \<Rightarrow> bool) \<Rightarrow> (symbol, int) omap \<Rightarrow> (symbol, int) omap \<Rightarrow> int" where
  "exact_exposure keep post_qty prices =
     (\<Sum>(y, qty)\<leftarrow>filter (\<lambda>(y, qty). keep qty) post_qty. \<bar>qty\<bar> * \<bar>case om_get prices y of Some p \<Rightarrow> p | None \<Rightarrow> 0\<bar>)"

lemma exposure_exact: "exposure keep post prices = i64_sat (exact_exposure keep post prices)"
proof -
  let ?f = "\<lambda>(y, qty). \<bar>qty\<bar> * \<bar>case om_get prices y of Some p \<Rightarrow> p | None \<Rightarrow> 0\<bar>"
  have "exposure keep post prices = fold (\<lambda>v acc. i64_sat (acc + i64_sat v)) (map ?f (filter (\<lambda>(y, qty). keep qty) post)) 0"
    by (simp add: exposure_def i64_sat_mult fold_map comp_def case_prod_unfold)
  also have "\<dots> = i64_sat (0 + sum_list (map ?f (filter (\<lambda>(y, qty). keep qty) post)))"
    using i64_sat_fold [of 0 "map ?f (filter (\<lambda>(y, qty). keep qty) post)"] by (auto simp: i64_sat_id i64_max_def)
  finally show ?thesis by (simp add: exact_exposure_def)
qed

lemma order_notional_exact: "order_notional qty price = i64_sat (int qty * \<bar>price\<bar>)"
  using i64_sat_mult [of "int qty" "\<bar>price\<bar>"] by (simp add: order_notional_def qty_i64_def i64_sat_nonneg)

lemma exact_notional_nonneg [simp]: "0 \<le> exact_notional x"
  by (simp add: exact_notional_def split: prod.split)

lemma batch_value_exact: "batch_value orders = i64_sat (\<Sum>x\<leftarrow>orders. exact_notional x)"
proof -
  have "batch_value orders = fold (\<lambda>v acc. i64_sat (acc + i64_sat v)) (map exact_notional orders) 0"
    by (simp add: batch_value_def order_notional_exact exact_notional_def fold_map comp_def case_prod_unfold)
  also have "\<dots> = i64_sat (0 + sum_list (map exact_notional orders))"
    using i64_sat_fold [of 0 "map exact_notional orders"] by (simp add: i64_sat_id i64_max_def)
  finally show ?thesis by simp
qed

lemma worst_weight_exceeds:
  assumes "\<not> f64_lt limit acc" and "acc \<noteq> FNaN" and "limit \<noteq> FNaN"
  shows "f64_lt limit (fold (\<lambda>(_, w) worst. if f64_lt worst (f64_abs w) then f64_abs w else worst) ws acc) \<longleftrightarrow>
           (\<exists>(y, w) \<in> set ws. f64_lt limit (f64_abs w))"
  using assms
proof (induction ws arbitrary: acc)
  case (Cons e ws)
  obtain y w where e: "e = (y, w)" by (cases e)
  let ?f = "\<lambda>(_, w) worst. if f64_lt worst (f64_abs w) then f64_abs w else worst"
  have grow: "f64_lt limit a \<Longrightarrow> f64_lt limit (fold ?f ws a)" for a
  proof (induction ws arbitrary: a)
    case (Cons e ws)
    then have "f64_lt limit (?f e a)" using f64_lt_trans [of limit a] by (cases e) simp
    with Cons.IH show ?case by simp
  qed simp
  show ?case
  proof (cases "f64_lt acc (f64_abs w)")
    case True
    then have "f64_abs w \<noteq> FNaN" using f64_lt_not_nan by blast
    then show ?thesis using Cons True e grow [of "f64_abs w"] by (cases "f64_lt limit (f64_abs w)") auto
  next
    case False
    have "\<not> f64_lt limit (f64_abs w)"
    proof
      assume *: "f64_lt limit (f64_abs w)"
      then have "f64_le (f64_abs w) acc" using False Cons.prems(2) f64_lt_not_nan f64_not_lt by blast
      with * Cons.prems(1) show False using f64_lt_le_trans by blast
    qed
    with Cons False e show ?thesis by auto
  qed
qed simp

section \<open>What the batch check decides\<close>

text \<open>
  The limits of a configuration, stated on the orders and the positions themselves with
  unbounded integers and without the tables of the code: the position held before (a later
  entry for the same symbol replaces an earlier one), the position after all buys and sells,
  the price of the last order for a symbol, and the exposure of the positions after the batch.
  Only the exposures are cut off, at the largest \<open>i64\<close>, before they are divided by the equity.
\<close>

definition held_before :: "(symbol \<times> int) list \<Rightarrow> symbol \<Rightarrow> int" where
  "held_before positions y = (case map_of (rev positions) y of Some q \<Rightarrow> q | None \<Rightarrow> 0)"

fun signed_quantity :: "batch_order \<Rightarrow> int" where
  "signed_quantity (y, BrokerBuy, qty, price) = int qty"
| "signed_quantity (y, BrokerSell, qty, price) = - int qty"

definition net_trade :: "batch_order list \<Rightarrow> symbol \<Rightarrow> int" where
  "net_trade orders y = (\<Sum>x\<leftarrow>orders. if fst x = y then signed_quantity x else 0)"

definition final_position :: "batch_order list \<Rightarrow> (symbol \<times> int) list \<Rightarrow> symbol \<Rightarrow> int" where
  "final_position orders positions y = held_before positions y + net_trade orders y"

definition last_price :: "batch_order list \<Rightarrow> symbol \<Rightarrow> int" where
  "last_price orders y =
     (case map_of (rev (map (\<lambda>(y, side, qty, price). (y, price)) orders)) y of Some p \<Rightarrow> p | None \<Rightarrow> 0)"

definition batch_symbols :: "batch_order list \<Rightarrow> (symbol \<times> int) list \<Rightarrow> symbol list" where
  "batch_symbols orders positions = remdups (map fst positions @ map fst orders)"

definition final_exposure :: "(int \<Rightarrow> bool) \<Rightarrow> batch_order list \<Rightarrow> (symbol \<times> int) list \<Rightarrow> int" where
  "final_exposure keep orders positions =
     (\<Sum>y\<leftarrow>batch_symbols orders positions.
        if keep (final_position orders positions y)
        then \<bar>final_position orders positions y\<bar> * \<bar>last_price orders y\<bar> else 0)"

definition over_limit :: "f64 \<Rightarrow> int \<Rightarrow> int \<Rightarrow> bool" where
  "over_limit limit value equity \<longleftrightarrow>
     equity \<le> 0 \<or> f64_lt limit (f64_div (f64_of_int (min value i64_max)) (f64_of_int equity))"

definition shorts_appear :: "batch_order list \<Rightarrow> (symbol \<times> int) list \<Rightarrow> bool" where
  "shorts_appear orders positions \<longleftrightarrow>
     (\<exists>(y, side, qty, price) \<in> set orders. side = BrokerSell) \<and>
     (\<exists>y \<in> set (batch_symbols orders positions). final_position orders positions y < 0)"

definition breaks_limits :: "risk_config \<Rightarrow> batch_order list \<Rightarrow> int \<Rightarrow> (symbol \<times> int) list \<Rightarrow> (symbol \<times> f64) list \<Rightarrow> bool" where
  "breaks_limits c orders equity positions weights \<longleftrightarrow>
     (\<exists>(y, w) \<in> set weights. f64_lt (rk_max_position_pct c) (f64_abs w)) \<or>
     over_limit (rk_max_leverage c) (final_exposure (\<lambda>_. True) orders positions) equity \<or>
     (shorts_appear orders positions \<and> \<not> rk_allow_short c) \<or>
     over_limit (rk_max_short_pct c) (final_exposure (\<lambda>q. q < 0) orders positions) equity \<or>
     0 < rk_max_order_value_cents c \<and> (\<exists>x \<in> set orders. rk_max_order_value_cents c < exact_notional x) \<or>
     0 < rk_max_batch_value_cents c \<and> rk_max_batch_value_cents c < (\<Sum>x\<leftarrow>orders. exact_notional x)"

text \<open>The quantities of the orders and the positions after the batch fit \<open>i64\<close>.\<close>

definition batch_fits :: "batch_order list \<Rightarrow> (symbol \<times> int) list \<Rightarrow> bool" where
  "batch_fits orders positions \<longleftrightarrow>
     (\<forall>(y, side, qty, price) \<in> set orders. int qty \<le> i64_max) \<and>
     (\<forall>y \<in> set (batch_symbols orders positions). i64_min \<le> final_position orders positions y \<and>
        final_position orders positions y \<le> i64_max)"

section \<open>The tables of the code are those of the specification\<close>

lemma om_get_collect_from:
  "om_get (fold (\<lambda>(k, v). om_insert k v) es m) = map_of (rev es @ m)"
  by (induction es arbitrary: m) (auto simp: kv_simps)

lemma om_get_collect_map: "om_get (collect_map es) = map_of (rev es)"
  by (simp add: collect_map_def om_get_collect_from)

lemma om_ok_collect_from: "om_ok m \<Longrightarrow> om_ok (fold (\<lambda>(k, v). om_insert k v) es m)"
  by (induction es arbitrary: m) (auto simp: om_ok_insert)

lemma om_keys_collect_map: "set (om_keys (collect_map es)) = fst ` set es"
proof -
  have "set (om_keys (fold (\<lambda>(k, v). om_insert k v) es m)) = fst ` set es \<union> set (om_keys m)" for m :: "('a, 'b) omap"
    by (induction es arbitrary: m) (auto simp: om_keys_insert)
  then show ?thesis by (simp add: collect_map_def om_keys_def)
qed

lemma i64_wrap_add_wrap: "i64_wrap (i64_wrap a + b) = i64_wrap (a + b)"
proof -
  have "(i64_wrap a + b + 2 ^ 63) mod 2 ^ 64 = ((a + 2 ^ 63) mod 2 ^ 64 + b) mod 2 ^ 64"
    by (simp add: i64_wrap_def)
  also have "\<dots> = (a + 2 ^ 63 + b) mod 2 ^ 64" by (rule mod_add_left_eq)
  also have "a + 2 ^ 63 + b = a + b + 2 ^ 63" by simp
  finally show ?thesis by (simp add: i64_wrap_def)
qed

lemma order_delta_signed:
  "int qty \<le> i64_max \<Longrightarrow> order_delta side qty = signed_quantity (y, side, qty, price)"
  by (cases side) (auto simp: order_delta_def qty_i64_def i64_sat_id)

definition qty_step :: "batch_order \<Rightarrow> (symbol, int) omap \<Rightarrow> (symbol, int) omap" where
  "qty_step = (\<lambda>(y, side, qty, price) m.
     om_insert y (i64_wrap ((case om_get m y of Some q \<Rightarrow> q | None \<Rightarrow> 0) + order_delta side qty)) m)"

definition qty_of :: "(symbol, int) omap \<Rightarrow> symbol \<Rightarrow> int" where
  "qty_of m y = (case om_get m y of Some q \<Rightarrow> q | None \<Rightarrow> 0)"

lemma post_quantities_steps: "post_quantities orders positions = fold qty_step orders (collect_map positions)"
  by (simp add: post_quantities_def qty_step_def)

lemma qty_step_value:
  "int qty \<le> i64_max \<Longrightarrow> qty_of (qty_step (x, side, qty, price) m) y =
     (if x = y then i64_wrap (qty_of m y + signed_quantity (x, side, qty, price)) else qty_of m y)"
  by (simp add: qty_step_def qty_of_def kv_simps order_delta_signed [where y = x and price = price])

lemma net_trade_Cons [simp]:
  "net_trade [] y = 0"
  "net_trade (x # orders) y = (if fst x = y then signed_quantity x else 0) + net_trade orders y"
  by (simp_all add: net_trade_def)

lemma net_trade_absent: "y \<notin> fst ` set orders \<Longrightarrow> net_trade orders y = 0"
  by (induction orders) auto

lemma qty_steps_value:
  "\<forall>(y, side, qty, price) \<in> set orders. int qty \<le> i64_max \<Longrightarrow>
   qty_of (fold qty_step orders m) y =
     (if y \<in> fst ` set orders then i64_wrap (qty_of m y + net_trade orders y) else qty_of m y)"
proof (induction orders arbitrary: m)
  case (Cons x orders)
  obtain z side qty price where x: "x = (z, side, qty, price)" by (cases x) auto
  from Cons.prems have q: "int qty \<le> i64_max" "\<forall>(y, side, qty, price) \<in> set orders. int qty \<le> i64_max"
    by (auto simp: x)
  from Cons.IH [OF q(2), of "qty_step x m"] show ?case
    using net_trade_absent [of y orders]
    by (auto simp: x qty_step_value [OF q(1)] i64_wrap_add_wrap add.assoc)
qed simp

lemma om_ok_qty_steps: "om_ok m \<Longrightarrow> om_ok (fold qty_step orders m)"
  by (induction orders arbitrary: m) (auto simp: qty_step_def om_ok_insert)

lemma om_keys_qty_steps: "set (om_keys (fold qty_step orders m)) = set (om_keys m) \<union> fst ` set orders"
  by (induction orders arbitrary: m) (auto simp: qty_step_def om_keys_insert)

text \<open>The table of quantities after the batch holds the final position of every symbol.\<close>

lemma post_quantities_exact:
  assumes "batch_fits orders positions"
  shows "set (post_quantities orders positions) =
           (\<lambda>y. (y, final_position orders positions y)) ` set (batch_symbols orders positions)"
    and "om_ok (post_quantities orders positions)"
proof -
  let ?m = "post_quantities orders positions"
  show ok: "om_ok ?m"
    by (simp add: post_quantities_steps om_ok_qty_steps om_ok_collect_from collect_map_def)
  have keys: "set (om_keys ?m) = set (batch_symbols orders positions)"
    by (simp add: post_quantities_steps om_keys_qty_steps om_keys_collect_map batch_symbols_def)
  have val: "qty_of ?m y = final_position orders positions y" if "y \<in> set (batch_symbols orders positions)" for y
  proof -
    have "qty_of (collect_map positions) y = held_before positions y"
      by (simp add: qty_of_def held_before_def om_get_collect_map)
    moreover have "i64_min \<le> final_position orders positions y" "final_position orders positions y \<le> i64_max"
      using assms that by (auto simp: batch_fits_def)
    moreover have "\<forall>(y, side, qty, price) \<in> set orders. int qty \<le> i64_max" using assms by (simp add: batch_fits_def)
    ultimately show ?thesis
      using net_trade_absent [of y orders]
      by (simp add: post_quantities_steps qty_steps_value final_position_def i64_wrap_id)
  qed
  show "set ?m = (\<lambda>y. (y, final_position orders positions y)) ` set (batch_symbols orders positions)"
  proof (intro set_eqI iffI)
    fix e assume e: "e \<in> set ?m"
    then have "fst e \<in> set (batch_symbols orders positions)" by (simp add: keys [symmetric] om_keys_def)
    moreover from e have "om_get ?m (fst e) = Some (snd e)" using om_get_in_set [OF ok, of "fst e" "snd e"] by simp
    ultimately show "e \<in> (\<lambda>y. (y, final_position orders positions y)) ` set (batch_symbols orders positions)"
      using val [of "fst e"] by (intro image_eqI [of _ _ "fst e"]) (auto simp: qty_of_def prod_eq_iff)
  next
    fix e assume "e \<in> (\<lambda>y. (y, final_position orders positions y)) ` set (batch_symbols orders positions)"
    then obtain y where y: "y \<in> set (batch_symbols orders positions)" "e = (y, final_position orders positions y)" by blast
    with keys obtain v where "om_get ?m y = Some v" using om_get_None_iff [of ?m y] by auto
    with val [OF y(1)] y(2) om_get_in_set [OF ok, of y v] show "e \<in> set ?m" by (simp add: qty_of_def)
  qed
qed

lemma last_price_table: "(case om_get (price_table orders) y of Some p \<Rightarrow> p | None \<Rightarrow> 0) = last_price orders y"
  by (simp add: price_table_def om_get_collect_map last_price_def)

lemma exposure_final:
  assumes "batch_fits orders positions"
  shows "exact_exposure keep (post_quantities orders positions) (price_table orders) =
           final_exposure keep orders positions"
proof -
  let ?m = "post_quantities orders positions" and ?y = "batch_symbols orders positions"
  let ?F = "final_position orders positions"
  let ?g = "\<lambda>y q. \<bar>q\<bar> * \<bar>last_price orders y\<bar>"
  have inj: "inj_on (\<lambda>y. (y, ?F y)) (set ?y)" by (auto simp: inj_on_def)
  have "distinct ?m" using om_ok_distinct [OF post_quantities_exact(2) [OF assms]] distinct_map by blast
  have "exact_exposure keep ?m (price_table orders) = (\<Sum>e\<leftarrow>?m. if keep (snd e) then ?g (fst e) (snd e) else 0)"
    by (simp add: exact_exposure_def last_price_table sum_list_map_filter' case_prod_unfold)
  also have "\<dots> = (\<Sum>e \<in> set ?m. if keep (snd e) then ?g (fst e) (snd e) else 0)"
    using \<open>distinct ?m\<close> by (simp add: sum_list_distinct_conv_sum_set)
  also have "\<dots> = (\<Sum>y \<in> set ?y. if keep (?F y) then ?g y (?F y) else 0)"
    by (simp add: post_quantities_exact(1) [OF assms] sum.reindex [OF inj] cong: if_cong)
  also have "\<dots> = final_exposure keep orders positions"
    unfolding final_exposure_def by (rule sum_list_distinct_conv_sum_set [symmetric]) (simp add: batch_symbols_def)
  finally show ?thesis .
qed

lemma final_exposure_nonneg: "0 \<le> final_exposure keep orders positions"
  unfolding final_exposure_def by (rule sum_list_nonneg) auto

lemma over_limit_ratio:
  assumes "f64_is_finite limit" and "0 \<le> value"
  shows "f64_lt limit (ratio_or_inf (i64_sat value) equity) \<longleftrightarrow> over_limit limit value equity"
  using assms by (cases limit) (auto simp: ratio_or_inf_def over_limit_def i64_sat_nonneg)

lemma shorts_appear_table:
  assumes "batch_fits orders positions"
  shows "(list_ex (\<lambda>(y, side, qty, price). side = BrokerSell) orders \<and>
      list_ex (\<lambda>q. q < 0) (om_values (post_quantities orders positions))) \<longleftrightarrow> shorts_appear orders positions"
  by (auto simp: shorts_appear_def list_ex_iff om_values_def post_quantities_exact(1) [OF assms])

lemma config_ratio_limits:
  "config_validate c = Inr () \<Longrightarrow> f64_is_finite (rk_max_leverage c) \<and> f64_is_finite (rk_max_short_pct c)"
  by (auto simp: config_validate_def split: if_splits)

lemma config_position_limit:
  "config_validate c = Inr () \<Longrightarrow> rk_max_position_pct c \<noteq> FNaN \<and> \<not> f64_lt (rk_max_position_pct c) f64_zero"
  by (cases "rk_max_position_pct c") (auto simp: config_validate_def split: if_splits)

lemma has_failures_simps [simp]:
  "\<not> has_failures []" "has_failures (x # xs) \<longleftrightarrow> snd x = FailStatus \<or> has_failures xs"
  "has_failures (xs @ ys) \<longleftrightarrow> has_failures xs \<or> has_failures ys"
  "has_failures (concat xss) \<longleftrightarrow> (\<exists>xs \<in> set xss. has_failures xs)"
  by (auto simp: has_failures_def list_ex_iff)

text \<open>C14. The batch check is exact: under a validated configuration, with order quantities and
  resulting positions that fit \<open>i64\<close> and value limits below the largest \<open>i64\<close>, it reports a
  failure if and only if a limit is broken. The limits are stated on the orders and the
  positions with unbounded integers: the position of a symbol after all its buys and sells, its
  exposure at the price of its last order, the order values and the batch value, although the
  code uses tables, wrapping additions and saturating 64-bit products. An exposure above the
  largest \<open>i64\<close> counts as that number, and every exposure is over its limit when the equity is
  not positive.\<close>

theorem batch_fails_iff:
  assumes "config_validate c = Inr ()" and "rk_max_order_value_cents c < i64_max" and "rk_max_batch_value_cents c < i64_max"
    and fits: "batch_fits orders positions"
  shows "has_failures (check_batch c orders account positions weights) \<longleftrightarrow>
           breaks_limits c orders (ac_equity_cents account) positions weights"
proof -
  have weights: "f64_lt (rk_max_position_pct c) (worst_weight weights) \<longleftrightarrow>
      (\<exists>(y, w) \<in> set weights. f64_lt (rk_max_position_pct c) (f64_abs w))"
    unfolding worst_weight_def by (rule worst_weight_exceeds) (use config_position_limit [OF assms(1)] in auto)
  have order: "(\<exists>cs \<in> set (map (\<lambda>(y, side, qty, price).
        if 0 < rk_max_order_value_cents c \<and> rk_max_order_value_cents c < order_notional qty price
        then [(''Max order value'', FailStatus)] else []) orders). has_failures cs) \<longleftrightarrow>
      0 < rk_max_order_value_cents c \<and> (\<exists>x \<in> set orders. rk_max_order_value_cents c < exact_notional x)"
    using assms(2) by (force simp: order_notional_exact exact_notional_def i64_sat_nonneg split: if_splits)
  have size: "\<not> (\<exists>cs \<in> set (map (\<lambda>(y, side, qty, price).
        if k < order_notional qty price then [(''Max trade size'', Warn)] else []) orders). has_failures cs)" for k
    by (auto split: if_splits)
  have total: "0 \<le> (\<Sum>x\<leftarrow>orders. exact_notional x)" by (rule sum_list_nonneg) auto
  have batch: "0 < rk_max_batch_value_cents c \<and> rk_max_batch_value_cents c < batch_value orders \<longleftrightarrow>
      0 < rk_max_batch_value_cents c \<and> rk_max_batch_value_cents c < (\<Sum>x\<leftarrow>orders. exact_notional x)"
    using assms(3) total by (auto simp: batch_value_exact i64_sat_nonneg)
  have short: "snd (if b then (''Short selling'', FailStatus) else (''Short exposure'', fail_if u)) = FailStatus \<longleftrightarrow> b \<or> u" for b u
    by simp
  note over = over_limit_ratio [OF _ final_exposure_nonneg] and limits = config_ratio_limits [OF assms(1)]
  show ?thesis
    unfolding check_batch_def breaks_limits_def Let_def shorts_appear_table [OF fits] has_failures_simps
      exposure_exact exposure_final [OF fits] over [OF conjunct1 [OF limits]] over [OF conjunct2 [OF limits]]
      snd_conv weights order short
    by (simp add: batch size [unfolded bex_simps]) blast
qed

definition demo_config :: risk_config where
  "demo_config =
     \<lparr>rk_max_position_pct = FFin False (1 / 4), rk_max_order_value_cents = 5000000,
      rk_max_batch_value_cents = 20000000, rk_max_leverage = FFin False (3 / 2), rk_max_drawdown_pct = FFin False (1 / 2),
      rk_allow_short = False, rk_max_short_pct = FFin False (1 / 4), rk_min_trade_usd = FFin False 100,
      rk_max_trade_usd = FFin False 100000\<rparr>"

definition demo_account :: account where
  "demo_account = \<lparr>ac_equity_cents = 10000000, ac_buying_power_cents = 10000000, ac_cash_cents = 10000000,
                   ac_gross_position_value_cents = 0\<rparr>"

definition demo_symbol :: symbol where
  "demo_symbol = from_str_truncated [65, 65, 80, 76]"

theorem batch_fails_iff_witness:
  "\<not> has_failures (check_batch demo_config [(demo_symbol, BrokerBuy, 100, 15000)] demo_account [] [(demo_symbol, FFin False (1 / 8))]) \<and>
   has_failures (check_batch demo_config [(demo_symbol, BrokerBuy, 4611686018427387904, 4)] demo_account [] []) \<and>
   has_failures (check_batch demo_config [(demo_symbol, BrokerBuy, 100, 15000), (demo_symbol, BrokerSell, 150, 15000)]
     demo_account [(demo_symbol, 40)] [])"
proof -
  have c: "config_validate demo_config = Inr ()" "rk_max_order_value_cents demo_config < i64_max"
    "rk_max_batch_value_cents demo_config < i64_max" by code_simp+
  have f: "batch_fits [(demo_symbol, BrokerBuy, 100, 15000)] []"
    "batch_fits [(demo_symbol, BrokerBuy, 4611686018427387904, 4)] []"
    "batch_fits [(demo_symbol, BrokerBuy, 100, 15000), (demo_symbol, BrokerSell, 150, 15000)] [(demo_symbol, 40)]"
    by (simp_all add: batch_fits_def batch_symbols_def final_position_def held_before_def i64_min_def i64_max_def)
  have "\<not> breaks_limits demo_config [(demo_symbol, BrokerBuy, 100, 15000)] (ac_equity_cents demo_account) [] [(demo_symbol, FFin False (1 / 8))]"
    by code_simp
  moreover have "breaks_limits demo_config [(demo_symbol, BrokerBuy, 4611686018427387904, 4)] (ac_equity_cents demo_account) [] []"
    by (simp add: breaks_limits_def exact_notional_def demo_config_def)
  moreover have "shorts_appear [(demo_symbol, BrokerBuy, 100, 15000), (demo_symbol, BrokerSell, 150, 15000)] [(demo_symbol, 40)]"
    by (simp add: shorts_appear_def batch_symbols_def final_position_def held_before_def)
  then have "breaks_limits demo_config [(demo_symbol, BrokerBuy, 100, 15000), (demo_symbol, BrokerSell, 150, 15000)]
      (ac_equity_cents demo_account) [(demo_symbol, 40)] []"
    by (simp add: breaks_limits_def demo_config_def)
  ultimately show ?thesis using batch_fails_iff [OF c f(1)] batch_fails_iff [OF c f(2)] batch_fails_iff [OF c f(3)] by blast
qed

text \<open>The check of a single order multiplies with wrap-around: an order for 2 to the 62 shares
  at four cents is worth 2 to the 64 cents, which wraps to zero, so the order passes every
  check, while the batch check refuses it.\<close>

lemma order_check_overflows:
  "\<not> has_failures (check_order demo_config demo_symbol BrokerBuy 4611686018427387904 4 demo_account []) \<and>
   \<not> has_warnings (check_order demo_config demo_symbol BrokerBuy 4611686018427387904 4 demo_account []) \<and>
   rk_max_order_value_cents demo_config < 4611686018427387904 * 4 \<and>
   has_failures (check_batch demo_config [(demo_symbol, BrokerBuy, 4611686018427387904, 4)] demo_account [] [])"
proof -
  let ?cs = "check_order demo_config demo_symbol BrokerBuy 4611686018427387904 4 demo_account []"
  have "?cs = [(''Max order value'', Pass), (''Max position'', Pass), (''Order size'', Pass)]" by code_simp
  moreover have "order_notional 4611686018427387904 4 = i64_max" by code_simp
  then have "has_failures (check_batch demo_config [(demo_symbol, BrokerBuy, 4611686018427387904, 4)] demo_account [] [])"
    by (simp add: check_batch_def Let_def demo_config_def i64_max_def)
  ultimately show ?thesis by (simp add: has_warnings_def demo_config_def)
qed

end
