(* ===== verification/Rebalance.thy ===== *)
theory Rebalance
  imports Risk
begin

text \<open>
  The decision logic of the rebalancer (\<open>rebalancer/src\<close>): validation of a target portfolio
  (\<open>target.rs\<close>), the orders that lead from the current positions to the target weights
  (\<open>diff.rs\<close>) and their risk check (\<open>risk.rs\<close>). Integers wrap as in a release build.
\<close>

section \<open>Targets\<close>

datatype target_error =
    EmptyTargets
  | DuplicateSymbol "nat list"
  | EmptySymbol
  | SymbolTooLong "nat list"
  | WeightTooLarge "nat list" f64
  | ZeroWeight "nat list"
  | LongSum f64

type_synonym target_position = "nat list \<times> f64"

fun first_duplicate :: "nat list list \<Rightarrow> nat list list \<Rightarrow> nat list option" where
  "first_duplicate seen [] = None"
| "first_duplicate seen (y # ys) = (if y \<in> set seen then Some y else first_duplicate (y # seen) ys)"

fun check_symbols :: "target_position list \<Rightarrow> target_error option" where
  "check_symbols [] = None"
| "check_symbols ((y, w) # ts) =
     (if y = [] then Some EmptySymbol else if length y > 8 then Some (SymbolTooLong y) else check_symbols ts)"

fun check_weights :: "target_position list \<Rightarrow> target_error option" where
  "check_weights [] = None"
| "check_weights ((y, w) # ts) =
     (if f64_lt f64_one (f64_abs w) then Some (WeightTooLarge y w)
      else if f64_eq w f64_zero then Some (ZeroWeight y) else check_weights ts)"

definition target_validate :: "target_position list \<Rightarrow> target_error + unit" where
  "target_validate ts =
     (if ts = [] then Inl EmptyTargets
      else case first_duplicate [] (map fst ts) of
             Some y \<Rightarrow> Inl (DuplicateSymbol y)
           | None \<Rightarrow>
               (case check_symbols ts of
                  Some e \<Rightarrow> Inl e
                | None \<Rightarrow>
                    (case check_weights ts of
                       Some e \<Rightarrow> Inl e
                     | None \<Rightarrow>
                         let long_sum = foldl f64_add f64_zero (filter (f64_lt f64_zero) (map snd ts))
                         in if f64_lt f64_one long_sum then Inl (LongSum long_sum) else Inr ())))"

text \<open>\<open>as_target_pairs\<close> panics on a symbol that is too long, through \<open>Symbol::new\<close>.\<close>

fun as_target_pairs :: "target_position list \<Rightarrow> (symbol \<times> f64) list outcome" where
  "as_target_pairs [] = Inr []"
| "as_target_pairs ((y, w) # ts) =
     (case symbol_new y of
        Inl e \<Rightarrow> Inl e
      | Inr s \<Rightarrow> (case as_target_pairs ts of Inl e \<Rightarrow> Inl e | Inr r \<Rightarrow> Inr ((s, w) # r)))"

section \<open>Orders\<close>

datatype action = ActBuy | ActSell | ActSellShort | ActBuyCover

record rebalance_order =
  ro_symbol :: symbol
  ro_action :: action
  ro_shares :: int
  ro_limit_price_cents :: int
  ro_notional_cents :: int
  ro_description :: string

record current_position =
  cp_symbol :: symbol
  cp_quantity :: int
  cp_avg_cost_cents :: int

definition action_display :: "action \<Rightarrow> string" where
  "action_display a =
     (case a of ActBuy \<Rightarrow> ''BUY'' | ActSell \<Rightarrow> ''SELL'' | ActSellShort \<Rightarrow> ''SELL SHORT'' | ActBuyCover \<Rightarrow> ''BUY COVER'')"

definition compute_limit_price :: "int \<Rightarrow> bool \<Rightarrow> nat \<Rightarrow> int" where
  "compute_limit_price mid_cents is_sell offset_bps =
     (let offset = trunc_div (i64_wrap (mid_cents * int offset_bps)) 10000
      in if is_sell then i64_wrap (mid_cents - offset) else i64_wrap (mid_cents + offset))"

definition classify_trade :: "int \<Rightarrow> int \<Rightarrow> action \<times> string" where
  "classify_trade c d =
     (if c = 0 \<and> d > 0 then (ActBuy, ''open'')
      else if c = 0 \<and> d < 0 then (ActSellShort, ''open short'')
      else if c > 0 \<and> d > 0 then (ActBuy, ''increase'')
      else if c > 0 \<and> d < 0 \<and> i64_wrap \<bar>d\<bar> \<le> c then (ActSell, ''decrease'')
      else if c > 0 \<and> d < 0 \<and> i64_wrap \<bar>d\<bar> > c then (ActSell, ''flip to short'')
      else if c < 0 \<and> d > 0 \<and> d \<le> i64_wrap \<bar>c\<bar> then (ActBuyCover, ''decrease short'')
      else if c < 0 \<and> d > 0 \<and> d > i64_wrap \<bar>c\<bar> then (ActBuyCover, ''flip to long'')
      else if c < 0 \<and> d < 0 then (ActSellShort, ''increase short'')
      else (ActBuy, ''rebalance''))"

text \<open>The body of the first loop of \<open>compute_diff\<close>: a position without a target is closed.\<close>

definition close_order :: "(symbol, f64) omap \<Rightarrow> (symbol, int) omap \<Rightarrow> nat \<Rightarrow> current_position \<Rightarrow> rebalance_order option" where
  "close_order target_map price_map bps pos =
     (let q = cp_quantity pos
      in if q = 0 then None
         else if om_get target_map (cp_symbol pos) \<noteq> None then None
         else case om_get price_map (cp_symbol pos) of
                None \<Rightarrow> None
              | Some price \<Rightarrow>
                  let shares = i64_wrap \<bar>q\<bar>;
                      (act, desc) = (if q > 0 then (ActSell, ''close long'') else (ActBuyCover, ''close short''))
                  in Some \<lparr>ro_symbol = cp_symbol pos, ro_action = act, ro_shares = shares,
                           ro_limit_price_cents = compute_limit_price price (q < 0) bps,
                           ro_notional_cents = i64_wrap (shares * price), ro_description = desc\<rparr>)"

text \<open>The body of the second loop: a target is approached by whole shares.\<close>

definition target_value :: "int \<Rightarrow> f64 \<Rightarrow> int" where
  "target_value equity w = f64_to_i64 (f64_mul (f64_of_int equity) w)"

definition target_order :: "int \<Rightarrow> (symbol, int) omap \<Rightarrow> (symbol, int) omap \<Rightarrow> nat \<Rightarrow> int \<Rightarrow> symbol \<times> f64 \<Rightarrow>
    rebalance_order option" where
  "target_order equity current_map price_map bps min_trade target =
     (let (y, w) = target
      in case om_get price_map y of
           None \<Rightarrow> None
         | Some price \<Rightarrow>
             if \<not> price > 0 then None
             else let current_qty = (case om_get current_map y of Some q \<Rightarrow> q | None \<Rightarrow> 0);
                      current_value = i64_wrap (current_qty * price);
                      diff_value = i64_wrap (target_value equity w - current_value);
                      diff_qty = trunc_div diff_value price
                  in if diff_qty = 0 then None
                     else let notional = i64_wrap (i64_wrap \<bar>diff_qty\<bar> * price)
                          in if notional < min_trade then None
                             else let is_buy = diff_qty > 0; (act, desc) = classify_trade current_qty diff_qty
                                  in Some \<lparr>ro_symbol = y, ro_action = act, ro_shares = i64_wrap \<bar>diff_qty\<bar>,
                                           ro_limit_price_cents = compute_limit_price price (\<not> is_buy) bps,
                                           ro_notional_cents = notional, ro_description = desc\<rparr>)"

definition compute_diff :: "int \<Rightarrow> current_position list \<Rightarrow> (symbol \<times> f64) list \<Rightarrow> (symbol \<times> int) list \<Rightarrow> nat \<Rightarrow> int \<Rightarrow>
    rebalance_order list" where
  "compute_diff equity positions targets prices bps min_trade =
     (let price_map = collect_map prices; target_map = collect_map targets;
          current_map = collect_map (map (\<lambda>p. (cp_symbol p, cp_quantity p)) positions)
      in List.map_filter (close_order target_map price_map bps) positions @
         List.map_filter (target_order equity current_map price_map bps min_trade) targets)"

text \<open>\<open>f64::max\<close> ignores a NaN operand.\<close>

definition f64_max :: "f64 \<Rightarrow> f64 \<Rightarrow> f64" where
  "f64_max a b = (if a = FNaN then b else if b = FNaN then a else if f64_lt a b then b else a)"

definition estimate_cost :: "rebalance_order list \<Rightarrow> f64 \<Rightarrow> f64 \<Rightarrow> nat \<Rightarrow> int \<times> int" where
  "estimate_cost orders per_share minimum slippage_bps =
     (let (commission, slippage) =
            foldl (\<lambda>(c, s) x.
                     (f64_add c (f64_max (f64_mul (f64_of_int (ro_shares x)) per_share) minimum),
                      f64_add s (f64_div (f64_mul (f64_of_int (ro_notional_cents x)) (f64_of_int (int slippage_bps)))
                                   (f64_of_int 10000))))
              (f64_zero, f64_zero) orders
      in (f64_to_i64 (f64_mul commission (f64_of_int 100)), f64_to_i64 slippage))"

definition total_cents :: "int \<times> int \<Rightarrow> int" where
  "total_cents e = i64_wrap (fst e + snd e)"

section \<open>Risk check of a rebalance\<close>

record rebalancer_risk_config =
  rr_max_position_pct :: f64
  rr_max_leverage :: f64
  rr_min_trade_usd :: f64
  rr_max_trade_usd :: f64
  rr_allow_short :: bool
  rr_max_short_pct :: f64

definition action_to_side :: "action \<Rightarrow> broker_side" where
  "action_to_side a =
     (case a of ActBuy \<Rightarrow> BrokerBuy | ActBuyCover \<Rightarrow> BrokerBuy | ActSell \<Rightarrow> BrokerSell | ActSellShort \<Rightarrow> BrokerSell)"

definition adapt_config :: "rebalancer_risk_config \<Rightarrow> risk_config" where
  "adapt_config c =
     default_config\<lparr>rk_max_position_pct := rr_max_position_pct c, rk_max_leverage := rr_max_leverage c,
       rk_min_trade_usd := rr_min_trade_usd c, rk_max_trade_usd := rr_max_trade_usd c,
       rk_allow_short := rr_allow_short c, rk_max_short_pct := rr_max_short_pct c,
       rk_max_order_value_cents := 0, rk_max_batch_value_cents := 0\<rparr>"

definition validation_failure :: "risk_check list" where
  "validation_failure = [(''Order validation'', FailStatus)]"

definition check_risk :: "rebalance_order list \<Rightarrow> int \<Rightarrow> (symbol \<times> f64) list \<Rightarrow> (symbol \<times> int) list \<Rightarrow> (symbol, int) omap \<Rightarrow>
    rebalancer_risk_config \<Rightarrow> risk_check list" where
  "check_risk orders equity targets prices current_qty c =
     (case engine_new (adapt_config c) of
        Inl _ \<Rightarrow> validation_failure
      | Inr engine \<Rightarrow>
          if list_ex (\<lambda>x. ro_shares x < 0) orders then validation_failure
          else let price_map = collect_map prices;
                   broker_orders =
                     map (\<lambda>x. (ro_symbol x, action_to_side (ro_action x), nat (ro_shares x), ro_limit_price_cents x)) orders;
                   seeds =
                     map (\<lambda>(y, q). (y, if q \<ge> 0 then BrokerBuy else BrokerSell, 0,
                                    case om_get price_map y of Some p \<Rightarrow> p | None \<Rightarrow> 0))
                       (filter (\<lambda>(y, q). q \<noteq> 0 \<and> y \<notin> ro_symbol ` set orders) current_qty);
                   account = \<lparr>ac_equity_cents = equity, ac_buying_power_cents = equity, ac_cash_cents = equity,
                              ac_gross_position_value_cents = 0\<rparr>
               in check_batch engine (broker_orders @ seeds) account current_qty targets)"

end
