(* ===== verification/Rebalance_Properties.thy ===== *)
theory Rebalance_Properties
  imports Rebalance
begin

text \<open>
  What a rebalance achieves: carried out in full, the computed orders bring every targeted
  position within one share of its target value, or within the smallest trade, and close
  every position without a target. The limit price of a closing order is on the wrong side of
  the market.
\<close>

section \<open>Maps collected from lists\<close>

lemma fold_insert_get: "om_get (fold (\<lambda>(k, v). om_insert k v) es m) x = (map_of m ++ map_of (rev es)) x"
proof (induction es arbitrary: m)
  case (Cons e es)
  obtain k v where e: "e = (k, v)" by (cases e)
  show ?case using Cons [of "om_insert k v m"] by (simp add: e kv_simps map_add_def split: option.split)
qed simp

lemma map_of_rev_distinct: "distinct (map fst es) \<Longrightarrow> map_of (rev es) = map_of es"
  by (intro map_of_eqI) (auto simp: rev_map [symmetric] intro!: map_of_is_SomeI)

lemma collect_map_get: "distinct (map fst es) \<Longrightarrow> om_get (collect_map es) x = map_of es x"
  by (simp add: collect_map_def fold_insert_get map_of_rev_distinct)

section \<open>One order\<close>

definition signed_shares :: "rebalance_order \<Rightarrow> int" where
  "signed_shares x =
     (case ro_action x of ActBuy \<Rightarrow> ro_shares x | ActBuyCover \<Rightarrow> ro_shares x
      | ActSell \<Rightarrow> - ro_shares x | ActSellShort \<Rightarrow> - ro_shares x)"

text \<open>The values of a target and of the position fit, with a bit to spare.\<close>

definition values_fit :: "int \<Rightarrow> int \<Rightarrow> int \<Rightarrow> bool" where
  "values_fit tv q p \<longleftrightarrow> \<bar>q * p\<bar> \<le> 2 ^ 61 \<and> \<bar>tv\<bar> \<le> 2 ^ 61 \<and> \<bar>q\<bar> \<le> 2 ^ 61"

lemma trunc_div_mult_le: "0 < b \<Longrightarrow> \<bar>trunc_div a b\<bar> * b \<le> \<bar>a\<bar>"
  by (cases "a = 0") (simp_all add: trunc_div_def abs_mult abs_sgn_eq pos_imp_zdiv_nonneg_iff minus_mod_eq_div_mult [symmetric])

lemma wrap_small: "\<bar>x\<bar> \<le> 2 ^ 62 \<Longrightarrow> i64_wrap x = x"
  by (intro i64_wrap_id) (auto simp: i64_min_def i64_max_def)

lemma classify_sign:
  assumes "d \<noteq> 0" and "\<bar>d\<bar> \<le> 2 ^ 62" and "\<bar>c\<bar> \<le> 2 ^ 62"
  shows "fst (classify_trade c d) \<in> (if 0 < d then {ActBuy, ActBuyCover} else {ActSell, ActSellShort})"
  using assms wrap_small [of "\<bar>d\<bar>"] wrap_small [of "\<bar>c\<bar>"] by (auto simp: classify_trade_def)

definition order_spec :: "int \<Rightarrow> int \<Rightarrow> int \<Rightarrow> int \<Rightarrow> rebalance_order option \<Rightarrow> bool" where
  "order_spec tv q p min_trade r \<longleftrightarrow>
     (let d = trunc_div (tv - q * p) p
      in case r of
           None \<Rightarrow> d = 0 \<or> \<bar>d\<bar> * p < min_trade
         | Some x \<Rightarrow> d \<noteq> 0 \<and> signed_shares x = d \<and> ro_notional_cents x = \<bar>d\<bar> * p \<and> min_trade \<le> ro_notional_cents x)"

lemma target_order_spec:
  assumes "om_get prices y = Some p" and "0 < p" and "values_fit (target_value equity w) q p"
    and q: "q = (case om_get cur y of Some q \<Rightarrow> q | None \<Rightarrow> 0)"
  shows "order_spec (target_value equity w) q p min_trade (target_order equity cur prices bps min_trade (y, w))"
    and "\<forall>x. target_order equity cur prices bps min_trade (y, w) = Some x \<longrightarrow> ro_symbol x = y"
proof -
  let ?tv = "target_value equity w"
  let ?D = "?tv - q * p"
  let ?d = "trunc_div ?D p"
  have D: "\<bar>?D\<bar> \<le> 2 ^ 62" using assms(3) by (auto simp: values_fit_def)
  then have d: "\<bar>?d\<bar> \<le> 2 ^ 62" using trunc_div_le [of ?D p] by linarith
  have "\<bar>?d\<bar> * p \<le> \<bar>?D\<bar>" using assms(2) by (rule trunc_div_mult_le)
  then have wraps: "i64_wrap (q * p) = q * p" "i64_wrap ?D = ?D" "i64_wrap \<bar>?d\<bar> = \<bar>?d\<bar>" "i64_wrap (\<bar>?d\<bar> * p) = \<bar>?d\<bar> * p"
    using D d assms(2,3) by (auto intro!: wrap_small simp: values_fit_def)
  have sign: "fst (classify_trade q ?d) \<in> (if 0 < ?d then {ActBuy, ActBuyCover} else {ActSell, ActSellShort})" if "?d \<noteq> 0"
    using that d assms(3) by (intro classify_sign) (auto simp: values_fit_def)
  show "order_spec ?tv q p min_trade (target_order equity cur prices bps min_trade (y, w))"
    using assms(1,2) wraps sign
    by (auto simp: target_order_def order_spec_def Let_def signed_shares_def simp flip: q split: prod.split action.split if_splits)
  show "\<forall>x. target_order equity cur prices bps min_trade (y, w) = Some x \<longrightarrow> ro_symbol x = y"
    by (auto simp: target_order_def Let_def split: option.splits if_splits prod.splits)
qed

section \<open>The whole rebalance\<close>

text \<open>Shares of a symbol bought less shares sold, when every order is carried out.\<close>

definition net_shares :: "symbol \<Rightarrow> rebalance_order list \<Rightarrow> int" where
  "net_shares y xs = sum_list (map signed_shares (filter (\<lambda>x. ro_symbol x = y) xs))"

definition held_quantity :: "current_position list \<Rightarrow> symbol \<Rightarrow> int" where
  "held_quantity ps y = (case map_of (map (\<lambda>p. (cp_symbol p, cp_quantity p)) ps) y of Some q \<Rightarrow> q | None \<Rightarrow> 0)"

lemma net_shares_append: "net_shares y (xs @ ys) = net_shares y xs + net_shares y ys"
  by (simp add: net_shares_def)

lemma net_shares_other:
  assumes "\<And>e x. e \<in> set es \<Longrightarrow> f e = Some x \<Longrightarrow> ro_symbol x \<noteq> y"
  shows "net_shares y (List.map_filter f es) = 0"
proof -
  have "filter (\<lambda>x. ro_symbol x = y) (List.map_filter f es) = []"
    using assms by (fastforce simp: List.map_filter_def filter_empty_conv)
  then show ?thesis by (simp add: net_shares_def)
qed

lemma net_shares_one:
  assumes "distinct (map k es)" and "e \<in> set es"
    and f: "\<And>e x. f e = Some x \<Longrightarrow> ro_symbol x = k e"
  shows "net_shares (k e) (List.map_filter f es) = (case f e of None \<Rightarrow> 0 | Some x \<Rightarrow> signed_shares x)"
proof -
  obtain as bs where es: "es = as @ e # bs" using assms(2) by (auto dest: split_list)
  have out: "\<And>a. a \<in> set as \<union> set bs \<Longrightarrow> k a \<noteq> k e" using assms(1) es by (auto simp: image_iff)
  have "net_shares (k e) (List.map_filter f as) = 0" "net_shares (k e) (List.map_filter f bs) = 0"
    using out f by (auto intro!: net_shares_other)
  moreover have "List.map_filter f es =
      List.map_filter f as @ (case f e of None \<Rightarrow> [] | Some x \<Rightarrow> [x]) @ List.map_filter f bs"
    by (simp add: es List.map_filter_def split: option.split)
  ultimately show ?thesis using f [of e]
    by (cases "f e") (simp_all add: net_shares_append, simp add: net_shares_def)
qed

lemma close_order_symbol: "close_order tm pm bps pos = Some x \<Longrightarrow> ro_symbol x = cp_symbol pos"
  by (auto simp: close_order_def Let_def split: if_splits option.splits)

lemma close_order_shares:
  assumes "om_get tm (cp_symbol pos) = None" and "om_get pm (cp_symbol pos) = Some p" and "\<bar>cp_quantity pos\<bar> \<le> 2 ^ 61"
  shows "(case close_order tm pm bps pos of None \<Rightarrow> 0 | Some x \<Rightarrow> signed_shares x) = - cp_quantity pos"
  using assms wrap_small [of "\<bar>cp_quantity pos\<bar>"]
  by (auto simp: close_order_def Let_def signed_shares_def)

definition reached :: "int \<Rightarrow> int \<Rightarrow> int \<Rightarrow> int \<Rightarrow> int \<Rightarrow> bool" where
  "reached tv q p min_trade n \<longleftrightarrow>
     (if n = 0 then \<bar>tv - q * p\<bar> < max p (min_trade + p)
      else \<bar>tv - (q + n) * p\<bar> < p \<and> \<bar>tv - (q + n) * p\<bar> < \<bar>tv - q * p\<bar>)"

lemma order_spec_reached:
  assumes "order_spec tv q p min_trade r" and "0 < p"
  shows "reached tv q p min_trade (case r of None \<Rightarrow> 0 | Some x \<Rightarrow> signed_shares x)"
proof -
  let ?D = "tv - q * p"
  let ?d = "trunc_div ?D p"
  have split: "?D = ?d * p + trunc_mod ?D p" by (simp add: trunc_mod_def mult.commute)
  have rest: "\<bar>trunc_mod ?D p\<bar> < p" using trunc_mod_bound [of p ?D] assms(2) by simp
  show ?thesis
  proof (cases r)
    case None
    have "\<bar>?D\<bar> < \<bar>?d\<bar> * p + p"
      using split rest abs_triangle_ineq [of "?d * p" "trunc_mod ?D p"] assms(2) by (simp add: abs_mult)
    then show ?thesis using assms(1) None by (auto simp: order_spec_def reached_def Let_def)
  next
    case (Some x)
    have "tv - (q + ?d) * p = trunc_mod ?D p" using split by (simp add: algebra_simps)
    moreover have "p \<le> \<bar>?d\<bar> * p" "\<bar>?d\<bar> * p \<le> \<bar>?D\<bar>"
      using Some assms trunc_div_mult_le [OF assms(2), of ?D] by (auto simp: order_spec_def Let_def)
    ultimately show ?thesis using assms(1) Some rest by (auto simp: order_spec_def reached_def Let_def)
  qed
qed

definition symbols_distinct :: "current_position list \<Rightarrow> (symbol \<times> f64) list \<Rightarrow> (symbol \<times> int) list \<Rightarrow> bool" where
  "symbols_distinct ps ts prices \<longleftrightarrow>
     distinct (map cp_symbol ps) \<and> distinct (map fst ts) \<and> distinct (map fst prices)"

lemma rebalance_target:
  assumes "symbols_distinct ps ts prices" and "(y, w) \<in> set ts" and "(y, p) \<in> set prices" and "0 < p"
    and "values_fit (target_value equity w) (held_quantity ps y) p"
  shows "reached (target_value equity w) (held_quantity ps y) p min_trade
           (net_shares y (compute_diff equity ps ts prices bps min_trade))"
proof -
  let ?pm = "collect_map prices" and ?tm = "collect_map ts"
    and ?cm = "collect_map (map (\<lambda>p. (cp_symbol p, cp_quantity p)) ps)"
  note dist = assms(1) [unfolded symbols_distinct_def]
  have price: "om_get ?pm y = Some p" using dist assms(3) by (simp add: collect_map_get)
  have tgt: "om_get ?tm y = Some w" using dist assms(2) by (simp add: collect_map_get)
  have cur: "held_quantity ps y = (case om_get ?cm y of Some q \<Rightarrow> q | None \<Rightarrow> 0)"
    using dist by (simp add: held_quantity_def collect_map_get comp_def)
  have "net_shares y (List.map_filter (close_order ?tm ?pm bps) ps) = 0"
    using tgt by (intro net_shares_other) (auto simp: close_order_def Let_def split: if_splits option.splits)
  moreover have "net_shares (fst (y, w)) (List.map_filter (target_order equity ?cm ?pm bps min_trade) ts) =
      (case target_order equity ?cm ?pm bps min_trade (y, w) of None \<Rightarrow> 0 | Some x \<Rightarrow> signed_shares x)"
    using dist assms(2)
    by (intro net_shares_one) (auto simp: target_order_def Let_def split: if_splits option.splits prod.splits)
  ultimately show ?thesis
    using order_spec_reached [OF target_order_spec(1) [OF price assms(4,5) cur] assms(4)]
    by (simp add: compute_diff_def Let_def net_shares_append)
qed

lemma rebalance_close:
  assumes "symbols_distinct ps ts prices" and "pos \<in> set ps" and "cp_symbol pos \<notin> fst ` set ts"
    and "(cp_symbol pos, p) \<in> set prices" and "\<bar>cp_quantity pos\<bar> \<le> 2 ^ 61"
  shows "cp_quantity pos + net_shares (cp_symbol pos) (compute_diff equity ps ts prices bps min_trade) = 0"
proof -
  let ?pm = "collect_map prices" and ?tm = "collect_map ts"
    and ?cm = "collect_map (map (\<lambda>p. (cp_symbol p, cp_quantity p)) ps)"
  note dist = assms(1) [unfolded symbols_distinct_def]
  have price: "om_get ?pm (cp_symbol pos) = Some p" using dist assms(4) by (simp add: collect_map_get)
  have tgt: "om_get ?tm (cp_symbol pos) = None" using dist assms(3) by (simp add: collect_map_get map_of_eq_None_iff)
  have "net_shares (cp_symbol pos) (List.map_filter (target_order equity ?cm ?pm bps min_trade) ts) = 0"
    using assms(3) by (intro net_shares_other)
      (force simp: target_order_def Let_def split: if_splits option.splits prod.splits)
  moreover have "net_shares (cp_symbol pos) (List.map_filter (close_order ?tm ?pm bps) ps) =
      (case close_order ?tm ?pm bps pos of None \<Rightarrow> 0 | Some x \<Rightarrow> signed_shares x)"
    using dist assms(2) close_order_symbol by (intro net_shares_one) auto
  ultimately show ?thesis
    using close_order_shares [OF tgt price assms(5)] by (simp add: compute_diff_def Let_def net_shares_append)
qed

lemma rebalance_absent:
  assumes "y \<notin> cp_symbol ` set ps" and "y \<notin> fst ` set ts"
  shows "net_shares y (compute_diff equity ps ts prices bps min_trade) = 0"
proof -
  have "net_shares y (List.map_filter (close_order tm pm bps) ps) = 0" for tm pm
    using assms(1) close_order_symbol by (intro net_shares_other) (metis image_eqI)
  moreover have "net_shares y (List.map_filter (target_order equity cm pm bps min_trade) ts) = 0" for cm pm
    using assms(2) by (intro net_shares_other)
      (force simp: target_order_def Let_def split: if_splits option.splits prod.splits)
  ultimately show ?thesis by (simp add: compute_diff_def Let_def net_shares_append)
qed

text \<open>
  What the orders leave of a symbol: a targeted one is within one share of its target value
  when it is traded, and within the smallest trade and a share when it is not; any other is at
  zero.
\<close>

definition rebalanced :: "int \<Rightarrow> current_position list \<Rightarrow> (symbol \<times> f64) list \<Rightarrow> int \<Rightarrow> symbol \<Rightarrow> int \<Rightarrow> int \<Rightarrow> bool" where
  "rebalanced equity ps ts min_trade y p n =
     (case map_of ts y of
        Some w \<Rightarrow> reached (target_value equity w) (held_quantity ps y) p min_trade n
      | None \<Rightarrow> held_quantity ps y + n = 0)"

definition rebalance_fits :: "int \<Rightarrow> current_position list \<Rightarrow> (symbol \<times> f64) list \<Rightarrow> symbol \<Rightarrow> int \<Rightarrow> bool" where
  "rebalance_fits equity ps ts y p =
     (case map_of ts y of
        Some w \<Rightarrow> values_fit (target_value equity w) (held_quantity ps y) p
      | None \<Rightarrow> \<bar>held_quantity ps y\<bar> \<le> 2 ^ 61)"

text \<open>C15. The orders of a rebalance, carried out in full, reach the target portfolio. The property
  is about the symbols with a positive quoted price, when no symbol is listed twice among the
  positions, the targets or the prices and the amounts fit \<open>i64\<close>. A targeted symbol that is traded
  ends less than one share away from its target value and nearer to it than before. One that is
  not traded was less than one share, or less than the smallest trade plus one share, away from
  it: whole shares are compared with the smallest trade after truncation. A position without a
  target is closed exactly, long or short. (Positions without a quoted price get no order.)
\<close>

theorem rebalance_reaches_target:
  assumes "symbols_distinct ps ts prices" and "(y, p) \<in> set prices" and "0 < p"
    and "rebalance_fits equity ps ts y p"
  shows "rebalanced equity ps ts min_trade y p (net_shares y (compute_diff equity ps ts prices bps min_trade))"
proof (cases "map_of ts y")
  case (Some w)
  then show ?thesis using rebalance_target [OF assms(1) map_of_SomeD [OF Some] assms(2,3)] assms(4)
    by (simp add: rebalanced_def rebalance_fits_def)
next
  case None
  then have y: "y \<notin> fst ` set ts" by (simp add: map_of_eq_None_iff)
  show ?thesis
  proof (cases "y \<in> cp_symbol ` set ps")
    case True
    then obtain pos where pos: "pos \<in> set ps" "y = cp_symbol pos" by auto
    have "map_of (map (\<lambda>p. (cp_symbol p, cp_quantity p)) ps) (cp_symbol pos) = Some (cp_quantity pos)"
      using assms(1) pos(1) by (intro map_of_is_SomeI) (auto simp: symbols_distinct_def comp_def)
    then have "held_quantity ps y = cp_quantity pos" using pos(2) by (simp add: held_quantity_def)
    then show ?thesis using rebalance_close [OF assms(1) pos(1)] pos y assms(2,4) None
      by (simp add: rebalanced_def rebalance_fits_def)
  next
    case False
    then have "held_quantity ps y = 0"
      by (auto simp: held_quantity_def split: option.split dest!: map_of_SomeD)
    then show ?thesis using rebalance_absent [OF False y] None by (simp add: rebalanced_def)
  qed
qed

definition other_symbol :: symbol where
  "other_symbol = from_str_truncated [77, 83, 70, 84]"

definition third_symbol :: symbol where
  "third_symbol = from_str_truncated [73, 66, 77]"

definition demo_positions :: "current_position list" where
  "demo_positions =
     [\<lparr>cp_symbol = other_symbol, cp_quantity = 30, cp_avg_cost_cents = 100\<rparr>,
      \<lparr>cp_symbol = third_symbol, cp_quantity = - 20, cp_avg_cost_cents = 100\<rparr>]"

definition demo_orders :: "rebalance_order list" where
  "demo_orders =
     compute_diff 100000 demo_positions [(demo_symbol, FFin False (1 / 2))]
       [(demo_symbol, 700), (other_symbol, 10000), (third_symbol, 20000)] 10 100"

lemma demo_orders_value:
  "demo_orders =
     [\<lparr>ro_symbol = other_symbol, ro_action = ActSell, ro_shares = 30, ro_limit_price_cents = 10010,
       ro_notional_cents = 300000, ro_description = ''close long''\<rparr>,
      \<lparr>ro_symbol = third_symbol, ro_action = ActBuyCover, ro_shares = 20, ro_limit_price_cents = 19980,
       ro_notional_cents = 400000, ro_description = ''close short''\<rparr>,
      \<lparr>ro_symbol = demo_symbol, ro_action = ActBuy, ro_shares = 71, ro_limit_price_cents = 700,
       ro_notional_cents = 49700, ro_description = ''open''\<rparr>]"
  by code_simp

theorem rebalance_reaches_target_witness:
  "rebalanced 100000 demo_positions [(demo_symbol, FFin False (1 / 2))] 100 demo_symbol 700 (net_shares demo_symbol demo_orders) \<and>
   rebalanced 100000 demo_positions [(demo_symbol, FFin False (1 / 2))] 100 other_symbol 10000 (net_shares other_symbol demo_orders)"
proof -
  let ?ts = "[(demo_symbol, FFin False (1 / 2))]"
  let ?prices = "[(demo_symbol, 700), (other_symbol, 10000), (third_symbol, 20000)]"
  have "symbols_distinct demo_positions ?ts ?prices" by code_simp
  moreover have "rebalance_fits 100000 demo_positions ?ts demo_symbol 700"
    "rebalance_fits 100000 demo_positions ?ts other_symbol 10000" by code_simp+
  ultimately show ?thesis
    unfolding demo_orders_def by (intro conjI rebalance_reaches_target) simp_all
qed

text \<open>C40. The limit prices of closing orders are moved to the wrong side of the market. For a
  positive price and an offset small enough not to wrap, a long position is sold with a limit
  of the quoted price plus the offset, truncated to cents, and a short position is bought back
  with a limit of the price minus the offset. As soon as price times basis points reaches
  10000, that is an offset of at least one cent, the sale is strictly above the quoted price and
  the purchase strictly below it; for cheaper stocks the limit is the quoted price itself. The
  documented rule, which the orders of the second loop follow, is buy above and sell below.
\<close>

theorem closing_limit_wrong_side:
  assumes "close_order target_map price_map bps pos = Some x" and "om_get price_map (cp_symbol pos) = Some p"
    and "0 < p" and "p \<le> 2 ^ 30" and "bps \<le> 2 ^ 31"
  shows "(if 0 < cp_quantity pos
          then ro_action x = ActSell \<and> ro_limit_price_cents x = p + p * int bps div 10000
          else ro_action x = ActBuyCover \<and> ro_limit_price_cents x = p - p * int bps div 10000) \<and>
         (10000 \<le> p * int bps \<longrightarrow>
            (if ro_action x = ActSell then p < ro_limit_price_cents x else ro_limit_price_cents x < p))"
proof -
  let ?m = "p * int bps"
  have m: "0 \<le> ?m" "?m \<le> 2 ^ 30 * 2 ^ 31" using assms(3-5) by (simp, intro mult_mono) auto
  then have w: "i64_wrap ?m = ?m" by (intro wrap_small) auto
  have td: "trunc_div ?m 10000 = ?m div 10000" using m(1) by (auto simp: trunc_div_def sgn_if)
  have o: "0 \<le> ?m div 10000" "?m div 10000 \<le> 2 ^ 61" using m by auto
  have one: "10000 \<le> ?m \<Longrightarrow> 1 \<le> ?m div 10000" by (auto simp: pos_imp_zdiv_pos_iff int_one_le_iff_zero_less)
  have "i64_wrap (p - ?m div 10000) = p - ?m div 10000" "i64_wrap (p + ?m div 10000) = p + ?m div 10000"
    using assms(3,4) o by (intro wrap_small; simp add: abs_if)+
  then show ?thesis using assms(1,2) one w td
    by (auto simp: close_order_def compute_limit_price_def Let_def split: if_splits)
qed

theorem closing_limit_wrong_side_witness:
  "ro_action (hd demo_orders) = ActSell \<and> ro_limit_price_cents (hd demo_orders) = 10010"
proof -
  let ?tm = "collect_map [(demo_symbol, FFin False (1 / 2))]"
  let ?pm = "collect_map [(demo_symbol, 700 :: int), (other_symbol, 10000), (third_symbol, 20000)]"
  have "close_order ?tm ?pm 10 (hd demo_positions) = Some (hd demo_orders)"
    unfolding demo_orders_value by code_simp
  moreover have "om_get ?pm (cp_symbol (hd demo_positions)) = Some 10000" by code_simp
  ultimately show ?thesis
    using closing_limit_wrong_side [of ?tm ?pm 10 "hd demo_positions" "hd demo_orders" 10000]
    by (simp add: demo_orders_value demo_positions_def)
qed

end
