(* ===== verification/Audit_Trail.thy ===== *)
theory Audit_Trail
  imports Rebalance
begin

text \<open>
  The audit trail of the rebalancer (\<open>rebalancer/src/audit.rs\<close>): checkpoints, the JSON events
  that the \<open>log_\<close> functions write, the questions asked of a log, and the clock skew detector
  (\<open>rebalancer/src/clock_skew.rs\<close>). A log is the list of its events: writing an event and
  reading it back is the business of serde. Features of the build are a flag: \<open>wal\<close> stands for
  \<open>write_ahead_logging\<close>. Texts are byte lists; a rendered time stamp is an argument.
\<close>

section \<open>JSON values\<close>

datatype json =
    JNull
  | JBool bool
  | JInt int
  | JFloat f64
  | JStr "nat list"
  | JArr "json list"
  | JObj "(string \<times> json) list"

definition bytes_of :: "string \<Rightarrow> nat list" where
  "bytes_of s = map of_char s"

fun json_get :: "string \<Rightarrow> json \<Rightarrow> json option" where
  "json_get k (JObj kvs) = map_of kvs k"
| "json_get k _ = None"

fun json_as_str :: "json \<Rightarrow> nat list option" where
  "json_as_str (JStr s) = Some s"
| "json_as_str _ = None"

fun json_as_i64 :: "json \<Rightarrow> int option" where
  "json_as_i64 (JInt n) = i64_checked n"
| "json_as_i64 _ = None"

fun json_as_f64 :: "json \<Rightarrow> f64 option" where
  "json_as_f64 (JInt n) = Some (f64_of_int n)"
| "json_as_f64 (JFloat x) = Some x"
| "json_as_f64 _ = None"

fun json_as_array :: "json \<Rightarrow> json list option" where
  "json_as_array (JArr xs) = Some xs"
| "json_as_array _ = None"

fun json_as_bool :: "json \<Rightarrow> bool option" where
  "json_as_bool (JBool b) = Some b"
| "json_as_bool _ = None"

definition get_str :: "string \<Rightarrow> json \<Rightarrow> nat list option" where
  "get_str k v = Option.bind (json_get k v) json_as_str"

definition get_i64 :: "string \<Rightarrow> json \<Rightarrow> int option" where
  "get_i64 k v = Option.bind (json_get k v) json_as_i64"

definition get_f64 :: "string \<Rightarrow> json \<Rightarrow> f64 option" where
  "get_f64 k v = Option.bind (json_get k v) json_as_f64"

definition get_array :: "string \<Rightarrow> json \<Rightarrow> json list option" where
  "get_array k v = Option.bind (json_get k v) json_as_array"

definition option_or :: "'a \<Rightarrow> 'a option \<Rightarrow> 'a" where
  "option_or d x = (case x of None \<Rightarrow> d | Some y \<Rightarrow> y)"

text \<open>\<open>cents as f64 / 100.0\<close>.\<close>

definition dollars :: "int \<Rightarrow> json" where
  "dollars cents = JFloat (f64_div (f64_of_int cents) (f64_of_int 100))"

section \<open>Checkpoints\<close>

datatype checkpoint =
    RunStarted | PositionsIntent | PositionsFetched | PositionsResult | DiffComputed | RiskCheckPassed
  | OrderIntent | OrderSubmitted | OrderFailed | OrderFilled | QuotesIntent | QuotesResult
  | AccountSummaryIntent | AccountSummaryResult | CancelIntent | CancelResult | RunCompleted

definition wal_only :: "checkpoint \<Rightarrow> bool" where
  "wal_only c \<longleftrightarrow> c \<in> set [PositionsIntent, PositionsResult, QuotesIntent, QuotesResult,
     AccountSummaryIntent, AccountSummaryResult, CancelIntent, CancelResult]"

definition as_event_name :: "checkpoint \<Rightarrow> string" where
  "as_event_name c =
     (case c of
        RunStarted \<Rightarrow> ''run_started''
      | PositionsIntent \<Rightarrow> ''positions_intent''
      | PositionsFetched \<Rightarrow> ''positions_fetched''
      | PositionsResult \<Rightarrow> ''positions_result''
      | DiffComputed \<Rightarrow> ''diff_computed''
      | RiskCheckPassed \<Rightarrow> ''risk_check_passed''
      | OrderIntent \<Rightarrow> ''order_intent''
      | OrderSubmitted \<Rightarrow> ''order_submitted''
      | OrderFailed \<Rightarrow> ''order_failed''
      | OrderFilled \<Rightarrow> ''order_filled''
      | QuotesIntent \<Rightarrow> ''quotes_intent''
      | QuotesResult \<Rightarrow> ''quotes_result''
      | AccountSummaryIntent \<Rightarrow> ''account_summary_intent''
      | AccountSummaryResult \<Rightarrow> ''account_summary_result''
      | CancelIntent \<Rightarrow> ''cancel_intent''
      | CancelResult \<Rightarrow> ''cancel_result''
      | RunCompleted \<Rightarrow> ''run_completed'')"

definition from_event_name :: "bool \<Rightarrow> string \<Rightarrow> checkpoint option" where
  "from_event_name wal name =
     (if name = ''run_started'' then Some RunStarted
      else if wal \<and> name = ''positions_intent'' then Some PositionsIntent
      else if name = ''positions_fetched'' then Some PositionsFetched
      else if wal \<and> name = ''positions_result'' then Some PositionsResult
      else if name = ''diff_computed'' then Some DiffComputed
      else if name = ''risk_check_passed'' then Some RiskCheckPassed
      else if name = ''order_intent'' then Some OrderIntent
      else if name = ''order_submitted'' then Some OrderSubmitted
      else if name = ''order_failed'' then Some OrderFailed
      else if name = ''order_filled'' then Some OrderFilled
      else if wal \<and> name = ''quotes_intent'' then Some QuotesIntent
      else if wal \<and> name = ''quotes_result'' then Some QuotesResult
      else if wal \<and> name = ''account_summary_intent'' then Some AccountSummaryIntent
      else if wal \<and> name = ''account_summary_result'' then Some AccountSummaryResult
      else if wal \<and> name = ''cancel_intent'' then Some CancelIntent
      else if wal \<and> name = ''cancel_result'' then Some CancelResult
      else if name = ''run_completed'' then Some RunCompleted
      else None)"

lemma from_as_event_name: "from_event_name wal (as_event_name c) = (if wal_only c \<and> \<not> wal then None else Some c)"
  by (cases c) (simp_all add: from_event_name_def as_event_name_def wal_only_def)

lemma from_event_name_Some: "from_event_name wal n = Some c \<Longrightarrow> n = as_event_name c \<and> (wal_only c \<longrightarrow> wal)"
  by (auto simp: from_event_name_def as_event_name_def wal_only_def split: if_splits)

section \<open>Events\<close>

record audit_event =
  ae_event :: string
  ae_ts :: int
  ae_sequence_number :: "nat option"
  ae_window_id :: "nat list option"
  ae_checkpoint :: "string option"
  ae_data :: json

definition log_with_idempotency :: "string \<Rightarrow> nat option \<Rightarrow> nat list option \<Rightarrow> json \<Rightarrow> int \<Rightarrow> audit_event" where
  "log_with_idempotency event seq window data ts =
     \<lparr>ae_event = event, ae_ts = ts, ae_sequence_number = seq, ae_window_id = window, ae_checkpoint = None, ae_data = data\<rparr>"

definition log_plain :: "string \<Rightarrow> json \<Rightarrow> int \<Rightarrow> audit_event" where
  "log_plain event data ts = log_with_idempotency event None None data ts"

text \<open>The \<open>Debug\<close> names of the checkpoints.\<close>

definition checkpoint_debug :: "checkpoint \<Rightarrow> string" where
  "checkpoint_debug c =
     (case c of
        RunStarted \<Rightarrow> ''RunStarted'' | PositionsIntent \<Rightarrow> ''PositionsIntent'' | PositionsFetched \<Rightarrow> ''PositionsFetched''
      | PositionsResult \<Rightarrow> ''PositionsResult'' | DiffComputed \<Rightarrow> ''DiffComputed'' | RiskCheckPassed \<Rightarrow> ''RiskCheckPassed''
      | OrderIntent \<Rightarrow> ''OrderIntent'' | OrderSubmitted \<Rightarrow> ''OrderSubmitted'' | OrderFailed \<Rightarrow> ''OrderFailed''
      | OrderFilled \<Rightarrow> ''OrderFilled'' | QuotesIntent \<Rightarrow> ''QuotesIntent'' | QuotesResult \<Rightarrow> ''QuotesResult''
      | AccountSummaryIntent \<Rightarrow> ''AccountSummaryIntent'' | AccountSummaryResult \<Rightarrow> ''AccountSummaryResult''
      | CancelIntent \<Rightarrow> ''CancelIntent'' | CancelResult \<Rightarrow> ''CancelResult'' | RunCompleted \<Rightarrow> ''RunCompleted'')"

definition log_checkpoint :: "checkpoint \<Rightarrow> nat \<Rightarrow> json \<Rightarrow> int \<Rightarrow> audit_event" where
  "log_checkpoint c seq data ts =
     \<lparr>ae_event = as_event_name c, ae_ts = ts, ae_sequence_number = Some seq, ae_window_id = None,
      ae_checkpoint = Some (checkpoint_debug c), ae_data = data\<rparr>"

section \<open>The lines a run writes\<close>

definition symbol_json :: "symbol \<Rightarrow> json" where
  "symbol_json y = JStr (as_str y)"

definition count_json :: "nat \<Rightarrow> json" where
  "count_json n = JInt (int n)"

definition run_started_data :: "nat list \<Rightarrow> nat list \<Rightarrow> json" where
  "run_started_data target_file account_id = JObj [(''target_file'', JStr target_file), (''account'', JStr account_id)]"

definition log_run_started :: "nat list \<Rightarrow> nat list \<Rightarrow> int \<Rightarrow> audit_event" where
  "log_run_started target_file account_id = log_plain ''run_started'' (run_started_data target_file account_id)"

definition log_run_started_checkpoint :: "nat \<Rightarrow> nat list \<Rightarrow> nat list \<Rightarrow> int \<Rightarrow> audit_event" where
  "log_run_started_checkpoint seq target_file account_id =
     log_checkpoint RunStarted seq (run_started_data target_file account_id)"

definition position_json :: "current_position \<Rightarrow> json" where
  "position_json p =
     JObj [(''symbol'', symbol_json (cp_symbol p)), (''qty'', JInt (cp_quantity p)), (''avg_cost'', dollars (cp_avg_cost_cents p))]"

definition positions_data :: "current_position list \<Rightarrow> int \<Rightarrow> json" where
  "positions_data ps equity_cents = JObj [(''positions'', JArr (map position_json ps)), (''equity'', dollars equity_cents)]"

definition log_positions :: "current_position list \<Rightarrow> int \<Rightarrow> int \<Rightarrow> audit_event" where
  "log_positions ps equity_cents = log_plain ''positions_fetched'' (positions_data ps equity_cents)"

definition log_positions_checkpoint :: "nat \<Rightarrow> current_position list \<Rightarrow> int \<Rightarrow> int \<Rightarrow> audit_event" where
  "log_positions_checkpoint seq ps equity_cents = log_checkpoint PositionsFetched seq (positions_data ps equity_cents)"

definition log_positions_result_checkpoint :: "nat \<Rightarrow> current_position list \<Rightarrow> int \<Rightarrow> int \<Rightarrow> audit_event" where
  "log_positions_result_checkpoint seq ps equity_cents = log_checkpoint PositionsResult seq (positions_data ps equity_cents)"

definition intent_data :: "nat list \<Rightarrow> nat list \<Rightarrow> json" where
  "intent_data timestamp target_spec = JObj [(''timestamp'', JStr timestamp), (''target_spec_reference'', JStr target_spec)]"

definition log_positions_intent_checkpoint :: "nat \<Rightarrow> nat list \<Rightarrow> nat list \<Rightarrow> int \<Rightarrow> audit_event" where
  "log_positions_intent_checkpoint seq timestamp target_spec = log_checkpoint PositionsIntent seq (intent_data timestamp target_spec)"

definition log_account_summary_intent_checkpoint :: "nat \<Rightarrow> nat list \<Rightarrow> nat list \<Rightarrow> int \<Rightarrow> audit_event" where
  "log_account_summary_intent_checkpoint seq timestamp target_spec =
     log_checkpoint AccountSummaryIntent seq (intent_data timestamp target_spec)"

definition log_account_summary_result_checkpoint :: "nat \<Rightarrow> int \<Rightarrow> int \<Rightarrow> int \<Rightarrow> audit_event" where
  "log_account_summary_result_checkpoint seq equity_cents cash_cents =
     log_checkpoint AccountSummaryResult seq (JObj [(''equity'', dollars equity_cents), (''cash'', dollars cash_cents)])"

definition log_quotes_intent_checkpoint :: "nat \<Rightarrow> symbol list \<Rightarrow> nat \<Rightarrow> nat list \<Rightarrow> nat list \<Rightarrow> int \<Rightarrow> audit_event" where
  "log_quotes_intent_checkpoint seq symbols staleness timestamp target_spec =
     log_checkpoint QuotesIntent seq
       (JObj [(''symbols'', JArr (map symbol_json symbols)), (''staleness_threshold_sec'', count_json staleness),
              (''timestamp'', JStr timestamp), (''target_spec_reference'', JStr target_spec)])"

definition order_json :: "rebalance_order \<Rightarrow> json" where
  "order_json x =
     JObj [(''symbol'', symbol_json (ro_symbol x)), (''action'', JStr (bytes_of (action_display (ro_action x)))),
           (''shares'', JInt (ro_shares x)), (''limit'', dollars (ro_limit_price_cents x)),
           (''description'', JStr (bytes_of (ro_description x)))]"

definition diff_data :: "rebalance_order list \<Rightarrow> json" where
  "diff_data xs = JObj [(''orders'', JArr (map order_json xs))]"

definition log_diff :: "rebalance_order list \<Rightarrow> int \<Rightarrow> audit_event" where
  "log_diff xs = log_plain ''diff_computed'' (diff_data xs)"

definition log_diff_checkpoint :: "nat \<Rightarrow> rebalance_order list \<Rightarrow> int \<Rightarrow> audit_event" where
  "log_diff_checkpoint seq xs = log_checkpoint DiffComputed seq (diff_data xs)"

text \<open>The details of a check are display text, which the model of the risk engine leaves out.\<close>

definition checks_json :: "risk_check list \<Rightarrow> json" where
  "checks_json cs =
     JArr (map (\<lambda>(name, status). JObj [(''name'', JStr (bytes_of name)), (''status'', JStr (bytes_of (risk_status_display status)))]) cs)"

definition log_risk_check :: "risk_check list \<Rightarrow> int \<Rightarrow> audit_event" where
  "log_risk_check cs = log_plain ''risk_check'' (JObj [(''passed'', JBool (\<not> has_failures cs)), (''checks'', checks_json cs)])"

definition log_risk_check_passed_checkpoint :: "nat \<Rightarrow> risk_check list \<Rightarrow> int \<Rightarrow> audit_event" where
  "log_risk_check_passed_checkpoint seq cs = log_checkpoint RiskCheckPassed seq (JObj [(''checks'', checks_json cs)])"

definition order_fields :: "rebalance_order \<Rightarrow> (string \<times> json) list" where
  "order_fields x =
     [(''symbol'', symbol_json (ro_symbol x)), (''action'', JStr (bytes_of (action_display (ro_action x)))),
      (''shares'', JInt (ro_shares x)), (''limit'', dollars (ro_limit_price_cents x))]"

definition log_order_intent_checkpoint :: "nat \<Rightarrow> rebalance_order \<Rightarrow> nat list \<Rightarrow> nat list \<Rightarrow> nat list \<Rightarrow> nat list \<Rightarrow> int \<Rightarrow> audit_event" where
  "log_order_intent_checkpoint seq x client_order_id timestamp target_spec context =
     log_checkpoint OrderIntent seq
       (JObj (order_fields x @
          [(''client_order_id'', JStr client_order_id), (''timestamp'', JStr timestamp),
           (''target_spec_reference'', JStr target_spec), (''execution_context'', JStr context)]))"

definition log_order_submitted_checkpoint :: "nat \<Rightarrow> rebalance_order \<Rightarrow> int \<Rightarrow> int \<Rightarrow> audit_event" where
  "log_order_submitted_checkpoint seq x ibkr_id =
     log_checkpoint OrderSubmitted seq (JObj (order_fields x @ [(''ibkr_id'', JInt ibkr_id)]))"

definition log_order_failed_checkpoint :: "nat \<Rightarrow> nat list \<Rightarrow> nat list \<Rightarrow> nat list \<Rightarrow> int \<Rightarrow> audit_event" where
  "log_order_failed_checkpoint seq error_type error_message context =
     log_checkpoint OrderFailed seq
       (JObj [(''error_type'', JStr error_type), (''error_message'', JStr error_message), (''context'', JStr context)])"

datatype order_outcome = OutFilled | OutPartialFill | OutCancelled | OutFailed

record order_result =
  or_symbol :: symbol
  or_order_id :: int
  or_filled_shares :: int
  or_avg_fill_price :: f64
  or_commission :: f64
  or_status :: order_outcome

definition outcome_debug :: "order_outcome \<Rightarrow> string" where
  "outcome_debug r =
     (case r of OutFilled \<Rightarrow> ''Filled'' | OutPartialFill \<Rightarrow> ''PartialFill'' | OutCancelled \<Rightarrow> ''Cancelled'' | OutFailed \<Rightarrow> ''Failed'')"

definition filled_data :: "order_result \<Rightarrow> json" where
  "filled_data r =
     JObj [(''symbol'', symbol_json (or_symbol r)), (''ibkr_id'', JInt (or_order_id r)), (''filled'', JInt (or_filled_shares r)),
           (''avg_price'', JFloat (or_avg_fill_price r)), (''commission'', JFloat (or_commission r)),
           (''status'', JStr (bytes_of (outcome_debug (or_status r))))]"

definition log_order_filled :: "order_result \<Rightarrow> int \<Rightarrow> audit_event" where
  "log_order_filled r = log_plain ''order_filled'' (filled_data r)"

definition log_order_filled_checkpoint :: "nat \<Rightarrow> order_result \<Rightarrow> int \<Rightarrow> audit_event" where
  "log_order_filled_checkpoint seq r = log_checkpoint OrderFilled seq (filled_data r)"

definition log_cancel_intent_checkpoint :: "nat \<Rightarrow> nat \<Rightarrow> nat list \<Rightarrow> nat list \<Rightarrow> int \<Rightarrow> audit_event" where
  "log_cancel_intent_checkpoint seq order_id reason timestamp =
     log_checkpoint CancelIntent seq
       (JObj [(''order_id'', count_json order_id), (''cancellation_reason'', JStr reason), (''timestamp'', JStr timestamp)])"

definition log_cancel_result_checkpoint :: "nat \<Rightarrow> nat \<Rightarrow> bool \<Rightarrow> nat list option \<Rightarrow> int \<Rightarrow> audit_event" where
  "log_cancel_result_checkpoint seq order_id success msg =
     log_checkpoint CancelResult seq
       (JObj [(''order_id'', count_json order_id), (''success'', JBool success),
              (''error_message'', case msg of None \<Rightarrow> JNull | Some m \<Rightarrow> JStr m)])"

definition counts_data :: "nat \<Rightarrow> nat \<Rightarrow> nat \<Rightarrow> json" where
  "counts_data submitted filled failed =
     JObj [(''submitted'', count_json submitted), (''filled'', count_json filled), (''failed'', count_json failed)]"

definition log_run_completed :: "nat \<Rightarrow> nat \<Rightarrow> nat \<Rightarrow> int \<Rightarrow> audit_event" where
  "log_run_completed submitted filled failed = log_plain ''run_completed'' (counts_data submitted filled failed)"

definition log_run_completed_checkpoint :: "nat \<Rightarrow> nat \<Rightarrow> nat \<Rightarrow> nat \<Rightarrow> int \<Rightarrow> audit_event" where
  "log_run_completed_checkpoint seq submitted filled failed = log_checkpoint RunCompleted seq (counts_data submitted filled failed)"

definition log_cron_start :: "nat \<Rightarrow> nat list \<Rightarrow> int \<Rightarrow> audit_event" where
  "log_cron_start seq window = log_with_idempotency ''cron_start'' (Some seq) (Some window) (JObj [])"

definition log_cron_completed :: "nat \<Rightarrow> nat list \<Rightarrow> nat \<Rightarrow> nat \<Rightarrow> nat \<Rightarrow> int \<Rightarrow> audit_event" where
  "log_cron_completed seq window submitted filled failed =
     log_with_idempotency ''cron_completed'' (Some seq) (Some window) (counts_data submitted filled failed)"

definition log_idempotency_rejection :: "nat list \<Rightarrow> nat \<Rightarrow> int \<Rightarrow> audit_event" where
  "log_idempotency_rejection window seq = log_with_idempotency ''idempotency_rejection'' (Some seq) (Some window) (JObj [])"

definition log_kill_requested :: "nat list \<Rightarrow> nat list \<Rightarrow> int \<Rightarrow> audit_event" where
  "log_kill_requested how source = log_plain ''kill_requested'' (JObj [(''method'', JStr how), (''trigger_source'', JStr source)])"

definition log_kill_completed_with_summary :: "nat list \<Rightarrow> nat \<Rightarrow> nat \<Rightarrow> f64 \<Rightarrow> nat list list \<Rightarrow> int \<Rightarrow> audit_event" where
  "log_kill_completed_with_summary how cancelled remaining seconds msgs =
     log_plain ''kill_completed''
       (JObj [(''method'', JStr how), (''orders_cancelled_count'', count_json cancelled),
              (''orders_remaining_count'', count_json remaining), (''duration_seconds'', JFloat seconds),
              (''error_messages'', JArr (map JStr msgs))])"

definition log_kill_completed :: "nat list \<Rightarrow> nat \<Rightarrow> f64 \<Rightarrow> int \<Rightarrow> audit_event" where
  "log_kill_completed how cancelled seconds = log_kill_completed_with_summary how cancelled 0 seconds []"

text \<open>The plain variants of the write-ahead lines, which a run does not use.\<close>

definition log_order_submitted :: "rebalance_order \<Rightarrow> int \<Rightarrow> int \<Rightarrow> audit_event" where
  "log_order_submitted x ibkr_id = log_plain ''order_submitted'' (JObj (order_fields x @ [(''ibkr_id'', JInt ibkr_id)]))"

definition log_order_intent :: "rebalance_order \<Rightarrow> nat list \<Rightarrow> nat list \<Rightarrow> nat list \<Rightarrow> nat list \<Rightarrow> int \<Rightarrow> audit_event" where
  "log_order_intent x client_order_id timestamp target_spec context =
     log_plain ''order_intent''
       (JObj (order_fields x @
          [(''client_order_id'', JStr client_order_id), (''timestamp'', JStr timestamp),
           (''target_spec_reference'', JStr target_spec), (''execution_context'', JStr context)]))"

definition log_order_failed :: "nat list \<Rightarrow> nat list \<Rightarrow> nat list \<Rightarrow> int \<Rightarrow> audit_event" where
  "log_order_failed error_type error_message context =
     log_plain ''order_failed''
       (JObj [(''error_type'', JStr error_type), (''error_message'', JStr error_message), (''context'', JStr context)])"

definition log_positions_intent :: "nat list \<Rightarrow> nat list \<Rightarrow> int \<Rightarrow> audit_event" where
  "log_positions_intent timestamp target_spec = log_plain ''positions_intent'' (intent_data timestamp target_spec)"

definition log_positions_result :: "current_position list \<Rightarrow> int \<Rightarrow> int \<Rightarrow> audit_event" where
  "log_positions_result ps equity_cents = log_plain ''positions_result'' (positions_data ps equity_cents)"

definition log_quotes_intent :: "symbol list \<Rightarrow> nat \<Rightarrow> nat list \<Rightarrow> nat list \<Rightarrow> int \<Rightarrow> audit_event" where
  "log_quotes_intent symbols staleness timestamp target_spec =
     log_plain ''quotes_intent''
       (JObj [(''symbols'', JArr (map symbol_json symbols)), (''staleness_threshold_sec'', count_json staleness),
              (''timestamp'', JStr timestamp), (''target_spec_reference'', JStr target_spec)])"

definition log_account_summary_intent :: "nat list \<Rightarrow> nat list \<Rightarrow> int \<Rightarrow> audit_event" where
  "log_account_summary_intent timestamp target_spec = log_plain ''account_summary_intent'' (intent_data timestamp target_spec)"

definition log_account_summary_result :: "int \<Rightarrow> int \<Rightarrow> int \<Rightarrow> audit_event" where
  "log_account_summary_result equity_cents cash_cents =
     log_plain ''account_summary_result'' (JObj [(''equity'', dollars equity_cents), (''cash'', dollars cash_cents)])"

definition log_cancel_intent :: "nat \<Rightarrow> nat list \<Rightarrow> nat list \<Rightarrow> int \<Rightarrow> audit_event" where
  "log_cancel_intent order_id reason timestamp =
     log_plain ''cancel_intent''
       (JObj [(''order_id'', count_json order_id), (''cancellation_reason'', JStr reason), (''timestamp'', JStr timestamp)])"

definition log_cancel_result :: "nat \<Rightarrow> bool \<Rightarrow> nat list option \<Rightarrow> int \<Rightarrow> audit_event" where
  "log_cancel_result order_id success msg =
     log_plain ''cancel_result''
       (JObj [(''order_id'', count_json order_id), (''success'', JBool success),
              (''error_message'', case msg of None \<Rightarrow> JNull | Some m \<Rightarrow> JStr m)])"

section \<open>Questions asked of a log\<close>

text \<open>
  A line of the file is blank, no JSON at all, JSON that is no event, or an event. Serde decides
  which; a line written by the functions above is an event.
\<close>

datatype log_line = Blank | NotJson | JsonOnly json | EventLine audit_event

datatype audit_error =
    CorruptedLine nat
  | MissingSequence nat
  | NotMonotonic nat nat nat
  | MissingCheckpoint checkpoint
  | RunStartedNotFirst
  | ResultBeforeIntent checkpoint
  | PositionsBeforeRunStarted
  | DiffBeforePositions
  | RiskBeforeDiff
  | IntentBeforeRisk
  | CompletedBeforeEmptyDiff
  | AccountBeforeRunStarted

fun parse_lines :: "nat \<Rightarrow> log_line list \<Rightarrow> audit_error + audit_event list" where
  "parse_lines n [] = Inr []"
| "parse_lines n (l # ls) =
     (case l of
        Blank \<Rightarrow> parse_lines (n + 1) ls
      | EventLine e \<Rightarrow> (case parse_lines (n + 1) ls of Inl err \<Rightarrow> Inl err | Inr es \<Rightarrow> Inr (e # es))
      | _ \<Rightarrow> Inl (CorruptedLine (n + 1)))"

definition parse_audit_events_from_str :: "log_line list \<Rightarrow> audit_error + audit_event list" where
  "parse_audit_events_from_str ls = parse_lines 0 ls"

text \<open>A file that does not exist is \<open>None\<close>.\<close>

definition checkpoint_sequences :: "bool \<Rightarrow> audit_event list \<Rightarrow> nat list" where
  "checkpoint_sequences wal es =
     List.map_filter ae_sequence_number (filter (\<lambda>e. from_event_name wal (ae_event e) \<noteq> None) es)"

definition max_checkpoint_sequence :: "bool \<Rightarrow> log_line list option \<Rightarrow> audit_error + nat" where
  "max_checkpoint_sequence wal file =
     (case file of
        None \<Rightarrow> Inr 0
      | Some ls \<Rightarrow>
          (case parse_audit_events_from_str ls of
             Inl err \<Rightarrow> Inl err
           | Inr es \<Rightarrow> Inr (foldl max 0 (checkpoint_sequences wal es))))"

definition check_window_already_complete :: "nat list \<Rightarrow> audit_event list \<Rightarrow> nat option" where
  "check_window_already_complete window es =
     foldl (\<lambda>found e.
        if ae_event e = ''cron_completed'' \<and> ae_window_id e = Some window
        then (case ae_sequence_number e of Some n \<Rightarrow> Some n | None \<Rightarrow> found) else found) None es"

fun check_sequences :: "bool \<Rightarrow> nat \<Rightarrow> nat option \<Rightarrow> audit_event list \<Rightarrow> audit_error + checkpoint list" where
  "check_sequences wal n last_sequence [] = Inr []"
| "check_sequences wal n last_sequence (e # es) =
     (case from_event_name wal (ae_event e) of
        None \<Rightarrow> check_sequences wal (n + 1) last_sequence es
      | Some c \<Rightarrow>
          (case ae_sequence_number e of
             None \<Rightarrow> Inl (MissingSequence (n + 1))
           | Some k \<Rightarrow>
               (case last_sequence of
                  Some m \<Rightarrow>
                    if k \<le> m then Inl (NotMonotonic (n + 1) k m)
                    else (case check_sequences wal (n + 1) (Some k) es of Inl err \<Rightarrow> Inl err | Inr cs \<Rightarrow> Inr (c # cs))
                | None \<Rightarrow>
                    (case check_sequences wal (n + 1) (Some k) es of Inl err \<Rightarrow> Inl err | Inr cs \<Rightarrow> Inr (c # cs)))))"

fun index_of :: "'a list \<Rightarrow> 'a \<Rightarrow> nat option" where
  "index_of [] c = None"
| "index_of (x # xs) c = (if x = c then Some 0 else map_option Suc (index_of xs c))"

definition require_checkpoint :: "checkpoint list \<Rightarrow> checkpoint \<Rightarrow> audit_error + nat" where
  "require_checkpoint cs c = (case index_of cs c of None \<Rightarrow> Inl (MissingCheckpoint c) | Some i \<Rightarrow> Inr i)"

definition vbind :: "'e + 'a \<Rightarrow> ('a \<Rightarrow> 'e + 'b) \<Rightarrow> 'e + 'b" where
  "vbind r f = (case r of Inl e \<Rightarrow> Inl e | Inr x \<Rightarrow> f x)"

definition vguard :: "bool \<Rightarrow> 'e \<Rightarrow> 'e + unit" where
  "vguard ok e = (if ok then Inr () else Inl e)"

text \<open>The check of a pair of intent and result checkpoints, when both are there.\<close>

definition pair_ordered :: "checkpoint list \<Rightarrow> checkpoint \<Rightarrow> checkpoint \<Rightarrow> bool" where
  "pair_ordered cs intent result =
     (case (index_of cs intent, index_of cs result) of (Some i, Some r) \<Rightarrow> \<not> r \<le> i | _ \<Rightarrow> True)"

definition empty_diff :: "bool \<Rightarrow> audit_event list \<Rightarrow> bool" where
  "empty_diff wal es =
     (case List.find (\<lambda>e. from_event_name wal (ae_event e) = Some DiffComputed) (rev es) of
        None \<Rightarrow> False
      | Some e \<Rightarrow> (case get_array ''orders'' (ae_data e) of None \<Rightarrow> False | Some xs \<Rightarrow> xs = []))"

definition positions_complete :: "bool \<Rightarrow> checkpoint list \<Rightarrow> audit_error + nat" where
  "positions_complete wal cs =
     (if wal
      then vbind (require_checkpoint cs PositionsIntent) (\<lambda>i.
           vbind (require_checkpoint cs PositionsResult) (\<lambda>r.
           if r \<le> i then Inl (ResultBeforeIntent PositionsResult) else Inr r))
      else require_checkpoint cs PositionsFetched)"

text \<open>The order intents without a follow-up are only reported as warnings, which are left out.\<close>

definition validate_checkpoints_from_parsed :: "bool \<Rightarrow> audit_event list \<Rightarrow> audit_error + unit" where
  "validate_checkpoints_from_parsed wal es =
     vbind (check_sequences wal 0 None es) (\<lambda>cs.
     vbind (require_checkpoint cs RunStarted) (\<lambda>run_started_idx.
     vbind (require_checkpoint cs DiffComputed) (\<lambda>diff_idx.
     vbind (vguard (run_started_idx = 0) RunStartedNotFirst) (\<lambda>_.
     vbind (positions_complete wal cs) (\<lambda>positions_idx.
     vbind (vguard (\<not> positions_idx \<le> run_started_idx) PositionsBeforeRunStarted) (\<lambda>_.
     vbind (vguard (\<not> diff_idx \<le> positions_idx) DiffBeforePositions) (\<lambda>_.
     vbind (if \<not> empty_diff wal es
            then vbind (require_checkpoint cs RiskCheckPassed) (\<lambda>risk_idx.
                 vbind (require_checkpoint cs OrderIntent) (\<lambda>intent_idx.
                 vbind (vguard (\<not> risk_idx \<le> diff_idx) RiskBeforeDiff) (\<lambda>_.
                 vguard (\<not> intent_idx \<le> risk_idx) IntentBeforeRisk)))
            else vguard (case index_of cs RunCompleted of Some i \<Rightarrow> \<not> i \<le> diff_idx | None \<Rightarrow> True) CompletedBeforeEmptyDiff) (\<lambda>_.
     if \<not> wal then Inr ()
     else vbind (vguard (pair_ordered cs AccountSummaryIntent AccountSummaryResult) (ResultBeforeIntent AccountSummaryResult)) (\<lambda>_.
          vbind (vguard (case index_of cs AccountSummaryIntent of Some i \<Rightarrow> \<not> i \<le> run_started_idx | None \<Rightarrow> True)
                   AccountBeforeRunStarted) (\<lambda>_.
          vbind (vguard (pair_ordered cs QuotesIntent QuotesResult) (ResultBeforeIntent QuotesResult)) (\<lambda>_.
          vguard (pair_ordered cs CancelIntent CancelResult) (ResultBeforeIntent CancelResult))))))))))))"

section \<open>Clock skew\<close>

text \<open>Times are nanoseconds; \<open>num_seconds\<close> truncates.\<close>

datatype skew_result = SkewOk | BackwardJump int | ForwardJump int f64

record skew_detector =
  sd_last_ts :: "int option"
  sd_threshold_sec :: int
  sd_max_jump_rate :: f64

definition skew_detector_new :: skew_detector where
  "skew_detector_new = \<lparr>sd_last_ts = None, sd_threshold_sec = 30, sd_max_jump_rate = f64_of_int 2\<rparr>"

definition skew_check :: "int \<Rightarrow> skew_detector \<Rightarrow> skew_detector \<times> skew_result" where
  "skew_check ts d =
     (let d' = d\<lparr>sd_last_ts := Some ts\<rparr>
      in case sd_last_ts d of
           None \<Rightarrow> (d', SkewOk)
         | Some prev \<Rightarrow>
             let diff = ts - prev; limit = sd_threshold_sec d * 10 ^ 9
             in if diff < 0 \<and> - diff > limit then (d', BackwardJump (- diff))
                else if diff > 0 \<and> diff > limit
                then let rate = f64_div (f64_of_int (trunc_div diff (10 ^ 9))) (f64_of_int (sd_threshold_sec d))
                     in if f64_lt (sd_max_jump_rate d) rate then (d', ForwardJump diff rate) else (d', SkewOk)
                else (d', SkewOk))"

definition skew_reset :: "skew_detector \<Rightarrow> skew_detector" where
  "skew_reset d = d\<lparr>sd_last_ts := None\<rparr>"

end
