(* ===== verification/Recovery.thy ===== *)
theory Recovery
  imports Audit_Trail
begin

text \<open>
  Crash recovery from the audit log (\<open>rebalancer/src/recovery.rs\<close>): the state rebuilt from the
  events, the recommended action, the comparison with the broker and the reconciliation of
  order intents. The write-ahead fields of the state exist in every build of the model and stay
  at their initial values without the feature. The broker is a parameter.
\<close>

section \<open>State\<close>

datatype recovery_action = Restart | Resume | ManualReview | Rollback

record recovered_order =
  rv_symbol :: symbol
  rv_action :: "nat list"
  rv_shares :: int
  rv_limit_price_cents :: int
  rv_ibkr_id :: int
  rv_client_order_id :: "nat list option"
  rv_submitted :: bool
  rv_filled :: bool
  rv_failed :: bool
  rv_failure_reason :: "nat list option"

record recovered_state =
  rs_checkpoint :: checkpoint
  rs_sequence_number :: nat
  rs_timestamp :: int
  rs_positions :: "current_position list"
  rs_orders :: "recovered_order list"
  rs_equity_cents :: int
  rs_run_completed :: bool
  rs_positions_intent_logged :: bool
  rs_positions_result_logged :: bool
  rs_quotes_intent_logged :: bool
  rs_quotes_result_logged :: bool
  rs_account_summary_intent_logged :: bool
  rs_account_summary_result_logged :: bool
  rs_cancel_intent_logged :: bool
  rs_cancel_result_logged :: bool
  rs_last_positions_intent :: "nat option"
  rs_last_positions_result :: "nat option"
  rs_last_quotes_intent :: "nat option"
  rs_last_quotes_result :: "nat option"
  rs_last_account_summary_intent :: "nat option"
  rs_last_account_summary_result :: "nat option"
  rs_last_cancel_intent :: "nat option"
  rs_last_cancel_result :: "nat option"
  rs_cancel_failed :: bool

definition recovered_state_new :: "int \<Rightarrow> recovered_state" where
  "recovered_state_new now =
     \<lparr>rs_checkpoint = RunStarted, rs_sequence_number = 0, rs_timestamp = now, rs_positions = [], rs_orders = [],
      rs_equity_cents = 0, rs_run_completed = False, rs_positions_intent_logged = False,
      rs_positions_result_logged = False, rs_quotes_intent_logged = False, rs_quotes_result_logged = False,
      rs_account_summary_intent_logged = False, rs_account_summary_result_logged = False,
      rs_cancel_intent_logged = False, rs_cancel_result_logged = False, rs_last_positions_intent = None,
      rs_last_positions_result = None, rs_last_quotes_intent = None, rs_last_quotes_result = None,
      rs_last_account_summary_intent = None, rs_last_account_summary_result = None, rs_last_cancel_intent = None,
      rs_last_cancel_result = None, rs_cancel_failed = False\<rparr>"

text \<open>An intent whose last result is missing or older.\<close>

definition intent_open :: "nat option \<Rightarrow> nat option \<Rightarrow> bool" where
  "intent_open intent result =
     (case intent of None \<Rightarrow> False | Some i \<Rightarrow> (case result of None \<Rightarrow> True | Some r \<Rightarrow> r < i))"

definition incomplete_intent :: "recovered_order \<Rightarrow> bool" where
  "incomplete_intent x \<longleftrightarrow> rv_client_order_id x \<noteq> None \<and> \<not> rv_submitted x \<and> \<not> rv_failed x"

definition determine_recovery_action :: "bool \<Rightarrow> recovered_state \<Rightarrow> recovery_action" where
  "determine_recovery_action wal st =
     (if rs_run_completed st then Restart
      else if wal \<and> rs_cancel_failed st then ManualReview
      else if wal \<and> intent_open (rs_last_cancel_intent st) (rs_last_cancel_result st) then ManualReview
      else if rs_orders st = [] then Restart
      else if list_ex incomplete_intent (rs_orders st) then (if wal then Resume else ManualReview)
      else if wal \<and> intent_open (rs_last_positions_intent st) (rs_last_positions_result st) then Restart
      else if wal \<and> intent_open (rs_last_quotes_intent st) (rs_last_quotes_result st) then Restart
      else if wal \<and> intent_open (rs_last_account_summary_intent st) (rs_last_account_summary_result st) then Restart
      else if list_ex (\<lambda>x. rv_submitted x \<and> \<not> rv_filled x) (rs_orders st) then ManualReview
      else Restart)"

section \<open>Reconstruction\<close>

fun update_first :: "('a \<Rightarrow> bool) \<Rightarrow> ('a \<Rightarrow> 'a) \<Rightarrow> 'a list \<Rightarrow> 'a list" where
  "update_first P f [] = []"
| "update_first P f (x # xs) = (if P x then f x # xs else x # update_first P f xs)"

definition i32_wrap :: "int \<Rightarrow> int" where
  "i32_wrap x = (x + 2 ^ 31) mod 2 ^ 32 - 2 ^ 31"

definition symbol_or_unknown :: "nat list \<Rightarrow> symbol" where
  "symbol_or_unknown s =
     (case symbol_try_new s of Some y \<Rightarrow> y | None \<Rightarrow> the (symbol_try_new (bytes_of ''UNKNOWN'')))"

definition read_position :: "json \<Rightarrow> current_position option" where
  "read_position p =
     (case (get_str ''symbol'' p, get_i64 ''qty'' p, get_f64 ''avg_cost'' p) of
        (Some s, Some q, Some c) \<Rightarrow>
          (case f64_cents_checked c ''avg_cost'' of
             Inl _ \<Rightarrow> None
           | Inr cents \<Rightarrow>
               map_option (\<lambda>y. \<lparr>cp_symbol = y, cp_quantity = q, cp_avg_cost_cents = cents\<rparr>) (symbol_try_new s))
      | _ \<Rightarrow> None)"

definition read_positions :: "json \<Rightarrow> recovered_state \<Rightarrow> recovered_state" where
  "read_positions data st =
     (case get_array ''positions'' data of
        None \<Rightarrow> st | Some ps \<Rightarrow> st\<lparr>rs_positions := List.map_filter read_position ps\<rparr>)"

definition read_equity :: "json \<Rightarrow> recovered_state \<Rightarrow> recovered_state" where
  "read_equity data st =
     (case get_f64 ''equity'' data of
        None \<Rightarrow> st
      | Some e \<Rightarrow> (case f64_cents_checked e ''equity'' of Inl _ \<Rightarrow> st | Inr cents \<Rightarrow> st\<lparr>rs_equity_cents := cents\<rparr>))"

definition new_recovered_order :: "nat list \<Rightarrow> nat list \<Rightarrow> int \<Rightarrow> f64 \<Rightarrow> nat list option \<Rightarrow> recovered_order" where
  "new_recovered_order s act shares limit cid =
     \<lparr>rv_symbol = symbol_or_unknown s, rv_action = act, rv_shares = shares, rv_limit_price_cents = f64_to_i64 limit,
      rv_ibkr_id = 0, rv_client_order_id = cid, rv_submitted = False, rv_filled = False, rv_failed = False,
      rv_failure_reason = None\<rparr>"

definition read_order :: "json \<Rightarrow> recovered_order" where
  "read_order x =
     new_recovered_order (option_or [] (get_str ''symbol'' x)) (option_or [] (get_str ''action'' x))
       (option_or 0 (get_i64 ''shares'' x)) (option_or f64_zero (get_f64 ''limit'' x)) None"

definition read_diff :: "json \<Rightarrow> recovered_state \<Rightarrow> recovered_state" where
  "read_diff data st =
     (case get_array ''orders'' data of None \<Rightarrow> st | Some xs \<Rightarrow> st\<lparr>rs_orders := map read_order xs\<rparr>)"

definition read_intent :: "json \<Rightarrow> recovered_order list \<Rightarrow> recovered_order list" where
  "read_intent data xs =
     (case (get_str ''symbol'' data, get_str ''action'' data, get_i64 ''shares'' data, get_f64 ''limit'' data) of
        (Some s, Some act, Some shares, Some limit) \<Rightarrow>
          let cid = get_str ''client_order_id'' data
          in if list_ex (\<lambda>x. as_str (rv_symbol x) = s) xs
             then update_first (\<lambda>x. as_str (rv_symbol x) = s) (\<lambda>x. x\<lparr>rv_client_order_id := cid\<rparr>) xs
             else xs @ [new_recovered_order s act shares limit cid]
      | _ \<Rightarrow> xs)"

definition read_failed :: "json \<Rightarrow> recovered_order list \<Rightarrow> recovered_order list" where
  "read_failed data xs =
     (case get_str ''symbol'' data of
        None \<Rightarrow> xs
      | Some s \<Rightarrow>
          update_first (\<lambda>x. as_str (rv_symbol x) = s)
            (\<lambda>x. x\<lparr>rv_failed := True, rv_failure_reason := get_str ''reason'' data\<rparr>) xs)"

definition read_submitted :: "json \<Rightarrow> recovered_order list \<Rightarrow> recovered_order list" where
  "read_submitted data xs =
     (case (get_i64 ''ibkr_id'' data, get_str ''symbol'' data) of
        (Some i, Some s) \<Rightarrow>
          update_first (\<lambda>x. as_str (rv_symbol x) = s) (\<lambda>x. x\<lparr>rv_ibkr_id := i32_wrap i, rv_submitted := True\<rparr>) xs
      | _ \<Rightarrow> xs)"

definition read_filled :: "json \<Rightarrow> recovered_order list \<Rightarrow> recovered_order list" where
  "read_filled data xs =
     (case get_i64 ''ibkr_id'' data of
        None \<Rightarrow> xs
      | Some i \<Rightarrow> update_first (\<lambda>x. rv_ibkr_id x = i) (\<lambda>x. x\<lparr>rv_filled := True\<rparr>) xs)"

text \<open>The part common to all checkpoints: the last checkpoint, its number and its time.\<close>

definition mark_checkpoint :: "checkpoint \<Rightarrow> audit_event \<Rightarrow> recovered_state \<Rightarrow> recovered_state" where
  "mark_checkpoint c e st =
     st\<lparr>rs_checkpoint := c, rs_sequence_number := option_or 0 (ae_sequence_number e), rs_timestamp := ae_ts e\<rparr>"

definition apply_checkpoint :: "checkpoint \<Rightarrow> audit_event \<Rightarrow> recovered_state \<Rightarrow> recovered_state" where
  "apply_checkpoint c e st =
     (let data = ae_data e; seq = ae_sequence_number e
      in case c of
           RunStarted \<Rightarrow> st\<lparr>rs_run_completed := False\<rparr>
         | PositionsIntent \<Rightarrow> st\<lparr>rs_positions_intent_logged := True, rs_last_positions_intent := seq\<rparr>
         | PositionsFetched \<Rightarrow> read_equity data (read_positions data st)
         | PositionsResult \<Rightarrow>
             read_equity data (read_positions data (st\<lparr>rs_positions_result_logged := True, rs_last_positions_result := seq\<rparr>))
         | DiffComputed \<Rightarrow> read_diff data st
         | RiskCheckPassed \<Rightarrow> st
         | OrderIntent \<Rightarrow> st\<lparr>rs_orders := read_intent data (rs_orders st)\<rparr>
         | OrderFailed \<Rightarrow> st\<lparr>rs_orders := read_failed data (rs_orders st)\<rparr>
         | OrderSubmitted \<Rightarrow> st\<lparr>rs_orders := read_submitted data (rs_orders st)\<rparr>
         | OrderFilled \<Rightarrow> st\<lparr>rs_orders := read_filled data (rs_orders st)\<rparr>
         | QuotesIntent \<Rightarrow> st\<lparr>rs_quotes_intent_logged := True, rs_last_quotes_intent := seq\<rparr>
         | QuotesResult \<Rightarrow> st\<lparr>rs_quotes_result_logged := True, rs_last_quotes_result := seq\<rparr>
         | AccountSummaryIntent \<Rightarrow> st\<lparr>rs_account_summary_intent_logged := True, rs_last_account_summary_intent := seq\<rparr>
         | AccountSummaryResult \<Rightarrow>
             read_equity data (st\<lparr>rs_account_summary_result_logged := True, rs_last_account_summary_result := seq\<rparr>)
         | CancelIntent \<Rightarrow> st\<lparr>rs_cancel_intent_logged := True, rs_last_cancel_intent := seq\<rparr>
         | CancelResult \<Rightarrow>
             st\<lparr>rs_cancel_result_logged := True, rs_last_cancel_result := seq,
                rs_cancel_failed := (rs_cancel_failed st \<or> Option.bind (json_get ''success'' data) json_as_bool = Some False)\<rparr>
         | RunCompleted \<Rightarrow> st\<lparr>rs_run_completed := True\<rparr>)"

definition recover_event :: "bool \<Rightarrow> recovered_state \<Rightarrow> audit_event \<Rightarrow> recovered_state" where
  "recover_event wal st e =
     (case from_event_name wal (ae_event e) of
        None \<Rightarrow> st
      | Some c \<Rightarrow> apply_checkpoint c e (mark_checkpoint c e st))"

definition recover_events :: "bool \<Rightarrow> int \<Rightarrow> audit_event list \<Rightarrow> recovered_state" where
  "recover_events wal now es = foldl (recover_event wal) (recovered_state_new now) es"

definition reconstruct_state :: "bool \<Rightarrow> int \<Rightarrow> log_line list \<Rightarrow> audit_error + recovered_state \<times> recovery_action" where
  "reconstruct_state wal now ls =
     (case parse_audit_events_from_str ls of
        Inl err \<Rightarrow> Inl err
      | Inr es \<Rightarrow> let st = recover_events wal now es in Inr (st, determine_recovery_action wal st))"

section \<open>Comparison with the broker\<close>

datatype discrepancy =
    OrphanOrder nat order_state
  | MissingOrder "nat list"
  | PositionMismatch "nat list" int int
  | IncompleteIntent "nat list" "nat list option"
  | IncompletePositionsIntent
  | IncompleteQuotesIntent
  | IncompleteAccountSummaryIntent
  | IncompleteCancelIntent

text \<open>\<open>ibkr_id as u64\<close>.\<close>

definition id_as_u64 :: "int \<Rightarrow> nat" where
  "id_as_u64 i = nat (i mod 2 ^ 64)"

definition compare_broker_state :: "bool \<Rightarrow> broker_error + broker_order_status list \<Rightarrow> broker_error + broker_position list \<Rightarrow>
    recovered_state \<Rightarrow> discrepancy list" where
  "compare_broker_state wal open_orders positions st =
     (let broker_orders = (case open_orders of Inl _ \<Rightarrow> [] | Inr xs \<Rightarrow> xs);
          broker_positions = (case positions of Inl _ \<Rightarrow> [] | Inr ps \<Rightarrow> ps)
      in map (\<lambda>b. OrphanOrder (bos_id b) (bos_status b))
           (filter (\<lambda>b. \<not> list_ex (\<lambda>x. id_as_u64 (rv_ibkr_id x) = bos_id b) (rs_orders st)) broker_orders) @
         map (\<lambda>x. MissingOrder (as_str (rv_symbol x)))
           (filter (\<lambda>x. rv_submitted x \<and> \<not> rv_filled x \<and> \<not> list_ex (\<lambda>b. id_as_u64 (rv_ibkr_id x) = bos_id b) broker_orders)
             (rs_orders st)) @
         List.map_filter (\<lambda>b.
             case List.find (\<lambda>p. cp_symbol p = bp_symbol b) (rs_positions st) of
               None \<Rightarrow> None
             | Some p \<Rightarrow>
                 if cp_quantity p \<noteq> bp_quantity b
                 then Some (PositionMismatch (as_str (bp_symbol b)) (bp_quantity b) (cp_quantity p)) else None) broker_positions @
         map (\<lambda>p. PositionMismatch (as_str (cp_symbol p)) 0 (cp_quantity p))
           (filter (\<lambda>p. \<not> list_ex (\<lambda>b. bp_symbol b = cp_symbol p) broker_positions) (rs_positions st)) @
         map (\<lambda>x. IncompleteIntent (as_str (rv_symbol x)) (rv_client_order_id x)) (filter incomplete_intent (rs_orders st)) @
         (if wal \<and> rs_positions_intent_logged st \<and> \<not> rs_positions_result_logged st then [IncompletePositionsIntent] else []) @
         (if wal \<and> rs_quotes_intent_logged st \<and> \<not> rs_quotes_result_logged st then [IncompleteQuotesIntent] else []) @
         (if wal \<and> rs_account_summary_intent_logged st \<and> \<not> rs_account_summary_result_logged st
          then [IncompleteAccountSummaryIntent] else []) @
         (if wal \<and> rs_cancel_intent_logged st \<and> \<not> rs_cancel_result_logged st then [IncompleteCancelIntent] else []))"

definition has_critical_issues :: "discrepancy list \<Rightarrow> bool" where
  "has_critical_issues ds \<longleftrightarrow> ds \<noteq> []"

section \<open>Reconciliation of order intents\<close>

text \<open>
  The broker and the passing of time are parameters: \<open>open_orders\<close> asks the broker, \<open>sleep\<close>
  waits, both on a state of the surroundings; \<open>write\<close> writes one line of the log. The last
  equation of \<open>reconcile_attempts\<close> is the line the code marks as never reached.
\<close>

datatype 'e query_error = QueryFailed 'e | UnexpectedEnd

fun reconcile_attempts :: "('s \<Rightarrow> 's \<times> ('e + broker_order_status list)) \<Rightarrow> (nat \<Rightarrow> 's \<Rightarrow> 's) \<Rightarrow> nat list \<Rightarrow> 's \<Rightarrow>
    's \<times> ('e query_error + nat option)" where
  "reconcile_attempts open_orders sleep [] s = (s, Inl UnexpectedEnd)"
| "reconcile_attempts open_orders sleep (attempt # attempts) s =
     (case open_orders s of
        (s1, Inr xs) \<Rightarrow> (s1, Inr (map_option bos_id (List.find (\<lambda>b. bos_remaining_quantity b > 0) xs)))
      | (s1, Inl e) \<Rightarrow>
          if attempt < 4 then reconcile_attempts open_orders sleep attempts (sleep (1000 * 2 ^ attempt) s1)
          else (s1, Inl (QueryFailed e)))"

definition reconcile_order_intent :: "('s \<Rightarrow> 's \<times> ('e + broker_order_status list)) \<Rightarrow> (nat \<Rightarrow> 's \<Rightarrow> 's) \<Rightarrow> 's \<Rightarrow>
    's \<times> ('e query_error + nat option)" where
  "reconcile_order_intent open_orders sleep = reconcile_attempts open_orders sleep [0..<5]"

datatype 'w reconcile_error = AppendFailed 'w | NotReconciled nat

definition reconciled_event :: "recovered_order \<Rightarrow> nat option \<Rightarrow> nat \<Rightarrow> int \<Rightarrow> audit_event" where
  "reconciled_event x found seq ts =
     (case found of
        Some i \<Rightarrow>
          log_checkpoint OrderSubmitted seq
            (JObj [(''symbol'', symbol_json (rv_symbol x)), (''ibkr_id'', count_json i), (''reconciled'', JBool True)]) ts
      | None \<Rightarrow>
          log_checkpoint OrderFailed seq
            (JObj [(''symbol'', symbol_json (rv_symbol x)), (''reason'', JStr (bytes_of ''not_found_at_broker'')),
                   (''reconciled'', JBool True)]) ts)"

fun reconcile_loop :: "('s \<Rightarrow> 's \<times> ('e + broker_order_status list)) \<Rightarrow> (nat \<Rightarrow> 's \<Rightarrow> 's) \<Rightarrow>
    ((int \<Rightarrow> audit_event) \<Rightarrow> 's \<Rightarrow> 's \<times> ('w + unit)) \<Rightarrow> nat \<Rightarrow> nat \<Rightarrow> recovered_order list \<Rightarrow> 's \<Rightarrow> 's \<times> ('w reconcile_error + unit)" where
  "reconcile_loop open_orders sleep write seq failed [] s =
     (s, if failed > 0 then Inl (NotReconciled failed) else Inr ())"
| "reconcile_loop open_orders sleep write seq failed (x # xs) s =
     (if \<not> incomplete_intent x then reconcile_loop open_orders sleep write seq failed xs s
      else case reconcile_order_intent open_orders sleep s of
             (s1, Inl _) \<Rightarrow> reconcile_loop open_orders sleep write seq (failed + 1) xs s1
           | (s1, Inr found) \<Rightarrow>
               (case write (reconciled_event x found seq) s1 of
                  (s2, Inl e) \<Rightarrow> (s2, Inl (AppendFailed e))
                | (s2, Inr _) \<Rightarrow> reconcile_loop open_orders sleep write (u64_add seq 1) failed xs s2))"

definition reconcile_incomplete_intents :: "('s \<Rightarrow> 's \<times> ('e + broker_order_status list)) \<Rightarrow> (nat \<Rightarrow> 's \<Rightarrow> 's) \<Rightarrow>
    ((int \<Rightarrow> audit_event) \<Rightarrow> 's \<Rightarrow> 's \<times> ('w + unit)) \<Rightarrow> recovered_state \<Rightarrow> 's \<Rightarrow> 's \<times> ('w reconcile_error + unit)" where
  "reconcile_incomplete_intents open_orders sleep write st =
     reconcile_loop open_orders sleep write (u64_add (rs_sequence_number st) 1) 0 (rs_orders st)"

section \<open>The recovery command\<close>

text \<open>
  What \<open>run_recover\<close> does besides printing: the log is read, the broker, when there is one, is
  asked for its orders and positions, open intents are reconciled, which may change the log, and
  the action recommended before the reconciliation decides the result.
\<close>

datatype recover_error = BadLog audit_error | ReviewRequired | RollbackRequired

record ('s, 'e) recovery_broker =
  rb_open_orders :: "'s \<Rightarrow> 's \<times> ('e + broker_order_status list)"
  rb_positions :: "'s \<Rightarrow> 's \<times> ('e + broker_position list)"

definition recovery_result :: "recovery_action \<Rightarrow> recover_error + unit" where
  "recovery_result act =
     (case act of Restart \<Rightarrow> Inr () | Resume \<Rightarrow> Inr () | ManualReview \<Rightarrow> Inl ReviewRequired | Rollback \<Rightarrow> Inl RollbackRequired)"

definition run_recover :: "bool \<Rightarrow> int \<Rightarrow> ('s \<Rightarrow> log_line list) \<Rightarrow> ('s, 'e) recovery_broker option \<Rightarrow> (nat \<Rightarrow> 's \<Rightarrow> 's) \<Rightarrow>
    ((int \<Rightarrow> audit_event) \<Rightarrow> 's \<Rightarrow> 's \<times> ('w + unit)) \<Rightarrow> 's \<Rightarrow> 's \<times> (recover_error + unit)" where
  "run_recover wal now read_file broker sleep write s =
     (case reconstruct_state wal now (read_file s) of
        Inl err \<Rightarrow> (s, Inl (BadLog err))
      | Inr (st, act) \<Rightarrow>
          (case broker of
             None \<Rightarrow> (s, recovery_result act)
           | Some b \<Rightarrow>
               let s1 = fst (rb_open_orders b s); s2 = fst (rb_positions b s1)
               in if wal \<and> list_ex incomplete_intent (rs_orders st)
                  then (case reconcile_incomplete_intents (rb_open_orders b) sleep write st s2 of
                          (s3, Inl _) \<Rightarrow> (s3, recovery_result act)
                        | (s3, Inr _) \<Rightarrow>
                            (case reconstruct_state wal now (read_file s3) of
                               Inl err \<Rightarrow> (s3, Inl (BadLog err))
                             | Inr _ \<Rightarrow> (s3, recovery_result act)))
                  else (s2, recovery_result act)))"

end
