(* ===== verification/Execution.thy ===== *)
theory Execution
  imports Recovery
begin

text \<open>
  The orchestrator of a rebalance (\<open>rebalancer/src/execution.rs\<close>): from the account, the
  positions and the quotes over the diff and the risk check to the orders, with every line it
  writes to the audit log, for builds with and without write-ahead logging (\<open>wal\<close>). The broker
  gateway, the clock, the signal flag, the prompt and the disk are the fields of an environment
  acting on a state of their own; console output is left out. A write to the log that fails
  leaves the log as it was.
\<close>

section \<open>Quotes\<close>

record quote =
  qt_symbol :: symbol
  qt_bid_cents :: int
  qt_ask_cents :: int
  qt_last_cents :: int
  qt_volume :: nat
  qt_timestamp :: int

text \<open>\<open>elapsed\<close> fails for a time in the future. Times are nanoseconds.\<close>

definition is_stale :: "int \<Rightarrow> nat \<Rightarrow> quote \<Rightarrow> bool" where
  "is_stale now threshold_sec q =
     (if qt_timestamp q > now then True else (now - qt_timestamp q) div 10 ^ 9 > int threshold_sec)"

definition quote_mid_cents :: "quote \<Rightarrow> int" where
  "quote_mid_cents q =
     (let bid = qt_bid_cents q; ask = qt_ask_cents q
      in if bid > 0 \<and> ask > 0 then i64_wrap (bid + trunc_div (i64_wrap (ask - bid)) 2)
         else if bid > 0 then bid
         else if ask > 0 then ask
         else qt_last_cents q)"

definition quote_mid_prices :: "quote list \<Rightarrow> (symbol \<times> int) list" where
  "quote_mid_prices qs = map (\<lambda>q. (qt_symbol q, quote_mid_cents q)) qs"

section \<open>Targets and configuration\<close>

record constraints =
  cn_max_position_pct :: "f64 option"
  cn_max_leverage :: "f64 option"
  cn_min_trade_usd :: "f64 option"

text \<open>The rendered time stamp and the hash of the specification are given.\<close>

record target_spec =
  tg_timestamp_text :: "nat list"
  tg_metadata_id :: "nat list"
  tg_window_id :: "nat list"
  tg_targets :: "target_position list"
  tg_constraints :: "constraints option"

text \<open>\<open>trim().is_empty()\<close>: nothing but white space, in UTF-8.\<close>

fun blank_text :: "nat list \<Rightarrow> bool" where
  "blank_text [] = True"
| "blank_text (b # bs) =
     (if b = 32 \<or> (9 \<le> b \<and> b \<le> 13) then blank_text bs
      else case bs of
             c # cs \<Rightarrow>
               if b = 194 \<and> (c = 133 \<or> c = 160) then blank_text cs
               else (case cs of
                       d # ds \<Rightarrow>
                         if (b, c, d) = (225, 154, 128) \<or> (b = 226 \<and> c = 128 \<and> (128 \<le> d \<and> d \<le> 138 \<or> d \<in> set [168, 169, 175])) \<or>
                            (b, c, d) = (226, 129, 159) \<or> (b, c, d) = (227, 128, 128)
                         then blank_text ds else False
                     | [] \<Rightarrow> False)
           | [] \<Rightarrow> False)"

definition idempotency_scope :: "target_spec \<Rightarrow> nat list" where
  "idempotency_scope t = (if blank_text (tg_metadata_id t) then tg_timestamp_text t else tg_metadata_id t)"

definition apply_constraint_overrides :: "rebalancer_risk_config \<Rightarrow> target_spec \<Rightarrow> rebalancer_risk_config" where
  "apply_constraint_overrides base t =
     (case tg_constraints t of
        None \<Rightarrow> base
      | Some c \<Rightarrow>
          base\<lparr>rr_max_position_pct := option_or (rr_max_position_pct base) (cn_max_position_pct c),
               rr_max_leverage := option_or (rr_max_leverage base) (cn_max_leverage c),
               rr_min_trade_usd := option_or (rr_min_trade_usd base) (cn_min_trade_usd c)\<rparr>)"

record run_config =
  rc_account_id :: "nat list"
  rc_target_file :: "nat list"
  rc_quote_staleness_threshold_sec :: nat
  rc_limit_offset_bps :: nat
  rc_max_orders_per_run :: nat
  rc_order_interval_ms :: nat
  rc_risk :: rebalancer_risk_config

record run_options =
  op_dry_run :: bool
  op_force :: bool
  op_cron_mode :: bool

section \<open>Small steps\<close>

definition to_current_positions :: "broker_position list \<Rightarrow> current_position list" where
  "to_current_positions ps =
     map (\<lambda>p. \<lparr>cp_symbol = bp_symbol p, cp_quantity = bp_quantity p, cp_avg_cost_cents = bp_avg_cost_cents p\<rparr>) ps"

definition next_checkpoint_sequence :: "nat \<Rightarrow> nat" where
  "next_checkpoint_sequence n = u64_sat_add n 1"

definition remaining_orders_after :: "nat \<Rightarrow> nat \<Rightarrow> nat" where
  "remaining_orders_after i n_orders = n_orders - u64_sat_add i 1"

fun add_new_symbols :: "symbol list \<Rightarrow> symbol list \<Rightarrow> symbol list" where
  "add_new_symbols seen [] = []"
| "add_new_symbols seen (y # ys) =
     (if y \<in> set seen then add_new_symbols seen ys else y # add_new_symbols (y # seen) ys)"

definition collect_all_symbols :: "current_position list \<Rightarrow> symbol list \<Rightarrow> symbol list" where
  "collect_all_symbols ps target_symbols =
     (let ys = map cp_symbol ps in ys @ add_new_symbols ys target_symbols)"

definition is_transient_error :: "broker_error \<Rightarrow> bool" where
  "is_transient_error e =
     (case e of
        Connection _ \<Rightarrow> True
      | NotConnected \<Rightarrow> True
      | RateLimit \<Rightarrow> True
      | ConnectionLost _ _ \<Rightarrow> True
      | ReconnectFailed _ _ \<Rightarrow> True
      | _ \<Rightarrow> False)"

section \<open>The environment\<close>

record 's env =
  en_connect :: "'s \<Rightarrow> 's \<times> (broker_error + unit)"
  en_account_summary :: "'s \<Rightarrow> 's \<times> (broker_error + account)"
  en_positions :: "'s \<Rightarrow> 's \<times> (broker_error + broker_position list)"
  en_quotes :: "symbol list \<Rightarrow> 's \<Rightarrow> 's \<times> (broker_error + quote list)"
  en_execute :: "symbol \<Rightarrow> broker_side \<Rightarrow> nat \<Rightarrow> int \<Rightarrow> nat list \<Rightarrow> 's \<Rightarrow> 's \<times> (broker_error + order_result)"
  en_cancel :: "nat \<Rightarrow> 's \<Rightarrow> 's \<times> (broker_error + unit)"
  en_install_handler :: "'s \<Rightarrow> 's \<times> bool"
  en_shutdown :: "'s \<Rightarrow> 's \<times> bool"
  en_confirm :: "'s \<Rightarrow> 's \<times> bool option"
  en_sleep :: "nat \<Rightarrow> 's \<Rightarrow> 's"
  en_now :: "'s \<Rightarrow> 's \<times> int"
  en_elapsed :: "'s \<Rightarrow> 's \<times> f64"
  en_open_log :: "'s \<Rightarrow> 's \<times> bool"
  en_write :: "'s \<Rightarrow> 's \<times> bool"
  en_time_text :: "int \<Rightarrow> nat list"
  en_show :: "broker_error \<Rightarrow> nat list"
  en_sha256 :: "nat list \<Rightarrow> nat list"

datatype abort_reason =
    PidFileNotFound
  | InvalidPid
  | SignalFailed
  | ProcessCheckFailed
  | DidNotExit nat
  | DanglingOrders nat
  | CancellationIncomplete nat

datatype run_error =
    HandlerFailed
  | Aborted abort_reason
  | IdempotencyRejection "nat list" nat
  | ConnectionFailed broker_error
  | ClockBeforeEpoch
  | AuditIo
  | StaleQuote symbol
  | TooManyOrders nat nat
  | RiskChecksFailed
  | PromptFailed
  | NegativeShares
  | OrderFailedFinally broker_error
  | CancelFailed nat broker_error
  | RunPanic "string"

type_synonym 's world = "'s \<times> audit_event list"

type_synonym ('s, 'a) act = "'s world \<Rightarrow> 's world \<times> (run_error + 'a)"

definition give :: "'a \<Rightarrow> ('s, 'a) act" where
  "give x w = (w, Inr x)"

definition raise :: "run_error \<Rightarrow> ('s, 'a) act" where
  "raise e w = (w, Inl e)"

definition abind :: "('s, 'a) act \<Rightarrow> ('a \<Rightarrow> ('s, 'b) act) \<Rightarrow> ('s, 'b) act" where
  "abind m f w = (case m w of (w', Inl e) \<Rightarrow> (w', Inl e) | (w', Inr x) \<Rightarrow> f x w')"

text \<open>A call whose error is looked at and not passed on.\<close>

definition observed :: "('s, 'a) act \<Rightarrow> ('s, run_error + 'a) act" where
  "observed m w = (case m w of (w', r) \<Rightarrow> (w', Inr r))"

definition ask :: "('s \<Rightarrow> 's \<times> 'a) \<Rightarrow> ('s, 'a) act" where
  "ask f w = (case w of (s, l) \<Rightarrow> (case f s of (s', r) \<Rightarrow> ((s', l), Inr r)))"

definition call :: "(broker_error \<Rightarrow> run_error) \<Rightarrow> ('s \<Rightarrow> 's \<times> (broker_error + 'a)) \<Rightarrow> ('s, 'a) act" where
  "call err f = abind (ask f) (\<lambda>r. case r of Inl e \<Rightarrow> raise (err e) | Inr x \<Rightarrow> give x)"

definition pause :: "'s env \<Rightarrow> nat \<Rightarrow> ('s, unit) act" where
  "pause en ms w = (case w of (s, l) \<Rightarrow> ((en_sleep en ms s, l), Inr ()))"

definition read_log :: "('s, audit_event list) act" where
  "read_log w = (w, Inr (snd w))"

definition open_log :: "'s env \<Rightarrow> ('s, unit) act" where
  "open_log en = abind (ask (en_open_log en)) (\<lambda>ok. if ok then give () else raise AuditIo)"

definition add_line :: "audit_event \<Rightarrow> ('s, unit) act" where
  "add_line e w = (case w of (s, l) \<Rightarrow> ((s, l @ [e]), Inr ()))"

definition audit_write :: "'s env \<Rightarrow> (int \<Rightarrow> audit_event) \<Rightarrow> ('s, unit) act" where
  "audit_write en f =
     abind (ask (en_now en)) (\<lambda>ts.
     abind (ask (en_write en)) (\<lambda>ok.
     if ok then add_line (f ts) else raise AuditIo))"

definition of_outcome :: "'a outcome \<Rightarrow> ('s, 'a) act" where
  "of_outcome r = (case r of Inl (Panic m) \<Rightarrow> raise (RunPanic m) | Inr x \<Rightarrow> give x)"

section \<open>Broker calls with write-ahead logging\<close>

definition fetch_account_summary_with_write_ahead :: "bool \<Rightarrow> 's env \<Rightarrow> nat list \<Rightarrow> nat \<Rightarrow> ('s, nat \<times> account) act" where
  "fetch_account_summary_with_write_ahead wal en spec seq =
     (if wal
      then let seq1 = next_checkpoint_sequence seq; seq2 = next_checkpoint_sequence seq1
           in abind (ask (en_now en)) (\<lambda>now.
              abind (audit_write en (log_account_summary_intent_checkpoint seq1 (en_time_text en now) spec)) (\<lambda>_.
              abind (call ConnectionFailed (en_account_summary en)) (\<lambda>a.
              abind (audit_write en (log_account_summary_result_checkpoint seq2 (ac_equity_cents a) (ac_cash_cents a))) (\<lambda>_.
              give (seq2, a)))))
      else abind (call ConnectionFailed (en_account_summary en)) (\<lambda>a. give (seq, a)))"

definition fetch_positions_with_write_ahead :: "bool \<Rightarrow> 's env \<Rightarrow> nat list \<Rightarrow> int \<Rightarrow> nat \<Rightarrow> ('s, nat \<times> broker_position list) act" where
  "fetch_positions_with_write_ahead wal en spec equity_cents seq =
     (if wal
      then let seq1 = next_checkpoint_sequence seq; seq2 = next_checkpoint_sequence seq1
           in abind (ask (en_now en)) (\<lambda>now.
              abind (audit_write en (log_positions_intent_checkpoint seq1 (en_time_text en now) spec)) (\<lambda>_.
              abind (call ConnectionFailed (en_positions en)) (\<lambda>ps.
              abind (audit_write en (log_positions_result_checkpoint seq2 (to_current_positions ps) equity_cents)) (\<lambda>_.
              give (seq2, ps)))))
      else abind (call ConnectionFailed (en_positions en)) (\<lambda>ps. give (seq, ps)))"

definition quote_json :: "'s env \<Rightarrow> quote \<Rightarrow> json" where
  "quote_json en q =
     JObj [(''symbol'', symbol_json (qt_symbol q)), (''bid_cents'', JInt (qt_bid_cents q)), (''ask_cents'', JInt (qt_ask_cents q)),
           (''last_cents'', JInt (qt_last_cents q)), (''timestamp'', JStr (en_time_text en (qt_timestamp q)))]"

definition log_quotes_result_checkpoint :: "'s env \<Rightarrow> nat \<Rightarrow> quote list \<Rightarrow> int \<Rightarrow> audit_event" where
  "log_quotes_result_checkpoint en seq qs = log_checkpoint QuotesResult seq (JObj [(''quotes'', JArr (map (quote_json en) qs))])"

definition log_quotes_result :: "'s env \<Rightarrow> quote list \<Rightarrow> int \<Rightarrow> audit_event" where
  "log_quotes_result en qs = log_plain ''quotes_result'' (JObj [(''quotes'', JArr (map (quote_json en) qs))])"

definition fetch_quotes_with_write_ahead :: "bool \<Rightarrow> 's env \<Rightarrow> nat list \<Rightarrow> symbol list \<Rightarrow> nat \<Rightarrow> nat \<Rightarrow> ('s, nat \<times> quote list) act" where
  "fetch_quotes_with_write_ahead wal en spec symbols staleness seq =
     (if wal
      then let seq1 = next_checkpoint_sequence seq; seq2 = next_checkpoint_sequence seq1
           in abind (ask (en_now en)) (\<lambda>now.
              abind (audit_write en (log_quotes_intent_checkpoint seq1 symbols staleness (en_time_text en now) spec)) (\<lambda>_.
              abind (call ConnectionFailed (en_quotes en symbols)) (\<lambda>qs.
              abind (audit_write en (log_quotes_result_checkpoint en seq2 qs)) (\<lambda>_.
              give (seq2, qs)))))
      else abind (call ConnectionFailed (en_quotes en symbols)) (\<lambda>qs. give (seq, qs)))"

definition cancel_order_with_write_ahead :: "bool \<Rightarrow> 's env \<Rightarrow> nat \<Rightarrow> nat \<Rightarrow> nat list \<Rightarrow> ('s, unit) act" where
  "cancel_order_with_write_ahead wal en seq order_id reason =
     (if wal
      then let seq1 = next_checkpoint_sequence seq; seq2 = next_checkpoint_sequence seq1
           in abind (ask (en_now en)) (\<lambda>now.
              abind (audit_write en (log_cancel_intent_checkpoint seq1 order_id reason (en_time_text en now))) (\<lambda>_.
              abind (ask (en_cancel en order_id)) (\<lambda>r.
              case r of
                Inr _ \<Rightarrow> audit_write en (log_cancel_result_checkpoint seq2 order_id True None)
              | Inl e \<Rightarrow>
                  abind (audit_write en (log_cancel_result_checkpoint seq2 order_id False (Some (en_show en e)))) (\<lambda>_.
                  raise (CancelFailed order_id e)))))
      else call (CancelFailed order_id) (en_cancel en order_id))"

section \<open>Orders\<close>

definition derive_client_order_id :: "'s env \<Rightarrow> target_spec \<Rightarrow> rebalance_order \<Rightarrow> ('s, nat list) act" where
  "derive_client_order_id en t x =
     (if ro_shares x < 0 then raise NegativeShares
      else give (derive_id (en_sha256 en) (idempotency_scope t) (as_str (ro_symbol x)) (action_to_side (ro_action x)) (nat (ro_shares x))))"

definition order_context :: "rebalance_order \<Rightarrow> nat list \<Rightarrow> nat list" where
  "order_context x cid = bytes_of ''symbol:'' @ as_str (ro_symbol x) @ bytes_of '', client_order_id:'' @ cid"

text \<open>The retry loop: \<open>n\<close> is the number of retries left, so the attempt is number \<open>5 - n\<close>.\<close>

fun execute_retry :: "'s env \<Rightarrow> rebalance_order \<Rightarrow> nat list \<Rightarrow> nat \<Rightarrow> nat \<Rightarrow> ('s, order_result) act" where
  "execute_retry en x cid seq n =
     abind (ask (en_execute en (ro_symbol x) (action_to_side (ro_action x)) (nat (ro_shares x)) (ro_limit_price_cents x) cid)) (\<lambda>r.
     case r of
       Inr result \<Rightarrow>
         abind (audit_write en (log_order_submitted_checkpoint (u64_sat_add seq 1) x (or_order_id result))) (\<lambda>_. give result)
     | Inl e \<Rightarrow>
         if is_transient_error e
         then (case n of
                 Suc k \<Rightarrow> abind (pause en (1000 * 2 ^ (4 - n))) (\<lambda>_. execute_retry en x cid seq k)
               | 0 \<Rightarrow>
                   abind (audit_write en (log_order_failed_checkpoint (u64_sat_add seq 1) (bytes_of ''max_retries_exceeded'')
                            (en_show en e @ bytes_of '' (attempts: 5)'') (order_context x cid))) (\<lambda>_.
                   raise (OrderFailedFinally e)))
         else abind (audit_write en (log_order_failed_checkpoint (u64_sat_add seq 1) (bytes_of ''permanent_error'')
                       (en_show en e) (order_context x cid))) (\<lambda>_.
              raise (OrderFailedFinally e)))"

definition execute_order_with_write_ahead :: "bool \<Rightarrow> 's env \<Rightarrow> rebalance_order \<Rightarrow> nat list \<Rightarrow> nat \<Rightarrow> nat list \<Rightarrow> ('s, order_result) act" where
  "execute_order_with_write_ahead wal en x cid seq spec =
     (if ro_shares x < 0 then raise NegativeShares
      else if wal
      then abind (ask (en_now en)) (\<lambda>now.
           abind (audit_write en (log_order_intent_checkpoint seq x cid (en_time_text en now) spec (bytes_of (''rebalance_run:'' @ show_nat seq)))) (\<lambda>_.
           execute_retry en x cid seq 4))
      else call OrderFailedFinally
             (en_execute en (ro_symbol x) (action_to_side (ro_action x)) (nat (ro_shares x)) (ro_limit_price_cents x) cid))"

text \<open>Orders submitted, filled and failed so far.\<close>

type_synonym counts = "nat \<times> nat \<times> nat"

datatype loop_end = ShutDown | AllDone nat counts

definition log_graceful_stop :: "'s env \<Rightarrow> nat \<Rightarrow> ('s, loop_end) act" where
  "log_graceful_stop en cancelled =
     abind (ask (en_elapsed en)) (\<lambda>secs.
     abind (audit_write en (log_kill_completed (bytes_of ''graceful'') cancelled secs)) (\<lambda>_.
     give ShutDown))"

definition log_fill :: "bool \<Rightarrow> 's env \<Rightarrow> nat \<Rightarrow> order_result \<Rightarrow> ('s, nat) act" where
  "log_fill wal en seq r =
     (if wal
      then let seq1 = next_checkpoint_sequence seq
           in abind (audit_write en (log_order_filled_checkpoint seq1 r)) (\<lambda>_. give seq1)
      else abind (audit_write en (log_order_filled r)) (\<lambda>_. give seq))"

text \<open>One order: the new sequence number, the counts, and the order to cancel on a shutdown.\<close>

definition run_one_order :: "bool \<Rightarrow> 's env \<Rightarrow> target_spec \<Rightarrow> nat \<Rightarrow> counts \<Rightarrow> rebalance_order \<Rightarrow>
    ('s, nat \<times> counts \<times> int option) act" where
  "run_one_order wal en t seq = (\<lambda>(submitted, filled, failed) x.
     abind (derive_client_order_id en t x) (\<lambda>cid.
     let order_seq = next_checkpoint_sequence seq
     in abind (observed (execute_order_with_write_ahead wal en x cid order_seq (idempotency_scope t))) (\<lambda>result.
        let seq1 = max order_seq (u64_sat_add order_seq 1)
        in case result of
             Inl _ \<Rightarrow> give (seq1, (submitted + 1, filled, failed + 1), None)
           | Inr r \<Rightarrow>
               abind (log_fill wal en seq1 r) (\<lambda>seq2.
               give (seq2,
                     (case or_status r of
                        OutFilled \<Rightarrow> ((submitted + 1, filled + 1, failed), None)
                      | OutPartialFill \<Rightarrow> ((submitted + 1, filled + 1, failed), Some (or_order_id r))
                      | OutCancelled \<Rightarrow> ((submitted + 1, filled, failed + 1), None)
                      | OutFailed \<Rightarrow> ((submitted + 1, filled, failed + 1), None)))))))"

fun run_orders :: "bool \<Rightarrow> 's env \<Rightarrow> target_spec \<Rightarrow> nat \<Rightarrow> nat \<Rightarrow> nat \<Rightarrow> nat \<Rightarrow> counts \<Rightarrow> rebalance_order list \<Rightarrow> ('s, loop_end) act" where
  "run_orders wal en t interval n_orders i seq c [] = give (AllDone seq c)"
| "run_orders wal en t interval n_orders i seq c (x # xs) =
     abind (ask (en_shutdown en)) (\<lambda>stop.
     if stop then log_graceful_stop en (n_orders - i)
     else abind (run_one_order wal en t seq c x) (\<lambda>(seq', c', to_cancel).
          abind (ask (en_shutdown en)) (\<lambda>stop'.
          if stop'
          then (case to_cancel of
                  None \<Rightarrow> log_graceful_stop en (remaining_orders_after i n_orders)
                | Some k \<Rightarrow>
                    abind (cancel_order_with_write_ahead wal en seq' (if k < 0 then 0 else nat k)
                             (bytes_of ''graceful_shutdown_partial_fill'')) (\<lambda>_.
                    log_graceful_stop en (remaining_orders_after i n_orders + 1)))
          else abind (if i + 1 < n_orders then pause en interval else give ()) (\<lambda>_.
               run_orders wal en t interval n_orders (i + 1) seq' c' xs))))"

section \<open>A run\<close>

definition cron_check :: "'s env \<Rightarrow> target_spec \<Rightarrow> bool \<Rightarrow> ('s, unit) act" where
  "cron_check en t cron =
     (if \<not> cron then give ()
      else abind (open_log en) (\<lambda>_.
           abind read_log (\<lambda>es.
           case check_window_already_complete (tg_window_id t) es of
             None \<Rightarrow> give ()
           | Some n \<Rightarrow>
               abind (open_log en) (\<lambda>_.
               abind (audit_write en (log_idempotency_rejection (tg_window_id t) n)) (\<lambda>_.
               raise (IdempotencyRejection (tg_window_id t) n))))))"

text \<open>The start of a run: the sequence number of the run and the next checkpoint number.\<close>

definition start_run :: "bool \<Rightarrow> 's env \<Rightarrow> run_config \<Rightarrow> target_spec \<Rightarrow> run_options \<Rightarrow> ('s, nat \<times> nat) act" where
  "start_run wal en c t opts =
     abind (ask (en_install_handler en)) (\<lambda>ok.
     if \<not> ok then raise HandlerFailed
     else abind (cron_check en t (op_cron_mode opts)) (\<lambda>_.
          abind (call ConnectionFailed (en_connect en)) (\<lambda>_.
          abind read_log (\<lambda>es.
          abind (open_log en) (\<lambda>_.
          abind (ask (en_now en)) (\<lambda>now.
          if now < 0 then raise ClockBeforeEpoch
          else let run_seq = max (nat (now div 10 ^ 9)) (foldl max 0 (checkpoint_sequences wal es))
               in abind (if wal
                         then let seq1 = next_checkpoint_sequence run_seq
                              in abind (audit_write en (log_run_started_checkpoint seq1 (rc_target_file c) (rc_account_id c))) (\<lambda>_. give seq1)
                         else abind (audit_write en (log_run_started (rc_target_file c) (rc_account_id c))) (\<lambda>_. give run_seq)) (\<lambda>seq.
                  abind (if op_cron_mode opts then audit_write en (log_cron_start run_seq (tg_window_id t)) else give ()) (\<lambda>_.
                  give (run_seq, seq)))))))))"

definition complete_run :: "bool \<Rightarrow> 's env \<Rightarrow> nat \<Rightarrow> counts \<Rightarrow> ('s, unit) act" where
  "complete_run wal en seq = (\<lambda>(submitted, filled, failed).
     if wal then audit_write en (log_run_completed_checkpoint (next_checkpoint_sequence seq) submitted filled failed)
     else audit_write en (log_run_completed submitted filled failed))"

fun check_fresh :: "'s env \<Rightarrow> nat \<Rightarrow> quote list \<Rightarrow> ('s, unit) act" where
  "check_fresh en threshold_sec [] = give ()"
| "check_fresh en threshold_sec (q # qs) =
     abind (ask (en_now en)) (\<lambda>now.
     if is_stale now threshold_sec q then raise (StaleQuote (qt_symbol q)) else check_fresh en threshold_sec qs)"

text \<open>What the orders are computed from.\<close>

definition observe_market :: "bool \<Rightarrow> 's env \<Rightarrow> run_config \<Rightarrow> target_spec \<Rightarrow> nat \<Rightarrow>
    ('s, nat \<times> account \<times> current_position list \<times> symbol list \<times> (symbol \<times> int) list) act" where
  "observe_market wal en c t seq =
     abind (fetch_account_summary_with_write_ahead wal en (idempotency_scope t) seq) (\<lambda>(seq, summary).
     abind (fetch_positions_with_write_ahead wal en (idempotency_scope t) (ac_equity_cents summary) seq) (\<lambda>(seq, bps).
     let ps = to_current_positions bps
     in abind (if wal then give () else audit_write en (log_positions ps (ac_equity_cents summary))) (\<lambda>_.
        abind (of_outcome (as_target_pairs (tg_targets t))) (\<lambda>pairs.
        let symbols = collect_all_symbols ps (map fst pairs)
        in abind (fetch_quotes_with_write_ahead wal en (idempotency_scope t) symbols (rc_quote_staleness_threshold_sec c) seq) (\<lambda>(seq, qs).
           abind (check_fresh en (rc_quote_staleness_threshold_sec c) qs) (\<lambda>_.
           give (seq, summary, ps, symbols, quote_mid_prices qs)))))))"

definition confirm_execution :: "'s env \<Rightarrow> bool \<Rightarrow> ('s, bool) act" where
  "confirm_execution en force =
     (if force then give True
      else abind (ask (en_confirm en)) (\<lambda>answer.
           case answer of
             None \<Rightarrow> raise PromptFailed
           | Some yes \<Rightarrow>
               abind (audit_write en (log_plain ''user_confirmed'' (JObj [(''approved'', JBool yes)]))) (\<lambda>_. give yes)))"

text \<open>The last part: positions, quotes and account after the orders. The report is printed.\<close>

definition observe_result :: "bool \<Rightarrow> 's env \<Rightarrow> run_config \<Rightarrow> target_spec \<Rightarrow> account \<Rightarrow> symbol list \<Rightarrow> nat \<Rightarrow> ('s, nat) act" where
  "observe_result wal en c t summary symbols seq =
     abind (fetch_positions_with_write_ahead wal en (idempotency_scope t) (ac_equity_cents summary) seq) (\<lambda>(seq, _).
     abind (fetch_quotes_with_write_ahead wal en (idempotency_scope t) symbols (rc_quote_staleness_threshold_sec c) seq) (\<lambda>(seq, _).
     abind (fetch_account_summary_with_write_ahead wal en (idempotency_scope t) seq) (\<lambda>(seq, _). give seq)))"

definition execute_plan :: "bool \<Rightarrow> 's env \<Rightarrow> run_config \<Rightarrow> target_spec \<Rightarrow> run_options \<Rightarrow> nat \<Rightarrow> nat \<Rightarrow> account \<Rightarrow> symbol list \<Rightarrow>
    rebalance_order list \<Rightarrow> ('s, unit) act" where
  "execute_plan wal en c t opts run_seq seq summary symbols orders =
     abind (confirm_execution en (op_force opts)) (\<lambda>yes.
     if \<not> yes then give ()
     else abind (run_orders wal en t (rc_order_interval_ms c) (length orders) 0 seq (0, 0, 0) orders) (\<lambda>outcome.
          case outcome of
            ShutDown \<Rightarrow> give ()
          | AllDone seq (submitted, filled, failed) \<Rightarrow>
              abind (observe_result wal en c t summary symbols seq) (\<lambda>seq.
              abind (if op_cron_mode opts
                     then audit_write en (log_cron_completed run_seq (tg_window_id t) submitted filled failed) else give ()) (\<lambda>_.
              complete_run wal en seq (submitted, filled, failed)))))"

definition run :: "bool \<Rightarrow> 's env \<Rightarrow> run_config \<Rightarrow> target_spec \<Rightarrow> run_options \<Rightarrow> ('s, unit) act" where
  "run wal en c t opts =
     abind (start_run wal en c t opts) (\<lambda>(run_seq, seq).
     abind (observe_market wal en c t seq) (\<lambda>(seq, summary, ps, symbols, prices).
     abind (of_outcome (as_target_pairs (tg_targets t))) (\<lambda>targets.
     let min_trade_cents = f64_to_i64 (f64_mul (rr_min_trade_usd (rc_risk c)) (f64_of_int 100));
         orders = compute_diff (ac_equity_cents summary) ps targets prices (rc_limit_offset_bps c) min_trade_cents
     in if length orders > rc_max_orders_per_run c then raise (TooManyOrders (length orders) (rc_max_orders_per_run c))
        else abind (if wal
                    then let seq1 = next_checkpoint_sequence seq
                         in abind (audit_write en (log_diff_checkpoint seq1 orders)) (\<lambda>_. give seq1)
                    else abind (audit_write en (log_diff orders)) (\<lambda>_. give seq)) (\<lambda>seq.
             if orders = []
             then abind (audit_write en (log_plain ''no_rebalance_needed'' (JObj []))) (\<lambda>_. complete_run wal en seq (0, 0, 0))
             else let report = check_risk orders (ac_equity_cents summary) targets prices
                        (collect_map (map (\<lambda>p. (cp_symbol p, cp_quantity p)) ps))
                        (apply_constraint_overrides (rc_risk c) t)
                  in abind (audit_write en (log_risk_check report)) (\<lambda>_.
                     if has_failures report then raise RiskChecksFailed
                     else abind (if wal
                                 then let seq1 = next_checkpoint_sequence seq
                                      in abind (audit_write en (log_risk_check_passed_checkpoint seq1 report)) (\<lambda>_. give seq1)
                                 else give seq) (\<lambda>seq.
                          if op_dry_run opts then give ()
                          else execute_plan wal en c t opts run_seq seq summary symbols orders))))))"

end
