(* ===== verification/Kill.thy ===== *)
theory Kill
  imports Execution
begin

text \<open>
  The kill switch (\<open>rebalancer/src/kill.rs\<close>): orders left over according to the audit log, the
  forced cancellation of open orders with retries, and the two workflows. The broker is given by
  its operations on a state; signals, the process table and the PID file are parameters.
\<close>

section \<open>Dangling orders\<close>

record dangling_order =
  dg_symbol :: "nat list"
  dg_ibkr_id :: int
  dg_action :: "nat list"
  dg_shares :: int
  dg_limit_price_cents :: int
  dg_timestamp :: int

text \<open>The JSON object of a line. The data of an event is flattened into the object.\<close>

fun json_fields :: "json \<Rightarrow> (string \<times> json) list" where
  "json_fields (JObj kvs) = kvs"
| "json_fields _ = []"

definition event_value :: "(int \<Rightarrow> nat list) \<Rightarrow> audit_event \<Rightarrow> json" where
  "event_value time_text e =
     JObj ([(''event'', JStr (bytes_of (ae_event e))), (''ts'', JStr (time_text (ae_ts e)))] @
           (case ae_sequence_number e of None \<Rightarrow> [] | Some n \<Rightarrow> [(''sequence_number'', count_json n)]) @
           (case ae_window_id e of None \<Rightarrow> [] | Some x \<Rightarrow> [(''window_id'', JStr x)]) @
           (case ae_checkpoint e of None \<Rightarrow> [] | Some x \<Rightarrow> [(''checkpoint'', JStr (bytes_of x))]) @
           json_fields (ae_data e))"

fun line_value :: "(int \<Rightarrow> nat list) \<Rightarrow> log_line \<Rightarrow> json option" where
  "line_value time_text (EventLine e) = Some (event_value time_text e)"
| "line_value time_text (JsonOnly v) = Some v"
| "line_value time_text _ = None"

definition read_ibkr_id :: "json \<Rightarrow> int" where
  "read_ibkr_id v = i32_wrap (option_or 0 (get_i64 ''ibkr_id'' v))"

definition read_dangling :: "(nat list \<Rightarrow> int option) \<Rightarrow> int \<Rightarrow> json \<Rightarrow> dangling_order" where
  "read_dangling parse_ts now v =
     \<lparr>dg_symbol = option_or (bytes_of ''unknown'') (get_str ''symbol'' v), dg_ibkr_id = read_ibkr_id v,
      dg_action = option_or (bytes_of ''unknown'') (get_str ''action'' v), dg_shares = option_or 0 (get_i64 ''shares'' v),
      dg_limit_price_cents = f64_to_i64 (option_or f64_zero (get_f64 ''limit'' v)),
      dg_timestamp = option_or now (parse_ts (option_or [] (get_str ''ts'' v)))\<rparr>"

text \<open>The submitted orders by identifier, and the identifiers of the filled ones.\<close>

definition scan_line :: "(nat list \<Rightarrow> int option) \<Rightarrow> int \<Rightarrow> json \<Rightarrow> (int, dangling_order) omap \<times> int list \<Rightarrow>
    (int, dangling_order) omap \<times> int list" where
  "scan_line parse_ts now v = (\<lambda>(submitted, filled).
     let event_type = option_or [] (get_str ''event'' v)
     in if event_type = bytes_of ''order_submitted''
        then (om_insert (read_ibkr_id v) (read_dangling parse_ts now v) submitted, filled)
        else if event_type = bytes_of ''order_filled'' then (submitted, read_ibkr_id v # filled)
        else (submitted, filled))"

definition verify_no_dangling_orders :: "(int \<Rightarrow> nat list) \<Rightarrow> (nat list \<Rightarrow> int option) \<Rightarrow> int \<Rightarrow> log_line list \<Rightarrow> dangling_order list" where
  "verify_no_dangling_orders time_text parse_ts now ls =
     (let (submitted, filled) = fold (scan_line parse_ts now) (List.map_filter (line_value time_text) ls) ([], [])
      in map snd (filter (\<lambda>(i, _). i \<notin> set filled) submitted))"

section \<open>Forced cancellation\<close>

record forceful_cancel_report =
  fc_attempts :: nat
  fc_cancelled_order_ids :: "nat list"
  fc_remaining_order_ids :: "nat list"
  fc_errors :: "nat list list"

definition cancel_succeeded :: "forceful_cancel_report \<Rightarrow> bool" where
  "cancel_succeeded r \<longleftrightarrow> fc_remaining_order_ids r = []"

definition cancellable_open_orders :: "broker_order_status list \<Rightarrow> broker_order_status list" where
  "cancellable_open_orders xs =
     filter (\<lambda>b. bos_status b \<in> set [OrdPending, OrdSubmitted, OrdPartiallyFilled] \<and> bos_remaining_quantity b > 0) xs"

text \<open>The operations of the broker that are used, the wait before a retry, and the text of an error.\<close>

record 's canceller =
  cn_open_orders :: "'s \<Rightarrow> 's \<times> (broker_error + broker_order_status list)"
  cn_cancel_order :: "nat \<Rightarrow> 's \<Rightarrow> 's \<times> (broker_error + unit)"
  cn_wait :: "nat \<Rightarrow> 's \<Rightarrow> 's"
  cn_show :: "broker_error \<Rightarrow> nat list"

fun cancel_all :: "'s canceller \<Rightarrow> broker_order_status list \<Rightarrow> nat list \<Rightarrow> nat list list \<Rightarrow> 's \<Rightarrow> 's \<times> nat list \<times> nat list list" where
  "cancel_all br [] cancelled errors s = (s, cancelled, errors)"
| "cancel_all br (b # bs) cancelled errors s =
     (case cn_cancel_order br (bos_id b) s of
        (s1, Inr _) \<Rightarrow> cancel_all br bs (if bos_id b \<in> set cancelled then cancelled else cancelled @ [bos_id b]) errors s1
      | (s1, Inl e) \<Rightarrow>
          cancel_all br bs cancelled
            (errors @ [bytes_of (''cancel order '' @ show_nat (bos_id b) @ '' failed: '') @ cn_show br e]) s1)"

definition final_check :: "'s canceller \<Rightarrow> nat \<Rightarrow> nat list \<Rightarrow> nat list \<Rightarrow> nat list list \<Rightarrow> 's \<Rightarrow> 's \<times> forceful_cancel_report" where
  "final_check br max_retries cancelled remaining errors s =
     (case cn_open_orders br s of
        (s1, Inr xs) \<Rightarrow>
          (s1, \<lparr>fc_attempts = max_retries + 1, fc_cancelled_order_ids = cancelled,
                fc_remaining_order_ids = map bos_id (cancellable_open_orders xs), fc_errors = errors\<rparr>)
      | (s1, Inl e) \<Rightarrow>
          (s1, \<lparr>fc_attempts = max_retries + 1, fc_cancelled_order_ids = cancelled, fc_remaining_order_ids = remaining,
                fc_errors = errors @ [bytes_of ''final open_orders verification failed: '' @ cn_show br e]\<rparr>))"

text \<open>The loop over the attempts still to make.\<close>

fun cancel_attempts :: "'s canceller \<Rightarrow> nat \<Rightarrow> nat list \<Rightarrow> nat list \<Rightarrow> nat list \<Rightarrow> nat list list \<Rightarrow> 's \<Rightarrow> 's \<times> forceful_cancel_report" where
  "cancel_attempts br max_retries [] cancelled remaining errors s = final_check br max_retries cancelled remaining errors s"
| "cancel_attempts br max_retries (attempt # attempts) cancelled remaining errors s =
     (case cn_open_orders br s of
        (s1, Inl e) \<Rightarrow>
          let errors' = errors @ [bytes_of (''open_orders attempt '' @ show_nat (attempt + 1) @ '' failed: '') @ cn_show br e]
          in if attempt < max_retries
             then cancel_attempts br max_retries attempts cancelled remaining errors' (cn_wait br attempt s1)
             else (s1, \<lparr>fc_attempts = attempt + 1, fc_cancelled_order_ids = cancelled, fc_remaining_order_ids = remaining,
                        fc_errors = errors'\<rparr>)
      | (s1, Inr xs) \<Rightarrow>
          let live = cancellable_open_orders xs
          in if live = []
             then (s1, \<lparr>fc_attempts = attempt + 1, fc_cancelled_order_ids = cancelled, fc_remaining_order_ids = [], fc_errors = errors\<rparr>)
             else (case cancel_all br live cancelled errors s1 of
                     (s2, cancelled', errors') \<Rightarrow>
                       cancel_attempts br max_retries attempts cancelled' (map bos_id live) errors'
                         (if attempt < max_retries then cn_wait br attempt s2 else s2)))"

definition forceful_cancel_open_orders_with_retry :: "'s canceller \<Rightarrow> nat \<Rightarrow> 's \<Rightarrow> 's \<times> forceful_cancel_report" where
  "forceful_cancel_open_orders_with_retry br max_retries = cancel_attempts br max_retries [0..<max_retries + 1] [] [] []"

text \<open>Five retries; the wait before retry \<open>a\<close> is \<open>2 ^ min a 4\<close> seconds.\<close>

definition forceful_cancel_open_orders :: "'s canceller \<Rightarrow> (nat \<Rightarrow> 's \<Rightarrow> 's) \<Rightarrow> 's \<Rightarrow> 's \<times> forceful_cancel_report" where
  "forceful_cancel_open_orders br sleep_secs =
     forceful_cancel_open_orders_with_retry (br\<lparr>cn_wait := \<lambda>a. sleep_secs (2 ^ min a 4)\<rparr>) 5"

definition kill_timeout_from_parts :: "nat \<Rightarrow> nat option \<Rightarrow> nat option \<Rightarrow> nat" where
  "kill_timeout_from_parts config_timeout cli env =
     (case cli of
        Some n \<Rightarrow> if n > 0 then n else (case env of Some m \<Rightarrow> if m > 0 then m else config_timeout | None \<Rightarrow> config_timeout)
      | None \<Rightarrow> (case env of Some m \<Rightarrow> if m > 0 then m else config_timeout | None \<Rightarrow> config_timeout))"

section \<open>Workflows\<close>

record 's kill_env =
  ke_env :: "'s env"
  ke_pid_file_exists :: "'s \<Rightarrow> 's \<times> bool"
  ke_read_pid :: "'s \<Rightarrow> 's \<times> nat option"
  ke_send_sigterm :: "nat \<Rightarrow> 's \<Rightarrow> 's \<times> bool"
  ke_wait_for_exit :: "nat \<Rightarrow> nat \<Rightarrow> 's \<Rightarrow> 's \<times> bool option"
  ke_forceful_cancel :: "'s \<Rightarrow> 's \<times> (broker_error + forceful_cancel_report)"
  ke_parse_ts :: "nat list \<Rightarrow> int option"

definition check_dangling :: "'s kill_env \<Rightarrow> ('s, dangling_order list) act" where
  "check_dangling ke =
     abind (ask (en_now (ke_env ke))) (\<lambda>now.
     abind read_log (\<lambda>es.
     give (verify_no_dangling_orders (en_time_text (ke_env ke)) (ke_parse_ts ke) now (map EventLine es))))"

definition kill_summary :: "'s kill_env \<Rightarrow> string \<Rightarrow> nat \<Rightarrow> nat \<Rightarrow> nat list list \<Rightarrow> ('s, unit) act" where
  "kill_summary ke how cancelled remaining msgs =
     abind (ask (en_elapsed (ke_env ke))) (\<lambda>secs.
     audit_write (ke_env ke) (log_kill_completed_with_summary (bytes_of how) cancelled remaining secs msgs))"

definition find_runner :: "'s kill_env \<Rightarrow> string \<Rightarrow> ('s, nat) act" where
  "find_runner ke how =
     abind (open_log (ke_env ke)) (\<lambda>_.
     abind (audit_write (ke_env ke) (log_kill_requested (bytes_of how) (bytes_of ''command''))) (\<lambda>_.
     abind (ask (ke_pid_file_exists ke)) (\<lambda>there.
     if \<not> there then raise (Aborted PidFileNotFound)
     else abind (ask (ke_read_pid ke)) (\<lambda>pid.
          case pid of None \<Rightarrow> raise (Aborted InvalidPid) | Some p \<Rightarrow> give p))))"

definition stop_runner :: "'s kill_env \<Rightarrow> nat \<Rightarrow> nat \<Rightarrow> ('s, bool) act" where
  "stop_runner ke pid timeout =
     abind (ask (ke_send_sigterm ke pid)) (\<lambda>sent.
     if \<not> sent then raise (Aborted SignalFailed)
     else abind (ask (ke_wait_for_exit ke pid timeout)) (\<lambda>r.
          case r of None \<Rightarrow> raise (Aborted ProcessCheckFailed) | Some exited \<Rightarrow> give exited))"

definition run_graceful_kill :: "'s kill_env \<Rightarrow> nat \<Rightarrow> ('s, unit) act" where
  "run_graceful_kill ke timeout =
     abind (find_runner ke ''graceful'') (\<lambda>pid.
     abind (stop_runner ke pid timeout) (\<lambda>exited.
     if \<not> exited then raise (Aborted (DidNotExit timeout))
     else abind (check_dangling ke) (\<lambda>dangling.
          if dangling \<noteq> []
          then abind (kill_summary ke ''graceful'' 0 (length dangling)
                        [bytes_of (''Found '' @ show_nat (length dangling) @ '' potentially dangling orders. Manual intervention required.'')]) (\<lambda>_.
               raise (Aborted (DanglingOrders (length dangling))))
          else kill_summary ke ''graceful'' 0 0 [])))"

definition log_kill_phase :: "string \<Rightarrow> nat \<Rightarrow> int \<Rightarrow> audit_event" where
  "log_kill_phase event pid = log_plain event (JObj [(''pid'', count_json pid)])"

definition phase2_data :: "nat \<Rightarrow> forceful_cancel_report \<Rightarrow> json" where
  "phase2_data pid r =
     JObj [(''pid'', count_json pid), (''attempts'', count_json (fc_attempts r)),
           (''orders_cancelled_count'', count_json (length (fc_cancelled_order_ids r))),
           (''orders_remaining_count'', count_json (length (fc_remaining_order_ids r))),
           (''cancelled_order_ids'', JArr (map count_json (fc_cancelled_order_ids r))),
           (''remaining_order_ids'', JArr (map count_json (fc_remaining_order_ids r))),
           (''error_messages'', JArr (map JStr (fc_errors r)))]"

definition run_two_phase_kill_for_pid :: "'s kill_env \<Rightarrow> nat \<Rightarrow> nat \<Rightarrow> ('s, unit) act" where
  "run_two_phase_kill_for_pid ke pid timeout =
     (let en = ke_env ke
      in abind (audit_write en (log_kill_phase ''kill_phase1_started'' pid)) (\<lambda>_.
         abind (stop_runner ke pid timeout) (\<lambda>exited.
         abind (if exited
                then abind (audit_write en (log_kill_phase ''kill_phase1_completed'' pid)) (\<lambda>_.
                     abind (check_dangling ke) (\<lambda>dangling.
                     abind (kill_summary ke ''graceful'' 0 (length dangling) []) (\<lambda>_.
                     give (dangling = []))))
                else give False) (\<lambda>finished.
         if finished then give ()
         else abind (audit_write en (log_kill_phase ''kill_phase2_started'' pid)) (\<lambda>_.
              abind (call ConnectionFailed (ke_forceful_cancel ke)) (\<lambda>report.
              abind (audit_write en (log_plain ''kill_phase2_completed'' (phase2_data pid report))) (\<lambda>_.
              abind (kill_summary ke ''forced'' (length (fc_cancelled_order_ids report)) (length (fc_remaining_order_ids report))
                       (fc_errors report)) (\<lambda>_.
              if cancel_succeeded report then give ()
              else raise (Aborted (CancellationIncomplete (length (fc_remaining_order_ids report))))))))))))"

definition run_two_phase_kill :: "'s kill_env \<Rightarrow> nat \<Rightarrow> ('s, unit) act" where
  "run_two_phase_kill ke timeout =
     abind (find_runner ke ''two_phase'') (\<lambda>pid. run_two_phase_kill_for_pid ke pid timeout)"

end
