(* ===== verification/Kill_Properties.thy ===== *)
theory Kill_Properties
  imports Kill
begin

text \<open>
  What the kill switch promises: its report on forced cancellation is read off the answers of
  the broker, a broker that keeps its contract ends without open orders, and the dangling orders
  are the submitted ones without a fill. The contract is the locale \<open>cancel_broker\<close>, which the
  mock broker fulfils.
\<close>

section \<open>Dangling orders\<close>

definition ids_of :: "string \<Rightarrow> json list \<Rightarrow> int set" where
  "ids_of event vs = read_ibkr_id ` {v \<in> set vs. option_or [] (get_str ''event'' v) = bytes_of event}"

lemma bytes_of_eq [simp]: "bytes_of a = bytes_of b \<longleftrightarrow> a = b"
proof -
  have "inj (of_char :: char \<Rightarrow> nat)" by (rule inj_of_char)
  then show ?thesis by (simp add: bytes_of_def inj_map_eq_map)
qed

lemma scan_lines:
  "fold (scan_line parse_ts now) vs (subs, fills) = (subs', fills') \<Longrightarrow>
     fst ` set subs' = fst ` set subs \<union> ids_of ''order_submitted'' vs \<and>
     set fills' = set fills \<union> ids_of ''order_filled'' vs"
proof (induction vs arbitrary: subs fills)
  case (Cons v vs)
  obtain subs1 fills1 where step: "scan_line parse_ts now v (subs, fills) = (subs1, fills1)" by force
  note IH = Cons.IH [of subs1 fills1]
  have "fst ` set subs1 = fst ` set subs \<union> ids_of ''order_submitted'' [v]" "set fills1 = set fills \<union> ids_of ''order_filled'' [v]"
    using step om_insert_fst [of "read_ibkr_id v" "read_dangling parse_ts now v" subs]
    by (auto simp: scan_line_def Let_def ids_of_def split: if_splits)
  moreover have "ids_of e (v # vs) = ids_of e [v] \<union> ids_of e vs" for e by (auto simp: ids_of_def)
  ultimately show ?case using IH Cons.prems step by auto
qed (simp add: ids_of_def)

text \<open>An order dangles when a submission is logged under its identifier and no fill is.\<close>

lemma no_dangling_iff:
  "verify_no_dangling_orders time_text parse_ts now ls = [] \<longleftrightarrow>
     ids_of ''order_submitted'' (List.map_filter (line_value time_text) ls) \<subseteq>
     ids_of ''order_filled'' (List.map_filter (line_value time_text) ls)"
proof -
  obtain subs fills where scan: "fold (scan_line parse_ts now) (List.map_filter (line_value time_text) ls) ([], []) = (subs, fills)"
    by force
  then have "verify_no_dangling_orders time_text parse_ts now ls = [] \<longleftrightarrow> fst ` set subs \<subseteq> set fills"
    by (auto simp: verify_no_dangling_orders_def filter_empty_conv)
  then show ?thesis using scan_lines [OF scan] by simp
qed

section \<open>The report on forced cancellation\<close>

text \<open>The same broker, keeping the answers to every question for open orders.\<close>

definition recording :: "'s canceller \<Rightarrow> ('s \<times> (broker_error + broker_order_status list) list) canceller" where
  "recording br =
     \<lparr>cn_open_orders = (\<lambda>(s, l). let (s', r) = cn_open_orders br s in ((s', l @ [r]), r)),
      cn_cancel_order = (\<lambda>i (s, l). let (s', r) = cn_cancel_order br i s in ((s', l), r)),
      cn_wait = (\<lambda>a (s, l). (cn_wait br a s, l)), cn_show = cn_show br\<rparr>"

definition answers_honest :: "(broker_error + broker_order_status list) list \<Rightarrow> forceful_cancel_report \<Rightarrow> bool" where
  "answers_honest l r \<longleftrightarrow> l \<noteq> [] \<and>
     (cancel_succeeded r \<longleftrightarrow> list_all isl l \<or> (\<not> isl (last l) \<and> cancellable_open_orders (projr (last l)) = []))"

lemma recording_cancel_all: "snd (fst (cancel_all (recording br) bs c e (s, l))) = l"
proof (induction bs arbitrary: c e s)
  case (Cons b bs)
  obtain s1 r where "cn_cancel_order br (bos_id b) s = (s1, r)" by force
  then have "cn_cancel_order (recording br) (bos_id b) (s, l) = ((s1, l), r)" by (simp add: recording_def)
  then show ?case using Cons by (cases r) simp_all
qed simp

lemma cancel_attempts_honest:
  assumes "rem = [] \<longleftrightarrow> list_all isl l"
  shows "case cancel_attempts (recording br) n as c rem e (s, l) of ((s', l'), r) \<Rightarrow> answers_honest l' r"
  using assms
proof (induction as arbitrary: c rem e s l)
  case Nil
  then show ?case
    by (auto simp: final_check_def recording_def answers_honest_def cancel_succeeded_def split: prod.split sum.split)
next
  case (Cons a as)
  obtain s1 r where op: "cn_open_orders br s = (s1, r)" by force
  then have op': "cn_open_orders (recording br) (s, l) = ((s1, l @ [r]), r)" by (simp add: recording_def)
  show ?case
  proof (cases r)
    case (Inl x)
    have wait: "cn_wait (recording br) a (s1, l @ [Inl x]) = (cn_wait br a s1, l @ [Inl x])" by (simp add: recording_def)
    show ?thesis using Cons op' Inl
      by (auto simp: Let_def wait answers_honest_def cancel_succeeded_def)
  next
    case (Inr xs)
    show ?thesis
    proof (cases "cancellable_open_orders xs = []")
      case True
      then show ?thesis using op' Inr by (simp add: answers_honest_def cancel_succeeded_def)
    next
      case False
      obtain s2 l2 c2 e2 where ca: "cancel_all (recording br) (cancellable_open_orders xs) c e (s1, l @ [Inr xs]) = ((s2, l2), c2, e2)"
        by (metis prod.exhaust)
      then have l2: "l2 = l @ [Inr xs]" using recording_cancel_all [of br "cancellable_open_orders xs" c e s1 "l @ [Inr xs]"] by simp
      have "\<exists>s3. (if a < n then cn_wait (recording br) a (s2, l2) else (s2, l2)) = (s3, l2)" by (simp add: recording_def)
      then obtain s3 where w: "(if a < n then cn_wait (recording br) a (s2, l2) else (s2, l2)) = (s3, l2)" by blast
      have "map bos_id (cancellable_open_orders xs) = [] \<longleftrightarrow> list_all isl l2" using False l2 by simp
      from Cons.IH [OF this, of c2 e2 s3] show ?thesis using op' Inr False ca w by (simp add: Let_def)
    qed
  qed
qed

text \<open>C27. The report of the forced cancellation is read off the broker's answers, whatever the
  broker does: it claims success exactly when the last listing of open orders showed none that
  can be cancelled, or when every single listing failed. In the second case nothing is known
  and nothing was cancelled, and the kill switch still reports success.\<close>

theorem kill_report_honest:
  "case forceful_cancel_open_orders_with_retry (recording br) n (s, []) of ((s', answers), r) \<Rightarrow>
     answers \<noteq> [] \<and>
     (cancel_succeeded r \<longleftrightarrow>
        list_all isl answers \<or> (\<not> isl (last answers) \<and> cancellable_open_orders (projr (last answers)) = []))"
  using cancel_attempts_honest [of "[]" "[]" br n "[0..<n + 1]" "[]" "[]" s]
  by (simp add: forceful_cancel_open_orders_with_retry_def answers_honest_def)

section \<open>A broker that keeps its contract\<close>

text \<open>
  The contract between the kill switch and a broker: while the connection is up, listing gives
  the live orders and changes nothing, a cancellation is confirmed and takes exactly its order
  out, and waiting brings no new orders.
\<close>

locale cancel_broker =
  fixes br :: "'s canceller" and up :: "'s \<Rightarrow> bool" and live :: "'s \<Rightarrow> nat set"
  assumes listing: "up s \<Longrightarrow> \<exists>xs. cn_open_orders br s = (s, Inr xs) \<and> bos_id ` set (cancellable_open_orders xs) = live s"
    and cancelling: "up s \<Longrightarrow> \<exists>s'. cn_cancel_order br i s = (s', Inr ()) \<and> up s' \<and> live s' = live s - {i}"
    and waiting: "up s \<Longrightarrow> up (cn_wait br a s) \<and> live (cn_wait br a s) \<subseteq> live s"
begin

lemma cancel_all_live:
  assumes "up s"
  shows "\<exists>s' c'. cancel_all br bs c e s = (s', c', e) \<and> up s' \<and> live s' = live s - bos_id ` set bs \<and>
           set c' = set c \<union> bos_id ` set bs"
  using assms
proof (induction bs arbitrary: s c)
  case (Cons b bs)
  from cancelling [OF Cons.prems, of "bos_id b"] obtain s1
    where s1: "cn_cancel_order br (bos_id b) s = (s1, Inr ())" "up s1" "live s1 = live s - {bos_id b}" by blast
  let ?c = "if bos_id b \<in> set c then c else c @ [bos_id b]"
  from Cons.IH [OF s1(2), of ?c] obtain s2 c2
    where "cancel_all br bs ?c e s1 = (s2, c2, e)" "up s2" "live s2 = live s1 - bos_id ` set bs"
      "set c2 = set ?c \<union> bos_id ` set bs" by blast
  then show ?case using s1 by (auto split: if_splits)
qed simp

lemma no_live_ends:
  assumes "up s" and "live s = {}"
  shows "\<exists>s' r. cancel_attempts br n as c rem e s = (s', r) \<and> live s' = {} \<and> up s' \<and> cancel_succeeded r \<and>
           fc_cancelled_order_ids r = c \<and> fc_errors r = e"
proof -
  from listing [OF assms(1)] assms(2) obtain xs where "cn_open_orders br s = (s, Inr xs)" "cancellable_open_orders xs = []" by auto
  then show ?thesis using assms by (cases as) (auto simp: final_check_def cancel_succeeded_def)
qed

lemma forced_cancel_clears:
  assumes "up s"
  shows "\<exists>s' r. forceful_cancel_open_orders_with_retry br n s = (s', r) \<and> live s' = {} \<and> up s' \<and> cancel_succeeded r \<and>
           set (fc_cancelled_order_ids r) = live s \<and> fc_errors r = []"
proof (cases "live s = {}")
  case True
  then show ?thesis using no_live_ends [OF assms True, of n "[0..<n + 1]" "[]" "[]" "[]"]
    by (auto simp: forceful_cancel_open_orders_with_retry_def)
next
  case False
  from listing [OF assms] obtain xs
    where xs: "cn_open_orders br s = (s, Inr xs)" "bos_id ` set (cancellable_open_orders xs) = live s" by blast
  from cancel_all_live [OF assms, of "cancellable_open_orders xs" "[]" "[]"] xs(2) obtain s1 c1
    where ca: "cancel_all br (cancellable_open_orders xs) [] [] s = (s1, c1, [])" "up s1" "live s1 = {}" "set c1 = live s" by auto
  let ?s2 = "if 0 < n then cn_wait br 0 s1 else s1"
  have s2: "up ?s2" "live ?s2 = {}" using waiting [OF ca(2), of 0] ca(2,3) by auto
  have "[0..<n + 1] = 0 # [1..<n + 1]" using upt_conv_Cons [of 0 "n + 1"] by simp
  then have "forceful_cancel_open_orders_with_retry br n s =
      cancel_attempts br n [1..<n + 1] c1 (map bos_id (cancellable_open_orders xs)) [] ?s2"
    using xs ca(1) False by (auto simp: forceful_cancel_open_orders_with_retry_def Let_def simp del: upt_Suc)
  then show ?thesis
    using no_live_ends [OF s2, of n "[1..<n + 1]" c1 "map bos_id (cancellable_open_orders xs)" "[]"] ca(4) by auto
qed

end

definition mock_canceller :: "mock_broker canceller" where
  "mock_canceller =
     \<lparr>cn_open_orders = mock_open_orders, cn_cancel_order = mock_cancel_order, cn_wait = (\<lambda>_ b. b), cn_show = (\<lambda>_. [])\<rparr>"

definition mock_live :: "mock_broker \<Rightarrow> nat list" where
  "mock_live b = map bos_id (cancellable_open_orders (map (mock_status b) (mb_open_orders b)))"

lemma mock_live_eq:
  "mock_live b = (if cancellable_open_orders [mock_status b 0] = [] then [] else mb_open_orders b)"
  by (cases "fill_status b") (simp add: mock_live_def cancellable_open_orders_def mock_status_def filter_map comp_def)

interpretation mc: cancel_broker mock_canceller mb_connected "\<lambda>b. set (mock_live b)"
proof
  fix b :: mock_broker and i a :: nat
  assume up: "mb_connected b"
  show "\<exists>xs. cn_open_orders mock_canceller b = (b, Inr xs) \<and> bos_id ` set (cancellable_open_orders xs) = set (mock_live b)"
    using up by (simp add: mock_canceller_def mock_open_orders_def mock_live_def)
  have "mock_status (b\<lparr>mb_open_orders := x\<rparr>) 0 = mock_status b 0" for x
    by (simp add: mock_status_def fill_status_def)
  then show "\<exists>b'. cn_cancel_order mock_canceller i b = (b', Inr ()) \<and> mb_connected b' \<and> set (mock_live b') = set (mock_live b) - {i}"
    using up by (auto simp: mock_canceller_def mock_cancel_order_def mock_live_eq)
  show "mb_connected (cn_wait mock_canceller a b) \<and> set (mock_live (cn_wait mock_canceller a b)) \<subseteq> set (mock_live b)"
    using up by (simp add: mock_canceller_def)
qed

text \<open>C26. Against a broker that keeps the contract, here the mock broker of the test suite, the
  forced cancellation clears every order that can be cancelled, reports exactly these as
  cancelled, reports no error and succeeds, with any number of retries.\<close>

theorem kill_cancels_everything:
  assumes "mb_connected b"
  shows "\<exists>b' r. forceful_cancel_open_orders_with_retry mock_canceller n b = (b', r) \<and> mock_live b' = [] \<and>
           cancel_succeeded r \<and> set (fc_cancelled_order_ids r) = set (mock_live b) \<and> fc_errors r = []"
  using mc.forced_cancel_clears [OF assms, of n] by auto

definition demo_broker :: mock_broker where
  "demo_broker = mock_builder\<lparr>mb_connected := True, mb_fill_mode := ImmediatePartial (FFin False (1 / 2)), mb_open_orders := [7, 9]\<rparr>"

theorem kill_cancels_everything_witness:
  "\<exists>b' r. forceful_cancel_open_orders_with_retry mock_canceller 5 demo_broker = (b', r) \<and> mock_live b' = [] \<and>
     cancel_succeeded r \<and> set (fc_cancelled_order_ids r) = {7, 9}"
proof -
  have "mb_connected demo_broker" "mock_live demo_broker = [7, 9]" by code_simp+
  with kill_cancels_everything [of demo_broker 5] show ?thesis by auto
qed

end
