(* ===== verification/Execution_Properties.thy ===== *)
theory Execution_Properties
  imports Kill_Properties
begin

text \<open>
  What a run writes to the audit log, and what recovery and the kill switch make of it. A crash
  at any moment leaves a prefix of the log. The rules \<open>trace_intro\<close> compose statements about the
  lines an action appends.
\<close>

section \<open>Lines appended by an action\<close>

definition appends :: "(audit_event \<Rightarrow> bool) \<Rightarrow> ('s, 'a) act \<Rightarrow> bool" where
  "appends P m \<longleftrightarrow> (\<forall>s log. \<exists>es. snd (fst (m (s, log))) = log @ es \<and> list_all P es)"

named_theorems trace_intro

lemma appends_give [trace_intro]: "appends P (give x)"
  by (simp add: appends_def give_def)

lemma appends_raise [trace_intro]: "appends P (raise e)"
  by (simp add: appends_def raise_def)

lemma appends_ask [trace_intro]: "appends P (ask f)"
  by (simp add: appends_def ask_def split: prod.split)

lemma appends_pause [trace_intro]: "appends P (pause en n)"
  by (simp add: appends_def pause_def)

lemma appends_read_log [trace_intro]: "appends P read_log"
  by (simp add: appends_def read_log_def)

lemma appends_observed [trace_intro]: "appends P m \<Longrightarrow> appends P (observed m)"
  by (simp add: appends_def observed_def split: prod.split) (metis fst_conv snd_conv)

lemma appends_bind [trace_intro]:
  assumes "appends P m" and "\<And>x. appends P (f x)"
  shows "appends P (abind m f)"
  unfolding appends_def
proof (intro allI)
  fix s log
  obtain s1 l1 r where m: "m (s, log) = ((s1, l1), r)" by (metis prod.exhaust)
  then obtain es where es: "l1 = log @ es" "list_all P es"
    using assms(1) unfolding appends_def by (metis fst_conv snd_conv)
  show "\<exists>es. snd (fst (abind m f (s, log))) = log @ es \<and> list_all P es"
  proof (cases r)
    case (Inr x)
    obtain es' where "snd (fst (f x (s1, l1))) = l1 @ es'" "list_all P es'"
      using assms(2) unfolding appends_def by blast
    then show ?thesis using m es Inr by (auto simp: abind_def intro!: exI [of _ "es @ es'"])
  qed (use m es in \<open>auto simp: abind_def\<close>)
qed

lemma appends_call [trace_intro]: "appends P (call err f)"
  unfolding call_def by (intro trace_intro) (simp add: trace_intro split: sum.split)

lemma appends_open_log [trace_intro]: "appends P (open_log en)"
  unfolding open_log_def by (intro trace_intro) (simp add: trace_intro)

lemma appends_of_outcome [trace_intro]: "appends P (of_outcome r)"
  by (simp add: of_outcome_def trace_intro split: sum.split panic.split)

lemma appends_write [trace_intro]: "(\<And>ts. P (f ts)) \<Longrightarrow> appends P (audit_write en f)"
  unfolding audit_write_def by (intro trace_intro) (auto simp: appends_def add_line_def raise_def)

lemma appends_if [trace_intro]: "(b \<Longrightarrow> appends P m) \<Longrightarrow> (\<not> b \<Longrightarrow> appends P m') \<Longrightarrow> appends P (if b then m else m')"
  by simp

lemma appends_prod [trace_intro]: "(\<And>a b. p = (a, b) \<Longrightarrow> appends P (f a b)) \<Longrightarrow> appends P (case p of (a, b) \<Rightarrow> f a b)"
  by (cases p) simp

lemma appends_option [trace_intro]:
  "appends P m \<Longrightarrow> (\<And>x. appends P (f x)) \<Longrightarrow> appends P (case v of None \<Rightarrow> m | Some x \<Rightarrow> f x)"
  by (cases v) simp_all

lemma appends_sum [trace_intro]:
  "(\<And>x. appends P (f x)) \<Longrightarrow> (\<And>x. appends P (g x)) \<Longrightarrow> appends P (case v of Inl x \<Rightarrow> f x | Inr x \<Rightarrow> g x)"
  by (cases v) simp_all

section \<open>The default build\<close>

text \<open>Without write-ahead logging a run writes no line about the submission of an order.\<close>

definition default_line :: "audit_event \<Rightarrow> bool" where
  "default_line e \<longleftrightarrow> ae_event e \<notin> {''order_intent'', ''order_submitted'', ''order_failed''}"

lemmas plain_line_defs = log_plain_def log_with_idempotency_def log_run_started_def log_cron_start_def log_positions_def
  log_diff_def log_risk_check_def log_kill_completed_def log_kill_completed_with_summary_def log_order_filled_def
  log_cron_completed_def log_run_completed_def log_idempotency_rejection_def default_line_def

lemma default_fetch:
  "appends default_line (fetch_account_summary_with_write_ahead False en spec seq)"
  "appends default_line (fetch_positions_with_write_ahead False en spec equity seq)"
  "appends default_line (fetch_quotes_with_write_ahead False en spec ys n seq)"
  "appends default_line (cancel_order_with_write_ahead False en seq i why)"
  by (simp_all add: fetch_account_summary_with_write_ahead_def fetch_positions_with_write_ahead_def
      fetch_quotes_with_write_ahead_def cancel_order_with_write_ahead_def trace_intro)

lemma default_stop: "appends default_line (log_graceful_stop en n)"
  unfolding log_graceful_stop_def by (intro trace_intro) (simp add: plain_line_defs)

lemma default_one_order: "appends default_line (run_one_order False en t seq c x)"
proof -
  have "appends default_line (execute_order_with_write_ahead False en x cid n spec)" for cid n spec
    by (simp add: execute_order_with_write_ahead_def trace_intro)
  moreover have "appends default_line (log_fill False en n r)" for n r
    unfolding log_fill_def by (simp, intro trace_intro) (simp add: plain_line_defs)
  moreover have "appends default_line (derive_client_order_id en t x)"
    by (simp add: derive_client_order_id_def trace_intro)
  ultimately show ?thesis
    unfolding run_one_order_def Let_def by (cases c) (simp only: prod.case, intro trace_intro)
qed

lemma default_orders: "appends default_line (run_orders False en t interval n i seq c xs)"
proof (induction xs arbitrary: i seq c)
  case (Cons x xs)
  show ?case unfolding run_orders.simps
    by (intro trace_intro default_stop default_one_order default_fetch Cons.IH)
qed (simp add: trace_intro)

lemma default_start: "appends default_line (start_run False en c t opts)"
  unfolding start_run_def cron_check_def Let_def
  by (intro trace_intro; simp add: plain_line_defs trace_intro)

lemma default_market: "appends default_line (check_fresh en n qs)" "appends default_line (observe_market False en c t seq)"
proof -
  show fresh: "appends default_line (check_fresh en n qs)" for n qs
    by (induction qs) (simp_all add: trace_intro)
  show "appends default_line (observe_market False en c t seq)"
    unfolding observe_market_def Let_def
    by (intro trace_intro default_fetch fresh; simp add: plain_line_defs trace_intro)
qed

lemma default_complete: "appends default_line (complete_run False en seq c)"
  unfolding complete_run_def by (cases c) (simp, intro trace_intro, simp add: plain_line_defs)

lemma default_plan: "appends default_line (execute_plan False en c t opts run_seq seq summary ys xs)"
proof -
  have "appends default_line (observe_result False en c t summary ys seq)" for seq
    unfolding observe_result_def by (intro trace_intro default_fetch)
  moreover have "appends default_line (confirm_execution en b)" for b
    unfolding confirm_execution_def by (intro trace_intro) (simp add: plain_line_defs)
  ultimately show ?thesis
    unfolding execute_plan_def
    by (intro trace_intro default_orders) (auto intro!: trace_intro default_complete simp: plain_line_defs split: loop_end.split)
qed

lemma default_run: "appends default_line (run False en c t opts)"
  unfolding run_def Let_def
  by (intro trace_intro default_start default_market default_complete default_plan; simp add: plain_line_defs trace_intro)

section \<open>Recovery after a run of the default build\<close>

definition untouched :: "recovered_state \<Rightarrow> bool" where
  "untouched st \<longleftrightarrow> list_all (\<lambda>x. rv_client_order_id x = None \<and> \<not> rv_submitted x) (rs_orders st)"

lemma update_first_all: "list_all P xs \<Longrightarrow> (\<And>x. P x \<Longrightarrow> P (f x)) \<Longrightarrow> list_all P (update_first Q f xs)"
  by (induction xs) auto

lemma mark_checkpoint_orders [simp]: "rs_orders (mark_checkpoint c e st) = rs_orders st"
  by (simp add: mark_checkpoint_def)

lemma read_money_orders [simp]: "rs_orders (read_equity d st) = rs_orders st" "rs_orders (read_positions d st) = rs_orders st"
  by (simp_all add: read_equity_def read_positions_def split: option.split sum.split)

lemma apply_checkpoint_orders:
  "rs_orders (apply_checkpoint c e st) =
     (case c of
        DiffComputed \<Rightarrow> (case get_array ''orders'' (ae_data e) of None \<Rightarrow> rs_orders st | Some xs \<Rightarrow> map read_order xs)
      | OrderIntent \<Rightarrow> read_intent (ae_data e) (rs_orders st)
      | OrderFailed \<Rightarrow> read_failed (ae_data e) (rs_orders st)
      | OrderSubmitted \<Rightarrow> read_submitted (ae_data e) (rs_orders st)
      | OrderFilled \<Rightarrow> read_filled (ae_data e) (rs_orders st)
      | _ \<Rightarrow> rs_orders st)"
  by (cases c) (simp_all add: apply_checkpoint_def Let_def read_diff_def split: option.split)

lemma read_order_new: "rv_client_order_id (read_order v) = None" "\<not> rv_submitted (read_order v)" "\<not> rv_failed (read_order v)"
  by (simp_all add: read_order_def new_recovered_order_def)

lemma recover_untouched:
  assumes "default_line e" and "untouched st"
  shows "untouched (recover_event False st e)"
proof (cases "from_event_name False (ae_event e)")
  case (Some c)
  then have c: "c \<noteq> OrderIntent" "c \<noteq> OrderSubmitted" "c \<noteq> OrderFailed"
    using assms(1) from_event_name_Some [OF Some] by (auto simp: default_line_def as_event_name_def)
  let ?P = "\<lambda>x. rv_client_order_id x = None \<and> \<not> rv_submitted x"
  have "list_all ?P (read_filled d (rs_orders st))" for d
    using assms(2) by (auto simp: untouched_def read_filled_def intro: update_first_all split: option.split)
  moreover have "list_all ?P (map read_order xs)" for xs by (simp add: list_all_iff read_order_new)
  ultimately have "list_all ?P (rs_orders (apply_checkpoint c e (mark_checkpoint c e st)))"
    using assms(2) c unfolding apply_checkpoint_orders untouched_def by (cases c) (simp_all split: option.split)
  then show ?thesis using Some by (simp add: recover_event_def untouched_def)
qed (use assms in \<open>simp add: recover_event_def\<close>)

lemma recover_events_untouched: "list_all default_line es \<Longrightarrow> untouched (recover_events False now es)"
  unfolding recover_events_def
proof (induction es rule: rev_induct)
  case Nil
  show ?case by (simp add: untouched_def recovered_state_new_def)
qed (simp add: recover_untouched)

lemma untouched_restart: "untouched st \<Longrightarrow> determine_recovery_action False st = Restart"
  by (auto simp: determine_recovery_action_def untouched_def incomplete_intent_def list_ex_iff list_all_iff)

lemma event_name_value: "get_str ''event'' (event_value tt e) = Some (bytes_of (ae_event e))"
  by (simp add: get_str_def event_value_def)

lemma default_not_dangling:
  assumes "list_all default_line es"
  shows "verify_no_dangling_orders tt parse_ts now (map EventLine es) = []"
proof -
  have "List.map_filter (line_value tt) (map EventLine es) = map (event_value tt) es"
    by (induction es) simp_all
  moreover have "ids_of ''order_submitted'' (map (event_value tt) es) = {}"
    using assms by (auto simp: ids_of_def event_name_value option_or_def default_line_def list_all_iff)
  ultimately show ?thesis by (simp add: no_dangling_iff)
qed

lemma appended_lines:
  assumes "appends P m" and "list_all P l0" and "m (s, l0) = ((s', l1), r)"
  shows "list_all P l1"
  using assms unfolding appends_def by (metis fst_conv list_all_append snd_conv)

text \<open>C25. In the default build the audit log holds no trace of an order that is at the broker. A
  run writes no line for the intent, the submission or the failure of an order, so after a crash
  at any moment (any prefix of the log) recovery recommends to restart, and the check of the
  kill switch for dangling orders finds none, whatever was sent to the broker.\<close>

theorem default_build_leaves_no_trace:
  assumes "list_all default_line l0" and "run False en c t opts (s, l0) = ((s', l1), r)"
  shows "list_all default_line l1 \<and>
         determine_recovery_action False (recover_events False now (take k l1)) = Restart \<and>
         verify_no_dangling_orders tt parse_ts now (map EventLine (take k l1)) = []"
proof -
  have all: "list_all default_line l1" using appended_lines [OF default_run assms] .
  then have "list_all default_line (take k l1)" by (metis append_take_drop_id list_all_append)
  then show ?thesis
    using all untouched_restart [OF recover_events_untouched] default_not_dangling by blast
qed

text \<open>A run against a broker that fills its one order. The state counts the orders sent.\<close>

definition demo_env :: "nat env" where
  "demo_env =
     \<lparr>en_connect = (\<lambda>s. (s, Inr ())),
      en_account_summary = (\<lambda>s. (s, Inr \<lparr>ac_equity_cents = 100000, ac_buying_power_cents = 100000, ac_cash_cents = 100000,
                                     ac_gross_position_value_cents = 0\<rparr>)),
      en_positions = (\<lambda>s. (s, Inr [])),
      en_quotes = (\<lambda>ys s. (s, Inr (map (\<lambda>y. \<lparr>qt_symbol = y, qt_bid_cents = 699, qt_ask_cents = 701, qt_last_cents = 700,
                                          qt_volume = 1, qt_timestamp = 10 ^ 9\<rparr>) ys))),
      en_execute = (\<lambda>y side n p cid s. (s + 1, Inr \<lparr>or_symbol = y, or_order_id = 17, or_filled_shares = int n,
                                             or_avg_fill_price = f64_of_int 7, or_commission = f64_zero, or_status = OutFilled\<rparr>)),
      en_cancel = (\<lambda>_ s. (s, Inr ())), en_install_handler = (\<lambda>s. (s, True)), en_shutdown = (\<lambda>s. (s, False)),
      en_confirm = (\<lambda>s. (s, Some True)), en_sleep = (\<lambda>_ s. s), en_now = (\<lambda>s. (s, 2 * 10 ^ 9)), en_elapsed = (\<lambda>s. (s, f64_zero)),
      en_open_log = (\<lambda>s. (s, True)), en_write = (\<lambda>s. (s, True)), en_time_text = (\<lambda>_. []), en_show = (\<lambda>_. []),
      en_sha256 = (\<lambda>_. replicate 32 0)\<rparr>"

definition demo_run_config :: run_config where
  "demo_run_config =
     \<lparr>rc_account_id = [], rc_target_file = [], rc_quote_staleness_threshold_sec = 30, rc_limit_offset_bps = 5,
      rc_max_orders_per_run = 10, rc_order_interval_ms = 100,
      rc_risk = \<lparr>rr_max_position_pct = FFin False (1 / 2), rr_max_leverage = FFin False (3 / 2), rr_min_trade_usd = FFin False 1,
                 rr_max_trade_usd = FFin False 100000, rr_allow_short = True, rr_max_short_pct = FFin False (1 / 2)\<rparr>\<rparr>"

definition demo_target :: target_spec where
  "demo_target =
     \<lparr>tg_timestamp_text = [50], tg_metadata_id = [], tg_window_id = [49], tg_targets = [([65, 65, 80, 76], FFin False (1 / 4))],
      tg_constraints = None\<rparr>"

definition demo_options :: run_options where
  "demo_options = \<lparr>op_dry_run = False, op_force = True, op_cron_mode = False\<rparr>"

definition demo_order :: rebalance_order where
  "demo_order = \<lparr>ro_symbol = demo_symbol, ro_action = ActBuy, ro_shares = 35, ro_limit_price_cents = 700,
                 ro_notional_cents = 24500, ro_description = ''open''\<rparr>"

lemma demo_min_trade: "f64_to_i64 (f64_mul (FFin False 1) (f64_of_int 100)) = 100"
  by code_simp

lemma demo_pairs: "as_target_pairs [([65, 65, 80, 76], FFin False (1 / 4))] = Inr [(demo_symbol, FFin False (1 / 4))]"
  by code_simp

lemma demo_diff: "compute_diff 100000 [] [(demo_symbol, FFin False (1 / 4))] [(demo_symbol, 700)] 5 100 = [demo_order]"
proof -
  have tv: "target_value 100000 (FFin False (1 / 4)) = 25000" by code_simp
  have lim: "compute_limit_price 700 False 5 = 700" by code_simp
  have div: "trunc_div 25000 700 = 35" by code_simp
  have wraps: "i64_wrap 0 = 0" "i64_wrap 25000 = 25000" "i64_wrap 35 = 35" "i64_wrap 24500 = 24500" by code_simp+
  show ?thesis
    by (simp add: compute_diff_def Let_def collect_map_def List.map_filter_def target_order_def tv lim div wraps
        classify_trade_def demo_order_def)
qed

lemma demo_risk:
  "\<not> has_failures (check_risk [demo_order] 100000 [(demo_symbol, FFin False (1 / 4))] [(demo_symbol, 700)] [] (rc_risk demo_run_config))"
  by code_simp

lemmas act_defs = give_def raise_def abind_def observed_def ask_def call_def pause_def read_log_def open_log_def add_line_def
  audit_write_def of_outcome_def

lemma demo_started:
  "start_run False demo_env demo_run_config demo_target demo_options (0, []) = ((0, [log_run_started [] [] (2 * 10 ^ 9)]), Inr (2, 2))"
  by (simp add: start_run_def cron_check_def demo_options_def demo_env_def demo_run_config_def act_defs Let_def checkpoint_sequences_def)

lemma demo_observed:
  "observe_market False demo_env demo_run_config demo_target 2 (0, es) =
     ((0, es @ [log_positions [] 100000 (2 * 10 ^ 9)]),
      Inr (2, \<lparr>ac_equity_cents = 100000, ac_buying_power_cents = 100000, ac_cash_cents = 100000, ac_gross_position_value_cents = 0\<rparr>,
           [], [demo_symbol], [(demo_symbol, 700)]))"
proof -
  have mid: "quote_mid_cents \<lparr>qt_symbol = y, qt_bid_cents = 699, qt_ask_cents = 701, qt_last_cents = 700, qt_volume = v,
      qt_timestamp = 1000000000\<rparr> = 700" for y v
    by (simp add: quote_mid_cents_def Let_def trunc_div_def i64_wrap_def)
  show ?thesis
    by (simp add: observe_market_def fetch_account_summary_with_write_ahead_def fetch_positions_with_write_ahead_def
        fetch_quotes_with_write_ahead_def demo_env_def demo_run_config_def demo_target_def act_defs Let_def demo_pairs
        to_current_positions_def collect_all_symbols_def is_stale_def quote_mid_prices_def mid del: as_target_pairs.simps)
qed

lemma demo_executed:
  "run_orders False demo_env demo_target 100 (Suc 0) 0 2 (0, 0, 0) [demo_order] (0, es) =
     ((Suc 0, es @ [log_order_filled \<lparr>or_symbol = demo_symbol, or_order_id = 17, or_filled_shares = 35,
                  or_avg_fill_price = f64_of_int 7, or_commission = f64_zero, or_status = OutFilled\<rparr> (2 * 10 ^ 9)]),
      Inr (AllDone 4 (Suc 0, Suc 0, 0)))"
proof -
  have seqs: "next_checkpoint_sequence 2 = 3" "u64_sat_add 3 (Suc 0) = 4" by code_simp+
  show ?thesis
    by (simp add: run_one_order_def derive_client_order_id_def execute_order_with_write_ahead_def log_fill_def seqs
        demo_env_def demo_order_def act_defs Let_def)
qed

text \<open>The whole run in the default build: the state counts one order sent.\<close>

definition demo_lines :: "audit_event list" where
  "demo_lines =
     [log_run_started [] [] (2 * 10 ^ 9), log_positions [] 100000 (2 * 10 ^ 9), log_diff [demo_order] (2 * 10 ^ 9),
      log_risk_check (check_risk [demo_order] 100000 [(demo_symbol, FFin False (1 / 4))] [(demo_symbol, 700)] [] (rc_risk demo_run_config))
        (2 * 10 ^ 9),
      log_order_filled \<lparr>or_symbol = demo_symbol, or_order_id = 17, or_filled_shares = 35, or_avg_fill_price = f64_of_int 7,
        or_commission = f64_zero, or_status = OutFilled\<rparr> (2 * 10 ^ 9),
      log_run_completed 1 1 0 (2 * 10 ^ 9)]"

lemma demo_run_default: "run False demo_env demo_run_config demo_target demo_options (0, []) = ((1, demo_lines), Inr ())"
proof -
  have cfg: "rc_limit_offset_bps demo_run_config = 5" "rc_max_orders_per_run demo_run_config = 10"
    "rc_order_interval_ms demo_run_config = 100" "rr_min_trade_usd (rc_risk demo_run_config) = FFin False 1"
    "apply_constraint_overrides (rc_risk demo_run_config) demo_target = rc_risk demo_run_config"
    "as_target_pairs (tg_targets demo_target) = Inr [(demo_symbol, FFin False (1 / 4))]"
    by (simp_all add: demo_run_config_def demo_target_def apply_constraint_overrides_def demo_pairs del: as_target_pairs.simps)
  have plan: "execute_plan False demo_env demo_run_config demo_target demo_options 2 2 a [demo_symbol] [demo_order] (0, es) =
      ((1, es @ drop 4 demo_lines), Inr ())" for a es
    unfolding execute_plan_def
    by (simp add: abind_def confirm_execution_def give_def demo_options_def demo_executed cfg(3) observe_result_def
        fetch_account_summary_with_write_ahead_def fetch_positions_with_write_ahead_def
        fetch_quotes_with_write_ahead_def complete_run_def demo_lines_def del: run_orders.simps)
      (simp add: act_defs demo_env_def)
  have wr: "audit_write demo_env f (0, es) = ((0, es @ [f (2 * 10 ^ 9)]), Inr ())" for f es
    by (simp add: act_defs demo_env_def)
  show ?thesis
    unfolding run_def abind_def [of "start_run False demo_env demo_run_config demo_target demo_options"] demo_started
    by (simp add: abind_def demo_observed cfg demo_min_trade demo_diff demo_risk wr of_outcome_def give_def plan Let_def
        collect_map_def)
      (simp add: demo_lines_def demo_options_def)
qed

theorem default_build_leaves_no_trace_witness:
  "run False demo_env demo_run_config demo_target demo_options (0, []) = ((1, demo_lines), Inr ()) \<and>
   determine_recovery_action False (recover_events False 0 (take 4 demo_lines)) = Restart \<and>
   verify_no_dangling_orders (\<lambda>_. []) (\<lambda>_. None) 0 (map EventLine (take 4 demo_lines)) = []"
  using default_build_leaves_no_trace [OF _ demo_run_default, of 0 4 "\<lambda>_. []" "\<lambda>_. None"] demo_run_default by simp

end
