(* ===== verification/Wal_Numbers.thy ===== *)
theory Wal_Numbers
  imports Execution_Properties
begin

text \<open>
  The build with write-ahead logging: checkpoint numbers only ever increase. The rules
  \<open>log_rule\<close> compute, for an action and a log, what holds of the log afterwards, whether the
  action returns or fails.
\<close>

section \<open>Logs after an action\<close>

definition leaves :: "('s, 'a) act \<Rightarrow> ('a \<Rightarrow> audit_event list \<Rightarrow> bool) \<Rightarrow> (audit_event list \<Rightarrow> bool) \<Rightarrow> audit_event list \<Rightarrow> bool" where
  "leaves m Q E l \<longleftrightarrow> (\<forall>s s' l' r. m (s, l) = ((s', l'), r) \<longrightarrow> (case r of Inl _ \<Rightarrow> E l' | Inr x \<Rightarrow> Q x l'))"

named_theorems log_rule

lemma leaves_give [log_rule]: "Q x l \<Longrightarrow> leaves (give x) Q E l"
  by (simp add: leaves_def give_def)

lemma leaves_raise [log_rule]: "E l \<Longrightarrow> leaves (raise e) Q E l"
  by (simp add: leaves_def raise_def)

lemma leaves_bind [log_rule]: "leaves m (\<lambda>x. leaves (f x) Q E) E l \<Longrightarrow> leaves (abind m f) Q E l"
  unfolding leaves_def abind_def by (fastforce split: prod.splits sum.splits)

lemma leaves_ask [log_rule]: "(\<And>x. Q x l) \<Longrightarrow> leaves (ask f) Q E l"
  by (simp add: leaves_def ask_def split: prod.splits)

lemma leaves_ask_value: "(\<And>s. Q (snd (f s)) l) \<Longrightarrow> leaves (ask f) Q E l"
  unfolding leaves_def ask_def by (auto split: prod.splits) (metis snd_conv)

lemma leaves_pause [log_rule]: "Q () l \<Longrightarrow> leaves (pause en n) Q E l"
  by (simp add: leaves_def pause_def)

lemma leaves_read_log [log_rule]: "Q l l \<Longrightarrow> leaves read_log Q E l"
  by (simp add: leaves_def read_log_def)

lemma leaves_observed [log_rule]: "leaves m (\<lambda>x. Q (Inr x)) (\<lambda>l'. \<forall>e. Q (Inl e) l') l \<Longrightarrow> leaves (observed m) Q E l"
  unfolding leaves_def observed_def by (auto split: prod.splits) (metis (no_types, lifting) sum.case_eq_if sum.collapse sum.split_sel)

lemma leaves_add_line [log_rule]: "Q () (l @ [e]) \<Longrightarrow> leaves (add_line e) Q E l"
  by (simp add: leaves_def add_line_def)

lemma leaves_if [log_rule]: "(b \<Longrightarrow> leaves m Q E l) \<Longrightarrow> (\<not> b \<Longrightarrow> leaves m' Q E l) \<Longrightarrow> leaves (if b then m else m') Q E l"
  by simp

lemma leaves_prod [log_rule]:
  "(\<And>a b. p = (a, b) \<Longrightarrow> leaves (f a b) Q E l) \<Longrightarrow> leaves (case p of (a, b) \<Rightarrow> f a b) Q E l"
  by (cases p) simp

lemma leaves_sum [log_rule]:
  "(\<And>x. v = Inl x \<Longrightarrow> leaves (f x) Q E l) \<Longrightarrow> (\<And>x. v = Inr x \<Longrightarrow> leaves (g x) Q E l) \<Longrightarrow>
   leaves (case v of Inl x \<Rightarrow> f x | Inr x \<Rightarrow> g x) Q E l"
  by (cases v) simp_all

lemma leaves_option [log_rule]:
  "(v = None \<Longrightarrow> leaves m Q E l) \<Longrightarrow> (\<And>x. v = Some x \<Longrightarrow> leaves (f x) Q E l) \<Longrightarrow>
   leaves (case v of None \<Rightarrow> m | Some x \<Rightarrow> f x) Q E l"
  by (cases v) simp_all

lemma leaves_call [log_rule]: "E l \<Longrightarrow> (\<And>x. Q x l) \<Longrightarrow> leaves (call err f) Q E l"
  unfolding call_def by (intro log_rule)

lemma leaves_open_log [log_rule]: "E l \<Longrightarrow> Q () l \<Longrightarrow> leaves (open_log en) Q E l"
  unfolding open_log_def by (intro log_rule)

lemma leaves_of_outcome [log_rule]: "E l \<Longrightarrow> (\<And>x. r = Inr x \<Longrightarrow> Q x l) \<Longrightarrow> leaves (of_outcome r) Q E l"
  by (auto simp: of_outcome_def intro!: log_rule split: sum.split panic.split)

lemma leaves_write [log_rule]: "E l \<Longrightarrow> (\<And>ts. Q () (l @ [f ts])) \<Longrightarrow> leaves (audit_write en f) Q E l"
  unfolding audit_write_def by (intro log_rule)

lemma leaves_weaken:
  "leaves m Q' E' l \<Longrightarrow> (\<And>x l'. Q' x l' \<Longrightarrow> Q x l') \<Longrightarrow> (\<And>l'. E' l' \<Longrightarrow> E l') \<Longrightarrow> leaves m Q E l"
  unfolding leaves_def by (fastforce split: sum.splits)

lemma leaves_appends:
  assumes "appends N m" and "P l" and "\<And>l e. P l \<Longrightarrow> N e \<Longrightarrow> P (l @ [e])"
  shows "leaves m (\<lambda>_. P) P l"
proof -
  have "list_all N es \<Longrightarrow> P (l @ es)" for es
    by (induction es rule: rev_induct) (use assms(2,3) in \<open>simp_all flip: append_assoc\<close>)
  then show ?thesis
    using assms(1) unfolding leaves_def appends_def by (metis fst_conv snd_conv sum.case_eq_if)
qed

section \<open>Checkpoint numbers\<close>

text \<open>Every checkpoint of a log is numbered, the numbers increase, and none is above \<open>b\<close>.\<close>

definition ordered_log :: "nat \<Rightarrow> audit_event list \<Rightarrow> bool" where
  "ordered_log b l \<longleftrightarrow>
     (\<forall>e \<in> set l. from_event_name True (ae_event e) \<noteq> None \<longrightarrow> ae_sequence_number e \<noteq> None) \<and>
     sorted_wrt (<) (checkpoint_sequences True l) \<and> (\<forall>n \<in> set (checkpoint_sequences True l). n \<le> b)"

lemma checkpoint_sequences_snoc:
  "checkpoint_sequences wal (l @ [e]) = checkpoint_sequences wal l @
     (if from_event_name wal (ae_event e) = None then [] else case ae_sequence_number e of None \<Rightarrow> [] | Some n \<Rightarrow> [n])"
  by (simp add: checkpoint_sequences_def List.map_filter_def split: option.split)

lemma ordered_log_mono: "ordered_log b l \<Longrightarrow> b \<le> b' \<Longrightarrow> ordered_log b' l"
  by (auto simp: ordered_log_def)

lemma ordered_log_checkpoint:
  "ordered_log b l \<Longrightarrow> b < n \<Longrightarrow> n \<le> b' \<Longrightarrow> ordered_log b' (l @ [log_checkpoint c n d ts])"
  by (fastforce simp: ordered_log_def checkpoint_sequences_snoc log_checkpoint_def from_as_event_name sorted_wrt_append)

lemma ordered_log_plain:
  "ordered_log b l \<Longrightarrow> from_event_name True name = None \<Longrightarrow> ordered_log b (l @ [log_with_idempotency name q w d ts])"
  by (simp add: ordered_log_def checkpoint_sequences_snoc log_with_idempotency_def)

lemma check_sequences_ordered:
  assumes "\<forall>e \<in> set l. from_event_name wal (ae_event e) \<noteq> None \<longrightarrow> ae_sequence_number e \<noteq> None"
    and "sorted_wrt (<) (checkpoint_sequences wal l)" and "\<forall>m k. last_sequence = Some m \<longrightarrow> k \<in> set (checkpoint_sequences wal l) \<longrightarrow> m < k"
  shows "\<exists>cs. check_sequences wal n last_sequence l = Inr cs"
  using assms
proof (induction wal n last_sequence l rule: check_sequences.induct)
  case (2 wal n last_sequence e es)
  show ?case
  proof (cases "from_event_name wal (ae_event e)")
    case None
    then show ?thesis using 2 by (simp add: checkpoint_sequences_def List.map_filter_def)
  next
    case (Some c)
    then obtain k where k: "ae_sequence_number e = Some k" using 2(4) by auto
    have seqs: "checkpoint_sequences wal (e # es) = k # checkpoint_sequences wal es"
      using Some k by (simp add: checkpoint_sequences_def List.map_filter_def)
    have "\<exists>cs. check_sequences wal (n + 1) (Some k) es = Inr cs"
      using 2(2,3) [OF Some k] 2(4-6) seqs by (cases last_sequence) auto
    then show ?thesis using Some k 2(6) seqs by (cases last_sequence) (auto simp: not_le)
  qed
qed simp

lemma check_sequences_Inr:
  "check_sequences wal n last_sequence l = Inr cs \<Longrightarrow>
   (\<forall>e \<in> set l. from_event_name wal (ae_event e) \<noteq> None \<longrightarrow> ae_sequence_number e \<noteq> None) \<and>
   sorted_wrt (<) (checkpoint_sequences wal l) \<and> (\<forall>m k. last_sequence = Some m \<longrightarrow> k \<in> set (checkpoint_sequences wal l) \<longrightarrow> m < k)"
  by (induction wal n last_sequence l arbitrary: cs rule: check_sequences.induct)
    (fastforce simp: checkpoint_sequences_def List.map_filter_def split: option.splits sum.splits if_splits)+

lemma ordered_log_valid: "ordered_log b l \<Longrightarrow> \<exists>cs. check_sequences True 0 None (take k l) = Inr cs"
proof (rule check_sequences_ordered)
  assume o: "ordered_log b l"
  have split: "checkpoint_sequences True l = checkpoint_sequences True (take k l) @ checkpoint_sequences True (drop k l)"
    by (simp add: checkpoint_sequences_def List.map_filter_def flip: map_append filter_append)
  show "sorted_wrt (<) (checkpoint_sequences True (take k l))" using o split by (simp add: ordered_log_def sorted_wrt_append)
  show "\<forall>e \<in> set (take k l). from_event_name True (ae_event e) \<noteq> None \<longrightarrow> ae_sequence_number e \<noteq> None"
    using o by (auto simp: ordered_log_def dest: in_set_takeD)
qed simp


definition some_order :: "audit_event list \<Rightarrow> bool" where
  "some_order l \<longleftrightarrow> (\<exists>b. ordered_log b l)"

lemma some_order_I: "ordered_log b l \<Longrightarrow> some_order l"
  by (auto simp: some_order_def)

lemma next_in_room:
  "n + 1 < 2 ^ 64 \<Longrightarrow> next_checkpoint_sequence n = Suc n" "n + 1 < 2 ^ 64 \<Longrightarrow> u64_sat_add n (Suc 0) = Suc n"
  by (simp_all add: next_checkpoint_sequence_def u64_sat_add_def u64_max_def)

lemma ordered_log_Suc: "ordered_log n l \<Longrightarrow> ordered_log (Suc n) l"
  by (erule ordered_log_mono) simp

lemmas checkpoint_line_defs = log_account_summary_intent_checkpoint_def log_account_summary_result_checkpoint_def
  log_positions_intent_checkpoint_def log_positions_result_checkpoint_def log_quotes_intent_checkpoint_def
  log_quotes_result_checkpoint_def log_cancel_intent_checkpoint_def log_cancel_result_checkpoint_def
  log_order_intent_checkpoint_def log_order_submitted_checkpoint_def log_order_failed_checkpoint_def
  log_order_filled_checkpoint_def log_run_started_checkpoint_def log_run_completed_checkpoint_def log_diff_checkpoint_def
  log_risk_check_passed_checkpoint_def

text \<open>An action that is given the number \<open>n\<close> and returns the next one.\<close>

definition numbers :: "nat \<Rightarrow> ('s, nat \<times> 'a) act \<Rightarrow> nat \<Rightarrow> bool" where
  "numbers n m k \<longleftrightarrow> (\<forall>l. ordered_log n l \<longrightarrow> leaves m (\<lambda>(n', _) l'. ordered_log n' l' \<and> n' \<le> n + k) some_order l)"

lemma fetch_numbers:
  assumes "n + 2 < 2 ^ 64"
  shows "numbers n (fetch_account_summary_with_write_ahead True en spec n) 2"
    "numbers n (fetch_positions_with_write_ahead True en spec equity n) 2"
    "numbers n (fetch_quotes_with_write_ahead True en spec ys m n) 2"
  unfolding numbers_def using assms
  by (auto simp: fetch_account_summary_with_write_ahead_def fetch_positions_with_write_ahead_def
      fetch_quotes_with_write_ahead_def Let_def next_in_room checkpoint_line_defs
      intro!: log_rule ordered_log_checkpoint intro: some_order_I ordered_log_checkpoint)


lemma cancel_numbers:
  "ordered_log n l \<Longrightarrow> n + 2 < 2 ^ 64 \<Longrightarrow> leaves (cancel_order_with_write_ahead True en n i why) (\<lambda>_. some_order) some_order l"
  by (auto simp: cancel_order_with_write_ahead_def Let_def next_in_room checkpoint_line_defs
      intro!: log_rule intro: some_order_I ordered_log_checkpoint)

lemma retry_numbers:
  "ordered_log n l \<Longrightarrow> n + 1 < 2 ^ 64 \<Longrightarrow> leaves (execute_retry en x cid n k) (\<lambda>_. ordered_log (Suc n)) (ordered_log (Suc n)) l"
proof (induction k arbitrary: l)
  case 0
  then show ?case
    by (subst execute_retry.simps)
      (auto simp: next_in_room checkpoint_line_defs intro!: log_rule intro: ordered_log_checkpoint ordered_log_Suc)
next
  case (Suc k)
  then show ?case
    by (subst execute_retry.simps)
      (auto simp: next_in_room checkpoint_line_defs intro!: log_rule Suc.IH simp del: execute_retry.simps
        intro: ordered_log_checkpoint ordered_log_Suc)
qed

lemma order_numbers:
  assumes "ordered_log n l" and "n + 2 < 2 ^ 64"
  shows "leaves (execute_order_with_write_ahead True en x cid (Suc n) spec) (\<lambda>_. ordered_log (Suc (Suc n))) (ordered_log (Suc (Suc n))) l"
  unfolding execute_order_with_write_ahead_def using assms
  by (auto simp: checkpoint_line_defs simp del: execute_retry.simps intro!: log_rule retry_numbers
      intro: ordered_log_checkpoint ordered_log_Suc)

lemma one_order_numbers:
  assumes "n + 3 < 2 ^ 64"
  shows "numbers n (run_one_order True en t n c x) 3"
proof -
  have "leaves (run_one_order True en t n c x) (\<lambda>(n', _) l'. ordered_log n' l' \<and> n' \<le> n + 3) some_order l"
    if "ordered_log n l" for l
    unfolding run_one_order_def derive_client_order_id_def log_fill_def Let_def using that assms
    by (cases c) (auto simp: checkpoint_line_defs next_in_room max_def intro!: log_rule leaves_weaken [OF order_numbers]
      intro: ordered_log_checkpoint ordered_log_Suc some_order_I)
  then show ?thesis by (simp add: numbers_def)
qed


lemma some_order_plain: "some_order l \<Longrightarrow> from_event_name True name = None \<Longrightarrow> some_order (l @ [log_with_idempotency name q w d ts])"
  by (auto simp: some_order_def intro: ordered_log_plain)

lemma write_checkpoint: "ordered_log n l \<Longrightarrow> n < k \<Longrightarrow> leaves (audit_write en (log_checkpoint c k d)) (\<lambda>_. ordered_log k) some_order l"
  by (intro log_rule) (auto intro: some_order_I ordered_log_checkpoint)

lemma write_plain:
  "ordered_log n l \<Longrightarrow> from_event_name True name = None \<Longrightarrow>
   leaves (audit_write en (log_with_idempotency name q w d)) (\<lambda>_. ordered_log n) some_order l"
  by (intro log_rule) (auto intro: some_order_I ordered_log_plain)

lemma numbersD:
  "numbers n m k \<Longrightarrow> ordered_log n l \<Longrightarrow> (\<And>n' y l'. ordered_log n' l' \<Longrightarrow> n' \<le> n + k \<Longrightarrow> Q (n', y) l') \<Longrightarrow>
   (\<And>l'. some_order l' \<Longrightarrow> E l') \<Longrightarrow> leaves m Q E l"
  unfolding numbers_def by (drule spec [of _ l], drule mp, assumption, erule leaves_weaken) auto

lemma stop_order: "some_order l \<Longrightarrow> leaves (log_graceful_stop en k) (\<lambda>x l'. x = ShutDown \<and> some_order l') some_order l"
  unfolding log_graceful_stop_def log_kill_completed_def log_kill_completed_with_summary_def log_plain_def
  by (intro log_rule) (simp_all add: some_order_plain from_event_name_def)

lemma orders_numbers:
  assumes "ordered_log n l" and "n + 3 * length xs + 2 < 2 ^ 64"
  shows "leaves (run_orders True en t interval m i n c xs)
           (\<lambda>r l'. case r of ShutDown \<Rightarrow> some_order l' | AllDone n' _ \<Rightarrow> ordered_log n' l' \<and> n' \<le> n + 3 * length xs) some_order l"
  using assms
proof (induction xs arbitrary: n c i l)
  case Nil
  then show ?case by (simp add: log_rule)
next
  case (Cons x xs)
  let ?Q = "\<lambda>r l'. case r of ShutDown \<Rightarrow> some_order l' | AllDone n' _ \<Rightarrow> ordered_log n' l' \<and> n' \<le> n + 3 * length (x # xs)"
  have stop: "leaves (log_graceful_stop en k) ?Q some_order l'" if "some_order l'" for k l'
    by (rule leaves_weaken [OF stop_order [OF that]]) auto
  have rest: "leaves (run_orders True en t interval m i' n' c' xs) ?Q some_order l'"
    if "ordered_log n' l'" "n' \<le> n + 3" for i' n' c' l'
    by (rule leaves_weaken [OF Cons.IH [OF that(1)]]) (use that(2) Cons.prems(2) in \<open>auto split: loop_end.splits\<close>)
  show ?case
    unfolding run_orders.simps
  proof (intro log_rule)
    show "leaves (log_graceful_stop en (m - i)) ?Q some_order l" using Cons.prems by (intro stop some_order_I)
    show "leaves (run_one_order True en t n c x)
      (\<lambda>a. leaves (case a of (n', c', k) \<Rightarrow> abind (ask (en_shutdown en)) (\<lambda>stop'.
          if stop'
          then (case k of
                  None \<Rightarrow> log_graceful_stop en (remaining_orders_after i m)
                | Some k \<Rightarrow>
                    abind (cancel_order_with_write_ahead True en n' (if k < 0 then 0 else nat k)
                             (bytes_of ''graceful_shutdown_partial_fill'')) (\<lambda>_.
                    log_graceful_stop en (remaining_orders_after i m + 1)))
          else abind (if i + 1 < m then pause en interval else give ()) (\<lambda>_.
               run_orders True en t interval m (i + 1) n' c' xs))) ?Q some_order) some_order l"
      using Cons.prems
      by (auto simp del: run_orders.simps intro!: numbersD [OF one_order_numbers] log_rule stop rest
          leaves_weaken [OF cancel_numbers] intro: some_order_I)
  qed
qed


lemma fresh_keeps: "P l \<Longrightarrow> leaves (check_fresh en k qs) (\<lambda>_. P) P l"
  by (induction qs) (auto intro!: log_rule)

lemma foldl_max_bounds: "(\<forall>x \<in> set xs. x \<le> foldl max a xs) \<and> a \<le> foldl max a xs" for a :: nat
  by (induction xs arbitrary: a) (auto, meson le_trans max.cobounded1 max.cobounded2, meson le_trans max.cobounded1)

lemma foldl_max_le: "\<forall>x \<in> set xs. x \<le> b \<Longrightarrow> a \<le> b \<Longrightarrow> foldl max a xs \<le> b" for a :: nat
  by (induction xs arbitrary: a) auto

lemma start_numbers:
  assumes "ordered_log b l" and "b < 2 ^ 63" and "\<And>s. snd (en_now en s) < 2 ^ 63 * 10 ^ 9"
  shows "leaves (start_run True en c t opts) (\<lambda>(_, n) l'. ordered_log n l' \<and> n \<le> 2 ^ 63) some_order l"
proof -
  define k where "k = foldl max 0 (checkpoint_sequences True l)"
  have k: "ordered_log (max a k) l" for a
    using assms(1) foldl_max_bounds [of "checkpoint_sequences True l" 0] by (auto simp: ordered_log_def k_def intro: le_max_iff_disj [THEN iffD2])
  have "k < 2 ^ 63" using foldl_max_le [of "checkpoint_sequences True l" b 0] assms(1,2) by (simp add: ordered_log_def k_def)
  then have small: "nat (ts div 1000000000) \<le> 9223372036854775807" "k \<le> 9223372036854775807"
    if "ts < 9223372036854775808000000000" for ts :: int
    using that by auto
  have room: "next_checkpoint_sequence (max (nat (ts div 1000000000)) k) = Suc (max (nat (ts div 1000000000)) k)"
    if "ts < 9223372036854775808000000000" for ts :: int
    using small [OF that] by (intro next_in_room) (simp add: max_def)
  have now: "leaves (ask (en_now en)) Q E l'" if "\<And>ts. ts < 2 ^ 63 * 10 ^ 9 \<Longrightarrow> Q ts l'" for Q E l'
    by (intro leaves_ask_value that assms(3))
  have first: "ordered_log (Suc (max a k)) (l @ [log_checkpoint RunStarted (Suc (max a k)) d ts])" for a d ts
    by (intro ordered_log_checkpoint [OF k [of a]]) simp_all
  have second: "ordered_log (Suc (max a k)) (l @ [log_checkpoint RunStarted (Suc (max a k)) d ts, log_cron_start n w ts'])" for a d ts n w ts'
    using ordered_log_plain [OF first, of "''cron_start''"] by (simp add: log_cron_start_def from_event_name_def)
  have cron: "leaves (cron_check en t b) (\<lambda>_ l'. l' = l) some_order l" for b
    unfolding cron_check_def log_idempotency_rejection_def using some_order_I [OF assms(1)]
    by (auto intro!: log_rule some_order_plain simp: from_event_name_def)
  note here = some_order_I [OF assms(1)]
  show ?thesis
    unfolding start_run_def Let_def
    supply leaves_ask [log_rule del]
    apply (rule leaves_bind, rule leaves_ask, rule leaves_if, rule leaves_raise, rule here)
    apply (rule leaves_bind, rule leaves_weaken [OF cron])
     apply (auto intro!: log_rule now here first second some_order_I [OF first] simp: room small checkpoint_line_defs k_def [symmetric])
    done
qed

lemma market_numbers:
  assumes "n + 6 < 2 ^ 64"
  shows "numbers n (observe_market True en c t n) 6"
proof -
  have "leaves (observe_market True en c t n) (\<lambda>(n', _) l'. ordered_log n' l' \<and> n' \<le> n + 6) some_order l"
    if "ordered_log n l" for l
    unfolding observe_market_def Let_def using that assms
    by (auto intro!: log_rule numbersD [OF fetch_numbers(1)] numbersD [OF fetch_numbers(2)] numbersD [OF fetch_numbers(3)]
      leaves_weaken [OF fresh_keeps [of "ordered_log _"]] intro: some_order_I)
  then show ?thesis by (simp add: numbers_def)
qed

lemma result_numbers:
  assumes "ordered_log n l" and "n + 6 < 2 ^ 64"
  shows "leaves (observe_result True en c t a ys n) (\<lambda>n' l'. ordered_log n' l' \<and> n' \<le> n + 6) some_order l"
  unfolding observe_result_def using assms
  by (auto intro!: log_rule numbersD [OF fetch_numbers(1)] numbersD [OF fetch_numbers(2)] numbersD [OF fetch_numbers(3)]
      intro: some_order_I)


lemma complete_order:
  "ordered_log n l \<Longrightarrow> n + 1 < 2 ^ 64 \<Longrightarrow> leaves (complete_run True en n c) (\<lambda>_. some_order) some_order l"
  unfolding complete_run_def
  by (cases c) (auto simp: checkpoint_line_defs next_in_room intro!: log_rule intro: some_order_I ordered_log_checkpoint)

lemma plan_order:
  assumes "ordered_log n l" and "n + 3 * length xs + 8 < 2 ^ 64"
  shows "leaves (execute_plan True en c t opts run_seq n a ys xs) (\<lambda>_. some_order) some_order l"
proof -
  have confirm: "leaves (confirm_execution en b) (\<lambda>_. ordered_log n) some_order l" for b
    unfolding confirm_execution_def log_plain_def using assms(1)
    by (auto intro!: log_rule ordered_log_plain intro: some_order_I simp: from_event_name_def)
  have cron: "ordered_log m (l' @ [log_cron_completed q w i j k ts])" if "ordered_log m l'" for m l' q w i j k ts
    unfolding log_cron_completed_def by (intro ordered_log_plain that) (simp add: from_event_name_def)
  show ?thesis
    unfolding execute_plan_def using assms
    by (auto intro!: log_rule leaves_weaken [OF confirm] leaves_weaken [OF orders_numbers] leaves_weaken [OF result_numbers]
        complete_order intro: some_order_I cron split: loop_end.splits)
qed

lemma run_order:
  assumes "ordered_log b l" and "b < 2 ^ 63" and "\<And>s. snd (en_now en s) < 2 ^ 63 * 10 ^ 9" and "rc_max_orders_per_run c < 2 ^ 60"
  shows "leaves (run True en c t opts) (\<lambda>_. some_order) some_order l"
proof -
  have start: "leaves (start_run True en c t opts) (\<lambda>p l'. ordered_log (snd p) l' \<and> snd p \<le> 2 ^ 63) some_order l"
    by (rule leaves_weaken [OF start_numbers [OF assms(1-3)]]) auto
  show ?thesis
    unfolding run_def Let_def log_risk_check_def log_plain_def
    using assms(4)
    supply leaves_write [log_rule del]
    by (auto intro!: log_rule leaves_weaken [OF start] numbersD [OF market_numbers] complete_order plan_order
        leaves_weaken [OF write_checkpoint] leaves_weaken [OF write_plain]
        simp: checkpoint_line_defs next_in_room from_event_name_def)
      (auto intro: some_order_I)
qed

end
