(* ===== verification/Wal_Properties.thy ===== *)
theory Wal_Properties
  imports Wal_Numbers Rebalance_Properties
begin

text \<open>
  The two promises of the build with write-ahead logging: the numbers of the checkpoints increase,
  and a crash between the intent and the outcome of an order is seen by recovery. The second rests
  on an invariant of the recovered state along the run (\<open>stage\<close>): the orders still to be sent
  are in the log, untouched.
\<close>

section \<open>Crashes between intent and outcome\<close>

text \<open>Every order intent written since \<open>n\<close> lines is one that recovery sees as unresolved.\<close>

abbreviation recovered :: "int \<Rightarrow> audit_event list \<Rightarrow> recovered_state" where
  "recovered now l \<equiv> recover_events True now l"

definition covered :: "int \<Rightarrow> nat \<Rightarrow> audit_event list \<Rightarrow> bool" where
  "covered now n l \<longleftrightarrow>
     (\<forall>k. n \<le> k \<longrightarrow> k < length l \<longrightarrow> ae_event (l ! k) = ''order_intent'' \<longrightarrow>
          determine_recovery_action True (recovered now (take (Suc k) l)) = Resume)"

lemma recovered_snoc: "recovered now (l @ [e]) = recover_event True (recovered now l) e"
  by (simp add: recover_events_def)

lemma covered_snoc:
  assumes "covered now n l"
    and "ae_event e = ''order_intent'' \<Longrightarrow> determine_recovery_action True (recover_event True (recovered now l) e) = Resume"
  shows "covered now n (l @ [e])"
  using assms by (auto simp: covered_def nth_append less_Suc_eq recovered_snoc)

text \<open>Nothing stands in the way of resuming: the run is open and no cancellation failed or is pending.\<close>

definition quiet :: "recovered_state \<Rightarrow> bool" where
  "quiet st \<longleftrightarrow> \<not> rs_run_completed st \<and> \<not> rs_cancel_failed st \<and> \<not> intent_open (rs_last_cancel_intent st) (rs_last_cancel_result st)"

definition fresh_order :: "recovered_order list \<Rightarrow> nat list \<Rightarrow> bool" where
  "fresh_order rs y \<longleftrightarrow> (\<exists>r. List.find (\<lambda>r. as_str (rv_symbol r) = y) rs = Some r \<and> \<not> rv_submitted r \<and> \<not> rv_failed r)"

lemma find_update_other:
  "(\<And>r. Q (f r) = Q r) \<Longrightarrow> (\<And>r. P r \<Longrightarrow> \<not> Q r) \<Longrightarrow> List.find Q (update_first P f xs) = List.find Q xs"
  by (induction xs) auto

lemma find_update_some:
  "(\<And>r. Q (f r) = Q r) \<Longrightarrow> List.find Q xs = Some r \<Longrightarrow>
   \<exists>r'. List.find Q (update_first P f xs) = Some r' \<and> (r' = r \<or> r' = f r)"
  by (induction xs) (auto split: if_splits)

lemma fresh_update:
  assumes "fresh_order rs y" and "\<And>r. rv_symbol (f r) = rv_symbol r"
    and "\<And>r. rv_submitted (f r) = rv_submitted r" and "\<And>r. rv_failed (f r) = rv_failed r"
  shows "fresh_order (update_first P f rs) y"
  using assms find_update_some [of "\<lambda>r. as_str (rv_symbol r) = y" f rs _ P] unfolding fresh_order_def by metis

lemma fresh_other:
  assumes "fresh_order rs y" and "\<And>r. rv_symbol (f r) = rv_symbol r" and "\<And>r. P r \<Longrightarrow> as_str (rv_symbol r) \<noteq> y"
  shows "fresh_order (update_first P f rs) y"
  using assms by (simp add: fresh_order_def find_update_other)

text \<open>The orders still to be sent.\<close>

definition order_key :: "rebalance_order \<Rightarrow> nat list" where
  "order_key x = as_str (ro_symbol x)"

definition awaiting :: "rebalance_order list \<Rightarrow> recovered_state \<Rightarrow> bool" where
  "awaiting xs st \<longleftrightarrow> quiet st \<and> distinct (map order_key xs) \<and>
     (\<forall>x \<in> set xs. i64_min \<le> ro_shares x \<and> ro_shares x \<le> i64_max \<and> fresh_order (rs_orders st) (order_key x))"

lemma awaiting_tl: "awaiting (x # xs) st \<Longrightarrow> awaiting xs st"
  by (simp add: awaiting_def)

lemma recover_checkpoint:
  "recover_event True st (log_checkpoint c n d ts) = apply_checkpoint c (log_checkpoint c n d ts) (mark_checkpoint c (log_checkpoint c n d ts) st)"
  by (simp add: recover_event_def log_checkpoint_def from_as_event_name)

lemma order_data_fields:
  assumes "i64_min \<le> ro_shares x" and "ro_shares x \<le> i64_max"
  shows "get_str ''symbol'' (JObj (order_fields x @ kvs)) = Some (order_key x)"
    "get_i64 ''shares'' (JObj (order_fields x @ kvs)) = Some (ro_shares x)"
    "\<exists>a. get_str ''action'' (JObj (order_fields x @ kvs)) = Some a"
    "\<exists>p. get_f64 ''limit'' (JObj (order_fields x @ kvs)) = Some p"
  using assms by (simp_all add: order_fields_def get_str_def get_i64_def get_f64_def symbol_json_def order_key_def i64_checked_def dollars_def)

lemma find_list_ex: "List.find Q xs = Some r \<Longrightarrow> list_ex Q xs \<and> Q r \<and> r \<in> set xs"
  by (induction xs) (auto split: if_splits)

lemma update_first_member: "List.find Q xs = Some r \<Longrightarrow> f r \<in> set (update_first Q f xs)"
  by (induction xs) (auto split: if_splits)

lemma quiet_apply:
  assumes "quiet st" and "c \<notin> {CancelIntent, CancelResult, RunCompleted}"
  shows "quiet (apply_checkpoint c e (mark_checkpoint c' e' st))"
  using assms
  by (cases c) (auto simp: quiet_def apply_checkpoint_def mark_checkpoint_def Let_def read_equity_def read_positions_def read_diff_def
      split: option.split sum.split)


lemma awaiting_intent:
  assumes "awaiting (x # xs) st" and e_def: "e = log_order_intent_checkpoint seq x cid tt spec ctx ts"
  shows "determine_recovery_action True (recover_event True st e) = Resume" and "awaiting (x # xs) (recover_event True st e)"
proof -
  let ?f = "\<lambda>r. r\<lparr>rv_client_order_id := Some cid\<rparr>"
  let ?Q = "\<lambda>r. as_str (rv_symbol r) = order_key x"
  let ?d = "JObj (order_fields x @ [(''client_order_id'', JStr cid), (''timestamp'', JStr tt),
     (''target_spec_reference'', JStr spec), (''execution_context'', JStr ctx)])"
  from assms(1) obtain r where r: "List.find ?Q (rs_orders st) = Some r" "\<not> rv_submitted r" "\<not> rv_failed r"
    and range: "i64_min \<le> ro_shares x" "ro_shares x \<le> i64_max"
    by (auto simp: awaiting_def fresh_order_def)
  have e: "e = log_checkpoint OrderIntent seq ?d ts" by (simp add: e_def log_order_intent_checkpoint_def)
  obtain a p where fields: "get_str ''action'' ?d = Some a" "get_f64 ''limit'' ?d = Some p"
    using order_data_fields(3,4) [OF range] by meson
  have "get_str ''client_order_id'' ?d = Some cid" by (simp add: get_str_def order_fields_def)
  then have "read_intent ?d (rs_orders st) = update_first ?Q ?f (rs_orders st)"
    using find_list_ex [OF r(1)] by (simp add: read_intent_def order_data_fields [OF range] fields)
  then have orders: "rs_orders (recover_event True st e) = update_first ?Q ?f (rs_orders st)"
    by (simp add: e recover_checkpoint apply_checkpoint_orders) (simp add: log_checkpoint_def)
  have q: "quiet (recover_event True st e)"
    using assms(1) unfolding e recover_checkpoint by (intro quiet_apply) (auto simp: awaiting_def)
  have "?f r \<in> set (update_first ?Q ?f (rs_orders st))" using update_first_member [OF r(1)] .
  moreover have "incomplete_intent (?f r)" using r by (simp add: incomplete_intent_def)
  ultimately have "list_ex incomplete_intent (rs_orders (recover_event True st e))" unfolding orders list_ex_iff by blast
  then show "determine_recovery_action True (recover_event True st e) = Resume"
    using q by (cases "rs_orders (recover_event True st e)") (auto simp: determine_recovery_action_def quiet_def)
  show "awaiting (x # xs) (recover_event True st e)"
    using assms(1) q unfolding awaiting_def orders by (auto intro!: fresh_update)
qed

lemma awaiting_submitted:
  assumes "awaiting (x # xs) st"
  shows "awaiting xs (recover_event True st (log_order_submitted_checkpoint seq x i ts))"
proof -
  let ?d = "JObj (order_fields x @ [(''ibkr_id'', JInt i)])"
  have "fresh_order (read_submitted ?d (rs_orders st)) (order_key y)" if "y \<in> set xs" for y
    using assms that order_data_fields(1) [of x "[(''ibkr_id'', JInt i)]"]
    by (auto simp: awaiting_def read_submitted_def intro!: fresh_other split: option.split) (metis image_eqI)
  then show ?thesis
    using assms unfolding log_order_submitted_checkpoint_def recover_checkpoint awaiting_def
    by (auto simp: apply_checkpoint_orders intro!: quiet_apply) (simp add: log_checkpoint_def)
qed

lemma awaiting_failed:
  assumes "awaiting xs st"
  shows "awaiting xs (recover_event True st (log_order_failed_checkpoint seq a b cx ts))"
  using assms unfolding log_order_failed_checkpoint_def recover_checkpoint awaiting_def
  by (auto simp: apply_checkpoint_orders intro!: quiet_apply) (simp add: log_checkpoint_def read_failed_def get_str_def)

lemma awaiting_filled:
  assumes "awaiting xs st"
  shows "awaiting xs (recover_event True st (log_order_filled_checkpoint seq r ts))"
proof -
  have "fresh_order (read_filled d (rs_orders st)) (order_key y)" if "y \<in> set xs" for y d
    using assms that by (auto simp: awaiting_def read_filled_def intro!: fresh_update split: option.split)
  then show ?thesis
    using assms unfolding log_order_filled_checkpoint_def recover_checkpoint awaiting_def
    by (auto simp: apply_checkpoint_orders intro!: quiet_apply)
qed


text \<open>Lines that are no intents, and lines that say nothing about orders and cancellations.\<close>

definition not_intent :: "audit_event \<Rightarrow> bool" where
  "not_intent e \<longleftrightarrow> ae_event e \<noteq> ''order_intent''"

definition calm :: "audit_event \<Rightarrow> bool" where
  "calm e \<longleftrightarrow> ae_event e \<notin> {''order_intent'', ''order_submitted'', ''order_failed'', ''order_filled'', ''diff_computed'',
     ''cancel_intent'', ''cancel_result'', ''run_completed''}"

lemma covered_not_intent: "covered now n l \<Longrightarrow> not_intent e \<Longrightarrow> covered now n (l @ [e])"
  by (rule covered_snoc) (simp_all add: not_intent_def)

lemma recover_calm: "calm e \<Longrightarrow> rs_orders (recover_event True st e) = rs_orders st \<and> (quiet st \<longrightarrow> quiet (recover_event True st e))"
proof (cases "from_event_name True (ae_event e)")
  case (Some c)
  assume "calm e"
  then have c: "c \<notin> {OrderIntent, OrderSubmitted, OrderFailed, OrderFilled, DiffComputed, CancelIntent, CancelResult, RunCompleted}"
    using from_event_name_Some [OF Some] by (auto simp: calm_def as_event_name_def)
  then have "rs_orders (apply_checkpoint c e (mark_checkpoint c e st)) = rs_orders st"
    by (cases c) (simp_all add: apply_checkpoint_orders)
  then show ?thesis using Some c by (auto simp: recover_event_def intro!: quiet_apply)
qed (simp add: recover_event_def)

definition stage :: "int \<Rightarrow> nat \<Rightarrow> rebalance_order list \<Rightarrow> audit_event list \<Rightarrow> bool" where
  "stage now n xs l \<longleftrightarrow> covered now n l \<and> awaiting xs (recovered now l)"

lemma stage_calm: "stage now n xs l \<Longrightarrow> calm e \<Longrightarrow> stage now n xs (l @ [e])"
  using recover_calm [of e "recovered now l"]
  by (auto simp: stage_def awaiting_def recovered_snoc calm_def not_intent_def intro!: covered_not_intent)

lemma stage_tl: "stage now n (x # xs) l \<Longrightarrow> stage now n xs l"
  by (auto simp: stage_def intro: awaiting_tl)

lemma stage_covered: "stage now n xs l \<Longrightarrow> covered now n l"
  by (simp add: stage_def)

lemma stage_intent:
  "stage now n (x # xs) l \<Longrightarrow> stage now n (x # xs) (l @ [log_order_intent_checkpoint seq x cid tt spec ctx ts])"
  unfolding stage_def using awaiting_intent by (auto simp: recovered_snoc intro!: covered_snoc)

lemma not_intent_lines:
  "not_intent (log_order_submitted_checkpoint seq x i ts)" "not_intent (log_order_failed_checkpoint seq a b cx ts)"
  "not_intent (log_order_filled_checkpoint seq r ts)"
  by (simp_all add: not_intent_def checkpoint_line_defs log_checkpoint_def as_event_name_def)

lemma stage_outcome:
  "stage now n (x # xs) l \<Longrightarrow> stage now n xs (l @ [log_order_submitted_checkpoint seq x i ts])"
  "stage now n (x # xs) l \<Longrightarrow> stage now n xs (l @ [log_order_failed_checkpoint seq a b cx ts])"
  "stage now n xs l \<Longrightarrow> stage now n xs (l @ [log_order_filled_checkpoint seq r ts])"
  by (auto simp: stage_def recovered_snoc
      intro!: covered_not_intent awaiting_submitted awaiting_filled awaiting_failed not_intent_lines intro: awaiting_tl)

lemma retry_stage: "stage now n (x # xs) l \<Longrightarrow> leaves (execute_retry en x cid seq k) (\<lambda>_. stage now n xs) (stage now n xs) l"
proof (induction k arbitrary: l)
  case 0
  then show ?case by (subst execute_retry.simps) (auto intro!: log_rule intro: stage_outcome stage_tl)
next
  case (Suc k)
  then show ?case
    by (subst execute_retry.simps) (auto intro!: log_rule Suc.IH simp del: execute_retry.simps intro: stage_outcome stage_tl)
qed

lemma one_order_stage:
  "stage now n (x # xs) l \<Longrightarrow> leaves (run_one_order True en t seq c x) (\<lambda>_. stage now n xs) (covered now n) l"
  unfolding run_one_order_def execute_order_with_write_ahead_def derive_client_order_id_def log_fill_def Let_def
  by (cases c) (auto simp del: execute_retry.simps
      intro!: log_rule leaves_weaken [OF retry_stage] intro: stage_intent stage_outcome stage_tl stage_covered)

lemma plain_lines:
  "appends not_intent (cancel_order_with_write_ahead True en seq i why)" "appends not_intent (log_graceful_stop en k)"
  "appends not_intent (complete_run True en seq counts)"
  "appends not_intent (fetch_account_summary_with_write_ahead True en spec seq)"
  "appends not_intent (fetch_positions_with_write_ahead True en spec equity seq)"
  "appends not_intent (fetch_quotes_with_write_ahead True en spec ys m seq)"
  unfolding cancel_order_with_write_ahead_def log_graceful_stop_def complete_run_def Let_def
    fetch_account_summary_with_write_ahead_def fetch_positions_with_write_ahead_def fetch_quotes_with_write_ahead_def
  by (auto intro!: trace_intro simp: not_intent_def checkpoint_line_defs log_checkpoint_def as_event_name_def plain_line_defs)

lemma covered_appends: "appends not_intent m \<Longrightarrow> covered now n l \<Longrightarrow> leaves m (\<lambda>_. covered now n) (covered now n) l"
  by (erule leaves_appends) (auto intro: covered_not_intent)

lemmas covered_plain = plain_lines [THEN covered_appends]

lemma orders_covered: "stage now n xs l \<Longrightarrow> leaves (run_orders True en t interval m i seq c xs) (\<lambda>_. covered now n) (covered now n) l"
proof (induction xs arbitrary: seq c i l)
  case Nil
  then show ?case by (auto intro!: log_rule intro: stage_covered)
next
  case (Cons x xs)
  then show ?case
    unfolding run_orders.simps
    by (auto intro!: log_rule leaves_weaken [OF one_order_stage] leaves_weaken [OF covered_plain(1)] covered_plain(2) Cons.IH
        simp del: run_orders.simps
        intro: stage_covered)
qed


lemma plan_covered:
  assumes "stage now n xs l"
  shows "leaves (execute_plan True en c t opts run_seq seq a ys xs) (\<lambda>_. covered now n) (covered now n) l"
proof -
  have confirm: "leaves (confirm_execution en b) (\<lambda>_. stage now n xs) (covered now n) l" for b
    unfolding confirm_execution_def using assms
    by (auto intro!: log_rule stage_calm intro: stage_covered simp: calm_def log_plain_def log_with_idempotency_def)
  have result: "leaves (observe_result True en c t a ys seq') (\<lambda>_. covered now n) (covered now n) l'" if "covered now n l'" for seq' l'
    unfolding observe_result_def by (intro covered_appends that trace_intro plain_lines)
  show ?thesis
    unfolding execute_plan_def
    by (auto intro!: log_rule leaves_weaken [OF confirm] leaves_weaken [OF orders_covered] leaves_weaken [OF result]
        covered_plain(3) covered_not_intent intro: stage_covered split: loop_end.split
        simp: not_intent_def log_cron_completed_def log_with_idempotency_def)
qed


section \<open>The orders of a run\<close>

text \<open>Symbols as the constructors build them: padded with zeros, so their text determines them.\<close>

definition padded :: "symbol \<Rightarrow> bool" where
  "padded y \<longleftrightarrow> symbol_try_new (as_str y) = Some y"

lemma padded_inj: "padded y \<Longrightarrow> padded z \<Longrightarrow> as_str y = as_str z \<Longrightarrow> y = z"
  by (simp add: padded_def)

lemma symbol_ok_padded: "symbol_ok y \<Longrightarrow> padded y"
proof (cases y)
  case (Symbol buf len)
  assume "symbol_ok y"
  then have len: "length buf = 8" "len \<le> 8" and zeros: "\<forall>b \<in> set (drop len buf). b = 0"
    by (simp_all add: symbol_ok_def Symbol)
  then have "drop len buf = replicate (8 - len) 0" by (metis length_drop replicate_length_same)
  then show ?thesis
    using len by (simp add: padded_def symbol_try_new_def as_str_def Symbol) (metis append_take_drop_id)
qed

lemma symbol_new_padded: "symbol_new s = Inr y \<Longrightarrow> padded y \<and> as_str y = s"
  by (auto simp: symbol_new_def padded_def symbol_try_new_def as_str_def split: option.splits if_splits)

lemma as_target_pairs_symbols:
  "as_target_pairs ts = Inr ps \<Longrightarrow> map (\<lambda>p. as_str (fst p)) ps = map fst ts \<and> (\<forall>p \<in> set ps. padded (fst p))"
proof (induction ts arbitrary: ps rule: as_target_pairs.induct)
  case (2 y w ts)
  then obtain z r where z: "symbol_new y = Inr z" "as_target_pairs ts = Inr r" "ps = (z, w) # r" by (auto split: sum.splits)
  then show ?case using 2(1) [OF z(1,2)] symbol_new_padded [OF z(1)] by simp
qed simp

lemma first_duplicate_None: "first_duplicate seen ys = None \<Longrightarrow> distinct ys \<and> set ys \<inter> set seen = {}"
  by (induction seen ys rule: first_duplicate.induct) (auto split: if_splits)

lemma target_pairs_distinct:
  assumes "target_validate ts = Inr ()" and "as_target_pairs ts = Inr ps"
  shows "distinct (map fst ps) \<and> (\<forall>p \<in> set ps. padded (fst p))"
proof -
  have "distinct (map fst ts)"
    using assms(1) first_duplicate_None [of "[]" "map fst ts"] by (auto simp: target_validate_def Let_def split: if_splits option.splits)
  then have "distinct (map as_str (map fst ps))" using as_target_pairs_symbols [OF assms(2)] by (simp add: comp_def)
  then show ?thesis using as_target_pairs_symbols [OF assms(2)] distinct_map by blast
qed

lemma distinct_map_filter:
  assumes "distinct (map f xs)" and "\<And>x y. g x = Some y \<Longrightarrow> h y = f x"
  shows "distinct (map h (List.map_filter g xs)) \<and> h ` set (List.map_filter g xs) \<subseteq> f ` set xs"
  using assms(1) by (induction xs) (force simp: assms(2) split: option.split)+

lemma target_order_facts:
  "target_order equity cm pm bps mt target = Some x \<Longrightarrow> ro_symbol x = fst target \<and> i64_min \<le> ro_shares x \<and> ro_shares x \<le> i64_max"
  by (auto simp: target_order_def Let_def i64_wrap_range split: prod.splits option.splits if_splits)

lemma close_order_facts:
  "close_order tm pm bps pos = Some x \<Longrightarrow> i64_min \<le> ro_shares x \<and> ro_shares x \<le> i64_max \<and> om_get tm (ro_symbol x) = None"
  by (auto simp: close_order_def Let_def i64_wrap_range split: prod.splits option.splits if_splits)

lemma compute_diff_orders:
  assumes "distinct (map cp_symbol ps)" and "\<forall>p \<in> set ps. padded (cp_symbol p)"
    and "distinct (map fst ts)" and "\<forall>p \<in> set ts. padded (fst p)" and xs_def: "xs = compute_diff equity ps ts prices bps mt"
  shows "distinct (map order_key xs) \<and> (\<forall>x \<in> set xs. padded (ro_symbol x) \<and> i64_min \<le> ro_shares x \<and> ro_shares x \<le> i64_max)"
proof -
  define cs where "cs = List.map_filter (close_order (collect_map ts) (collect_map prices) bps) ps"
  define ns where "ns = List.map_filter (target_order equity (collect_map (map (\<lambda>p. (cp_symbol p, cp_quantity p)) ps))
    (collect_map prices) bps mt) ts"
  have xs: "xs = cs @ ns" by (simp add: xs_def compute_diff_def Let_def cs_def ns_def)
  have c: "distinct (map ro_symbol cs)" "ro_symbol ` set cs \<subseteq> cp_symbol ` set ps"
    using distinct_map_filter [OF assms(1), of _ ro_symbol] close_order_symbol unfolding cs_def by blast+
  have n: "distinct (map ro_symbol ns)" "ro_symbol ` set ns \<subseteq> fst ` set ts"
    using distinct_map_filter [OF assms(3), of _ ro_symbol] target_order_facts unfolding ns_def by blast+
  have "om_get (collect_map ts) (ro_symbol x) = None" if "x \<in> set cs" for x
    using that close_order_facts by (auto simp: cs_def List.map_filter_def)
  then have "ro_symbol ` set cs \<inter> fst ` set ts = {}"
    using assms(3) by (auto simp: collect_map_get map_of_eq_None_iff)
  then have d: "distinct (map ro_symbol xs)" using c n by (fastforce simp: xs)
  have p: "padded (ro_symbol x)" if "x \<in> set xs" for x using that c(2) n(2) assms(2,4) unfolding xs by fastforce
  have "inj_on as_str (set (map ro_symbol xs))" using p padded_inj by (auto intro!: inj_onI)
  then have "distinct (map as_str (map ro_symbol xs))" using d by (simp only: distinct_map [of as_str])
  moreover have "i64_min \<le> ro_shares x \<and> ro_shares x \<le> i64_max" if "x \<in> set xs" for x
    using that close_order_facts target_order_facts by (fastforce simp: xs cs_def ns_def List.map_filter_def)
  ultimately show ?thesis using p by (simp add: order_key_def [abs_def] comp_def)
qed


lemma read_order_symbol: "padded (ro_symbol x) \<Longrightarrow> rv_symbol (read_order (order_json x)) = ro_symbol x"
  by (simp add: read_order_def new_recovered_order_def symbol_or_unknown_def order_json_def get_str_def symbol_json_def option_or_def
      padded_def)

lemma stage_diff:
  assumes "stage now n [] l" and "distinct (map order_key xs)"
    and "\<forall>x \<in> set xs. padded (ro_symbol x) \<and> i64_min \<le> ro_shares x \<and> ro_shares x \<le> i64_max"
  shows "stage now n xs (l @ [log_diff_checkpoint seq xs ts])"
proof -
  let ?st = "recovered now (l @ [log_diff_checkpoint seq xs ts])"
  have orders: "rs_orders ?st = map (\<lambda>x. read_order (order_json x)) xs"
    unfolding recovered_snoc log_diff_checkpoint_def recover_checkpoint apply_checkpoint_orders
    by (simp add: log_checkpoint_def diff_data_def get_array_def comp_def)
  have "fresh_order (rs_orders ?st) (order_key x)" if "x \<in> set xs" for x
  proof -
    have "List.find (\<lambda>r. as_str (rv_symbol r) = order_key x) (rs_orders ?st) \<noteq> None"
      using that assms(3) unfolding orders find_None_iff by (auto simp: order_key_def read_order_symbol)
    then obtain r where r: "List.find (\<lambda>r. as_str (rv_symbol r) = order_key x) (rs_orders ?st) = Some r" by blast
    then have "r \<in> set (rs_orders ?st)" using find_list_ex by fastforce
    then show ?thesis using r unfolding orders fresh_order_def by (auto simp: read_order_new)
  qed
  moreover have "quiet ?st"
    using assms(1) unfolding recovered_snoc log_diff_checkpoint_def recover_checkpoint
    by (intro quiet_apply) (auto simp: stage_def awaiting_def)
  moreover have "covered now n (l @ [log_diff_checkpoint seq xs ts])"
    using assms(1) by (intro covered_not_intent stage_covered) (simp_all add: not_intent_def log_diff_checkpoint_def log_checkpoint_def as_event_name_def)
  ultimately show ?thesis using assms(2,3) by (simp add: stage_def awaiting_def)
qed

lemma leaves_call_value: "E l \<Longrightarrow> (\<And>s x. snd (f s) = Inr x \<Longrightarrow> Q x l) \<Longrightarrow> leaves (call err f) Q E l"
  unfolding call_def by (intro leaves_bind leaves_ask_value) (auto intro!: log_rule split: sum.split)

lemma market_stage:
  assumes "stage now n [] l" and "\<And>s ps. snd (en_positions en s) = Inr ps \<Longrightarrow> G ps"
  shows "leaves (observe_market True en c t seq) (\<lambda>(_, _, ps, _) l'. (\<exists>bps. G bps \<and> ps = to_current_positions bps) \<and> stage now n [] l') (stage now n []) l"
proof -
  have account: "appends calm (fetch_account_summary_with_write_ahead True en spec k)" for spec k
    unfolding fetch_account_summary_with_write_ahead_def Let_def
    by (auto intro!: trace_intro simp: calm_def checkpoint_line_defs log_checkpoint_def as_event_name_def)
  have quotes: "appends calm (fetch_quotes_with_write_ahead True en spec ys m k)" for spec ys m k
    unfolding fetch_quotes_with_write_ahead_def Let_def
    by (auto intro!: trace_intro simp: calm_def checkpoint_line_defs log_checkpoint_def as_event_name_def)
  have positions: "leaves (fetch_positions_with_write_ahead True en spec eq k) (\<lambda>p l'. G (snd p) \<and> stage now n [] l') (stage now n []) l'"
    if "stage now n [] l'" for spec eq k l'
    unfolding fetch_positions_with_write_ahead_def Let_def
    supply leaves_call [log_rule del]
    using that by (auto intro!: log_rule leaves_call_value assms(2) stage_calm
        simp: calm_def checkpoint_line_defs log_checkpoint_def as_event_name_def)
  note keep = leaves_appends [where P = "stage now n []" and N = calm, OF _ _ stage_calm]
  show ?thesis
    unfolding observe_market_def Let_def
    by (auto intro!: log_rule leaves_weaken [OF keep [OF account]] leaves_weaken [OF positions] leaves_weaken [OF keep [OF quotes]]
        leaves_weaken [OF fresh_keeps [where P = "stage now n []"]] assms(1))
qed


definition cancels_settled :: "recovered_state \<Rightarrow> bool" where
  "cancels_settled st \<longleftrightarrow> \<not> rs_cancel_failed st \<and> \<not> intent_open (rs_last_cancel_intent st) (rs_last_cancel_result st)"

lemma start_stage:
  assumes "cancels_settled (recovered now l)"
  shows "leaves (start_run True en c t opts) (\<lambda>_. stage now (length l) []) (covered now (length l)) l"
proof -
  have here: "covered now (length l) l" by (simp add: covered_def)
  have first: "stage now (length l) [] (l @ [log_run_started_checkpoint seq f a ts])" for seq f a ts
  proof -
    have "quiet (recovered now (l @ [log_run_started_checkpoint seq f a ts]))"
      using assms unfolding recovered_snoc log_run_started_checkpoint_def recover_checkpoint
      by (simp add: quiet_def apply_checkpoint_def mark_checkpoint_def cancels_settled_def)
    moreover have "covered now (length l) (l @ [log_run_started_checkpoint seq f a ts])"
      using here by (rule covered_not_intent) (simp add: not_intent_def log_run_started_checkpoint_def log_checkpoint_def as_event_name_def)
    ultimately show ?thesis by (simp add: stage_def awaiting_def)
  qed
  have second: "stage now (length l) [] (l @ [log_run_started_checkpoint seq f a ts, log_cron_start q w ts'])" for seq f a ts q w ts'
    using stage_calm [OF first, of "log_cron_start q w ts'"] by (simp add: calm_def log_cron_start_def log_with_idempotency_def)
  have cron: "leaves (cron_check en t b) (\<lambda>_ l'. l' = l) (covered now (length l)) l" for b
    unfolding cron_check_def using here
    by (auto intro!: log_rule covered_not_intent simp: not_intent_def log_idempotency_rejection_def log_with_idempotency_def)
  show ?thesis
    unfolding start_run_def Let_def
    by (auto intro!: log_rule leaves_weaken [OF cron] here first second stage_covered [OF first])
qed

lemma run_covered:
  assumes "cancels_settled (recovered now l)" and "target_validate (tg_targets t) = Inr ()"
    and "\<And>s ps. snd (en_positions en s) = Inr ps \<Longrightarrow> distinct (map bp_symbol ps) \<and> (\<forall>p \<in> set ps. symbol_ok (bp_symbol p))"
  shows "leaves (run True en c t opts) (\<lambda>_. covered now (length l)) (covered now (length l)) l"
proof -
  let ?G = "\<lambda>ps. distinct (map bp_symbol ps) \<and> (\<forall>p \<in> set ps. symbol_ok (bp_symbol p))"
  let ?n = "length l"
  have diff: "stage now ?n xs (l' @ [log_diff_checkpoint seq xs ts])"
    if "stage now ?n [] l'" "?G bps" "as_target_pairs (tg_targets t) = Inr pairs"
      "xs = compute_diff equity (to_current_positions bps) pairs prices off mt" for xs l' seq ts bps pairs equity prices off mt
  proof (rule stage_diff [OF that(1)])
    have "distinct (map cp_symbol (to_current_positions bps))" "\<forall>p \<in> set (to_current_positions bps). padded (cp_symbol p)"
      using that(2) symbol_ok_padded by (auto simp: to_current_positions_def comp_def)
    note c = compute_diff_orders [OF this target_pairs_distinct [OF assms(2) that(3), THEN conjunct1]
        target_pairs_distinct [OF assms(2) that(3), THEN conjunct2] that(4)]
    show "distinct (map order_key xs)"
      "\<forall>x \<in> set xs. padded (ro_symbol x) \<and> i64_min \<le> ro_shares x \<and> ro_shares x \<le> i64_max" using c by auto
  qed
  have risk: "stage now ?n xs (l' @ [log_risk_check report ts])" if "stage now ?n xs l'" for xs l' report ts
    using that by (rule stage_calm) (simp add: calm_def log_risk_check_def log_plain_def log_with_idempotency_def)
  have passed: "stage now ?n xs (l' @ [log_risk_check_passed_checkpoint seq report ts])" if "stage now ?n xs l'" for xs l' report seq ts
    using that by (rule stage_calm) (simp add: calm_def log_risk_check_passed_checkpoint_def log_checkpoint_def as_event_name_def)
  have same: "covered now ?n (l' @ [log_plain ''no_rebalance_needed'' d ts])" if "stage now ?n xs l'" for xs l' d ts
    using stage_covered [OF that] by (rule covered_not_intent) (simp add: not_intent_def log_plain_def log_with_idempotency_def)
  have write_lines:
    "\<lbrakk>stage now ?n [] l'; ?G bps; as_target_pairs (tg_targets t) = Inr pairs;
       xs = compute_diff equity (to_current_positions bps) pairs prices off mt\<rbrakk> \<Longrightarrow>
      leaves (audit_write en (log_diff_checkpoint seq xs)) (\<lambda>_. stage now ?n xs) (covered now ?n) l'"
    "stage now ?n xs l' \<Longrightarrow> leaves (audit_write en (log_risk_check report)) (\<lambda>_. stage now ?n xs) (covered now ?n) l'"
    "stage now ?n xs l' \<Longrightarrow> leaves (audit_write en (log_risk_check_passed_checkpoint seq report)) (\<lambda>_. stage now ?n xs) (covered now ?n) l'"
    "stage now ?n xs l' \<Longrightarrow> leaves (audit_write en (log_plain ''no_rebalance_needed'' d)) (\<lambda>_. covered now ?n) (covered now ?n) l'"
    for l' bps pairs xs equity prices off mt seq report d
    by (intro leaves_write diff risk passed same stage_covered; assumption)+
  show ?thesis
    unfolding run_def Let_def
    supply leaves_write [log_rule del]
    by (auto intro!: log_rule leaves_weaken [OF start_stage [OF assms(1)]] leaves_weaken [OF market_stage [where G = ?G, OF _ assms(3)]]
        leaves_weaken [OF write_lines(1)] leaves_weaken [OF write_lines(2)] leaves_weaken [OF write_lines(3)]
        leaves_weaken [OF write_lines(4)] plan_covered covered_plain(3) intro: stage_covered)
qed


text \<open>Recovery misses what the log says of a failure: the line names no symbol, so an order that
  failed for good still counts as an open intent, and recovery recommends to resume.\<close>

lemma failed_order_still_resumes:
  assumes "awaiting (x # xs) st" and "e = log_order_intent_checkpoint seq x cid tt spec ctx ts"
  shows "determine_recovery_action True (recover_event True (recover_event True st e) (log_order_failed_checkpoint n a b cx ts')) = Resume"
proof -
  let ?st = "recover_event True st e"
  let ?st' = "recover_event True ?st (log_order_failed_checkpoint n a b cx ts')"
  have same: "rs_orders ?st' = rs_orders ?st"
    unfolding log_order_failed_checkpoint_def recover_checkpoint apply_checkpoint_orders
    by (simp add: log_checkpoint_def read_failed_def get_str_def)
  have "quiet ?st" "quiet ?st'" using awaiting_failed awaiting_intent(2) [OF assms] by (auto simp: awaiting_def)
  with awaiting_intent(1) [OF assms] same show ?thesis
    by (auto simp: determine_recovery_action_def quiet_def split: if_splits)
qed

text \<open>Recovery reads the limit price of an order, logged in dollars, as cents.\<close>

lemma recovered_limit_in_dollars:
  "rv_limit_price_cents (read_order (order_json (x\<lparr>ro_limit_price_cents := 15000\<rparr>))) = 150"
proof -
  have "f64_to_i64 (f64_div (f64_of_int 15000) (f64_of_int 100)) = 150" by code_simp
  then show ?thesis
    by (simp add: read_order_def new_recovered_order_def order_json_def get_f64_def dollars_def option_or_def)
qed

section \<open>Properties\<close>

text \<open>C24. With write-ahead logging the checkpoint numbers of the audit log always increase. If they
  do so before a run, and the clock and the numbers so far leave room below \<open>2 ^ 64\<close>, then after a
  run that completed, failed or crashed at any line the log still passes the scan of checkpoint
  numbers: every checkpoint has a number, larger than the one before.\<close>

theorem wal_numbers_increase:
  assumes "run True en c t opts (s, l0) = ((s', l1), r)" and "check_sequences True 0 None l0 = Inr cs"
    and "\<forall>n \<in> set (checkpoint_sequences True l0). n < 2 ^ 63" and "\<And>s. snd (en_now en s) < 2 ^ 63 * 10 ^ 9"
    and "rc_max_orders_per_run c < 2 ^ 60"
  shows "\<exists>cs'. check_sequences True 0 None (take k l1) = Inr cs'"
proof -
  have "ordered_log (2 ^ 63 - 1) l0"
    using check_sequences_Inr [OF assms(2)] assms(3) by (fastforce simp: ordered_log_def)
  from run_order [OF this _ assms(4,5), of t opts] have "some_order l1"
    using assms(1) unfolding leaves_def by (cases r) fastforce+
  then show ?thesis unfolding some_order_def using ordered_log_valid by blast
qed

text \<open>C23. The promise of write-ahead logging: when a run is cut off right after it has logged the
  intent to send an order, recovery recommends to resume and not to restart. Three conditions
  matter: the targets pass their validation, the broker lists every symbol at most once among
  the positions (a symbol held in two accounts breaks that, and then the second intent can be
  taken for the first order), and the log before the run holds no cancellation that failed or
  was left open, after which recovery asks for a manual review.\<close>

theorem wal_crash_resumes:
  assumes "run True en c t opts (s, l0) = ((s', l1), r)" and "cancels_settled (recover_events True now l0)"
    and "target_validate (tg_targets t) = Inr ()"
    and "\<And>s ps. snd (en_positions en s) = Inr ps \<Longrightarrow> distinct (map bp_symbol ps) \<and> (\<forall>p \<in> set ps. symbol_ok (bp_symbol p))"
    and "length l0 \<le> k" and "k < length l1" and "ae_event (l1 ! k) = ''order_intent''"
  shows "determine_recovery_action True (recover_events True now (take (Suc k) l1)) = Resume"
proof -
  have "covered now (length l0) l1"
    using run_covered [where en = en and c = c and opts = opts, OF assms(2-4)] assms(1) unfolding leaves_def by (cases r) fastforce+
  then show ?thesis using assms(5-7) by (simp add: covered_def)
qed

text \<open>The run of the example in the build with write-ahead logging.\<close>

definition demo_account :: account where
  "demo_account = \<lparr>ac_equity_cents = 100000, ac_buying_power_cents = 100000, ac_cash_cents = 100000, ac_gross_position_value_cents = 0\<rparr>"

definition demo_quote :: quote where
  "demo_quote = \<lparr>qt_symbol = demo_symbol, qt_bid_cents = 699, qt_ask_cents = 701, qt_last_cents = 700, qt_volume = 1, qt_timestamp = 10 ^ 9\<rparr>"

definition demo_fill :: order_result where
  "demo_fill = \<lparr>or_symbol = demo_symbol, or_order_id = 17, or_filled_shares = 35, or_avg_fill_price = f64_of_int 7,
     or_commission = f64_zero, or_status = OutFilled\<rparr>"

definition demo_report :: "risk_check list" where
  "demo_report = check_risk [demo_order] 100000 [(demo_symbol, FFin False (1 / 4))] [(demo_symbol, 700)] [] (rc_risk demo_run_config)"

definition demo_cid :: "nat list" where
  "demo_cid = derive_id (\<lambda>_. replicate 32 0) [50] (as_str demo_symbol) BrokerBuy 35"

definition demo_fetches :: "nat \<Rightarrow> (int \<Rightarrow> audit_event) list" where
  "demo_fetches n =
     [log_account_summary_intent_checkpoint n [] [50], log_account_summary_result_checkpoint (n + 1) 100000 100000,
      log_positions_intent_checkpoint (n + 2) [] [50], log_positions_result_checkpoint (n + 3) [] 100000,
      log_quotes_intent_checkpoint (n + 4) [demo_symbol] 30 [] [50], log_quotes_result_checkpoint demo_env (n + 5) [demo_quote]]"

definition demo_wal_lines :: "audit_event list" where
  "demo_wal_lines =
     map (\<lambda>f. f (2 * 10 ^ 9))
       ([log_run_started_checkpoint 3 [] []] @ demo_fetches 4 @
        [log_diff_checkpoint 10 [demo_order], log_risk_check demo_report, log_risk_check_passed_checkpoint 11 demo_report,
         log_order_intent_checkpoint 12 demo_order demo_cid [] [50] (bytes_of ''rebalance_run:12''),
         log_order_submitted_checkpoint 13 demo_order 17, log_order_filled_checkpoint 14 demo_fill,
         log_positions_intent_checkpoint 15 [] [50], log_positions_result_checkpoint 16 [] 100000,
         log_quotes_intent_checkpoint 17 [demo_symbol] 30 [] [50], log_quotes_result_checkpoint demo_env 18 [demo_quote],
         log_account_summary_intent_checkpoint 19 [] [50], log_account_summary_result_checkpoint 20 100000 100000,
         log_run_completed_checkpoint 21 1 1 0])"

lemma demo_next: "n < 1000 \<Longrightarrow> next_checkpoint_sequence n = Suc n" "n < 1000 \<Longrightarrow> u64_sat_add n (Suc 0) = Suc n"
  by (simp_all add: next_checkpoint_sequence_def u64_sat_add_def u64_max_def)

lemma demo_write: "audit_write demo_env f (s, es) = ((s, es @ [f (2 * 10 ^ 9)]), Inr ())"
  by (simp add: act_defs demo_env_def)

lemma demo_scope: "idempotency_scope demo_target = [50]"
  by (simp add: idempotency_scope_def demo_target_def)

lemma demo_wal_fetches:
  "n + 2 < 1000 \<Longrightarrow> fetch_account_summary_with_write_ahead True demo_env spec n (s, es) =
     ((s, es @ map (\<lambda>f. f (2 * 10 ^ 9)) [log_account_summary_intent_checkpoint (n + 1) [] spec, log_account_summary_result_checkpoint (n + 2) 100000 100000]),
      Inr (n + 2, demo_account))"
  "n + 2 < 1000 \<Longrightarrow> fetch_positions_with_write_ahead True demo_env spec 100000 n (s, es) =
     ((s, es @ map (\<lambda>f. f (2 * 10 ^ 9)) [log_positions_intent_checkpoint (n + 1) [] spec, log_positions_result_checkpoint (n + 2) [] 100000]),
      Inr (n + 2, []))"
  "n + 2 < 1000 \<Longrightarrow> fetch_quotes_with_write_ahead True demo_env spec [demo_symbol] m n (s, es) =
     ((s, es @ map (\<lambda>f. f (2 * 10 ^ 9)) [log_quotes_intent_checkpoint (n + 1) [demo_symbol] m [] spec, log_quotes_result_checkpoint demo_env (n + 2) [demo_quote]]),
      Inr (n + 2, [demo_quote]))"
  by (simp_all add: fetch_account_summary_with_write_ahead_def fetch_positions_with_write_ahead_def fetch_quotes_with_write_ahead_def
      abind_def demo_write demo_next Let_def)
    (simp_all add: act_defs demo_env_def demo_account_def demo_quote_def to_current_positions_def)


lemma demo_wal_started:
  "start_run True demo_env demo_run_config demo_target demo_options (0, []) =
     ((0, [log_run_started_checkpoint 3 [] [] (2 * 10 ^ 9)]), Inr (2, 3))"
  by (simp add: start_run_def cron_check_def demo_options_def demo_env_def demo_run_config_def act_defs Let_def checkpoint_sequences_def
      demo_next)

lemma demo_wal_observed:
  "observe_market True demo_env demo_run_config demo_target 3 (0, es) =
     ((0, es @ map (\<lambda>f. f (2 * 10 ^ 9)) (demo_fetches 4)), Inr (9, demo_account, [], [demo_symbol], [(demo_symbol, 700)]))"
proof -
  have mid: "quote_mid_cents demo_quote = 700" "qt_symbol demo_quote = demo_symbol"
    by (simp_all add: quote_mid_cents_def demo_quote_def Let_def trunc_div_def i64_wrap_def)
  have fresh: "check_fresh demo_env 30 [demo_quote] w = (w, Inr ())" for w
    by (cases w) (simp add: act_defs demo_env_def is_stale_def demo_quote_def)
  have cfg: "as_target_pairs (tg_targets demo_target) = Inr [(demo_symbol, FFin False (1 / 4))]"
    "rc_quote_staleness_threshold_sec demo_run_config = 30" "ac_equity_cents demo_account = 100000"
    "collect_all_symbols [] [demo_symbol] = [demo_symbol]" "to_current_positions [] = []"
    by (simp_all add: demo_run_config_def demo_target_def demo_pairs demo_account_def collect_all_symbols_def to_current_positions_def
        del: as_target_pairs.simps)
  show ?thesis
    by (simp add: observe_market_def Let_def demo_scope abind_def demo_wal_fetches cfg of_outcome_def give_def fresh quote_mid_prices_def mid
        demo_fetches_def del: check_fresh.simps)
qed

lemma demo_wal_executed:
  "run_orders True demo_env demo_target 100 (Suc 0) 0 11 (0, 0, 0) [demo_order] (0, es) =
     ((Suc 0, es @ map (\<lambda>f. f (2 * 10 ^ 9))
        [log_order_intent_checkpoint 12 demo_order demo_cid [] [50] (bytes_of ''rebalance_run:12''),
         log_order_submitted_checkpoint 13 demo_order 17, log_order_filled_checkpoint 14 demo_fill]),
      Inr (AllDone 14 (Suc 0, Suc 0, 0)))"
proof -
  have name: "show_nat 12 = ''12''" by code_simp
  have cid: "derive_client_order_id demo_env demo_target demo_order w = (w, Inr demo_cid)" for w
    by (simp add: derive_client_order_id_def demo_order_def demo_scope demo_cid_def demo_env_def give_def action_to_side_def)
  have shares: "ro_shares demo_order = 35" by (simp add: demo_order_def)
  have asked: "ask (en_shutdown demo_env) w = (w, Inr False)" "ask (en_now demo_env) w = (w, Inr (2 * 10 ^ 9))" for w
    by (cases w; simp add: act_defs demo_env_def)+
  have retry: "execute_retry demo_env demo_order cid 12 4 (0, es) =
      ((1, es @ [log_order_submitted_checkpoint 13 demo_order 17 (2 * 10 ^ 9)]), Inr demo_fill)" for cid es
  proof -
    have "ask (en_execute demo_env (ro_symbol demo_order) side (nat (ro_shares demo_order)) p cid) (0, es) = ((1, es), Inr (Inr demo_fill))" for side p
      by (simp add: ask_def demo_env_def demo_order_def demo_fill_def)
    then show ?thesis
      by (subst execute_retry.simps) (simp add: abind_def demo_write demo_next give_def demo_fill_def)
  qed
  have texts: "en_time_text demo_env = (\<lambda>_. [])" "or_status demo_fill = OutFilled" by (simp_all add: demo_env_def demo_fill_def)
  have sent: "execute_order_with_write_ahead True demo_env demo_order demo_cid 12 [50] (0, es) =
      ((1, es @ map (\<lambda>f. f (2 * 10 ^ 9)) [log_order_intent_checkpoint 12 demo_order demo_cid [] [50] (bytes_of ''rebalance_run:12''),
        log_order_submitted_checkpoint 13 demo_order 17]), Inr demo_fill)" for es
    by (simp add: execute_order_with_write_ahead_def shares abind_def asked demo_write name retry texts del: execute_retry.simps)
  show ?thesis
    by (simp add: run_one_order_def abind_def asked cid demo_next demo_scope observed_def sent log_fill_def demo_write give_def Let_def texts)
qed


lemma demo_run_wal: "run True demo_env demo_run_config demo_target demo_options (0, []) = ((1, demo_wal_lines), Inr ())"
proof -
  have cfg: "rc_limit_offset_bps demo_run_config = 5" "rc_max_orders_per_run demo_run_config = 10"
    "rc_order_interval_ms demo_run_config = 100" "rr_min_trade_usd (rc_risk demo_run_config) = FFin False 1"
    "apply_constraint_overrides (rc_risk demo_run_config) demo_target = rc_risk demo_run_config"
    "as_target_pairs (tg_targets demo_target) = Inr [(demo_symbol, FFin False (1 / 4))]"
    "ac_equity_cents demo_account = 100000" "rc_quote_staleness_threshold_sec demo_run_config = 30"
    "op_dry_run demo_options = False" "op_force demo_options = True" "op_cron_mode demo_options = False"
    by (simp_all add: demo_run_config_def demo_target_def apply_constraint_overrides_def demo_pairs demo_account_def demo_options_def
        del: as_target_pairs.simps)
  have plan: "execute_plan True demo_env demo_run_config demo_target demo_options 2 11 demo_account [demo_symbol] [demo_order] (0, es) =
      ((1, es @ drop 10 demo_wal_lines), Inr ())" for es
    unfolding execute_plan_def
    by (simp add: abind_def confirm_execution_def give_def cfg demo_wal_executed observe_result_def demo_scope demo_wal_fetches
        complete_run_def demo_next demo_write demo_wal_lines_def demo_fetches_def del: run_orders.simps)
  show ?thesis
    unfolding run_def
    by (simp add: abind_def demo_wal_started demo_wal_observed cfg demo_min_trade demo_diff demo_risk demo_write demo_next of_outcome_def
        give_def plan Let_def collect_map_def)
      (simp add: demo_wal_lines_def demo_report_def demo_fetches_def)
qed

lemma demo_env_facts: "snd (en_now demo_env s) = 2 * 10 ^ 9" "snd (en_positions demo_env s) = Inr []"
  by (simp_all add: demo_env_def)

theorem wal_numbers_increase_witness:
  "run True demo_env demo_run_config demo_target demo_options (0, []) = ((1, demo_wal_lines), Inr ()) \<and>
   (\<exists>cs. check_sequences True 0 None (take 13 demo_wal_lines) = Inr cs)"
  using wal_numbers_increase [OF demo_run_wal, of "[]" 13] demo_run_wal
  by (simp add: demo_env_facts demo_run_config_def checkpoint_sequences_def)

theorem wal_crash_resumes_witness:
  "ae_event (demo_wal_lines ! 10) = ''order_intent'' \<and>
   determine_recovery_action True (recover_events True 0 (take 11 demo_wal_lines)) = Resume"
proof -
  have "target_validate (tg_targets demo_target) = Inr ()" by code_simp
  moreover have "cancels_settled (recover_events True 0 [])" by code_simp
  moreover have "ae_event (demo_wal_lines ! 10) = ''order_intent''"
    by (simp add: demo_wal_lines_def demo_fetches_def log_order_intent_checkpoint_def log_checkpoint_def as_event_name_def)
  ultimately show ?thesis
    using wal_crash_resumes [OF demo_run_wal, of 0 10] by (simp add: demo_env_facts demo_wal_lines_def demo_fetches_def)
qed

end
