(* ===== verification/Portfolio.thy ===== *)
theory Portfolio
  imports Position Risk Multi_Exchange
begin

text \<open>
  The portfolio (\<open>src/portfolio/mod.rs\<close>, \<open>cost_model.rs\<close>, \<open>strategy.rs\<close>): cash and positions, orders
  that lead to target weights under the configured limits, fills with slippage and commission,
  returns, snapshots and the back-test runner. The positions are a hash map; the order of its
  iteration is left open by the library and is the argument \<open>it\<close>, a function on the entries.
  Checks by \<open>debug_assert\<close> are absent from a release build.
\<close>

section \<open>Costs\<close>

record cost_model =
  cm_commission_bps :: f64
  cm_slippage_bps :: f64
  cm_min_commission :: int

definition cost_model_zero :: cost_model where
  "cost_model_zero = \<lparr>cm_commission_bps = f64_zero, cm_slippage_bps = f64_zero, cm_min_commission = 0\<rparr>"

definition compute_cost :: "cost_model \<Rightarrow> int \<Rightarrow> int" where
  "compute_cost c amount =
     max (f64_to_i64 (f64_round_int (f64_div (f64_mul (f64_of_int \<bar>amount\<bar>) (cm_commission_bps c)) (f64_of_int 10000))))
       (cm_min_commission c)"

definition notional_of :: "shares \<Rightarrow> int \<Rightarrow> int" where
  "notional_of q price = clamp_int 0 i64_max (\<bar>raw q\<bar> * \<bar>price\<bar> div SCALE)"

definition buy_cash_required :: "int \<Rightarrow> int \<Rightarrow> cost_model \<Rightarrow> int" where
  "buy_cash_required raw_abs p c =
     (if raw_abs \<le> 0 \<or> p \<le> 0 then 0
      else let amount = clamp_int 0 i64_max (trunc_div (raw_abs * p) SCALE)
           in i64_sat (amount + compute_cost c amount))"

text \<open>The binary search for the number of steps. The sums wrap.\<close>

definition afford_body :: "int \<Rightarrow> int \<Rightarrow> int \<Rightarrow> cost_model \<Rightarrow> int \<times> int \<Rightarrow> (int \<times> int) loop_step option" where
  "afford_body cash step p c = (\<lambda>(lo, hi).
     if \<not> lo < hi then Some (Stop (lo, hi))
     else let mid = i64_wrap (lo + trunc_div (i64_wrap (i64_wrap (hi - lo) + 1)) 2)
          in if buy_cash_required (i64_sat (mid * step)) p c \<le> cash then Some (Next (mid, hi))
             else Some (Next (lo, i64_wrap (mid - 1))))"

definition largest_affordable_buy_qty :: "int \<Rightarrow> int \<Rightarrow> int \<Rightarrow> int \<Rightarrow> cost_model \<Rightarrow> shares run" where
  "largest_affordable_buy_qty requested_raw cash step p c =
     (if requested_raw \<le> 0 \<or> cash \<le> 0 \<or> step \<le> 0 \<or> p \<le> 0 then ret shares_ZERO
      else if buy_cash_required requested_raw p c \<le> cash then ret (from_raw requested_raw)
      else rbind (loop (afford_body cash step p c) (0, trunc_div requested_raw step)) (\<lambda>(lo, hi).
           ret (from_raw (i64_sat (lo * step)))))"

definition truncate_qty_to_max_value :: "shares \<Rightarrow> int \<Rightarrow> int \<Rightarrow> int \<Rightarrow> shares" where
  "truncate_qty_to_max_value q price step max_value =
     (if max_value \<le> 0 \<or> price = 0 \<or> step \<le> 0 then shares_ZERO
      else let raw_abs_cap = trunc_div (max_value * SCALE) \<bar>price\<bar>;
               snapped = trunc_div raw_abs_cap step * step;
               snapped_i64 = clamp_int 0 i64_max snapped
           in from_raw (if is_negative q then - snapped_i64 else snapped_i64))"

definition drift_bps_of :: "int \<Rightarrow> int \<Rightarrow> f64" where
  "drift_bps_of value equity = f64_mul (f64_div (f64_of_int \<bar>value\<bar>) (f64_of_int equity)) (f64_of_int 10000)"

definition size_qty :: "int \<Rightarrow> int \<Rightarrow> int \<Rightarrow> shares" where
  "size_qty diff_value price step =
     (if diff_value = 0 \<or> price \<le> 0 \<or> step \<le> 0 then shares_ZERO
      else let sign = (if diff_value < 0 then - 1 else 1);
               raw_micro = trunc_div (\<bar>diff_value\<bar> * SCALE) price;
               snapped = trunc_div raw_micro step * step
           in from_raw (i64_sat (snapped * sign)))"

section \<open>State\<close>

datatype execution_kind = ForRebalance | StopExit

record execution_record =
  xr_sequence :: nat
  xr_period_index :: nat
  xr_kind :: execution_kind
  xr_symbol :: symbol
  xr_quantity :: shares
  xr_price :: int
  xr_reference_price :: int
  xr_notional :: int
  xr_reference_notional :: int
  xr_cost :: int
  xr_cash_delta :: int
  xr_cash_after :: int

record portfolio =
  pf_cash :: int
  pf_positions :: "(symbol, position) omap"
  pf_cost_model :: cost_model
  pf_returns :: "f64 list"
  pf_equity_curve :: "int list"
  pf_prev_equity :: int
  pf_quantity_step :: int
  pf_min_order_value :: int
  pf_max_order_value :: int
  pf_no_trade_band_bps :: f64
  pf_max_trades_per_rebalance :: "nat option"
  pf_max_rebalance_notional :: int
  pf_last_rebalance_order_count :: nat
  pf_last_rebalance_notional :: int
  pf_trimmed_fill_count :: nat
  pf_trimmed_shortfall_cents :: int
  pf_executions :: "execution_record list option"
  pf_execution_period_index :: nat
  pf_execution_kind :: execution_kind

type_synonym hash_order = "(symbol \<times> position) list \<Rightarrow> (symbol \<times> position) list"

definition portfolio_new :: "int \<Rightarrow> cost_model \<Rightarrow> portfolio" where
  "portfolio_new initial_cash c =
     \<lparr>pf_cash = initial_cash, pf_positions = [], pf_cost_model = c, pf_returns = [], pf_equity_curve = [initial_cash],
      pf_prev_equity = initial_cash, pf_quantity_step = SCALE, pf_min_order_value = 0, pf_max_order_value = 0,
      pf_no_trade_band_bps = f64_zero, pf_max_trades_per_rebalance = None, pf_max_rebalance_notional = 0,
      pf_last_rebalance_order_count = 0, pf_last_rebalance_notional = 0, pf_trimmed_fill_count = 0,
      pf_trimmed_shortfall_cents = 0, pf_executions = None, pf_execution_period_index = 0,
      pf_execution_kind = ForRebalance\<rparr>"

definition enable_execution_recording :: "portfolio \<Rightarrow> portfolio" where
  "enable_execution_recording pf = pf\<lparr>pf_executions := Some []\<rparr>"

definition set_execution_context :: "nat \<Rightarrow> execution_kind \<Rightarrow> portfolio \<Rightarrow> portfolio" where
  "set_execution_context i k pf = pf\<lparr>pf_execution_period_index := i, pf_execution_kind := k\<rparr>"

definition take_executions :: "portfolio \<Rightarrow> portfolio \<times> execution_record list option" where
  "take_executions pf = (pf\<lparr>pf_executions := None\<rparr>, pf_executions pf)"

definition with_quantity_step :: "int \<Rightarrow> cost_model \<Rightarrow> int \<Rightarrow> portfolio" where
  "with_quantity_step initial_cash c step = (portfolio_new initial_cash c)\<lparr>pf_quantity_step := step\<rparr>"

definition set_quantity_step :: "int \<Rightarrow> portfolio \<Rightarrow> portfolio" where
  "set_quantity_step step pf = pf\<lparr>pf_quantity_step := step\<rparr>"

definition set_min_order_value :: "int \<Rightarrow> portfolio \<Rightarrow> portfolio" where
  "set_min_order_value v pf = pf\<lparr>pf_min_order_value := v\<rparr>"

definition set_max_order_value :: "int \<Rightarrow> portfolio \<Rightarrow> portfolio" where
  "set_max_order_value v pf = pf\<lparr>pf_max_order_value := v\<rparr>"

definition set_no_trade_band_bps :: "f64 \<Rightarrow> portfolio \<Rightarrow> portfolio" where
  "set_no_trade_band_bps b pf = pf\<lparr>pf_no_trade_band_bps := b\<rparr>"

definition set_max_trades_per_rebalance :: "nat option \<Rightarrow> portfolio \<Rightarrow> portfolio" where
  "set_max_trades_per_rebalance cap pf = pf\<lparr>pf_max_trades_per_rebalance := cap\<rparr>"

definition set_max_rebalance_notional :: "int \<Rightarrow> portfolio \<Rightarrow> portfolio" where
  "set_max_rebalance_notional v pf = pf\<lparr>pf_max_rebalance_notional := v\<rparr>"

section \<open>Queries\<close>

definition price_or_zero :: "(symbol, int) omap \<Rightarrow> symbol \<Rightarrow> int" where
  "price_or_zero prices y = (case om_get prices y of None \<Rightarrow> 0 | Some p \<Rightarrow> p)"

definition value_of :: "portfolio \<Rightarrow> symbol \<Rightarrow> int \<Rightarrow> int" where
  "value_of pf y price = (case om_get (pf_positions pf) y of None \<Rightarrow> 0 | Some pos \<Rightarrow> market_value price pos)"

definition total_equity_from_price_map :: "hash_order \<Rightarrow> (symbol, int) omap \<Rightarrow> portfolio \<Rightarrow> int" where
  "total_equity_from_price_map it prices pf =
     i64_sat (pf_cash pf +
       foldl (\<lambda>acc (y, pos). i64_sat (acc + market_value (price_or_zero prices y) pos)) 0 (it (pf_positions pf)))"

definition current_weights_from_price_map :: "hash_order \<Rightarrow> (symbol, int) omap \<Rightarrow> int \<Rightarrow> portfolio \<Rightarrow> (symbol \<times> f64) list" where
  "current_weights_from_price_map it prices equity pf =
     (if equity = 0 then []
      else map (\<lambda>(y, pos). (y, f64_div (f64_of_int (market_value (price_or_zero prices y) pos)) (f64_of_int equity)))
             (filter (\<lambda>(y, pos). \<not> is_flat pos) (it (pf_positions pf))))"

definition total_equity :: "hash_order \<Rightarrow> (symbol \<times> int) list \<Rightarrow> portfolio \<Rightarrow> int" where
  "total_equity it prices pf = total_equity_from_price_map it (collect_map prices) pf"

definition current_weights :: "hash_order \<Rightarrow> (symbol \<times> int) list \<Rightarrow> portfolio \<Rightarrow> (symbol \<times> f64) list" where
  "current_weights it prices pf =
     (let pm = collect_map prices in current_weights_from_price_map it pm (total_equity_from_price_map it pm pf) pf)"

definition unpriced_in_map :: "hash_order \<Rightarrow> (symbol, int) omap \<Rightarrow> portfolio \<Rightarrow> symbol option" where
  "unpriced_in_map it prices pf =
     map_option fst (List.find (\<lambda>(y, pos). \<not> is_flat pos \<and> (case om_get prices y of Some px \<Rightarrow> \<not> px > 0 | None \<Rightarrow> True))
       (it (pf_positions pf)))"

definition unpriced_holding :: "hash_order \<Rightarrow> (symbol \<times> int) list \<Rightarrow> portfolio \<Rightarrow> symbol option" where
  "unpriced_holding it prices pf = unpriced_in_map it (collect_map prices) pf"

record portfolio_snapshot =
  ps_cash :: int
  ps_equity :: int
  ps_weights :: "(symbol \<times> f64) list"
  ps_num_positions :: nat
  ps_total_realized_pnl :: int

definition portfolio_take_snapshot :: "hash_order \<Rightarrow> (symbol \<times> int) list \<Rightarrow> portfolio \<Rightarrow> portfolio_snapshot" where
  "portfolio_take_snapshot it prices pf =
     (let pm = collect_map prices; equity = total_equity_from_price_map it pm pf
      in \<lparr>ps_cash = pf_cash pf, ps_equity = equity, ps_weights = current_weights_from_price_map it pm equity pf,
          ps_num_positions = length (filter (\<lambda>(y, pos). \<not> is_flat pos) (it (pf_positions pf))),
          ps_total_realized_pnl = foldl (\<lambda>acc (y, pos). i64_sat (acc + pos_realized_pnl pos)) 0 (it (pf_positions pf))\<rparr>)"

section \<open>Fills\<close>

definition effective_price :: "cost_model \<Rightarrow> bool \<Rightarrow> int \<Rightarrow> int" where
  "effective_price c buy price =
     (let sign = (if buy then f64_one else f64_neg f64_one);
          slippage_factor = f64_add f64_one (f64_div (f64_mul sign (cm_slippage_bps c)) (f64_of_int 10000))
      in f64_to_i64 (f64_round_int (f64_mul (f64_of_int price) slippage_factor)))"

definition position_or_new :: "portfolio \<Rightarrow> symbol \<Rightarrow> position" where
  "position_or_new pf y = (case om_get (pf_positions pf) y of None \<Rightarrow> position_new y | Some pos \<Rightarrow> pos)"

text \<open>The part of a fill after the affordability gate.\<close>

definition settle_fill :: "symbol \<Rightarrow> shares \<Rightarrow> int \<Rightarrow> int \<Rightarrow> portfolio \<Rightarrow> portfolio" where
  "settle_fill y q p price pf =
     (let amount = notional_of q p;
          cost = compute_cost (pf_cost_model pf) amount;
          cash_delta = i64_sat (trunc_div (raw q * p) SCALE);
          cash_after = i64_sat (pf_cash pf - i64_sat (cash_delta + cost))
      in if is_negative q \<and> cash_after < 0 then pf
         else pf\<lparr>pf_positions := om_insert y (apply_fill q p (position_or_new pf y)) (pf_positions pf),
                 pf_cash := cash_after,
                 pf_executions := map_option (\<lambda>xs. xs @
                   [\<lparr>xr_sequence = length xs, xr_period_index = pf_execution_period_index pf, xr_kind = pf_execution_kind pf,
                     xr_symbol = y, xr_quantity = q, xr_price = p, xr_reference_price = price, xr_notional = amount,
                     xr_reference_notional = notional_of q price, xr_cost = cost,
                     xr_cash_delta = i64_wrap (cash_after - pf_cash pf), xr_cash_after = cash_after\<rparr>]) (pf_executions pf)\<rparr>)"

definition trim_buy :: "shares \<Rightarrow> int \<Rightarrow> portfolio \<Rightarrow> (portfolio \<times> shares) run" where
  "trim_buy q p pf =
     (if buy_cash_required (raw q) p (pf_cost_model pf) > pf_cash pf
      then rbind (largest_affordable_buy_qty (raw q) (pf_cash pf) (pf_quantity_step pf) p (pf_cost_model pf)) (\<lambda>affordable.
           ret (pf\<lparr>pf_trimmed_fill_count := u64_sat_add (pf_trimmed_fill_count pf) 1,
                   pf_trimmed_shortfall_cents :=
                     i64_sat (pf_trimmed_shortfall_cents pf + i64_sat (notional_of q p - notional_of affordable p))\<rparr>, affordable))
      else ret (pf, q))"

definition portfolio_execute_fill :: "symbol \<Rightarrow> shares \<Rightarrow> int \<Rightarrow> portfolio \<Rightarrow> portfolio run" where
  "portfolio_execute_fill y q price pf =
     (if is_zero q then ret pf
      else let p = effective_price (pf_cost_model pf) (is_positive q) price
           in rbind (if is_positive q then trim_buy q p pf else ret (pf, q)) (\<lambda>(pf, q).
              if is_zero q then ret pf else ret (settle_fill y q p price pf)))"

definition close_position_at :: "symbol \<Rightarrow> int \<Rightarrow> portfolio \<Rightarrow> (portfolio \<times> bool) run" where
  "close_position_at y price pf =
     (if price \<le> 0 then ret (pf, False)
      else case om_get (pf_positions pf) y of
             None \<Rightarrow> ret (pf, False)
           | Some pos \<Rightarrow>
               if is_flat pos then ret (pf, False)
               else rbind (portfolio_execute_fill y (shares_neg (pos_quantity pos)) price pf) (\<lambda>pf'. ret (pf', True)))"

section \<open>Rebalancing\<close>

record planned_order =
  po_symbol :: symbol
  po_qty :: shares
  po_price :: int
  po_drift_bps :: f64

text \<open>The end of both loops: the order is cut to the maximum and dropped below the minimum.\<close>

definition limit_order :: "portfolio \<Rightarrow> symbol \<Rightarrow> shares \<Rightarrow> int \<Rightarrow> f64 \<Rightarrow> planned_order option" where
  "limit_order pf y q price drift =
     (let cut = pf_max_order_value pf > 0 \<and> notional_of q price > pf_max_order_value pf;
          q' = (if cut then truncate_qty_to_max_value q price (pf_quantity_step pf) (pf_max_order_value pf) else q)
      in if cut \<and> is_zero q' then None
         else if pf_min_order_value pf > 0 \<and> notional_of q' price < pf_min_order_value pf then None
         else Some \<lparr>po_symbol = y, po_qty = q', po_price = price, po_drift_bps = drift\<rparr>)"

definition in_band :: "portfolio \<Rightarrow> f64 \<Rightarrow> bool" where
  "in_band pf drift \<longleftrightarrow> f64_lt f64_zero (pf_no_trade_band_bps pf) \<and> f64_le drift (pf_no_trade_band_bps pf)"

definition plan_close :: "portfolio \<Rightarrow> int \<Rightarrow> (symbol, int) omap \<Rightarrow> symbol \<Rightarrow> planned_order option" where
  "plan_close pf equity prices y =
     (case om_get prices y of
        None \<Rightarrow> None
      | Some price \<Rightarrow>
          (case om_get (pf_positions pf) y of
             None \<Rightarrow> None
           | Some pos \<Rightarrow>
               if is_flat pos then None
               else let drift = drift_bps_of (value_of pf y price) equity
                    in if in_band pf drift then None
                       else limit_order pf y (shares_neg (pos_quantity pos)) price drift))"

definition plan_target :: "portfolio \<Rightarrow> int \<Rightarrow> (symbol, int) omap \<Rightarrow> symbol \<times> f64 \<Rightarrow> planned_order option" where
  "plan_target pf equity prices target =
     (let (y, weight) = target
      in case om_get prices y of
           None \<Rightarrow> None
         | Some price \<Rightarrow>
             if \<not> price > 0 then None
             else let target_value = f64_to_i64 (f64_mul (f64_of_int equity) weight);
                      diff_value = i64_sat (target_value - value_of pf y price);
                      drift = drift_bps_of diff_value equity
                  in if in_band pf drift then None
                     else let q = size_qty diff_value price (pf_quantity_step pf)
                          in if is_zero q then None else limit_order pf y q price drift)"

text \<open>The stable sort of the planned orders: largest drift first, then by symbol.\<close>

definition before :: "planned_order \<Rightarrow> planned_order \<Rightarrow> bool" where
  "before a b =
     (if f64_lt (po_drift_bps b) (po_drift_bps a) then True
      else if f64_lt (po_drift_bps a) (po_drift_bps b) then False
      else po_symbol a \<le> po_symbol b)"

fun insert_order :: "planned_order \<Rightarrow> planned_order list \<Rightarrow> planned_order list" where
  "insert_order a [] = [a]"
| "insert_order a (b # bs) = (if before a b then a # b # bs else b # insert_order a bs)"

definition sort_orders :: "planned_order list \<Rightarrow> planned_order list" where
  "sort_orders xs = foldr insert_order xs []"

text \<open>Admission under the two caps: \<open>n\<close> orders worth \<open>running\<close> are admitted so far.\<close>

fun admit :: "portfolio \<Rightarrow> nat \<Rightarrow> nat \<Rightarrow> int \<Rightarrow> planned_order list \<Rightarrow> planned_order list" where
  "admit pf trade_cap n running [] = []"
| "admit pf trade_cap n running (x # xs) =
     (if n \<ge> trade_cap then []
      else let amount = notional_of (po_qty x) (po_price x);
               remaining = i64_wrap (pf_max_rebalance_notional pf - running)
           in if pf_max_rebalance_notional pf > 0 \<and> remaining \<le> 0 then []
              else if pf_max_rebalance_notional pf > 0 \<and> amount > remaining
              then let q = truncate_qty_to_max_value (po_qty x) (po_price x) (pf_quantity_step pf) remaining
                   in if \<not> is_zero q \<and> (pf_min_order_value pf \<le> 0 \<or> notional_of q (po_price x) \<ge> pf_min_order_value pf)
                      then [x\<lparr>po_qty := q\<rparr>] else []
              else x # admit pf trade_cap (n + 1) (i64_wrap (running + amount)) xs)"

definition plan_orders :: "hash_order \<Rightarrow> (symbol \<times> f64) list \<Rightarrow> (symbol, int) omap \<Rightarrow> int \<Rightarrow> portfolio \<Rightarrow> planned_order list" where
  "plan_orders it targets prices equity pf =
     (let target_map = collect_map targets;
          to_close = filter (\<lambda>y. om_get target_map y = None) (map fst (it (pf_positions pf)));
          planned = List.map_filter (plan_close pf equity prices) to_close @ List.map_filter (plan_target pf equity prices) targets
      in if pf_max_trades_per_rebalance pf \<noteq> None \<or> pf_max_rebalance_notional pf > 0
         then admit pf (case pf_max_trades_per_rebalance pf of None \<Rightarrow> u64_max | Some k \<Rightarrow> k) 0 0 (sort_orders planned)
         else planned)"

fun execute_orders :: "planned_order list \<Rightarrow> portfolio \<Rightarrow> portfolio run" where
  "execute_orders [] pf = ret pf"
| "execute_orders (x # xs) pf =
     rbind (portfolio_execute_fill (po_symbol x) (po_qty x) (po_price x) pf) (execute_orders xs)"

definition rebalance_simple_from_price_map :: "hash_order \<Rightarrow> (symbol \<times> f64) list \<Rightarrow> (symbol, int) omap \<Rightarrow> portfolio \<Rightarrow> portfolio run" where
  "rebalance_simple_from_price_map it targets prices pf0 =
     (let pf = pf0\<lparr>pf_last_rebalance_order_count := 0, pf_last_rebalance_notional := 0\<rparr>;
          equity = total_equity_from_price_map it prices pf
      in if equity \<le> 0 then ret pf
         else let planned = plan_orders it targets prices equity pf
              in execute_orders planned
                   (pf\<lparr>pf_last_rebalance_order_count := length planned,
                       pf_last_rebalance_notional :=
                         foldl (\<lambda>acc x. i64_sat (acc + notional_of (po_qty x) (po_price x))) 0 planned\<rparr>))"

definition rebalance_simple :: "hash_order \<Rightarrow> (symbol \<times> f64) list \<Rightarrow> (symbol \<times> int) list \<Rightarrow> portfolio \<Rightarrow> portfolio run" where
  "rebalance_simple it targets prices pf = rebalance_simple_from_price_map it targets (collect_map prices) pf"

section \<open>Rebalancing through the order books\<close>

definition book_mid :: "exchange \<Rightarrow> int option" where
  "book_mid ex =
     (case exchange_best_bid_ask ex of
        (Some b, Some a) \<Rightarrow> Some (i64_sat (b + trunc_div (i64_sat (a - b)) 2))
      | (Some b, None) \<Rightarrow> Some b
      | (None, Some a) \<Rightarrow> Some a
      | (None, None) \<Rightarrow> None)"

definition book_prices :: "multi_exchange \<Rightarrow> (symbol, int) omap" where
  "book_prices m =
     collect_map (List.map_filter (\<lambda>y. case me_get m y of
        None \<Rightarrow> None | Some ex \<Rightarrow> map_option (\<lambda>p. (y, p)) (book_mid ex)) (me_symbols m))"

fun apply_trades :: "symbol \<Rightarrow> side \<Rightarrow> trade list \<Rightarrow> portfolio \<Rightarrow> portfolio run" where
  "apply_trades y s [] pf = ret pf"
| "apply_trades y s (t # ts) pf =
     (let n = i64_wrap (int (trd_quantity t)); fill_qty = (if s = Sell then i64_wrap (- n) else n)
      in rbind (portfolio_execute_fill y (from_whole fill_qty) (trd_price t) pf) (apply_trades y s ts))"

definition lob_close :: "symbol \<Rightarrow> portfolio \<times> multi_exchange \<Rightarrow> (portfolio \<times> multi_exchange) run" where
  "lob_close y = (\<lambda>(pf, m).
     case om_get (pf_positions pf) y of
       None \<Rightarrow> ret (pf, m)
     | Some pos \<Rightarrow>
         if is_flat pos then ret (pf, m)
         else let w = shares_whole (pos_quantity pos); s = (if w > 0 then Sell else Buy)
              in rbind (me_update y (submit_market s (nat \<bar>w\<bar>)) m) (\<lambda>(m', r).
                 rbind (apply_trades y s (sr_trades r) pf) (\<lambda>pf'. ret (pf', m'))))"

definition lob_target :: "(symbol, int) omap \<Rightarrow> int \<Rightarrow> symbol \<times> f64 \<Rightarrow> portfolio \<times> multi_exchange \<Rightarrow> (portfolio \<times> multi_exchange) run" where
  "lob_target prices equity target = (\<lambda>(pf, m).
     let (y, weight) = target
     in case om_get prices y of
          None \<Rightarrow> ret (pf, m)
        | Some price \<Rightarrow>
            if \<not> price > 0 then ret (pf, m)
            else let target_value = f64_to_i64 (f64_mul (f64_of_int equity) weight);
                     diff_value = i64_sat (target_value - value_of pf y price);
                     diff_qty = nat \<bar>trunc_div diff_value price\<bar>;
                     s = (if diff_value > 0 then Buy else Sell)
                 in if diff_qty = 0 then ret (pf, m)
                    else rbind (me_update y (submit_market s diff_qty) m) (\<lambda>(m', r).
                         rbind (apply_trades y s (sr_trades r) pf) (\<lambda>pf'. ret (pf', m'))))"

fun run_each :: "('a \<Rightarrow> 'b \<Rightarrow> 'b run) \<Rightarrow> 'a list \<Rightarrow> 'b \<Rightarrow> 'b run" where
  "run_each f [] s = ret s"
| "run_each f (x # xs) s = rbind (f x s) (run_each f xs)"

definition rebalance_lob :: "hash_order \<Rightarrow> (symbol \<times> f64) list \<Rightarrow> portfolio \<times> multi_exchange \<Rightarrow> (portfolio \<times> multi_exchange) run" where
  "rebalance_lob it targets = (\<lambda>(pf, m).
     let prices = book_prices m; equity = total_equity_from_price_map it prices pf
     in if equity \<le> 0 then ret (pf, m)
        else let target_map = collect_map targets;
                 to_close = filter (\<lambda>y. om_get target_map y = None) (map fst (it (pf_positions pf)))
             in rbind (run_each lob_close to_close (pf, m)) (run_each (lob_target prices equity) targets))"

section \<open>Returns and the back-test runner\<close>

definition record_return_from_price_map :: "hash_order \<Rightarrow> (symbol, int) omap \<Rightarrow> portfolio \<Rightarrow> portfolio" where
  "record_return_from_price_map it prices pf =
     (let equity = total_equity_from_price_map it prices pf;
          returns =
            (if pf_prev_equity pf > 0
             then pf_returns pf @ [f64_div (f64_of_int (i64_sat (equity - pf_prev_equity pf))) (f64_of_int (pf_prev_equity pf))]
             else if pf_returns pf \<noteq> [] then pf_returns pf @ [f64_zero]
             else pf_returns pf)
      in pf\<lparr>pf_returns := returns, pf_equity_curve := pf_equity_curve pf @ [equity], pf_prev_equity := equity\<rparr>)"

definition record_return :: "hash_order \<Rightarrow> (symbol \<times> int) list \<Rightarrow> portfolio \<Rightarrow> portfolio" where
  "record_return it prices pf = record_return_from_price_map it (collect_map prices) pf"

text \<open>A strategy gives the weights for a bar from its index, the prices and the portfolio.\<close>

type_synonym strategy = "nat \<Rightarrow> (symbol \<times> int) list \<Rightarrow> portfolio \<Rightarrow> (symbol \<times> f64) list"

fun run_bars :: "hash_order \<Rightarrow> strategy \<Rightarrow> nat \<Rightarrow> (symbol \<times> int) list list \<Rightarrow> portfolio \<Rightarrow> portfolio run" where
  "run_bars it strat i [] pf = ret pf"
| "run_bars it strat i (prices # rest) pf =
     rbind (rebalance_simple_from_price_map it (strat i prices pf) (collect_map prices) pf) (\<lambda>pf'.
     run_bars it strat (i + 1) rest (record_return_from_price_map it (collect_map prices) pf'))"

definition run_backtest :: "hash_order \<Rightarrow> strategy \<Rightarrow> (symbol \<times> int) list list \<Rightarrow> int \<Rightarrow> cost_model \<Rightarrow> portfolio run" where
  "run_backtest it strat price_series initial_cash c = run_bars it strat 0 price_series (portfolio_new initial_cash c)"

definition equal_weight :: strategy where
  "equal_weight i prices pf =
     (if prices = [] then []
      else let n = f64_of_int (int (length prices)) in map (\<lambda>(y, _). (y, f64_div f64_one n)) prices)"

end
