(* ===== verification/Bridge.thy ===== *)
theory Bridge
  imports Portfolio
begin

text \<open>
  The back-test bridge (\<open>src/backtest_bridge.rs\<close>): a portfolio driven by a schedule of weights and
  bars, with fill policies, day and month budgets, simulated stops, the attribution of returns to
  symbols and the detection of trades. The performance metrics of the result are left out. A
  float sum starts at zero; the strings of stop reasons are kept.
\<close>

section \<open>Options and results\<close>

record stop_config =
  sc_fixed_stop_pct :: "f64 option"
  sc_trailing_stop_pct :: "f64 option"
  sc_atr_multiple :: "f64 option"
  sc_atr_period :: nat

definition sanitize_pct :: "f64 option \<Rightarrow> f64 option" where
  "sanitize_pct v = (case v of None \<Rightarrow> None
     | Some x \<Rightarrow> if f64_is_finite x \<and> f64_lt f64_zero x \<and> f64_lt x f64_one then Some x else None)"

definition sanitize_positive :: "f64 option \<Rightarrow> f64 option" where
  "sanitize_positive v = (case v of None \<Rightarrow> None
     | Some x \<Rightarrow> if f64_is_finite x \<and> f64_lt f64_zero x then Some x else None)"

definition sanitized :: "stop_config \<Rightarrow> stop_config option" where
  "sanitized cfg =
     (let fixed = sanitize_pct (sc_fixed_stop_pct cfg);
          trailing = sanitize_pct (sc_trailing_stop_pct cfg);
          atr = sanitize_positive (sc_atr_multiple cfg)
      in if fixed = None \<and> trailing = None \<and> atr = None then None
         else Some \<lparr>sc_fixed_stop_pct = fixed, sc_trailing_stop_pct = trailing, sc_atr_multiple = atr,
                    sc_atr_period = max (sc_atr_period cfg) 1\<rparr>)"

record bar_prices =
  bp_open :: int
  bp_high :: int
  bp_low :: int
  bp_close :: int

type_synonym bars = "(symbol \<times> bar_prices) list"

datatype fill_policy = SignalBarClose | NextBarOpen | NextBarTypical

record bridge_options =
  bo_record_executions :: bool
  bo_stop_cfg :: "stop_config option"
  bo_quantity_step :: "int option"
  bo_min_order_value :: "int option"
  bo_no_trade_band_bps :: "f64 option"
  bo_max_trades_per_rebalance :: "nat option"
  bo_max_order_value :: "int option"
  bo_max_trades_per_day :: "nat option"
  bo_max_trades_per_month :: "nat option"
  bo_max_traded_value_per_month :: "int option"
  bo_period_day_ordinal :: "int list option"
  bo_period_month_ordinal :: "int list option"
  bo_fill_schedule :: "bars list option"

definition bridge_options_default :: bridge_options where
  "bridge_options_default =
     \<lparr>bo_record_executions = False, bo_stop_cfg = None, bo_quantity_step = None, bo_min_order_value = None,
      bo_no_trade_band_bps = None, bo_max_trades_per_rebalance = None, bo_max_order_value = None,
      bo_max_trades_per_day = None, bo_max_trades_per_month = None, bo_max_traded_value_per_month = None,
      bo_period_day_ordinal = None, bo_period_month_ordinal = None, bo_fill_schedule = None\<rparr>"

record backtest_stop_event =
  be_period_index :: nat
  be_symbol :: symbol
  be_trigger_price :: int
  be_exit_price :: int
  be_reason :: string

record unpriced_lot =
  ul_period_index :: nat
  ul_symbol :: symbol
  ul_at_fill :: bool

record bridge_result =
  br_initial_cash :: int
  br_executions :: "execution_record list option"
  br_cash_snapshots :: "int list option"
  br_returns :: "f64 list"
  br_equity_curve :: "int list"
  br_final_cash :: int
  br_holdings :: "(symbol \<times> f64) list list"
  br_symbol_returns :: "(symbol \<times> f64) list list"
  br_stop_events :: "backtest_stop_event list"
  br_skipped_rebalances :: "nat list"
  br_unpriced_holding :: "unpriced_lot option"

definition empty_result :: "int \<Rightarrow> bool \<Rightarrow> bridge_result" where
  "empty_result initial_cash rec =
     \<lparr>br_initial_cash = initial_cash, br_executions = (if rec then Some [] else None),
      br_cash_snapshots = (if rec then Some [] else None), br_returns = [], br_equity_curve = [initial_cash],
      br_final_cash = initial_cash, br_holdings = [], br_symbol_returns = [], br_stop_events = [],
      br_skipped_rebalances = [], br_unpriced_holding = None\<rparr>"

definition unpriced_result :: "int \<Rightarrow> unpriced_lot \<Rightarrow> bool \<Rightarrow> bridge_result" where
  "unpriced_result initial_cash u rec = (empty_result initial_cash rec)\<lparr>br_unpriced_holding := Some u\<rparr>"

definition valid_bar :: "bar_prices \<Rightarrow> bool" where
  "valid_bar b \<longleftrightarrow> \<not> (bp_open b < 0 \<or> bp_high b < 0 \<or> bp_low b < 0 \<or> bp_close b < 0) \<and> \<not> bp_high b < bp_low b"

definition valid_inputs :: "(symbol \<times> f64) list list \<Rightarrow> bars list \<Rightarrow> int \<Rightarrow> bool" where
  "valid_inputs weight_schedule price_schedule initial_cash \<longleftrightarrow>
     length weight_schedule = length price_schedule \<and> \<not> initial_cash \<le> 0 \<and>
     list_all (\<lambda>(weights, prices). list_all (\<lambda>(_, w). f64_is_finite w) weights \<and> list_all (\<lambda>(_, b). valid_bar b) prices)
       (zip weight_schedule price_schedule)"

section \<open>Fill prices\<close>

definition next_fill_bars :: "bars list \<Rightarrow> nat \<Rightarrow> bars list option \<Rightarrow> bars option" where
  "next_fill_bars price_schedule i fill_schedule =
     (case fill_schedule of
        Some schedule \<Rightarrow> if i < length schedule then if schedule ! i = [] then None else Some (schedule ! i) else None
      | None \<Rightarrow> if i + 1 < length price_schedule then Some (price_schedule ! (i + 1)) else None)"

definition fill_prices_for_period :: "bars list \<Rightarrow> nat \<Rightarrow> fill_policy \<Rightarrow> bars list option \<Rightarrow> (symbol \<times> int) list option" where
  "fill_prices_for_period price_schedule i policy fill_schedule =
     (case policy of
        SignalBarClose \<Rightarrow> Some (map (\<lambda>(y, b). (y, bp_close b)) (price_schedule ! i))
      | NextBarOpen \<Rightarrow> map_option (map (\<lambda>(y, b). (y, bp_open b))) (next_fill_bars price_schedule i fill_schedule)
      | NextBarTypical \<Rightarrow>
          map_option (map (\<lambda>(y, b). (y, trunc_div (i64_wrap (i64_wrap (bp_high b + bp_low b) + bp_close b)) 3)))
            (next_fill_bars price_schedule i fill_schedule))"

section \<open>Simulated stops\<close>

record stop_tracker =
  tk_side :: int
  tk_entry_price :: int
  tk_reference_price :: int
  tk_last_price :: int
  tk_abs_changes :: "int list"

definition tracker_new :: "int \<Rightarrow> int \<Rightarrow> stop_tracker" where
  "tracker_new entry_price side =
     \<lparr>tk_side = side, tk_entry_price = entry_price, tk_reference_price = entry_price, tk_last_price = entry_price,
      tk_abs_changes = []\<rparr>"

definition tracker_update :: "int \<Rightarrow> nat \<Rightarrow> stop_tracker \<Rightarrow> stop_tracker" where
  "tracker_update price atr_period t =
     (if price \<le> 0 then t
      else let delta = i64_wrap \<bar>i64_wrap (price - tk_last_price t)\<bar>;
               changes = tk_abs_changes t @ [delta];
               keep = max atr_period 1 * 6 mod 2 ^ 64
           in t\<lparr>tk_abs_changes := (if length changes > keep then drop (length changes - keep) changes else changes),
                tk_last_price := price,
                tk_reference_price := (if tk_side t > 0 then max (tk_reference_price t) price else min (tk_reference_price t) price)\<rparr>)"

definition tracker_atr :: "nat \<Rightarrow> stop_tracker \<Rightarrow> f64 option" where
  "tracker_atr atr_period t =
     (if tk_abs_changes t = [] then None
      else let k = min (max atr_period 1) (length (tk_abs_changes t));
               tail = drop (length (tk_abs_changes t) - k) (tk_abs_changes t)
           in Some (f64_div (foldl (\<lambda>acc x. f64_add acc (f64_of_int x)) f64_zero tail) (f64_of_int (int k))))"

text \<open>\<open>max_by_key\<close> takes the last of several maximal elements, \<open>min_by_key\<close> the first of several minimal ones.\<close>

fun last_max :: "int \<times> string \<Rightarrow> (int \<times> string) list \<Rightarrow> int \<times> string" where
  "last_max best [] = best"
| "last_max best (x # xs) = last_max (if fst x \<ge> fst best then x else best) xs"

fun first_min :: "int \<times> string \<Rightarrow> (int \<times> string) list \<Rightarrow> int \<times> string" where
  "first_min best [] = best"
| "first_min best (x # xs) = first_min (if fst x < fst best then x else best) xs"

definition pct_level :: "int \<Rightarrow> int \<Rightarrow> f64 \<Rightarrow> int" where
  "pct_level side base p =
     max (f64_to_i64 (f64_round_int (f64_mul (f64_of_int base) (if side > 0 then f64_sub f64_one p else f64_add f64_one p)))) 1"

definition atr_level :: "int \<Rightarrow> int \<Rightarrow> f64 \<Rightarrow> f64 \<Rightarrow> int" where
  "atr_level side base mult atr =
     max (f64_to_i64 (f64_round_int
       (if side > 0 then f64_sub (f64_of_int base) (f64_mul mult atr) else f64_add (f64_of_int base) (f64_mul mult atr)))) 1"

definition stop_candidates :: "stop_config \<Rightarrow> stop_tracker \<Rightarrow> (int \<times> string) list" where
  "stop_candidates cfg t =
     (case sc_fixed_stop_pct cfg of None \<Rightarrow> [] | Some p \<Rightarrow> [(pct_level (tk_side t) (tk_entry_price t) p, ''fixed'')]) @
     (case sc_trailing_stop_pct cfg of None \<Rightarrow> [] | Some p \<Rightarrow> [(pct_level (tk_side t) (tk_reference_price t) p, ''trailing'')]) @
     (case sc_atr_multiple cfg of None \<Rightarrow> []
      | Some mult \<Rightarrow> (case tracker_atr (sc_atr_period cfg) t of None \<Rightarrow> []
          | Some atr \<Rightarrow> [(atr_level (tk_side t) (tk_reference_price t) mult atr, ''atr'')]))"

definition effective_stop_level :: "stop_config \<Rightarrow> stop_tracker \<Rightarrow> (int \<times> string) option" where
  "effective_stop_level cfg t =
     (case stop_candidates cfg t of
        [] \<Rightarrow> None
      | x # xs \<Rightarrow> Some (if tk_side t > 0 then last_max x xs else first_min x xs))"

type_synonym stop_state = "portfolio \<times> (symbol, stop_tracker) omap \<times> backtest_stop_event list"

definition next_tracker :: "stop_config \<Rightarrow> int \<Rightarrow> int \<Rightarrow> stop_tracker option \<Rightarrow> stop_tracker" where
  "next_tracker cfg side price old =
     (case old of
        None \<Rightarrow> tracker_new price side
      | Some t \<Rightarrow> if tk_side t \<noteq> side then tracker_new price side else tracker_update price (sc_atr_period cfg) t)"

definition stop_one :: "nat \<Rightarrow> stop_config \<Rightarrow> symbol \<times> int \<times> int \<Rightarrow> stop_state \<Rightarrow> stop_state run" where
  "stop_one i cfg entry = (\<lambda>(pf, trackers, events).
     let (y, qty, price) = entry;
         side = (if qty \<ge> 0 then 1 else - 1);
         t = next_tracker cfg side price (om_get trackers y);
         trackers = om_insert y t trackers
     in case effective_stop_level cfg t of
          None \<Rightarrow> ret (pf, trackers, events)
        | Some (stop_level, reason) \<Rightarrow>
            if (if side > 0 then price \<le> stop_level else price \<ge> stop_level)
            then rbind (close_position_at y price (set_execution_context i StopExit pf)) (\<lambda>(pf', closed).
                 if closed
                 then ret (pf', om_remove y trackers,
                        events @ [\<lparr>be_period_index = i, be_symbol = y, be_trigger_price = stop_level, be_exit_price = price,
                                   be_reason = reason\<rparr>])
                 else ret (pf', trackers, events))
            else ret (pf, trackers, events))"

definition open_lots :: "hash_order \<Rightarrow> (symbol, int) omap \<Rightarrow> portfolio \<Rightarrow> (symbol \<times> int \<times> int) list" where
  "open_lots it prices pf =
     List.map_filter (\<lambda>(y, pos).
       if is_flat pos then None
       else case om_get prices y of
              None \<Rightarrow> None
            | Some px \<Rightarrow> if px \<le> 0 then None else Some (y, raw (pos_quantity pos), px)) (it (pf_positions pf))"

definition apply_stop_cfg :: "hash_order \<Rightarrow> (symbol, int) omap \<Rightarrow> nat \<Rightarrow> stop_config \<Rightarrow> stop_state \<Rightarrow> stop_state run" where
  "apply_stop_cfg it prices i cfg = (\<lambda>(pf, trackers, events).
     let lots = open_lots it prices pf
     in run_each (stop_one i cfg) lots (pf, filter (\<lambda>(y, _). y \<in> set (map fst lots)) trackers, events))"

section \<open>The simulation\<close>

record bridge_state =
  bx_portfolio :: portfolio
  bx_cash_snapshots :: "int list option"
  bx_trades_used_today :: nat
  bx_trades_used_month :: nat
  bx_value_used_month :: int
  bx_prev_day_ordinal :: "int option"
  bx_prev_month_ordinal :: "int option"
  bx_equity_curve :: "int list"
  bx_holdings :: "(symbol \<times> f64) list list"
  bx_symbol_returns :: "(symbol \<times> f64) list list"
  bx_stop_events :: "backtest_stop_event list"
  bx_skipped_rebalances :: "nat list"
  bx_prev_prices :: "(symbol, int) omap"
  bx_stop_trackers :: "(symbol, stop_tracker) omap"

definition has_day_budget :: "bridge_options \<Rightarrow> bool" where
  "has_day_budget opts \<longleftrightarrow> bo_max_trades_per_day opts \<noteq> None \<and> bo_period_day_ordinal opts \<noteq> None"

definition has_month_trade_budget :: "bridge_options \<Rightarrow> bool" where
  "has_month_trade_budget opts \<longleftrightarrow> bo_max_trades_per_month opts \<noteq> None \<and> bo_period_month_ordinal opts \<noteq> None"

definition has_month_value_budget :: "bridge_options \<Rightarrow> bool" where
  "has_month_value_budget opts \<longleftrightarrow> bo_max_traded_value_per_month opts \<noteq> None \<and> bo_period_month_ordinal opts \<noteq> None"

definition windowed_budgets_active :: "bridge_options \<Rightarrow> bool" where
  "windowed_budgets_active opts \<longleftrightarrow> has_day_budget opts \<or> has_month_trade_budget opts \<or> has_month_value_budget opts"

definition configured_portfolio :: "int \<Rightarrow> cost_model \<Rightarrow> bridge_options \<Rightarrow> portfolio" where
  "configured_portfolio initial_cash c opts =
     (let pf = portfolio_new initial_cash c;
          pf = (if bo_record_executions opts then enable_execution_recording pf else pf);
          pf = (case bo_quantity_step opts of None \<Rightarrow> pf | Some step \<Rightarrow> set_quantity_step step pf);
          pf = (case bo_min_order_value opts of None \<Rightarrow> pf | Some v \<Rightarrow> set_min_order_value v pf);
          pf = (case bo_max_order_value opts of None \<Rightarrow> pf | Some v \<Rightarrow> set_max_order_value v pf);
          pf = (case bo_no_trade_band_bps opts of None \<Rightarrow> pf | Some b \<Rightarrow> set_no_trade_band_bps b pf)
      in if bo_max_trades_per_rebalance opts \<noteq> None then set_max_trades_per_rebalance (bo_max_trades_per_rebalance opts) pf
         else pf)"

definition bridge_start :: "int \<Rightarrow> cost_model \<Rightarrow> bridge_options \<Rightarrow> bridge_state" where
  "bridge_start initial_cash c opts =
     \<lparr>bx_portfolio = configured_portfolio initial_cash c opts,
      bx_cash_snapshots = (if bo_record_executions opts then Some [] else None),
      bx_trades_used_today = 0, bx_trades_used_month = 0, bx_value_used_month = 0,
      bx_prev_day_ordinal = None, bx_prev_month_ordinal = None, bx_equity_curve = [initial_cash],
      bx_holdings = [], bx_symbol_returns = [], bx_stop_events = [], bx_skipped_rebalances = [],
      bx_prev_prices = [], bx_stop_trackers = []\<rparr>"

definition period_symbol_returns :: "(symbol, int) omap \<Rightarrow> bars \<Rightarrow> (symbol \<times> f64) list" where
  "period_symbol_returns prev bars =
     sort_key fst (map (\<lambda>(y, b).
       (y, case om_get prev y of
             None \<Rightarrow> FNaN
           | Some p0 \<Rightarrow> if p0 > 0 \<and> bp_close b > 0 then f64_div (f64_of_int (i64_wrap (bp_close b - p0))) (f64_of_int p0)
                        else FNaN)) bars)"

text \<open>The windows: counters are reset when the day or the month changes.\<close>

definition roll_windows :: "bridge_options \<Rightarrow> nat \<Rightarrow> bridge_state \<Rightarrow> bridge_state" where
  "roll_windows opts i st =
     (let st = (case bo_period_day_ordinal opts of
                  None \<Rightarrow> st
                | Some days \<Rightarrow> if bx_prev_day_ordinal st \<noteq> Some (days ! i)
                               then st\<lparr>bx_trades_used_today := 0, bx_prev_day_ordinal := Some (days ! i)\<rparr> else st)
      in case bo_period_month_ordinal opts of
           None \<Rightarrow> st
         | Some months \<Rightarrow> if bx_prev_month_ordinal st \<noteq> Some (months ! i)
                          then st\<lparr>bx_trades_used_month := 0, bx_value_used_month := 0, bx_prev_month_ordinal := Some (months ! i)\<rparr>
                          else st)"

definition month_value_left :: "bridge_options \<Rightarrow> bridge_state \<Rightarrow> int" where
  "month_value_left opts st = (case bo_max_traded_value_per_month opts of None \<Rightarrow> 0 | Some v \<Rightarrow> i64_sat (v - bx_value_used_month st))"

definition cap_candidates :: "bridge_options \<Rightarrow> bridge_state \<Rightarrow> nat list" where
  "cap_candidates opts st =
     (case bo_max_trades_per_rebalance opts of None \<Rightarrow> [] | Some base \<Rightarrow> [base]) @
     (if has_day_budget opts then [the (bo_max_trades_per_day opts) - bx_trades_used_today st] else []) @
     (if has_month_trade_budget opts then [the (bo_max_trades_per_month opts) - bx_trades_used_month st] else []) @
     (if has_month_value_budget opts \<and> month_value_left opts st \<le> 0 then [0] else [])"

definition list_min :: "nat list \<Rightarrow> nat option" where
  "list_min xs = (case xs of [] \<Rightarrow> None | x # ys \<Rightarrow> Some (foldl min x ys))"

definition set_budgets :: "bridge_options \<Rightarrow> nat \<Rightarrow> bridge_state \<Rightarrow> bridge_state" where
  "set_budgets opts i st =
     (if windowed_budgets_active opts
      then let st = roll_windows opts i st;
               left = (if has_month_value_budget opts \<and> month_value_left opts st > 0 then month_value_left opts st else 0)
           in st\<lparr>bx_portfolio := set_max_rebalance_notional left
                   (set_max_trades_per_rebalance (list_min (cap_candidates opts st)) (bx_portfolio st))\<rparr>
      else st)"

definition count_rebalance :: "bridge_options \<Rightarrow> bridge_state \<Rightarrow> bridge_state" where
  "count_rebalance opts st =
     (if windowed_budgets_active opts
      then let orders = pf_last_rebalance_order_count (bx_portfolio st)
           in st\<lparr>bx_trades_used_today := u64_add (bx_trades_used_today st) orders,
                 bx_trades_used_month := u64_add (bx_trades_used_month st) orders,
                 bx_value_used_month := i64_sat (bx_value_used_month st + pf_last_rebalance_notional (bx_portfolio st))\<rparr>
      else st)"

text \<open>A held symbol without a price ends the run: it is the left result of the two steps below.\<close>

definition period_rebalance ::
  "hash_order \<Rightarrow> bridge_options \<Rightarrow> (symbol \<times> int) list option \<Rightarrow> nat \<Rightarrow> (symbol \<times> f64) list \<Rightarrow> bridge_state \<Rightarrow> (unpriced_lot + bridge_state) run" where
  "period_rebalance it opts fill_prices i weights st =
     (case fill_prices of
        None \<Rightarrow> ret (Inr (st\<lparr>bx_skipped_rebalances := bx_skipped_rebalances st @ [i]\<rparr>))
      | Some prices \<Rightarrow>
          (case unpriced_holding it prices (bx_portfolio st) of
             Some y \<Rightarrow> ret (Inl \<lparr>ul_period_index = i, ul_symbol = y, ul_at_fill = True\<rparr>)
           | None \<Rightarrow>
               rbind (rebalance_simple it weights prices
                       (if bo_record_executions opts then set_execution_context i ForRebalance (bx_portfolio st) else bx_portfolio st)) (\<lambda>pf.
               ret (Inr (count_rebalance opts (st\<lparr>bx_portfolio := pf\<rparr>))))))"

definition period_close ::
  "hash_order \<Rightarrow> bridge_options \<Rightarrow> bars \<Rightarrow> nat \<Rightarrow> bridge_state \<Rightarrow> (unpriced_lot + bridge_state) run" where
  "period_close it opts bars i st =
     (let close_prices = map (\<lambda>(y, b). (y, bp_close b)) bars;
          price_map = collect_map close_prices
      in rbind (case Option.bind (bo_stop_cfg opts) sanitized of
                  None \<Rightarrow> ret (bx_portfolio st, bx_stop_trackers st, bx_stop_events st)
                | Some cfg \<Rightarrow> apply_stop_cfg it price_map i cfg (bx_portfolio st, bx_stop_trackers st, bx_stop_events st))
           (\<lambda>(pf, trackers, events).
             case unpriced_holding it close_prices pf of
               Some y \<Rightarrow> ret (Inl \<lparr>ul_period_index = i, ul_symbol = y, ul_at_fill = False\<rparr>)
             | None \<Rightarrow>
                 let pf = record_return it close_prices pf
                 in ret (Inr (st\<lparr>bx_portfolio := pf, bx_stop_trackers := trackers, bx_stop_events := events,
                       bx_holdings := bx_holdings st @ [sort_key fst (current_weights it close_prices pf)],
                       bx_equity_curve := bx_equity_curve st @ [total_equity it close_prices pf],
                       bx_cash_snapshots := map_option (\<lambda>xs. xs @ [pf_cash pf]) (bx_cash_snapshots st),
                       bx_prev_prices := price_map\<rparr>))))"

definition run_period ::
  "hash_order \<Rightarrow> bridge_options \<Rightarrow> fill_policy \<Rightarrow> bars list \<Rightarrow> nat \<Rightarrow> (symbol \<times> f64) list \<Rightarrow> bars \<Rightarrow> bridge_state \<Rightarrow> (unpriced_lot + bridge_state) run" where
  "run_period it opts policy price_schedule i weights bars st =
     (let st = st\<lparr>bx_symbol_returns := bx_symbol_returns st @ [period_symbol_returns (bx_prev_prices st) bars]\<rparr>;
          st = set_budgets opts i st
      in rbind (period_rebalance it opts (fill_prices_for_period price_schedule i policy (bo_fill_schedule opts)) i weights st) (\<lambda>r.
         case r of Inl u \<Rightarrow> ret (Inl u) | Inr st \<Rightarrow> period_close it opts bars i st))"

fun run_periods ::
  "hash_order \<Rightarrow> bridge_options \<Rightarrow> fill_policy \<Rightarrow> bars list \<Rightarrow> nat \<Rightarrow> ((symbol \<times> f64) list \<times> bars) list \<Rightarrow> bridge_state \<Rightarrow> (unpriced_lot + bridge_state) run" where
  "run_periods it opts policy price_schedule i [] st = ret (Inr st)"
| "run_periods it opts policy price_schedule i ((weights, bars) # rest) st =
     rbind (run_period it opts policy price_schedule i weights bars st) (\<lambda>r.
     case r of Inl u \<Rightarrow> ret (Inl u) | Inr st' \<Rightarrow> run_periods it opts policy price_schedule (i + 1) rest st')"

definition finish_run :: "int \<Rightarrow> bridge_state \<Rightarrow> bridge_result" where
  "finish_run initial_cash st =
     \<lparr>br_initial_cash = initial_cash, br_executions = snd (take_executions (bx_portfolio st)),
      br_cash_snapshots = bx_cash_snapshots st, br_returns = pf_returns (bx_portfolio st),
      br_equity_curve = bx_equity_curve st, br_final_cash = pf_cash (bx_portfolio st), br_holdings = bx_holdings st,
      br_symbol_returns = bx_symbol_returns st, br_stop_events = bx_stop_events st,
      br_skipped_rebalances = bx_skipped_rebalances st, br_unpriced_holding = None\<rparr>"

definition schedule_fits :: "nat \<Rightarrow> 'a list option \<Rightarrow> bool" where
  "schedule_fits n xs \<longleftrightarrow> (case xs of None \<Rightarrow> True | Some ys \<Rightarrow> length ys = n)"

definition backtest_weights_with_options ::
  "hash_order \<Rightarrow> (symbol \<times> f64) list list \<Rightarrow> bars list \<Rightarrow> int \<Rightarrow> cost_model \<Rightarrow> fill_policy \<Rightarrow> bridge_options \<Rightarrow> bridge_result run" where
  "backtest_weights_with_options it weight_schedule price_schedule initial_cash c policy opts =
     (if \<not> valid_inputs weight_schedule price_schedule initial_cash \<or>
         \<not> schedule_fits (length weight_schedule) (bo_period_day_ordinal opts) \<or>
         \<not> schedule_fits (length weight_schedule) (bo_period_month_ordinal opts) \<or>
         \<not> schedule_fits (length weight_schedule) (bo_fill_schedule opts)
      then ret (empty_result initial_cash (bo_record_executions opts))
      else rbind (run_periods it opts policy price_schedule 0 (zip weight_schedule price_schedule) (bridge_start initial_cash c opts)) (\<lambda>r.
           ret (case r of Inl u \<Rightarrow> unpriced_result initial_cash u (bo_record_executions opts)
                        | Inr st \<Rightarrow> finish_run initial_cash st)))"

definition backtest_weights ::
  "hash_order \<Rightarrow> (symbol \<times> f64) list list \<Rightarrow> bars list \<Rightarrow> int \<Rightarrow> cost_model \<Rightarrow> fill_policy \<Rightarrow> bridge_result run" where
  "backtest_weights it weight_schedule price_schedule initial_cash c policy =
     backtest_weights_with_options it weight_schedule price_schedule initial_cash c policy bridge_options_default"

end
