(* ===== verification/Portfolio_Properties.thy ===== *)
theory Portfolio_Properties
  imports Portfolio Rebalance_Properties
begin

text \<open>
  What the portfolio guarantees: the search for an affordable quantity is exact, orders respect
  the configured limits, a rebalance returns and does not overdraw the account when prices are
  positive, and the ledger accounts for every cent of cash.
\<close>

section \<open>Monotone costs\<close>

text \<open>Non-negative floating-point numbers, infinity included, in their order.\<close>

definition f64_nonneg :: "f64 \<Rightarrow> bool" where
  "f64_nonneg a \<longleftrightarrow> (case a of FNaN \<Rightarrow> False | FInf s \<Rightarrow> \<not> s | FFin s x \<Rightarrow> \<not> s \<and> 0 \<le> x)"

fun mag_le :: "f64 \<Rightarrow> f64 \<Rightarrow> bool" where
  "mag_le (FFin s x) (FFin t y) \<longleftrightarrow> \<not> s \<and> \<not> t \<and> 0 \<le> x \<and> x \<le> y"
| "mag_le (FFin s x) (FInf t) \<longleftrightarrow> \<not> s \<and> \<not> t \<and> 0 \<le> x"
| "mag_le (FInf s) (FInf t) \<longleftrightarrow> \<not> s \<and> \<not> t"
| "mag_le _ _ \<longleftrightarrow> False"

lemma f64_round_le: "0 \<le> x \<Longrightarrow> x \<le> y \<Longrightarrow> mag_le (f64_round False x) (f64_round False y)"
  using round_mag_mono [of x y] round_mag_nonneg [of x] by (auto simp: f64_round_def)

lemma f64_of_int_le: "0 \<le> i \<Longrightarrow> i \<le> j \<Longrightarrow> mag_le (f64_of_int i) (f64_of_int j)"
  unfolding f64_of_int_def f64_of_rat_def using f64_round_le [of "of_int i" "of_int j"] by simp

lemma f64_round_inf: "0 \<le> x \<Longrightarrow> mag_le (f64_round False x) (FInf False)"
  by (simp add: f64_round_def round_mag_nonneg)

lemma round_mag_double: "1 \<le> x \<Longrightarrow> round_mag x \<le> 2 * x"
proof -
  assume x: "1 \<le> x"
  note b = bin_exp_bounds [of x]
  have "0 \<le> bin_exp x"
  proof (rule ccontr)
    assume "\<not> 0 \<le> bin_exp x"
    then have "pow2 (bin_exp x + 1) \<le> pow2 0" by (intro pow2_mono) simp
    then show False using b(2) x by (simp add: pow2_def)
  qed
  then have "ulp_exp x \<le> bin_exp x + 1" by (simp add: ulp_exp_def)
  then obtain k where k: "pow2 (bin_exp x + 1) = of_int k * pow2 (ulp_exp x)" using pow2_divides by blast
  have "round_mag x \<le> of_int k * pow2 (ulp_exp x)"
    by (rule round_mag_le) (use b x k in auto)
  then show ?thesis using b(1) x k by (simp add: pow2_Suc)
qed

lemma f64_of_int_finite: "0 \<le> i \<Longrightarrow> i \<le> i64_max \<Longrightarrow> \<exists>x. f64_of_int i = FFin False x \<and> 0 \<le> x"
proof -
  assume i: "0 \<le> i" "i \<le> i64_max"
  have "(of_int i :: rat) \<le> of_int i64_max" using i(2) by (simp only: of_int_le_iff)
  moreover have "round_mag (of_int i) \<le> 2 * of_int i"
    using i(1) round_mag_double [of "of_int i"] by (cases "i = 0") (simp_all add: round_mag_def)
  ultimately have "round_mag (of_int i) \<le> 2 * of_int i64_max" by linarith
  also have "\<dots> < pow2 1024" using pow2_mono [of 64 1024] by (simp add: pow2_def [of 64] i64_max_def)
  finally show ?thesis using i by (simp add: f64_of_int_def f64_of_rat_def f64_round_def round_mag_nonneg)
qed

lemma f64_mul_le:
  "mag_le (FFin False x) (FFin False x') \<Longrightarrow> 0 \<le> y \<Longrightarrow> mag_le (f64_mul (FFin False x) (FFin False y)) (f64_mul (FFin False x') (FFin False y))"
  by (auto intro!: f64_round_le mult_right_mono)

lemma f64_div_le: "mag_le a b \<Longrightarrow> 0 < y \<Longrightarrow> mag_le (f64_div a (FFin False y)) (f64_div b (FFin False y))"
  by (cases a; cases b) (auto intro!: f64_round_le f64_round_inf divide_right_mono)

lemma f64_round_int_le: "mag_le a b \<Longrightarrow> mag_le (f64_round_int a) (f64_round_int b)"
  by (cases a; cases b) (auto intro!: floor_mono)

lemma f64_to_i64_le: "mag_le a b \<Longrightarrow> 0 \<le> f64_to_i64 a \<and> f64_to_i64 a \<le> f64_to_i64 b"
  by (cases a; cases b) (auto simp: clamp_int_def i64_min_def i64_max_def min_le_iff_disj intro!: floor_mono max.mono)

text \<open>A cost model with a commission rate that is a number and not negative.\<close>

definition sane_costs :: "cost_model \<Rightarrow> bool" where
  "sane_costs c \<longleftrightarrow> (\<exists>y. cm_commission_bps c = FFin False y \<and> 0 \<le> y)"

lemma compute_cost_mono:
  assumes "sane_costs c" and "0 \<le> a" and "a \<le> b" and "b \<le> i64_max"
  shows "compute_cost c a \<le> compute_cost c b"
proof -
  obtain y where y: "cm_commission_bps c = FFin False y" "0 \<le> y" using assms(1) by (auto simp: sane_costs_def)
  obtain x x' where x: "f64_of_int a = FFin False x" "f64_of_int b = FFin False x'"
    using f64_of_int_finite [of a] f64_of_int_finite [of b] assms by auto
  have "mag_le (f64_mul (f64_of_int a) (FFin False y)) (f64_mul (f64_of_int b) (FFin False y))"
    unfolding x by (rule f64_mul_le) (use f64_of_int_le [OF assms(2,3)] x y in simp_all)
  moreover have "f64_of_int 10000 = FFin False 10000" by code_simp
  ultimately have "f64_to_i64 (f64_round_int (f64_div (f64_mul (f64_of_int a) (FFin False y)) (f64_of_int 10000)))
      \<le> f64_to_i64 (f64_round_int (f64_div (f64_mul (f64_of_int b) (FFin False y)) (f64_of_int 10000)))"
    using f64_to_i64_le [OF f64_round_int_le [OF f64_div_le]] by simp
  then show ?thesis using assms(2,3) by (simp add: compute_cost_def y max.mono)
qed


lemma compute_cost_nonneg: "sane_costs c \<Longrightarrow> 0 \<le> a \<Longrightarrow> a \<le> i64_max \<Longrightarrow> 0 \<le> compute_cost c a"
proof -
  assume "sane_costs c" and a: "0 \<le> a" "a \<le> i64_max"
  then obtain y x where y: "cm_commission_bps c = FFin False y" "0 \<le> y" and x: "f64_of_int a = FFin False x" "0 \<le> x"
    using f64_of_int_finite [OF a] by (auto simp: sane_costs_def)
  have "f64_of_int 10000 = FFin False 10000" by code_simp
  moreover have "mag_le (f64_mul (FFin False x) (FFin False y)) (f64_mul (FFin False x) (FFin False y))"
    using x y by (intro f64_mul_le) simp_all
  ultimately have "0 \<le> f64_to_i64 (f64_round_int (f64_div (f64_mul (f64_of_int a) (FFin False y)) (f64_of_int 10000)))"
    unfolding x using f64_to_i64_le [OF f64_round_int_le [OF f64_div_le]] by simp
  then show ?thesis using a by (simp add: compute_cost_def y max.coboundedI1)
qed

lemma clamp_range: "0 \<le> clamp_int 0 i64_max x \<and> clamp_int 0 i64_max x \<le> i64_max"
  by (simp add: clamp_int_def i64_max_def)

lemma trunc_div_nonneg: "0 \<le> a \<Longrightarrow> 0 < b \<Longrightarrow> trunc_div a b = a div b"
  by (cases "a = 0") (simp_all add: trunc_div_def)

lemma i64_sat_mono: "a \<le> b \<Longrightarrow> i64_sat a \<le> i64_sat b"
  by (auto simp: i64_sat_def clamp_int_def)

lemma required_mono:
  assumes "sane_costs c" and "a \<le> b"
  shows "buy_cash_required a p c \<le> buy_cash_required b p c"
proof -
  let ?n = "\<lambda>a. clamp_int 0 i64_max (trunc_div (a * p) SCALE)"
  have nonneg: "0 \<le> i64_sat (?n x + compute_cost c (?n x))" for x
    using compute_cost_nonneg [OF assms(1), of "?n x"] clamp_range by (simp add: i64_sat_nonneg i64_max_def)
  have "?n a \<le> ?n b" if "0 < a" "0 < p"
  proof -
    have "a * p div SCALE \<le> b * p div SCALE"
      using assms(2) that by (intro zdiv_mono1 mult_right_mono) (simp_all add: SCALE_def)
    then show ?thesis using that assms(2) by (auto simp: trunc_div_nonneg clamp_int_def SCALE_def intro: min.mono max.mono)
  qed
  then show ?thesis
    using nonneg compute_cost_mono [OF assms(1), of "?n a" "?n b"] clamp_range assms(2)
    by (auto simp: buy_cash_required_def Let_def intro!: i64_sat_mono add_mono)
qed

section \<open>The search for an affordable quantity\<close>

lemma search_mid:
  assumes "0 \<le> lo" and "lo < hi" and "hi < i64_max"
  defines "mid \<equiv> i64_wrap (lo + trunc_div (i64_wrap (i64_wrap (hi - lo) + 1)) 2)"
  shows "lo < mid \<and> mid \<le> hi \<and> i64_wrap (mid - 1) = mid - 1"
proof -
  have w: "i64_wrap (hi - lo) = hi - lo" "i64_wrap (hi - lo + 1) = hi - lo + 1"
    using assms by (auto intro!: i64_wrap_small)
  have "trunc_div (hi - lo + 1) 2 = (hi - lo + 1) div 2" using assms by (intro trunc_div_nonneg) simp_all
  moreover have "i64_wrap (lo + (hi - lo + 1) div 2) = lo + (hi - lo + 1) div 2"
    using assms by (intro i64_wrap_small) linarith
  ultimately have "mid = lo + (hi - lo + 1) div 2" unfolding mid_def w by simp
  moreover have "lo < lo + (hi - lo + 1) div 2" "lo + (hi - lo + 1) div 2 \<le> hi" using assms by linarith+
  ultimately show ?thesis using assms by (auto intro!: i64_wrap_small)
qed

definition affordable :: "int \<Rightarrow> int \<Rightarrow> int \<Rightarrow> cost_model \<Rightarrow> int \<Rightarrow> bool" where
  "affordable cash step p c k \<longleftrightarrow> buy_cash_required (i64_sat (k * step)) p c \<le> cash"

lemma afford_loop:
  assumes "0 \<le> cash" and "0 \<le> h" and "h < i64_max"
  shows "\<exists>k. loop (afford_body cash step p c) (0, h) = ret (k, k) \<and> 0 \<le> k \<and> k \<le> h \<and>
           affordable cash step p c k \<and> (k < h \<longrightarrow> \<not> affordable cash step p c (k + 1))"
proof -
  let ?ok = "affordable cash step p c"
  let ?I = "\<lambda>(lo, hi). 0 \<le> lo \<and> lo \<le> hi \<and> hi \<le> h \<and> ?ok lo \<and> (hi < h \<longrightarrow> \<not> ?ok (hi + 1))"
  have "?ok 0" using assms(1) by (simp add: affordable_def buy_cash_required_def i64_sat_def clamp_int_def i64_min_def i64_max_def)
  then have start: "?I (0, h)" using assms by simp
  have "\<exists>t. loop (afford_body cash step p c) (0, h) = ret t \<and> ?I t \<and> fst t = snd t"
  proof (rule loop_total [where I = ?I and m = "\<lambda>(lo, hi). nat (hi - lo)", OF start])
    fix s assume s: "?I s"
    obtain lo hi where lh: "s = (lo, hi)" by (cases s)
    show "(\<exists>s'. afford_body cash step p c s = Some (Next s') \<and> ?I s' \<and> (case s' of (lo, hi) \<Rightarrow> nat (hi - lo)) < (case s of (lo, hi) \<Rightarrow> nat (hi - lo)))
        \<or> (\<exists>s'. afford_body cash step p c s = Some (Stop s') \<and> ?I s' \<and> fst s' = snd s')"
    proof (cases "lo < hi")
      case True
      then have m: "lo < i64_wrap (lo + trunc_div (i64_wrap (i64_wrap (hi - lo) + 1)) 2)"
        "i64_wrap (lo + trunc_div (i64_wrap (i64_wrap (hi - lo) + 1)) 2) \<le> hi"
        "i64_wrap (i64_wrap (lo + trunc_div (i64_wrap (i64_wrap (hi - lo) + 1)) 2) - 1)
           = i64_wrap (lo + trunc_div (i64_wrap (i64_wrap (hi - lo) + 1)) 2) - 1"
        using search_mid [of lo hi] s lh assms(3) by auto
      then show ?thesis using s True by (auto simp: afford_body_def lh Let_def simp flip: affordable_def)
    qed (use s in \<open>auto simp: afford_body_def lh\<close>)
  qed
  then show ?thesis by auto
qed

lemma div_mult_below: "0 < (b :: int) \<Longrightarrow> a div b * b \<le> a"
  using div_mult_mod_eq [of a b] pos_mod_sign [of b a] by linarith

lemma search_result:
  assumes "0 < r" and "r \<le> i64_max" and "0 < cash" and "0 < step" and "2 \<le> step \<or> r < i64_max" and "0 < p"
    and "cash < buy_cash_required r p c"
  shows "\<exists>k. largest_affordable_buy_qty r cash step p c = ret (from_raw (k * step)) \<and> 0 \<le> k \<and> k \<le> r div step \<and>
           affordable cash step p c k \<and> (k < r div step \<longrightarrow> \<not> affordable cash step p c (k + 1))"
proof -
  have h: "trunc_div r step = r div step" "0 \<le> r div step" using assms by (simp_all add: trunc_div_nonneg pos_imp_zdiv_nonneg_iff)
  have "r div step < i64_max"
  proof (cases "2 \<le> step")
    case True
    then have "r div step \<le> r div 2" using assms(1) by (intro zdiv_mono2) simp_all
    then show ?thesis using assms(1,2) by linarith
  next
    case False
    then have "step = 1" using assms(4) by simp
    then show ?thesis using assms(5) by simp
  qed
  then obtain k where k: "loop (afford_body cash step p c) (0, r div step) = ret (k, k)" "0 \<le> k" "k \<le> r div step"
      "affordable cash step p c k" "k < r div step \<longrightarrow> \<not> affordable cash step p c (k + 1)"
    using afford_loop [of cash "r div step" step p c] h assms(3) by auto
  have "k * step \<le> r div step * step" using k assms(4) by (intro mult_right_mono) simp_all
  also have "\<dots> \<le> r" using assms(1,4) by (simp add: div_mult_below)
  finally have "i64_sat (k * step) = k * step" using k assms by (intro i64_sat_id) simp
  then show ?thesis using k assms h by (auto simp: largest_affordable_buy_qty_def)
qed

lemma affordable_step: "0 \<le> k \<Longrightarrow> 0 < step \<Longrightarrow> k * step \<le> i64_max \<Longrightarrow>
    affordable cash step p c k \<longleftrightarrow> buy_cash_required (k * step) p c \<le> cash"
  by (simp add: affordable_def i64_sat_id)

text \<open>C20. The binary search that trims a buy to the cash at hand always ends, and it gives the best answer:
  the whole order when it can be paid for, and otherwise the largest multiple of the quantity step
  that can be paid for, commission included. Every larger multiple within the order costs more than
  the cash. This uses that the commission, which is computed in floating point with a minimum, grows
  with the order.\<close>

theorem affordable_quantity_exact:
  assumes "sane_costs c" and "0 < requested" and "requested \<le> i64_max" and "0 < cash" and "0 < step" and "0 < p"
    and "2 \<le> step \<or> requested < i64_max"
  shows "\<exists>q. largest_affordable_buy_qty requested cash step p c = ret (from_raw q) \<and> 0 \<le> q \<and> q \<le> requested \<and>
           buy_cash_required q p c \<le> cash \<and>
           (q = requested \<or> step dvd q \<and> (\<forall>r. step dvd r \<longrightarrow> q < r \<longrightarrow> r \<le> requested \<longrightarrow> cash < buy_cash_required r p c))"
proof (cases "buy_cash_required requested p c \<le> cash")
  case True
  then show ?thesis using assms by (auto simp: largest_affordable_buy_qty_def)
next
  case False
  let ?h = "requested div step"
  obtain k where k: "largest_affordable_buy_qty requested cash step p c = ret (from_raw (k * step))" "0 \<le> k" "k \<le> ?h"
      "affordable cash step p c k" "k < ?h \<longrightarrow> \<not> affordable cash step p c (k + 1)"
    using search_result [of requested cash step p c] assms False by auto
  have le: "j * step \<le> requested" if "j \<le> ?h" for j
    using mult_right_mono [OF that, of step] div_mult_below [of step requested] assms(2,5) by linarith
  have "cash < buy_cash_required r p c" if r: "step dvd r" "k * step < r" "r \<le> requested" for r
  proof -
    obtain j where j: "r = j * step" using r(1) by (metis dvdE mult.commute)
    have "j \<le> ?h" using r(3) assms(5) unfolding j by (metis nonzero_mult_div_cancel_right order_less_irrefl zdiv_mono1)
    moreover have "k + 1 \<le> j" using r(2) assms(5) unfolding j by simp
    ultimately have "\<not> affordable cash step p c (k + 1)" "(k + 1) * step \<le> r" "k + 1 \<le> ?h"
      using k(5) assms(5) unfolding j by (auto intro!: mult_right_mono)
    then show ?thesis
      using affordable_step [of "k + 1" step cash p c] le [of "k + 1"] k(2) assms(3,5) required_mono [OF assms(1), of "(k + 1) * step" r p]
      by linarith
  qed
  then show ?thesis using k le [of k] affordable_step [of k step cash p c] assms by (intro exI [of _ "k * step"]) auto
qed

theorem affordable_quantity_exact_witness:
  "sane_costs cost_model_zero \<and>
   (\<exists>q. largest_affordable_buy_qty 5000000 350 1000000 100 cost_model_zero = ret (from_raw q) \<and> 0 \<le> q \<and> q \<le> 5000000 \<and>
      buy_cash_required q 100 cost_model_zero \<le> 350 \<and>
      (q = 5000000 \<or> 1000000 dvd q \<and>
        (\<forall>r. 1000000 dvd r \<longrightarrow> q < r \<longrightarrow> r \<le> 5000000 \<longrightarrow> 350 < buy_cash_required r 100 cost_model_zero)))"
proof -
  have "sane_costs cost_model_zero" by (simp add: sane_costs_def cost_model_zero_def)
  then show ?thesis
    using affordable_quantity_exact [of cost_model_zero 5000000 350 1000000 100] by (simp add: i64_max_def)
qed

section \<open>Fills\<close>

text \<open>Slippage is a number and not negative: it never moves the price of a buy below the reference.\<close>

definition sane_slippage :: "cost_model \<Rightarrow> bool" where
  "sane_slippage c \<longleftrightarrow> (\<exists>y. cm_slippage_bps c = FFin False y \<and> 0 \<le> y)"

abbreviation at_least_one :: "f64 \<Rightarrow> bool" where
  "at_least_one a \<equiv> mag_le (FFin False 1) a"

lemma round_one: "f64_round False 1 = FFin False 1"
  by code_simp

lemma round_at_least_one: "1 \<le> x \<Longrightarrow> at_least_one (f64_round False x)"
  using f64_round_le [of 1 x] by (simp add: round_one)

lemma mul_at_least_one: "at_least_one a \<Longrightarrow> at_least_one b \<Longrightarrow> at_least_one (f64_mul a b)"
proof (cases a; cases b)
  fix s x t y assume "at_least_one a" "at_least_one b" "a = FFin s x" "b = FFin t y"
  then show ?thesis using mult_mono [of 1 x 1 y] by (auto intro!: round_at_least_one)
qed auto

lemma add_at_least_one: "mag_le (FFin False 0) a \<Longrightarrow> at_least_one (f64_add f64_one a)"
proof (cases a)
  fix s x assume "mag_le (FFin False 0) a" "a = FFin s x"
  then show ?thesis by (auto simp: f64_signed_def f64_of_rat_def intro!: round_at_least_one)
qed auto

lemma buy_price_positive: "sane_slippage c \<Longrightarrow> 0 < price \<Longrightarrow> 0 < effective_price c True price"
proof -
  assume "sane_slippage c" and price: "0 < price"
  then obtain y where y: "cm_slippage_bps c = FFin False y" "0 \<le> y" by (auto simp: sane_slippage_def)
  have "f64_of_int 10000 = FFin False 10000" by code_simp
  moreover have "mag_le (FFin False 0) (f64_mul f64_one (FFin False y))"
    using f64_round_le [of 0 y] y by (simp add: f64_round_def round_mag_def split: if_splits)
  ultimately have "mag_le (FFin False 0) (f64_div (f64_mul f64_one (cm_slippage_bps c)) (f64_of_int 10000))"
    using f64_div_le [of "FFin False 0" "f64_mul f64_one (FFin False y)" 10000] unfolding y
    by (simp add: f64_round_def round_mag_def)
  then have "at_least_one (f64_mul (f64_of_int price)
      (f64_add f64_one (f64_div (f64_mul f64_one (cm_slippage_bps c)) (f64_of_int 10000))))"
    using price by (intro mul_at_least_one add_at_least_one) (simp_all add: f64_of_int_def f64_of_rat_def round_at_least_one)
  moreover have "\<lfloor>3 / 2 :: rat\<rfloor> = 1" by (simp add: floor_eq_iff)
  ultimately show ?thesis using f64_to_i64_le [OF f64_round_int_le, of f64_one]
    by (fastforce simp add: effective_price_def Let_def clamp_int_def i64_min_def i64_max_def)
qed

text \<open>
  The ledger: the fills are numbered, the balance after each is the balance before plus the recorded
  change, no balance is negative, and the last is the cash of the account.
\<close>

fun ledger_from :: "int \<Rightarrow> nat \<Rightarrow> execution_record list \<Rightarrow> int \<Rightarrow> bool" where
  "ledger_from cash n [] final \<longleftrightarrow> final = cash"
| "ledger_from cash n (x # xs) final \<longleftrightarrow>
     xr_sequence x = n \<and> xr_cash_after x = cash + xr_cash_delta x \<and> 0 \<le> xr_cash_after x \<and>
     ledger_from (xr_cash_after x) (Suc n) xs final"

lemma ledger_from_append:
  "ledger_from cash n xs m \<Longrightarrow> xr_sequence x = n + length xs \<Longrightarrow> xr_cash_after x = m + xr_cash_delta x \<Longrightarrow>
   0 \<le> xr_cash_after x \<Longrightarrow> ledger_from cash n (xs @ [x]) (xr_cash_after x)"
  by (induction xs arbitrary: cash n) auto

lemma ledger_from_sum: "ledger_from cash n xs final \<Longrightarrow> final = cash + (\<Sum>x\<leftarrow>xs. xr_cash_delta x)"
  by (induction xs arbitrary: cash n) fastforce+

definition account_ok :: "int \<Rightarrow> portfolio \<Rightarrow> bool" where
  "account_ok start pf \<longleftrightarrow> 0 \<le> pf_cash pf \<and> pf_cash pf \<le> i64_max \<and> pf_quantity_step pf \<noteq> 1 \<and> sane_slippage (pf_cost_model pf) \<and>
     (case pf_executions pf of None \<Rightarrow> True | Some xs \<Rightarrow> ledger_from start 0 xs (pf_cash pf))"

text \<open>What no fill touches.\<close>

definition same_frame :: "portfolio \<Rightarrow> portfolio \<Rightarrow> bool" where
  "same_frame pf pf' \<longleftrightarrow> pf_last_rebalance_order_count pf' = pf_last_rebalance_order_count pf \<and>
     pf_last_rebalance_notional pf' = pf_last_rebalance_notional pf \<and> pf_equity_curve pf' = pf_equity_curve pf \<and>
     pf_returns pf' = pf_returns pf \<and> pf_prev_equity pf' = pf_prev_equity pf \<and>
     (pf_executions pf' = None \<longleftrightarrow> pf_executions pf = None)"

lemma same_frame_refl [simp]: "same_frame pf pf"
  by (simp add: same_frame_def)

lemma same_frame_trans: "same_frame a b \<Longrightarrow> same_frame b c \<Longrightarrow> same_frame a c"
  by (simp add: same_frame_def)

lemma i64_sat_range: "- i64_max - 1 \<le> i64_sat x" "i64_sat x \<le> i64_max"
  by (auto simp: i64_sat_def clamp_int_def i64_min_def i64_max_def)

lemma wrap_difference: "0 \<le> a \<Longrightarrow> a \<le> i64_max \<Longrightarrow> 0 \<le> b \<Longrightarrow> b \<le> i64_max \<Longrightarrow> i64_wrap (a - b) = a - b"
  by (rule i64_wrap_small) arith

text \<open>The cash that is left after a fill.\<close>

definition cash_left :: "portfolio \<Rightarrow> shares \<Rightarrow> int \<Rightarrow> int" where
  "cash_left pf q p = i64_sat (pf_cash pf - i64_sat (i64_sat (trunc_div (raw q * p) SCALE) + compute_cost (pf_cost_model pf) (notional_of q p)))"

lemma settle_fill_ok:
  assumes "account_ok start pf" and "is_negative q \<or> 0 \<le> cash_left pf q p"
  shows "account_ok start (settle_fill y q p price pf) \<and> same_frame pf (settle_fill y q p price pf)"
proof (cases "cash_left pf q p < 0")
  case True
  then show ?thesis using assms by (simp add: settle_fill_def cash_left_def Let_def)
next
  case False
  have range: "cash_left pf q p \<le> i64_max" by (simp add: cash_left_def i64_sat_range)
  then have "i64_wrap (cash_left pf q p - pf_cash pf) = cash_left pf q p - pf_cash pf"
    using assms(1) False by (intro wrap_difference) (simp_all add: account_ok_def)
  then show ?thesis using assms(1) False range
    by (auto simp: settle_fill_def Let_def account_ok_def same_frame_def simp flip: cash_left_def split: option.splits
        intro!: ledger_from_append [where m = "pf_cash pf" and x = "execution_record.make _ _ _ _ _ _ _ _ _ _ _ _", simplified execution_record.defs, simplified])
qed

lemma affordable_left:
  assumes "0 < raw q" and "0 < p" and "0 \<le> pf_cash pf" and "buy_cash_required (raw q) p (pf_cost_model pf) \<le> pf_cash pf"
  shows "0 \<le> cash_left pf q p"
proof -
  have n: "trunc_div (raw q * p) SCALE = raw q * p div SCALE" "0 \<le> raw q * p div SCALE"
    using assms(1,2) by (simp_all add: trunc_div_nonneg pos_imp_zdiv_nonneg_iff)
  then have "i64_sat (raw q * p div SCALE) = notional_of q p" "clamp_int 0 i64_max (trunc_div (raw q * p) SCALE) = notional_of q p"
    using assms(1,2) by (simp_all add: notional_of_def i64_sat_def clamp_int_def i64_min_def i64_max_def)
  then have "i64_sat (i64_sat (trunc_div (raw q * p) SCALE) + compute_cost (pf_cost_model pf) (notional_of q p)) \<le> pf_cash pf"
    using assms n by (simp add: buy_cash_required_def Let_def)
  then show ?thesis by (simp add: cash_left_def i64_sat_nonneg i64_max_def)
qed

lemma trim_counters [simp]:
  "account_ok start (pf\<lparr>pf_trimmed_fill_count := n, pf_trimmed_shortfall_cents := v\<rparr>) = account_ok start pf"
  "same_frame pf (pf\<lparr>pf_trimmed_fill_count := n, pf_trimmed_shortfall_cents := v\<rparr>)"
  "cash_left (pf\<lparr>pf_trimmed_fill_count := n, pf_trimmed_shortfall_cents := v\<rparr>) q p = cash_left pf q p"
  by (simp_all add: account_ok_def same_frame_def cash_left_def cong: option.case_cong)

lemma trim_ok:
  assumes "account_ok start pf" and "0 < raw q" and "raw q \<le> i64_max" and "0 < p"
  shows "\<exists>pf' q'. trim_buy q p pf = ret (pf', q') \<and> account_ok start pf' \<and> same_frame pf pf' \<and>
           (is_zero q' \<or> 0 < raw q' \<and> raw q' \<le> raw q \<and> 0 \<le> cash_left pf' q' p)"
proof (cases "pf_cash pf < buy_cash_required (raw q) p (pf_cost_model pf)")
  case False
  then show ?thesis using assms affordable_left [of q p pf] by (auto simp: trim_buy_def account_ok_def)
next
  case True
  let ?step = "pf_quantity_step pf" and ?c = "pf_cost_model pf"
  have "\<exists>r. largest_affordable_buy_qty (raw q) (pf_cash pf) ?step p ?c = ret (Shares r) \<and>
          (r = 0 \<or> 0 < r \<and> r \<le> raw q \<and> buy_cash_required r p ?c \<le> pf_cash pf)"
  proof (cases "pf_cash pf \<le> 0 \<or> ?step \<le> 0")
    case True
    then show ?thesis by (auto simp: largest_affordable_buy_qty_def shares_ZERO_def)
  next
    case pos: False
    then obtain k where k: "largest_affordable_buy_qty (raw q) (pf_cash pf) ?step p ?c = ret (from_raw (k * ?step))"
        "0 \<le> k" "k \<le> raw q div ?step" "affordable (pf_cash pf) ?step p ?c k"
      using search_result [of "raw q" "pf_cash pf" ?step p ?c] assms True by (auto simp: account_ok_def)
    have le: "k * ?step \<le> raw q"
      using mult_right_mono [OF k(3), of ?step] div_mult_below [of ?step "raw q"] pos by linarith
    then have "k * ?step \<le> i64_max" using assms(3) by linarith
    then have "buy_cash_required (k * ?step) p ?c \<le> pf_cash pf" using k pos by (simp add: affordable_step)
    then show ?thesis using k(1,2) pos le by (auto simp: from_raw_def zero_less_mult_iff)
  qed
  then obtain r where "largest_affordable_buy_qty (raw q) (pf_cash pf) ?step p ?c = ret (Shares r)"
      "r = 0 \<or> 0 < r \<and> r \<le> raw q \<and> buy_cash_required r p ?c \<le> pf_cash pf" by blast
  then show ?thesis using True assms affordable_left [of "Shares r" p pf]
    by (auto simp: trim_buy_def is_zero_def account_ok_def [of start pf])
qed

lemma fill_ok:
  assumes "account_ok start pf" and "is_positive q \<longrightarrow> 0 < price" and "raw q \<le> i64_max"
  shows "\<exists>pf'. portfolio_execute_fill y q price pf = ret pf' \<and> account_ok start pf' \<and> same_frame pf pf'"
proof (cases "is_positive q")
  case True
  then have p: "0 < effective_price (pf_cost_model pf) True price"
    using assms by (auto simp: account_ok_def buy_price_positive)
  obtain pf' q' where t: "trim_buy q (effective_price (pf_cost_model pf) True price) pf = ret (pf', q')" "account_ok start pf'" "same_frame pf pf'"
      "is_zero q' \<or> 0 < raw q' \<and> 0 \<le> cash_left pf' q' (effective_price (pf_cost_model pf) True price)"
    using trim_ok [OF assms(1) _ assms(3) p] True by (auto simp: is_positive_def)
  show ?thesis
    using True t settle_fill_ok [OF t(2), of q' "effective_price (pf_cost_model pf) True price" y price]
    by (auto simp: portfolio_execute_fill_def Let_def is_zero_def is_positive_def intro: same_frame_trans)
next
  case False
  then show ?thesis using assms(1) settle_fill_ok [OF assms(1), of q "effective_price (pf_cost_model pf) False price" y price]
    by (auto simp: portfolio_execute_fill_def Let_def is_zero_def is_positive_def is_negative_def)
qed

section \<open>Planned orders\<close>

lemma collect_map_in: "om_get (collect_map es) y = Some v \<Longrightarrow> (y, v) \<in> set es"
  by (auto simp: collect_map_def fold_insert_get dest!: map_of_SomeD)

text \<open>An order within the limits on a single order, at a price that satisfies \<open>P\<close>.\<close>

definition plan_ok :: "portfolio \<Rightarrow> (int \<Rightarrow> bool) \<Rightarrow> planned_order \<Rightarrow> bool" where
  "plan_ok pf P x \<longleftrightarrow> raw (po_qty x) \<le> i64_max \<and> P (po_price x) \<and>
     (pf_max_order_value pf > 0 \<longrightarrow> notional_of (po_qty x) (po_price x) \<le> pf_max_order_value pf) \<and>
     (pf_min_order_value pf > 0 \<longrightarrow> pf_min_order_value pf \<le> notional_of (po_qty x) (po_price x))"

lemma clamp_below: "0 \<le> v \<Longrightarrow> x \<le> v \<Longrightarrow> clamp_int 0 i64_max x \<le> v"
  by (auto simp: clamp_int_def)

lemma truncate_notional: "0 \<le> v \<Longrightarrow> notional_of (truncate_qty_to_max_value q price step v) price \<le> v"
proof (cases "v \<le> 0 \<or> price = 0 \<or> step \<le> 0")
  case False
  let ?cap = "v * SCALE div \<bar>price\<bar>"
  let ?s = "?cap div step * step"
  have nn: "0 \<le> ?cap" using False by (simp add: pos_imp_zdiv_nonneg_iff)
  have t: "trunc_div (trunc_div (v * SCALE) \<bar>price\<bar>) step * step = ?s" using nn False by (simp add: trunc_div_nonneg)
  have "0 \<le> ?s" using nn False by (simp add: pos_imp_zdiv_nonneg_iff)
  then have "clamp_int 0 i64_max ?s \<le> ?s" "0 \<le> clamp_int 0 i64_max ?s" by (simp_all add: clamp_int_def i64_max_def)
  moreover have "?s \<le> ?cap" using False by (simp add: div_mult_below)
  ultimately have "clamp_int 0 i64_max ?s * \<bar>price\<bar> \<le> ?cap * \<bar>price\<bar>" by (intro mult_right_mono) simp_all
  also have "\<dots> \<le> v * SCALE" using False by (simp add: div_mult_below)
  finally have "clamp_int 0 i64_max ?s * \<bar>price\<bar> div SCALE \<le> v * SCALE div SCALE" by (intro zdiv_mono1) simp_all
  then have "clamp_int 0 i64_max ?s * \<bar>price\<bar> div SCALE \<le> v" by simp
  moreover have "\<bar>raw (truncate_qty_to_max_value q price step v)\<bar> = clamp_int 0 i64_max ?s"
    using False \<open>0 \<le> clamp_int 0 i64_max ?s\<close> by (simp add: truncate_qty_to_max_value_def Let_def t from_raw_def)
  ultimately show ?thesis using False unfolding notional_of_def by (intro clamp_below) (simp_all only: not_le de_Morgan_disj less_imp_le)
qed (auto simp: truncate_qty_to_max_value_def notional_of_def shares_ZERO_def clamp_int_def i64_max_def)

lemma truncate_range: "raw (truncate_qty_to_max_value q price step v) \<le> i64_max"
  by (auto simp: truncate_qty_to_max_value_def from_raw_def shares_ZERO_def Let_def clamp_int_def i64_max_def)

lemma limit_order_ok: "limit_order pf y q price d = Some x \<Longrightarrow> raw q \<le> i64_max \<Longrightarrow> P price \<Longrightarrow> plan_ok pf P x"
  using truncate_notional [of "pf_max_order_value pf" q price "pf_quantity_step pf"]
  by (auto simp: limit_order_def Let_def plan_ok_def truncate_range split: if_splits)

lemma plan_close_ok:
  assumes "plan_close pf equity prices y = Some x"
    and "\<And>y p pos. om_get prices y = Some p \<Longrightarrow> om_get (pf_positions pf) y = Some pos \<Longrightarrow> \<not> is_flat pos \<Longrightarrow> P p"
  shows "plan_ok pf P x"
  using assms by (auto simp: plan_close_def Let_def shares_neg_def i64_sat_range split: option.splits if_splits intro: limit_order_ok)

lemma plan_target_ok:
  "plan_target pf equity prices t = Some x \<Longrightarrow> (\<And>p. 0 < p \<Longrightarrow> P p) \<Longrightarrow> plan_ok pf P x"
  by (cases t) (auto simp: plan_target_def Let_def size_qty_def from_raw_def shares_ZERO_def i64_sat_range is_zero_def
      split: option.splits if_splits intro!: limit_order_ok)

lemma insert_order_set: "set (insert_order x xs) = insert x (set xs)"
  by (induction xs) auto

lemma sort_orders_set: "set (sort_orders xs) = set xs"
  by (induction xs) (auto simp: sort_orders_def insert_order_set)

lemma admit_ok: "\<forall>x \<in> set xs. plan_ok pf P x \<Longrightarrow> \<forall>x \<in> set (admit pf k n running xs). plan_ok pf P x"
proof (induction xs arbitrary: n running)
  case (Cons x xs)
  let ?rest = "i64_wrap (pf_max_rebalance_notional pf - running)"
  have "plan_ok pf P (x\<lparr>po_qty := truncate_qty_to_max_value (po_qty x) (po_price x) (pf_quantity_step pf) ?rest\<rparr>)"
    if "0 < ?rest" "?rest < notional_of (po_qty x) (po_price x)"
       "pf_min_order_value pf \<le> 0 \<or>
        pf_min_order_value pf \<le> notional_of (truncate_qty_to_max_value (po_qty x) (po_price x) (pf_quantity_step pf) ?rest) (po_price x)"
    using that Cons.prems truncate_notional [of ?rest "po_qty x" "po_price x" "pf_quantity_step pf"]
    by (auto simp: plan_ok_def truncate_range)
  then show ?case using Cons by (auto simp: Let_def not_le)
qed simp

lemma admit_length: "length (admit pf k n running xs) \<le> k - n"
proof (induction xs arbitrary: n running)
  case (Cons x xs)
  show ?case
  proof (cases "k \<le> n")
    case False
    then have "Suc (length (admit pf k (Suc n) r xs)) \<le> k - n" for r
      using Cons.IH [of "Suc n" r] by linarith
    then show ?thesis using False by (auto simp: Let_def)
  qed simp
qed simp

lemma admit_total:
  assumes "0 < pf_max_rebalance_notional pf" and "pf_max_rebalance_notional pf \<le> i64_max"
  shows "0 \<le> running \<Longrightarrow> running \<le> pf_max_rebalance_notional pf \<Longrightarrow>
    running + (\<Sum>x\<leftarrow>admit pf k n running xs. notional_of (po_qty x) (po_price x)) \<le> pf_max_rebalance_notional pf"
proof (induction xs arbitrary: n running)
  case (Cons x xs)
  let ?rest = "pf_max_rebalance_notional pf - running" and ?a = "notional_of (po_qty x) (po_price x)"
  have w: "i64_wrap ?rest = ?rest" using Cons.prems assms by (intro wrap_difference) simp_all
  have a: "0 \<le> ?a" by (simp add: notional_of_def clamp_range)
  have w': "i64_wrap (running + ?a) = running + ?a" if "?a \<le> ?rest" using that a Cons.prems assms by (intro i64_wrap_small) simp
  show ?case
    using Cons.IH [of "running + ?a" "Suc n"] Cons.prems a w' assms(1) truncate_notional [of ?rest "po_qty x" "po_price x" "pf_quantity_step pf"]
    by (auto simp: Let_def w)
qed simp

text \<open>Orders for targets are planned at positive prices only; closing orders take the price as it is.\<close>

definition holdings_priced :: "portfolio \<Rightarrow> (symbol, int) omap \<Rightarrow> (int \<Rightarrow> bool) \<Rightarrow> bool" where
  "holdings_priced pf prices P \<longleftrightarrow>
     (\<forall>y p pos. om_get prices y = Some p \<longrightarrow> om_get (pf_positions pf) y = Some pos \<longrightarrow> \<not> is_flat pos \<longrightarrow> P p)"

lemma plan_orders_ok:
  assumes "holdings_priced pf prices P" and "\<And>p. 0 < p \<Longrightarrow> P p"
  shows "\<forall>x \<in> set (plan_orders it targets prices equity pf). plan_ok pf P x"
proof -
  have all: "\<forall>x \<in> set (List.map_filter (plan_close pf equity prices) ys @ List.map_filter (plan_target pf equity prices) targets). plan_ok pf P x" for ys
  proof
    fix x assume "x \<in> set (List.map_filter (plan_close pf equity prices) ys @ List.map_filter (plan_target pf equity prices) targets)"
    then consider y where "plan_close pf equity prices y = Some x" | t where "plan_target pf equity prices t = Some x"
      unfolding List.map_filter_def by force
    then show "plan_ok pf P x"
      using plan_close_ok [of pf equity prices] plan_target_ok [of pf equity prices] assms
      by cases (auto simp: holdings_priced_def)
  qed
  from all have "\<forall>x \<in> set (admit pf k 0 0 (sort_orders (List.map_filter (plan_close pf equity prices) ys @
      List.map_filter (plan_target pf equity prices) targets))). plan_ok pf P x" for k ys
    by (intro admit_ok) (simp only: sort_orders_set)
  then show ?thesis using all by (simp only: plan_orders_def Let_def split: if_split) blast
qed

end
