(* ===== verification/Backtest.thy ===== *)
theory Backtest
  imports Portfolio_Properties
begin

text \<open>
  Whole runs of the portfolio: a rebalance returns, no run overdraws the account while prices are
  positive, the ledger accounts for every cent, and planned orders respect the configured limits.
  Two closed theorems show where the guards end: a price of zero, and a search whose bounds do
  not fit the machine integers.
\<close>

section \<open>A rebalance keeps the account in order\<close>

lemma execute_orders_ok:
  "account_ok start pf \<Longrightarrow> \<forall>x \<in> set xs. raw (po_qty x) \<le> i64_max \<and> 0 < po_price x \<Longrightarrow>
   \<exists>pf'. execute_orders xs pf = ret pf' \<and> account_ok start pf' \<and> same_frame pf pf'"
proof (induction xs arbitrary: pf)
  case (Cons x xs)
  then obtain pf1 where 1: "portfolio_execute_fill (po_symbol x) (po_qty x) (po_price x) pf = ret pf1" "account_ok start pf1" "same_frame pf pf1"
    using fill_ok [of start pf "po_qty x" "po_price x" "po_symbol x"] by auto
  with Cons obtain pf2 where "execute_orders xs pf1 = ret pf2" "account_ok start pf2" "same_frame pf1 pf2" by auto
  with 1 show ?case by (auto intro: same_frame_trans)
qed simp

text \<open>What the whole rebalance leaves alone.\<close>

definition same_history :: "portfolio \<Rightarrow> portfolio \<Rightarrow> bool" where
  "same_history pf pf' \<longleftrightarrow> pf_equity_curve pf' = pf_equity_curve pf \<and> pf_returns pf' = pf_returns pf \<and>
     pf_prev_equity pf' = pf_prev_equity pf \<and> (pf_executions pf' = None \<longleftrightarrow> pf_executions pf = None)"

lemma account_ok_counters [simp]:
  "account_ok start (pf\<lparr>pf_last_rebalance_order_count := n, pf_last_rebalance_notional := v\<rparr>) = account_ok start pf"
  "same_history pf (pf\<lparr>pf_last_rebalance_order_count := n, pf_last_rebalance_notional := v\<rparr>)"
  by (simp_all add: account_ok_def same_history_def cong: option.case_cong)

lemma rebalance_ok:
  assumes "account_ok start pf" and "holdings_priced pf prices (\<lambda>p. 0 < p)"
  shows "\<exists>pf'. rebalance_simple_from_price_map it targets prices pf = ret pf' \<and> account_ok start pf' \<and> same_history pf pf'"
proof -
  let ?pf = "pf\<lparr>pf_last_rebalance_order_count := 0, pf_last_rebalance_notional := 0\<rparr>"
  let ?planned = "plan_orders it targets prices (total_equity_from_price_map it prices ?pf) ?pf"
  have "\<forall>x \<in> set ?planned. raw (po_qty x) \<le> i64_max \<and> 0 < po_price x"
    using plan_orders_ok [of ?pf prices "\<lambda>p. 0 < p"] assms(2) by (auto simp: plan_ok_def holdings_priced_def)
  then have "\<exists>pf'. execute_orders ?planned (?pf\<lparr>pf_last_rebalance_order_count := n, pf_last_rebalance_notional := v\<rparr>) = ret pf' \<and>
      account_ok start pf' \<and> same_frame (?pf\<lparr>pf_last_rebalance_order_count := n, pf_last_rebalance_notional := v\<rparr>) pf'" for n v
    using assms(1) by (intro execute_orders_ok) simp_all
  then show ?thesis using assms(1)
    by (fastforce simp: rebalance_simple_from_price_map_def Let_def same_frame_def same_history_def)
qed

lemma all_priced: "\<forall>(y, p) \<in> set prices. P p \<Longrightarrow> holdings_priced pf (collect_map prices) P"
  by (auto simp: holdings_priced_def dest!: collect_map_in)

lemma record_return_ok: "account_ok start pf \<Longrightarrow> account_ok start (record_return_from_price_map it prices pf)"
  by (auto simp: record_return_from_price_map_def Let_def account_ok_def split: option.splits)

text \<open>One return for every point of the equity curve after the first.\<close>

definition history_ok :: "portfolio \<Rightarrow> bool" where
  "history_ok pf \<longleftrightarrow> (0 < pf_prev_equity pf \<or> pf_returns pf \<noteq> []) \<and> length (pf_equity_curve pf) = Suc (length (pf_returns pf))"

lemma record_return_history:
  "history_ok pf \<Longrightarrow> history_ok (record_return_from_price_map it prices pf) \<and>
     length (pf_returns (record_return_from_price_map it prices pf)) = Suc (length (pf_returns pf))"
  by (auto simp: record_return_from_price_map_def Let_def history_ok_def)

lemma run_bars_ok:
  assumes "account_ok start pf" and "history_ok pf" and "\<forall>prices \<in> set bars. \<forall>(y, p) \<in> set prices. 0 < p"
  shows "\<exists>pf'. run_bars it strat i bars pf = ret pf' \<and> account_ok start pf' \<and> history_ok pf' \<and>
           length (pf_returns pf') = length (pf_returns pf) + length bars"
  using assms
proof (induction bars arbitrary: i pf)
  case (Cons prices bars)
  have "holdings_priced pf (collect_map prices) (\<lambda>p. 0 < p)" using all_priced Cons.prems(3) by fastforce
  then obtain pf1 where
    1: "rebalance_simple_from_price_map it (strat i prices pf) (collect_map prices) pf = ret pf1" "account_ok start pf1" "same_history pf pf1"
    using rebalance_ok [OF Cons.prems(1), of "collect_map prices" it "strat i prices pf"] by blast
  then have "history_ok pf1" "pf_returns pf1 = pf_returns pf" using Cons.prems(2) by (auto simp: same_history_def history_ok_def)
  with Cons.IH [of "record_return_from_price_map it (collect_map prices) pf1" "i + 1"] Cons.prems(3) 1
    record_return_ok record_return_history
  show ?case by fastforce
qed simp

text \<open>C18. A back-test always ends and never spends money it does not have. For every strategy, whatever
  weights it asks for (leverage and short positions included), and whatever the order in which the hash
  map of positions is walked, a run over positive prices with a non-negative slippage returns; the cash
  is never negative at the end of it, and the run has one return and one equity point for every bar.\<close>

theorem backtest_never_overdraws:
  assumes "0 < initial_cash" and "initial_cash \<le> i64_max" and "sane_slippage c"
    and "\<forall>prices \<in> set price_series. \<forall>(y, p) \<in> set prices. 0 < p"
  shows "\<exists>pf. run_backtest it strat price_series initial_cash c = ret pf \<and> 0 \<le> pf_cash pf \<and>
           length (pf_returns pf) = length price_series \<and> length (pf_equity_curve pf) = Suc (length price_series)"
proof -
  have "account_ok 0 (portfolio_new initial_cash c)" "history_ok (portfolio_new initial_cash c)"
    using assms by (simp_all add: account_ok_def history_ok_def portfolio_new_def SCALE_def)
  from run_bars_ok [OF this assms(4)] obtain pf where
    "run_bars it strat 0 price_series (portfolio_new initial_cash c) = ret pf" "account_ok 0 pf" "history_ok pf"
    "length (pf_returns pf) = length (pf_returns (portfolio_new initial_cash c)) + length price_series"
    by blast
  then show ?thesis by (auto simp: run_backtest_def account_ok_def history_ok_def portfolio_new_def)
qed

theorem backtest_never_overdraws_witness:
  "sane_slippage cost_model_zero \<and>
   (\<exists>pf. run_backtest id equal_weight [[(demo_symbol, 10)], [(demo_symbol, 20)]] 1000 cost_model_zero = ret pf \<and> 0 \<le> pf_cash pf \<and>
      length (pf_returns pf) = 2 \<and> length (pf_equity_curve pf) = 3)"
proof -
  have c: "sane_slippage cost_model_zero" by (simp add: sane_slippage_def cost_model_zero_def)
  then show ?thesis
    using backtest_never_overdraws [of 1000 cost_model_zero "[[(demo_symbol, 10)], [(demo_symbol, 20)]]" id equal_weight]
    by (simp add: i64_max_def numeral_2_eq_2 numeral_3_eq_3)
qed

section \<open>The ledger\<close>

text \<open>The calls a driver makes on a portfolio between two reads of the ledger.\<close>

datatype account_call =
    CallRebalance "(symbol \<times> f64) list" "(symbol \<times> int) list"
  | CallClose symbol int
  | CallReturn "(symbol \<times> int) list"
  | CallContext nat execution_kind

fun account_do :: "hash_order \<Rightarrow> account_call \<Rightarrow> portfolio \<Rightarrow> portfolio run" where
  "account_do it (CallRebalance targets prices) pf = rebalance_simple it targets prices pf"
| "account_do it (CallClose y price) pf = rbind (close_position_at y price pf) (\<lambda>(pf', closed). ret pf')"
| "account_do it (CallReturn prices) pf = ret (record_return it prices pf)"
| "account_do it (CallContext i k) pf = ret (set_execution_context i k pf)"

fun call_priced :: "account_call \<Rightarrow> bool" where
  "call_priced (CallRebalance targets prices) \<longleftrightarrow> (\<forall>(y, p) \<in> set prices. 0 < p)"
| "call_priced _ \<longleftrightarrow> True"

lemma close_ok:
  "account_ok start pf \<Longrightarrow> \<exists>pf' b. close_position_at y price pf = ret (pf', b) \<and> account_ok start pf' \<and> same_frame pf pf'"
proof (cases "0 < price")
  case True
  assume "account_ok start pf"
  then have "\<exists>pf'. portfolio_execute_fill y (shares_neg q) price pf = ret pf' \<and> account_ok start pf' \<and> same_frame pf pf'" for q
    using True by (intro fill_ok) (simp_all add: shares_neg_def i64_sat_range)
  then show ?thesis using \<open>account_ok start pf\<close> unfolding close_position_at_def
    by (cases "om_get (pf_positions pf) y") (auto, metis rbind_simps(3))
qed (auto simp: close_position_at_def)

lemma account_do_ok:
  "account_ok start pf \<Longrightarrow> call_priced a \<Longrightarrow>
   \<exists>pf'. account_do it a pf = ret pf' \<and> account_ok start pf' \<and> (pf_executions pf' = None \<longleftrightarrow> pf_executions pf = None)"
proof (cases a)
  case (CallRebalance targets prices)
  assume "account_ok start pf" "call_priced a"
  then show ?thesis using rebalance_ok [of start pf "collect_map prices" it targets] all_priced [of prices]
    by (fastforce simp: CallRebalance rebalance_simple_def same_history_def)
next
  case (CallClose y price)
  assume "account_ok start pf"
  then show ?thesis using close_ok [of start pf y price] by (fastforce simp: CallClose same_frame_def)
next
  case (CallReturn prices)
  assume "account_ok start pf"
  then show ?thesis using record_return_ok [of start pf it "collect_map prices"]
    by (simp add: CallReturn record_return_def) (simp add: record_return_from_price_map_def Let_def)
qed (simp add: set_execution_context_def account_ok_def cong: option.case_cong)

lemma account_run_ok:
  "account_ok start pf \<Longrightarrow> \<forall>a \<in> set calls. call_priced a \<Longrightarrow>
   \<exists>pf'. run_each (account_do it) calls pf = ret pf' \<and> account_ok start pf' \<and> (pf_executions pf' = None \<longleftrightarrow> pf_executions pf = None)"
proof (induction calls arbitrary: pf)
  case (Cons a calls)
  then show ?case using account_do_ok [of start pf a it] by fastforce
qed simp

text \<open>The ledger of executions accounts for every cent. After recording is switched on, any sequence of
  rebalances at positive prices, closing fills and recorded returns goes through; the recorded fills are
  numbered from zero without gaps, the balance after each is the balance before it plus its recorded change
  and is never negative, and the changes add up to the change of the cash of the account.\<close>

lemma ledger_accounts_for_cash:
  assumes "0 \<le> pf_cash pf" and "pf_cash pf \<le> i64_max" and "pf_quantity_step pf \<noteq> 1" and "sane_slippage (pf_cost_model pf)"
    and "\<forall>a \<in> set calls. call_priced a"
  shows "\<exists>pf' xs. run_each (account_do it) calls (enable_execution_recording pf) = ret pf' \<and> pf_executions pf' = Some xs \<and>
           ledger_from (pf_cash pf) 0 xs (pf_cash pf') \<and> pf_cash pf' = pf_cash pf + (\<Sum>x\<leftarrow>xs. xr_cash_delta x)"
proof -
  have "account_ok (pf_cash pf) (enable_execution_recording pf)"
    using assms by (simp add: account_ok_def enable_execution_recording_def)
  from account_run_ok [OF this assms(5), of it] obtain pf' where
    "run_each (account_do it) calls (enable_execution_recording pf) = ret pf'" "account_ok (pf_cash pf) pf'" "pf_executions pf' \<noteq> None"
    by (auto simp: enable_execution_recording_def)
  then show ?thesis using ledger_from_sum by (fastforce simp: account_ok_def)
qed

section \<open>Limits\<close>

text \<open>C19. The orders a rebalance plans respect the configured limits: every single order is worth at least
  the minimum and at most the maximum order value, there are no more orders than the cap on trades
  allows, and together they are worth no more than the cap on the rebalance. A limit of zero is off. This
  covers the orders cut by the maximum order value and the last order, which is cut to what the cap leaves.\<close>

theorem rebalance_respects_limits:
  assumes "pf_max_rebalance_notional pf \<le> i64_max"
    and orders: "orders = plan_orders it targets prices equity pf"
  shows "(\<forall>x \<in> set orders.
            (0 < pf_max_order_value pf \<longrightarrow> notional_of (po_qty x) (po_price x) \<le> pf_max_order_value pf) \<and>
            (0 < pf_min_order_value pf \<longrightarrow> pf_min_order_value pf \<le> notional_of (po_qty x) (po_price x))) \<and>
         (\<forall>k. pf_max_trades_per_rebalance pf = Some k \<longrightarrow> length orders \<le> k) \<and>
         (0 < pf_max_rebalance_notional pf \<longrightarrow>
            (\<Sum>x\<leftarrow>orders. notional_of (po_qty x) (po_price x)) \<le> pf_max_rebalance_notional pf)"
proof (intro conjI allI impI)
  show "\<forall>x \<in> set orders.
      (0 < pf_max_order_value pf \<longrightarrow> notional_of (po_qty x) (po_price x) \<le> pf_max_order_value pf) \<and>
      (0 < pf_min_order_value pf \<longrightarrow> pf_min_order_value pf \<le> notional_of (po_qty x) (po_price x))"
    using plan_orders_ok [of pf prices "\<lambda>_. True"] by (auto simp: plan_ok_def holdings_priced_def orders)
  show "length orders \<le> k" if "pf_max_trades_per_rebalance pf = Some k" for k
    using that admit_length [of pf k 0 0] by (simp add: orders plan_orders_def Let_def)
  show "(\<Sum>x\<leftarrow>orders. notional_of (po_qty x) (po_price x)) \<le> pf_max_rebalance_notional pf" if "0 < pf_max_rebalance_notional pf"
    using that admit_total [OF that assms(1), of 0] by (simp add: orders plan_orders_def Let_def)
qed

theorem rebalance_respects_limits_witness:
  "length (plan_orders id [(demo_symbol, f64_one)] (collect_map [(demo_symbol, 16)]) 1024
       (set_max_trades_per_rebalance (Some 1) (portfolio_new 1024 cost_model_zero))) \<le> 1"
  using rebalance_respects_limits [OF _ refl, of "set_max_trades_per_rebalance (Some 1) (portfolio_new 1024 cost_model_zero)"
      id "[(demo_symbol, f64_one)]" "collect_map [(demo_symbol, 16)]" 1024]
  by (simp add: set_max_trades_per_rebalance_def portfolio_new_def i64_max_def)

section \<open>Where the guards end\<close>

definition flat_fee :: cost_model where
  "flat_fee = \<lparr>cm_commission_bps = f64_zero, cm_slippage_bps = f64_zero, cm_min_commission = 900\<rparr>"

definition planned_at :: "portfolio \<Rightarrow> nat \<Rightarrow> int \<Rightarrow> portfolio" where
  "planned_at pf n v = pf\<lparr>pf_last_rebalance_order_count := n, pf_last_rebalance_notional := v\<rparr>"

definition shorted :: portfolio where
  "shorted = settle_fill demo_symbol (Shares (- 1000000)) 16 16 (planned_at (portfolio_new 1024 flat_fee) 1 16)"

lemma rebalance_one:
  assumes "total_equity_from_price_map it (collect_map prices) (planned_at pf 0 0) = equity" and "0 < equity"
    and "map (\<lambda>x. (po_symbol x, po_qty x, po_price x)) (plan_orders it targets (collect_map prices) equity (planned_at pf 0 0)) = [(y, q, p)]"
  shows "rebalance_simple it targets prices pf = portfolio_execute_fill y q p (planned_at pf 1 (i64_sat (notional_of q p)))"
proof -
  obtain x where "plan_orders it targets (collect_map prices) equity (planned_at pf 0 0) = [x]" "y = po_symbol x" "q = po_qty x" "p = po_price x"
    using assms(3) by auto
  moreover
  have "rbind m (execute_orders []) = m" for m by (auto simp: rbind_def split: option.splits sum.splits)
  ultimately show ?thesis using assms(1,2) by (simp add: rebalance_simple_def rebalance_simple_from_price_map_def Let_def planned_at_def)
qed

lemma short_first: "rebalance_simple id [(demo_symbol, FFin True (1 / 64))] [(demo_symbol, 16)] (portfolio_new 1024 flat_fee) = ret shorted"
proof -
  have "map (\<lambda>x. (po_symbol x, po_qty x, po_price x))
      (plan_orders id [(demo_symbol, FFin True (1 / 64))] (collect_map [(demo_symbol, 16)]) 1024 (planned_at (portfolio_new 1024 flat_fee) 0 0)) =
    [(demo_symbol, Shares (- 1000000), 16)]"
  proof -
    have "f64_to_i64 (f64_mul (f64_of_int 1024) (FFin True (1 / 64))) = - 16" by code_simp
    moreover have "size_qty (- 16) 16 SCALE = Shares (- 1000000)" by code_simp
    moreover have "i64_sat (- 16) = - 16" by (simp add: i64_sat_id i64_max_def)
    ultimately show ?thesis
      by (simp add: plan_orders_def plan_target_def limit_order_def in_band_def value_of_def planned_at_def portfolio_new_def collect_map_def List.map_filter_def Let_def is_zero_def f64_lt.simps)
  qed
  moreover have "total_equity_from_price_map id (collect_map [(demo_symbol, 16)]) (planned_at (portfolio_new 1024 flat_fee) 0 0) = 1024"
    by (simp add: total_equity_from_price_map_def planned_at_def portfolio_new_def i64_sat_id i64_max_def)
  moreover have "i64_sat (notional_of (Shares (- 1000000)) 16) = 16" by code_simp
  moreover have "effective_price flat_fee False 16 = 16" by code_simp
  ultimately show ?thesis
    by (simp add: rebalance_one portfolio_execute_fill_def shorted_def is_zero_def is_positive_def Let_def)
      (simp add: planned_at_def portfolio_new_def)
qed
lemma flat_fee_cost: "compute_cost flat_fee 16 = 900" "compute_cost flat_fee 0 = 900"
  by code_simp+

lemma shorted_fields:
  "pf_cash shorted = 140" "pf_cost_model shorted = flat_fee" "pf_no_trade_band_bps shorted = f64_zero"
  "pf_max_order_value shorted = 0" "pf_min_order_value shorted = 0" "pf_max_trades_per_rebalance shorted = None"
  "pf_max_rebalance_notional shorted = 0"
  "pf_positions shorted = [(demo_symbol, \<lparr>pos_symbol = demo_symbol, pos_quantity = Shares (- 1000000), pos_avg_entry_price = 16,
     pos_realized_pnl = 0, pos_total_cost = - 16\<rparr>)]"
proof -
  have "notional_of (Shares (- 1000000)) 16 = 16" "trunc_div (- 16000000) SCALE = - 16" "i64_sat (- 16) = - 16"
      "i64_sat (- 16 + 900) = 884" "i64_sat 140 = 140" by code_simp+
  then show "pf_cash shorted = 140" "pf_cost_model shorted = flat_fee" "pf_no_trade_band_bps shorted = f64_zero"
    "pf_max_order_value shorted = 0" "pf_min_order_value shorted = 0" "pf_max_trades_per_rebalance shorted = None"
    "pf_max_rebalance_notional shorted = 0"
    "pf_positions shorted = [(demo_symbol, \<lparr>pos_symbol = demo_symbol, pos_quantity = Shares (- 1000000), pos_avg_entry_price = 16,
       pos_realized_pnl = 0, pos_total_cost = - 16\<rparr>)]"
    by (simp_all add: shorted_def settle_fill_def planned_at_def portfolio_new_def flat_fee_cost position_or_new_def
        position_new_def apply_fill_def shares_defs notional_cents_def is_negative_def Let_def)
qed

lemma cover_plan:
  "map (\<lambda>x. (po_symbol x, po_qty x, po_price x)) (plan_orders id [] (collect_map [(demo_symbol, 0)]) 140 (planned_at shorted 0 0)) =
   [(demo_symbol, Shares 1000000, 0)]"
  by (simp add: plan_orders_def plan_close_def limit_order_def in_band_def shorted_fields value_of_def planned_at_def
      collect_map_def List.map_filter_def Let_def is_zero_def is_flat_def shares_neg_def i64_sat_id i64_max_def)

lemma cover_equity: "total_equity_from_price_map id (collect_map [(demo_symbol, 0)]) (planned_at shorted 0 0) = 140"
  by (simp add: total_equity_from_price_map_def planned_at_def shorted_fields market_value_def notional_cents_def i64_sat_id
      i64_max_def collect_map_def price_or_zero_def)

lemma free_buy:
  "rebalance_simple id [] [(demo_symbol, 0)] shorted =
   ret (settle_fill demo_symbol (Shares 1000000) 0 0 (planned_at shorted 1 (i64_sat (notional_of (Shares 1000000) 0))))"
proof -
  have "effective_price flat_fee True 0 = 0" by code_simp
  then show ?thesis
    by (simp add: rebalance_one [OF cover_equity _ cover_plan] portfolio_execute_fill_def trim_buy_def buy_cash_required_def
        shares_defs Let_def planned_at_def shorted_fields)
qed

text \<open>At a price of zero the guard against overdrawing is not applied: the required cash of a buy at a
  price that is not positive is taken as zero, and the minimum commission is charged all the same. A
  portfolio that shorts a share and buys it back when its price has fallen to zero is left with negative
  cash, against the documentation of the fill.\<close>

lemma free_buy_overdraws:
  "map_option (map_sum id pf_cash)
     (rbind (rebalance_simple id [(demo_symbol, FFin True (1 / 64))] [(demo_symbol, 16)] (portfolio_new 1024 flat_fee))
        (rebalance_simple id [] [(demo_symbol, 0)]))
   = ret (- 760)"
proof -
  have "notional_of (Shares 1000000) 0 = 0" "i64_sat 0 = 0" "i64_sat 900 = 900" "i64_sat (- 760) = - 760" by code_simp+
  then show ?thesis
    by (simp add: short_first free_buy settle_fill_def planned_at_def shorted_fields flat_fee_cost is_negative_def Let_def)
qed

lemma wrap_beyond: "- i64_max \<le> lo \<Longrightarrow> lo \<le> 0 \<Longrightarrow> i64_wrap (i64_wrap (i64_max - lo) + 1) = - (2 ^ 63 + lo)"
proof -
  assume lo: "- i64_max \<le> lo" "lo \<le> 0"
  have "i64_wrap (i64_wrap (i64_max - lo) + 1) = i64_wrap (- (2 ^ 63 + lo) + 2 ^ 64)"
    by (simp add: i64_wrap_def i64_max_def mod_simps)
  also have "\<dots> = i64_wrap (- (2 ^ 63 + lo))" unfolding i64_wrap_def by (simp add: mod_simps)
  also have "\<dots> = - (2 ^ 63 + lo)" using lo by (intro i64_wrap_id) (simp_all add: i64_min_def i64_max_def)
  finally show ?thesis .
qed

text \<open>With a quantity step of a single micro-share the search for an affordable quantity never ends when the
  order is as large as the machine integers allow and exceeds the cash: the width of the first interval does not
  fit, the midpoint becomes negative, nothing is cheaper than a negative quantity, and the search settles
  on the same negative midpoint for ever. (A build with overflow checks panics instead.)\<close>

lemma saturated_search_never_ends:
  assumes "0 < cash" and "0 < p" and "cash < buy_cash_required i64_max p c"
  shows "largest_affordable_buy_qty i64_max cash 1 p c = None"
proof -
  let ?D = "\<lambda>(lo, hi). hi = i64_max \<and> - i64_max \<le> lo \<and> lo \<le> 0"
  have "loop (afford_body cash 1 p c) (0, i64_max) = None"
  proof (rule loop_diverges [of ?D])
    fix s assume "?D s"
    then obtain lo where s: "s = (lo, i64_max)" "- i64_max \<le> lo" "lo \<le> 0" by auto
    let ?mid = "lo - (2 ^ 63 + lo) div 2"
    have "i64_wrap (i64_wrap (i64_max - lo) + 1) = - (2 ^ 63 + lo)"
      using s wrap_beyond [of lo] by simp
    moreover have "trunc_div (- (2 ^ 63 + lo)) 2 = - ((2 ^ 63 + lo) div 2)" using s by (simp add: trunc_div_def i64_max_def)
    moreover have range: "- i64_max \<le> ?mid" "?mid \<le> 0" using s by (simp_all add: i64_max_def)
    then have "i64_wrap ?mid = ?mid" "i64_sat ?mid = ?mid" by (intro i64_wrap_small i64_sat_id; linarith)+
    moreover have "buy_cash_required ?mid p c = 0" using range(2) by (simp add: buy_cash_required_def)
    moreover have "lo < i64_max" using s(3) by (simp add: i64_max_def)
    ultimately have "afford_body cash 1 p c s = Some (Next (?mid, i64_max))"
      using assms(1) unfolding s(1) afford_body_def prod.case Let_def by simp
    then show "\<exists>s'. afford_body cash 1 p c s = Some (Next s') \<and> ?D s'" using range by simp
  qed (simp add: i64_max_def)
  then show ?thesis using assms by (simp add: largest_affordable_buy_qty_def trunc_div_def i64_max_def)
qed

end
