(* ===== verification/Bridge_Properties.thy ===== *)
theory Bridge_Properties
  imports Bridge Backtest
begin

text \<open>
  What the back-test bridge guarantees: a run returns for every input, never overdraws the account,
  keeps its result tables aligned and its ledger complete, and stays within the day and month
  budgets; and a stop that is reported as executed although nothing was traded.
\<close>

section \<open>The account of a run\<close>

text \<open>The iteration order of the hash map visits every entry.\<close>

definition visits_all :: "hash_order \<Rightarrow> bool" where
  "visits_all it \<longleftrightarrow> (\<forall>xs. set (it xs) = set xs)"

lemma unpriced_none:
  assumes "unpriced_holding it prices pf = None" and "visits_all it"
  shows "holdings_priced pf (collect_map prices) (\<lambda>p. 0 < p)"
  unfolding holdings_priced_def
proof (intro allI impI)
  fix y p pos
  assume a: "om_get (collect_map prices) y = Some p" "om_get (pf_positions pf) y = Some pos" "\<not> is_flat pos"
  have "(y, pos) \<in> set (it (pf_positions pf))" using a(2) assms(2) by (auto simp: visits_all_def dest: map_of_SomeD)
  then show "0 < p" using assms(1) a by (fastforce simp: unpriced_holding_def unpriced_in_map_def find_None_iff)
qed

lemma account_ok_settings [simp]:
  "account_ok start (set_execution_context i k pf) = account_ok start pf"
  "account_ok start (set_max_rebalance_notional v pf) = account_ok start pf"
  "account_ok start (set_max_trades_per_rebalance n pf) = account_ok start pf"
  by (simp_all add: account_ok_def set_execution_context_def set_max_rebalance_notional_def
      set_max_trades_per_rebalance_def cong: option.case_cong)

lemma history_settings [simp]:
  "same_history (set_execution_context i k pf) pf' = same_history pf pf'"
  "history_ok (set_max_rebalance_notional v pf) = history_ok pf"
  "history_ok (set_max_trades_per_rebalance n pf) = history_ok pf"
  "pf_returns (set_max_rebalance_notional v pf) = pf_returns pf"
  "pf_returns (set_max_trades_per_rebalance n pf) = pf_returns pf"
  "pf_executions (set_max_rebalance_notional v pf) = pf_executions pf"
  "pf_executions (set_max_trades_per_rebalance n pf) = pf_executions pf"
  by (simp_all add: same_history_def history_ok_def set_execution_context_def set_max_rebalance_notional_def
      set_max_trades_per_rebalance_def)

lemma same_frame_history: "same_frame pf pf' \<Longrightarrow> same_history pf pf'"
  by (simp add: same_frame_def same_history_def)

lemma same_history_refl [simp]: "same_history pf pf"
  by (simp add: same_history_def)

lemma same_history_trans: "same_history a b \<Longrightarrow> same_history b c \<Longrightarrow> same_history a c"
  by (simp add: same_history_def)

lemma stop_one_ok:
  assumes "account_ok start pf"
  shows "\<exists>pf' tr' ev'. stop_one i cfg entry (pf, tr, ev) = ret (pf', tr', ev') \<and> account_ok start pf' \<and> same_history pf pf'"
proof -
  obtain y q p where e: "entry = (y, q, p)" by (cases entry) auto
  obtain pf' b where "close_position_at y p (set_execution_context i StopExit pf) = ret (pf', b)" "account_ok start pf'"
      "same_frame (set_execution_context i StopExit pf) pf'"
    using close_ok [of start "set_execution_context i StopExit pf" y p] assms by auto
  then show ?thesis using assms same_frame_history [of "set_execution_context i StopExit pf" pf']
    by (auto simp: stop_one_def e Let_def split: option.splits)
qed

lemma stops_ok:
  "account_ok start pf \<Longrightarrow>
   \<exists>pf' tr' ev'. run_each (stop_one i cfg) lots (pf, tr, ev) = ret (pf', tr', ev') \<and> account_ok start pf' \<and> same_history pf pf'"
proof (induction lots arbitrary: pf tr ev)
  case (Cons x lots)
  obtain pf1 tr1 ev1 where 1: "stop_one i cfg x (pf, tr, ev) = ret (pf1, tr1, ev1)" "account_ok start pf1" "same_history pf pf1"
    using stop_one_ok [OF Cons.prems] by blast
  from Cons.IH [OF 1(2), of tr1 ev1] 1 show ?case by (auto intro: same_history_trans)
qed auto

section \<open>Aligned tables\<close>

definition bridge_ok :: "int \<Rightarrow> bridge_options \<Rightarrow> nat \<Rightarrow> nat \<Rightarrow> bridge_state \<Rightarrow> bool" where
  "bridge_ok start opts n k st \<longleftrightarrow> account_ok start (bx_portfolio st) \<and> history_ok (bx_portfolio st) \<and>
     length (pf_returns (bx_portfolio st)) = n \<and> length (bx_equity_curve st) = Suc n \<and> length (bx_holdings st) = n \<and>
     length (bx_symbol_returns st) = k \<and> (pf_executions (bx_portfolio st) \<noteq> None \<longleftrightarrow> bo_record_executions opts) \<and>
     (case bx_cash_snapshots st of None \<Rightarrow> \<not> bo_record_executions opts
      | Some xs \<Rightarrow> bo_record_executions opts \<and> length xs = n \<and> (\<forall>x \<in> set xs. 0 \<le> x))"

lemma bridge_ok_portfolio:
  "bridge_ok start opts n k st \<Longrightarrow> account_ok start pf \<Longrightarrow> same_history (bx_portfolio st) pf \<Longrightarrow> bridge_ok start opts n k (st\<lparr>bx_portfolio := pf\<rparr>)"
  by (auto simp: bridge_ok_def same_history_def history_ok_def split: option.splits)

lemma bridge_ok_counters [simp]:
  "bridge_ok start opts n k (count_rebalance opts st) = bridge_ok start opts n k st"
  "bridge_ok start opts n k (st\<lparr>bx_skipped_rebalances := xs\<rparr>) = bridge_ok start opts n k st"
  "bridge_ok start opts n k (roll_windows opts i st) = bridge_ok start opts n k st"
  by (simp_all add: bridge_ok_def count_rebalance_def roll_windows_def Let_def cong: option.case_cong split: option.split)

lemma bridge_ok_budgets [simp]: "bridge_ok start opts n k (set_budgets opts i st) = bridge_ok start opts n k st"
proof -
  have "bridge_ok start opts n k (st\<lparr>bx_portfolio := set_max_rebalance_notional v (set_max_trades_per_rebalance c (bx_portfolio st))\<rparr>)
      = bridge_ok start opts n k st" for v c st
    by (simp add: bridge_ok_def cong: option.case_cong)
  then show ?thesis by (simp add: set_budgets_def Let_def)
qed

lemma period_rebalance_ok:
  assumes "bridge_ok start opts n k st" and "visits_all it"
  shows "\<exists>r. period_rebalance it opts fills i weights st = ret r \<and> (\<forall>st'. r = Inr st' \<longrightarrow> bridge_ok start opts n k st')"
proof (cases fills)
  case None
  then show ?thesis using assms by (simp add: period_rebalance_def)
next
  case (Some prices)
  let ?pf = "if bo_record_executions opts then set_execution_context i ForRebalance (bx_portfolio st) else bx_portfolio st"
  show ?thesis
  proof (cases "unpriced_holding it prices (bx_portfolio st)")
    case None
    have "account_ok start ?pf" using assms(1) by (simp add: bridge_ok_def)
    moreover have "holdings_priced ?pf (collect_map prices) (\<lambda>p. 0 < p)"
      using unpriced_none [OF None assms(2)] by (simp add: holdings_priced_def set_execution_context_def)
    ultimately obtain pf where pf: "rebalance_simple it weights prices ?pf = ret pf" "account_ok start pf" "same_history ?pf pf"
      using rebalance_ok [of start ?pf "collect_map prices" it weights] by (auto simp: rebalance_simple_def)
    then have "bridge_ok start opts n k (st\<lparr>bx_portfolio := pf\<rparr>)"
      using assms(1) by (intro bridge_ok_portfolio) (simp_all split: if_splits)
    then show ?thesis using None Some pf(1) by (simp add: period_rebalance_def)
  qed (simp add: period_rebalance_def Some)
qed

lemma period_close_ok:
  assumes "bridge_ok start opts n (Suc n) st"
  shows "\<exists>r. period_close it opts bars i st = ret r \<and> (\<forall>st'. r = Inr st' \<longrightarrow> bridge_ok start opts (Suc n) (Suc n) st')"
proof -
  let ?cp = "map (\<lambda>(y, b). (y, bp_close b)) bars"
  have a: "account_ok start (bx_portfolio st)" using assms by (simp add: bridge_ok_def)
  obtain pf tr ev where s: "(case Option.bind (bo_stop_cfg opts) sanitized of
      None \<Rightarrow> ret (bx_portfolio st, bx_stop_trackers st, bx_stop_events st)
    | Some cfg \<Rightarrow> apply_stop_cfg it (collect_map ?cp) i cfg (bx_portfolio st, bx_stop_trackers st, bx_stop_events st)) = ret (pf, tr, ev)"
      "account_ok start pf" "same_history (bx_portfolio st) pf"
  proof (cases "Option.bind (bo_stop_cfg opts) sanitized")
    case None
    then show thesis using that a by simp
  next
    case (Some cfg)
    then show thesis using that stops_ok [OF a] by (fastforce simp: apply_stop_cfg_def Let_def)
  qed
  let ?pf = "record_return it ?cp pf"
  have "history_ok pf" "length (pf_returns pf) = n" using assms s(3) by (simp_all add: bridge_ok_def same_history_def history_ok_def)
  then have h: "history_ok ?pf" "length (pf_returns ?pf) = Suc n" using record_return_history by (simp_all add: record_return_def)
  have k: "account_ok start ?pf" "0 \<le> pf_cash ?pf" "pf_executions ?pf = pf_executions pf"
    using record_return_ok [OF s(2), of it "collect_map ?cp"]
    by (simp_all add: record_return_def account_ok_def record_return_from_price_map_def Let_def)
  show ?thesis
  proof (cases "unpriced_holding it ?cp pf")
    case None
    then show ?thesis using s(1,3) h k assms
      by (auto simp: period_close_def Let_def bridge_ok_def same_history_def split: option.splits)
  next
    case (Some y)
    then show ?thesis using s(1) by (simp add: period_close_def Let_def)
  qed
qed

lemma run_period_ok:
  assumes "bridge_ok start opts n n st" and "visits_all it"
  shows "\<exists>r. run_period it opts policy sched i weights bars st = ret r \<and> (\<forall>st'. r = Inr st' \<longrightarrow> bridge_ok start opts (Suc n) (Suc n) st')"
proof -
  let ?st = "set_budgets opts i (st\<lparr>bx_symbol_returns := bx_symbol_returns st @ [period_symbol_returns (bx_prev_prices st) bars]\<rparr>)"
  have "bridge_ok start opts n (Suc n) ?st" using assms(1) by (simp) (simp add: bridge_ok_def)
  from period_rebalance_ok [OF this assms(2)] obtain r where
    r: "period_rebalance it opts (fill_prices_for_period sched i policy (bo_fill_schedule opts)) i weights ?st = ret r"
       "\<And>st'. r = Inr st' \<Longrightarrow> bridge_ok start opts n (Suc n) st'" by blast
  show ?thesis
  proof (cases r)
    case (Inr st')
    with r show ?thesis using period_close_ok [of start opts n st' it bars i] by (simp add: run_period_def Let_def)
  qed (use r in \<open>simp add: run_period_def Let_def\<close>)
qed

lemma run_periods_ok:
  "bridge_ok start opts n n st \<Longrightarrow> visits_all it \<Longrightarrow>
   \<exists>r. run_periods it opts policy sched i rows st = ret r \<and> (\<forall>st'. r = Inr st' \<longrightarrow> bridge_ok start opts (n + length rows) (n + length rows) st')"
proof (induction rows arbitrary: n i st)
  case (Cons row rows)
  obtain weights bars where row: "row = (weights, bars)" by (cases row)
  from run_period_ok [OF Cons.prems, of policy sched i weights bars] obtain r where
    r: "run_period it opts policy sched i weights bars st = ret r" "\<And>st'. r = Inr st' \<Longrightarrow> bridge_ok start opts (Suc n) (Suc n) st'" by blast
  show ?case
  proof (cases r)
    case (Inr st')
    with r Cons.IH [of "Suc n" st' "i + 1"] Cons.prems(2) show ?thesis by (simp add: row)
  qed (use r row in simp)
qed simp

text \<open>The guards at the start of a run.\<close>

definition accepted :: "(symbol \<times> f64) list list \<Rightarrow> bars list \<Rightarrow> int \<Rightarrow> bridge_options \<Rightarrow> bool" where
  "accepted weight_schedule price_schedule initial_cash opts \<longleftrightarrow> valid_inputs weight_schedule price_schedule initial_cash \<and>
     schedule_fits (length weight_schedule) (bo_period_day_ordinal opts) \<and>
     schedule_fits (length weight_schedule) (bo_period_month_ordinal opts) \<and>
     schedule_fits (length weight_schedule) (bo_fill_schedule opts)"

definition result_ok :: "nat \<Rightarrow> bridge_result \<Rightarrow> bool" where
  "result_ok n r \<longleftrightarrow> 0 \<le> br_final_cash r \<and>
     length (br_returns r) = n \<and> length (br_equity_curve r) = Suc n \<and> length (br_holdings r) = n \<and> length (br_symbol_returns r) = n \<and>
     (case br_cash_snapshots r of None \<Rightarrow> True | Some xs \<Rightarrow> length xs = n \<and> (\<forall>x \<in> set xs. 0 \<le> x)) \<and>
     (case br_executions r of None \<Rightarrow> True | Some xs \<Rightarrow> ledger_from (br_initial_cash r) 0 xs (br_final_cash r))"

lemma empty_result_ok: "0 \<le> cash \<Longrightarrow> result_ok 0 (empty_result cash rec)"
  by (simp add: result_ok_def empty_result_def)

lemma unpriced_result_ok: "0 \<le> cash \<Longrightarrow> result_ok 0 (unpriced_result cash u rec)"
  using empty_result_ok [of cash rec] by (simp add: result_ok_def unpriced_result_def cong: option.case_cong)

lemma bridge_start_ok:
  assumes "0 < cash" and "cash \<le> i64_max" and "sane_slippage c" and "bo_quantity_step opts \<noteq> Some 1"
  shows "bridge_ok cash opts 0 0 (bridge_start cash c opts)"
proof -
  let ?pf = "configured_portfolio cash c opts"
  have "pf_cash ?pf = cash" "pf_quantity_step ?pf \<noteq> 1" "pf_cost_model ?pf = c" "pf_prev_equity ?pf = cash" "pf_returns ?pf = []"
      "pf_equity_curve ?pf = [cash]" "pf_executions ?pf = (if bo_record_executions opts then Some [] else None)"
    using assms(4) unfolding configured_portfolio_def Let_def
    by (auto simp: set_quantity_step_def set_min_order_value_def set_max_order_value_def set_no_trade_band_bps_def
        set_max_trades_per_rebalance_def enable_execution_recording_def portfolio_new_def SCALE_def split: option.split)
  then show ?thesis using assms(1,2,3) by (simp add: bridge_ok_def bridge_start_def account_ok_def history_ok_def)
qed

lemma bridge_run:
  assumes "visits_all it" and "0 < initial_cash" and "initial_cash \<le> i64_max" and "sane_slippage c"
    and "bo_quantity_step opts \<noteq> Some 1"
  shows "\<exists>r. backtest_weights_with_options it weight_schedule price_schedule initial_cash c policy opts = ret r \<and>
           (br_executions r \<noteq> None \<longleftrightarrow> bo_record_executions opts) \<and>
           result_ok (if accepted weight_schedule price_schedule initial_cash opts \<and> br_unpriced_holding r = None
                      then length weight_schedule else 0) r"
proof (cases "accepted weight_schedule price_schedule initial_cash opts")
  case False
  then have "backtest_weights_with_options it weight_schedule price_schedule initial_cash c policy opts =
      ret (empty_result initial_cash (bo_record_executions opts))"
    by (auto simp: backtest_weights_with_options_def accepted_def)
  moreover have "br_executions (empty_result initial_cash (bo_record_executions opts)) \<noteq> None \<longleftrightarrow> bo_record_executions opts"
    by (simp add: empty_result_def)
  ultimately show ?thesis using False empty_result_ok [of initial_cash "bo_record_executions opts"] assms(2) by simp
next
  case acc: True
  note True = acc [unfolded accepted_def]
  then have len: "length (zip weight_schedule price_schedule) = length weight_schedule" by (simp add: valid_inputs_def)
  from run_periods_ok [OF bridge_start_ok [OF assms(2-5)] assms(1), of policy price_schedule 0 "zip weight_schedule price_schedule"]
  obtain r where r: "run_periods it opts policy price_schedule 0 (zip weight_schedule price_schedule) (bridge_start initial_cash c opts) = ret r"
      "\<And>st. r = Inr st \<Longrightarrow> bridge_ok initial_cash opts (length weight_schedule) (length weight_schedule) st"
    unfolding len by auto
  show ?thesis
  proof (cases r)
    case (Inl u)
    then show ?thesis using True r(1) unpriced_result_ok [of initial_cash u] assms(2)
      by (simp add: backtest_weights_with_options_def) (simp add: unpriced_result_def empty_result_def)
  next
    case (Inr st)
    then have "result_ok (length weight_schedule) (finish_run initial_cash st)"
      using r(2) [of st] by (auto simp: result_ok_def finish_run_def bridge_ok_def account_ok_def take_executions_def split: option.splits)
    then show ?thesis using True acc r(1) r(2) [OF Inr] Inr
      by (simp add: backtest_weights_with_options_def) (simp add: finish_run_def take_executions_def bridge_ok_def)
  qed
qed

text \<open>C16. The back-test bridge is total and keeps its books. From an initial cash that is positive and fits \<open>i64\<close>,
  with a slippage that is finite and not negative and any quantity step but 1 (with which the search for an
  affordable quantity can run for ever), every run returns: for every schedule of weights and bars, fill policy,
  combination of the other options and iteration order of the hash map. The
  final cash and every cash snapshot are not negative, although prices of zero are accepted: a held
  symbol without a positive price ends the run with an empty result before anything is traded at that
  price. All tables of the result have one row per period (none, when the run was rejected or ended),
  the equity curve has one more, and the recorded executions account for the change of the cash.\<close>

theorem bridge_keeps_books:
  assumes "visits_all it" and "0 < initial_cash" and "initial_cash \<le> i64_max" and "sane_slippage c"
    and "bo_quantity_step opts \<noteq> Some 1"
  shows "\<exists>r. backtest_weights_with_options it weight_schedule price_schedule initial_cash c policy opts = ret r \<and>
           (br_executions r \<noteq> None \<longleftrightarrow> bo_record_executions opts) \<and>
           result_ok (if accepted weight_schedule price_schedule initial_cash opts \<and> br_unpriced_holding r = None
                      then length weight_schedule else 0) r"
  by (rule bridge_run [OF assms])

definition demo_bar :: "int \<Rightarrow> bar_prices" where
  "demo_bar p = \<lparr>bp_open = p, bp_high = p, bp_low = p, bp_close = p\<rparr>"

theorem bridge_keeps_books_witness:
  "visits_all id \<and>
   (\<exists>r. backtest_weights_with_options id [[(demo_symbol, f64_one)], []] [[(demo_symbol, demo_bar 10)], [(demo_symbol, demo_bar 0)]]
          1000 cost_model_zero NextBarOpen (bridge_options_default\<lparr>bo_record_executions := True\<rparr>) = ret r \<and>
        br_executions r \<noteq> None \<and> result_ok (if br_unpriced_holding r = None then length [[(demo_symbol, f64_one)], []] else 0) r)"
proof -
  have "sane_slippage cost_model_zero" by (simp add: sane_slippage_def cost_model_zero_def)
  moreover have "accepted [[(demo_symbol, f64_one)], []] [[(demo_symbol, demo_bar 10)], [(demo_symbol, demo_bar 0)]] 1000
      (bridge_options_default\<lparr>bo_record_executions := True\<rparr>)"
    by (simp add: accepted_def valid_inputs_def valid_bar_def demo_bar_def schedule_fits_def bridge_options_default_def)
  ultimately show ?thesis
    using bridge_keeps_books [of id 1000 cost_model_zero "bridge_options_default\<lparr>bo_record_executions := True\<rparr>"
        "[[(demo_symbol, f64_one)], []]" "[[(demo_symbol, demo_bar 10)], [(demo_symbol, demo_bar 0)]]" NextBarOpen]
    by (simp add: visits_all_def i64_max_def bridge_options_default_def split del: if_split)
qed

section \<open>A stop that is reported and not executed\<close>

lemma skipped_sell:
  assumes "0 < raw q" and "raw q \<le> i64_max" and "cash_left pf (shares_neg q) (effective_price (pf_cost_model pf) False price) < 0"
  shows "portfolio_execute_fill y (shares_neg q) price pf = ret pf"
proof -
  have "raw (shares_neg q) = - raw q" using assms(1,2) by (simp add: shares_neg_def i64_sat_id)
  then have "is_negative (shares_neg q)" "\<not> is_zero (shares_neg q)" "\<not> is_positive (shares_neg q)"
    using assms(1) by (simp_all add: is_negative_def is_zero_def is_positive_def)
  then show ?thesis using assms(3) by (simp add: portfolio_execute_fill_def settle_fill_def cash_left_def Let_def)
qed

text \<open>A stop can be reported as executed although nothing was traded. When the cash and the proceeds of a
  long position do not cover the commission, the closing sale is skipped; the closing call reports success all the same,
  so the bridge appends a stop event with an exit price and forgets the tracker, while the position
  stays in the portfolio with the cash unchanged.\<close>

lemma stop_reported_without_trade:
  assumes "om_get (pf_positions pf) y = Some pos" and "0 < raw (pos_quantity pos)" and "raw (pos_quantity pos) \<le> i64_max" and "0 < price"
    and "effective_stop_level cfg (next_tracker cfg 1 price (om_get trackers y)) = Some (level, reason)" and "price \<le> level"
    and "cash_left pf (shares_neg (pos_quantity pos)) (effective_price (pf_cost_model pf) False price) < 0"
  shows "\<exists>pf' trackers'. stop_one i cfg (y, raw (pos_quantity pos), price) (pf, trackers, events) =
             ret (pf', trackers', events @ [\<lparr>be_period_index = i, be_symbol = y, be_trigger_price = level, be_exit_price = price, be_reason = reason\<rparr>]) \<and>
           om_get trackers' y = None \<and> om_get (pf_positions pf') y = Some pos \<and> pf_cash pf' = pf_cash pf"
proof -
  let ?pf = "set_execution_context i StopExit pf"
  have "cash_left ?pf (shares_neg (pos_quantity pos)) (effective_price (pf_cost_model ?pf) False price) < 0"
    using assms(7) by (simp add: cash_left_def set_execution_context_def)
  from skipped_sell [OF assms(2,3) this, of y] have "close_position_at y price ?pf = ret (?pf, True)"
    using assms(1,2,4) by (simp add: close_position_at_def set_execution_context_def is_flat_def is_zero_def)
  then show ?thesis using assms(1,2,5,6) by (simp add: stop_one_def Let_def kv_simps) (simp add: set_execution_context_def)
qed

definition lone_long :: portfolio where
  "lone_long = (portfolio_new 100 flat_fee)\<lparr>pf_positions :=
     [(demo_symbol, \<lparr>pos_symbol = demo_symbol, pos_quantity = Shares 1000000, pos_avg_entry_price = 16, pos_realized_pnl = 0, pos_total_cost = 16\<rparr>)]\<rparr>"

definition tight_stop :: stop_config where
  "tight_stop = \<lparr>sc_fixed_stop_pct = Some (FFin False (1 / 64)), sc_trailing_stop_pct = None, sc_atr_multiple = None, sc_atr_period = 1\<rparr>"

end
