(* ===== verification/Budgets.thy ===== *)
theory Budgets
  imports Bridge_Properties
begin

text \<open>
  The day and month budgets of the back-test bridge, stated on what a caller sees: the recorded
  executions of a run, counted and summed per day and per month.
\<close>

section \<open>What a rebalance records\<close>

definition appended :: "portfolio \<Rightarrow> portfolio \<Rightarrow> execution_record list \<Rightarrow> bool" where
  "appended pf pf' ys \<longleftrightarrow> pf_executions pf' = map_option (\<lambda>xs. xs @ ys) (pf_executions pf) \<and>
     pf_execution_period_index pf' = pf_execution_period_index pf \<and> pf_execution_kind pf' = pf_execution_kind pf \<and>
     (\<forall>y \<in> set ys. xr_period_index y = pf_execution_period_index pf \<and> xr_kind y = pf_execution_kind pf)"

abbreviation reference_total :: "execution_record list \<Rightarrow> int" where
  "reference_total ys \<equiv> \<Sum>x\<leftarrow>ys. xr_reference_notional x"

abbreviation planned_total :: "planned_order list \<Rightarrow> int" where
  "planned_total xs \<equiv> \<Sum>x\<leftarrow>xs. notional_of (po_qty x) (po_price x)"

lemma appended_refl [simp]: "appended pf pf []"
  by (simp add: appended_def option.map_ident)

lemma appended_trans: "appended a b ys \<Longrightarrow> appended b c zs \<Longrightarrow> appended a c (ys @ zs)"
  by (auto simp: appended_def option.map_comp comp_def)

lemma notional_mono: "\<bar>raw a\<bar> \<le> \<bar>raw b\<bar> \<Longrightarrow> notional_of a p \<le> notional_of b p"
proof -
  assume "\<bar>raw a\<bar> \<le> \<bar>raw b\<bar>"
  then have "\<bar>raw a\<bar> * \<bar>p\<bar> div SCALE \<le> \<bar>raw b\<bar> * \<bar>p\<bar> div SCALE" by (intro zdiv_mono1 mult_right_mono) simp_all
  then show ?thesis by (auto simp: notional_of_def clamp_int_def min_def max_def)
qed

lemma notional_nonneg: "0 \<le> notional_of q p"
  by (simp add: notional_of_def clamp_range)

lemma settle_appends:
  "\<exists>ys. appended pf (settle_fill y q p price pf) ys \<and> length ys \<le> 1 \<and> reference_total ys \<le> notional_of q price"
proof (cases "is_negative q \<and> cash_left pf q p < 0")
  case True
  then show ?thesis using notional_nonneg by (intro exI [of _ "[]"]) (simp add: settle_fill_def cash_left_def Let_def)
next
  case False
  let ?pf = "settle_fill y q p price pf"
  have frame: "pf_execution_period_index ?pf = pf_execution_period_index pf" "pf_execution_kind ?pf = pf_execution_kind pf"
    by (simp_all add: settle_fill_def Let_def)
  show ?thesis
  proof (cases "pf_executions pf")
    case None
    then have "pf_executions ?pf = None" by (simp add: settle_fill_def Let_def)
    then show ?thesis using None frame notional_nonneg by (intro exI [of _ "[]"]) (simp add: appended_def)
  next
    case (Some xs)
    then have "\<exists>r. pf_executions ?pf = Some (xs @ [r]) \<and> xr_period_index r = pf_execution_period_index pf \<and>
        xr_kind r = pf_execution_kind pf \<and> xr_reference_notional r = notional_of q price"
      using False by (simp add: settle_fill_def cash_left_def Let_def)
    then obtain r where "pf_executions ?pf = Some (xs @ [r])" "xr_period_index r = pf_execution_period_index pf"
        "xr_kind r = pf_execution_kind pf" "xr_reference_notional r = notional_of q price" by blast
    then show ?thesis using Some frame by (intro exI [of _ "[r]"]) (simp add: appended_def)
  qed
qed

lemma fill_appends:
  assumes "account_ok start pf" and "is_positive q \<longrightarrow> 0 < price" and "raw q \<le> i64_max"
    and "portfolio_execute_fill y q price pf = ret pf'"
  shows "\<exists>ys. appended pf pf' ys \<and> length ys \<le> 1 \<and> reference_total ys \<le> notional_of q price"
proof (cases "is_positive q")
  case True
  then have p: "0 < effective_price (pf_cost_model pf) True price"
    using assms by (auto simp: account_ok_def buy_price_positive)
  obtain pf1 q' where t: "trim_buy q (effective_price (pf_cost_model pf) True price) pf = ret (pf1, q')"
      "is_zero q' \<or> 0 < raw q' \<and> raw q' \<le> raw q"
    using trim_ok [OF assms(1) _ assms(3) p] True by (auto simp: is_positive_def)
  have 1: "appended pf pf1 []" using t(1)
    by (auto simp: trim_buy_def appended_def option.map_ident rbind_eq_ret split: if_splits)
  show ?thesis
  proof (cases "is_zero q'")
    case z: True
    then have "pf' = pf1" using assms(4) t True by (auto simp: portfolio_execute_fill_def Let_def is_zero_def is_positive_def split: if_splits)
    then show ?thesis using 1 notional_nonneg by fastforce
  next
    case nz: False
    then have "pf' = settle_fill y q' (effective_price (pf_cost_model pf) True price) price pf1"
      using assms(4) t True by (auto simp: portfolio_execute_fill_def Let_def is_zero_def is_positive_def split: if_splits)
    moreover have "notional_of q' price \<le> notional_of q price" using t(2) nz by (intro notional_mono) auto
    ultimately show ?thesis using settle_appends [of pf1 y q' "effective_price (pf_cost_model pf) True price" price] appended_trans [OF 1]
      by fastforce
  qed
next
  case False
  show ?thesis
  proof (cases "is_zero q")
    case True
    then show ?thesis using assms(4) notional_nonneg by (intro exI [of _ "[]"]) (simp add: portfolio_execute_fill_def)
  next
    case nz: False
    then show ?thesis using False assms(4) settle_appends [of pf y q _ price] by (auto simp: portfolio_execute_fill_def Let_def)
  qed
qed

lemma execute_orders_appends:
  "account_ok start pf \<Longrightarrow> \<forall>x \<in> set xs. raw (po_qty x) \<le> i64_max \<and> 0 < po_price x \<Longrightarrow> execute_orders xs pf = ret pf' \<Longrightarrow>
   \<exists>ys. appended pf pf' ys \<and> length ys \<le> length xs \<and> reference_total ys \<le> planned_total xs"
proof (induction xs arbitrary: pf)
  case (Cons x xs)
  obtain pf1 where 1: "portfolio_execute_fill (po_symbol x) (po_qty x) (po_price x) pf = ret pf1" "account_ok start pf1"
    using fill_ok [of start pf "po_qty x" "po_price x" "po_symbol x"] Cons.prems by auto
  obtain ys where ys: "appended pf pf1 ys" "length ys \<le> 1" "reference_total ys \<le> notional_of (po_qty x) (po_price x)"
    using fill_appends [OF _ _ _ 1(1)] Cons.prems by auto
  obtain zs where zs: "appended pf1 pf' zs" "length zs \<le> length xs" "reference_total zs \<le> planned_total xs"
    using Cons.IH [OF 1(2)] Cons.prems 1(1) by auto
  show ?case using ys zs appended_trans [OF ys(1) zs(1)] by (intro exI [of _ "ys @ zs"]) simp
qed (auto intro!: exI [of _ "[]"])

lemma sat_total: "0 \<le> acc \<Longrightarrow> acc \<le> i64_max \<Longrightarrow>
    foldl (\<lambda>acc x. i64_sat (acc + notional_of (po_qty x) (po_price x))) acc xs = min i64_max (acc + planned_total xs)"
proof (induction xs arbitrary: acc)
  case (Cons x xs)
  let ?n = "notional_of (po_qty x) (po_price x)"
  have n: "0 \<le> ?n" by (rule notional_nonneg)
  have "0 \<le> planned_total xs" by (rule sum_list_nonneg) (auto simp: notional_nonneg)
  moreover have "i64_sat (acc + ?n) = min (acc + ?n) i64_max" using Cons.prems n by (simp add: i64_sat_nonneg)
  ultimately show ?case using Cons.IH [of "min (acc + ?n) i64_max"] Cons.prems n by (simp add: i64_max_def)
qed simp

text \<open>The counters of a rebalance bound what it records, and the two caps bound the counters.\<close>

lemma rebalance_records:
  assumes "account_ok start pf" and "holdings_priced pf prices (\<lambda>p. 0 < p)"
    and "rebalance_simple_from_price_map it targets prices pf = ret pf'" and "pf_max_rebalance_notional pf \<le> i64_max"
  shows "\<exists>ys. appended pf pf' ys \<and> length ys \<le> pf_last_rebalance_order_count pf' \<and>
           (\<forall>k. pf_max_trades_per_rebalance pf = Some k \<longrightarrow> pf_last_rebalance_order_count pf' \<le> k) \<and>
           (pf_last_rebalance_order_count pf' = 0 \<longrightarrow> pf_last_rebalance_notional pf' = 0) \<and>
           0 \<le> pf_last_rebalance_notional pf' \<and>
           (0 < pf_max_rebalance_notional pf \<longrightarrow>
              reference_total ys \<le> pf_last_rebalance_notional pf' \<and> pf_last_rebalance_notional pf' \<le> pf_max_rebalance_notional pf)"
proof (cases "total_equity_from_price_map it prices (pf\<lparr>pf_last_rebalance_order_count := 0, pf_last_rebalance_notional := 0\<rparr>) \<le> 0")
  case True
  then have "pf' = pf\<lparr>pf_last_rebalance_order_count := 0, pf_last_rebalance_notional := 0\<rparr>"
    using assms(3) by (simp add: rebalance_simple_from_price_map_def Let_def)
  then show ?thesis by (intro exI [of _ "[]"]) (simp add: appended_def option.map_ident)
next
  case False
  let ?pf = "pf\<lparr>pf_last_rebalance_order_count := 0, pf_last_rebalance_notional := 0\<rparr>"
  let ?xs = "plan_orders it targets prices (total_equity_from_price_map it prices ?pf) ?pf"
  let ?pf1 = "pf\<lparr>pf_last_rebalance_order_count := length ?xs, pf_last_rebalance_notional := min i64_max (planned_total ?xs)\<rparr>"
  have run: "execute_orders ?xs ?pf1 = ret pf'"
    using assms(3) False sat_total [of 0 ?xs] by (simp add: rebalance_simple_from_price_map_def Let_def i64_max_def)
  have ok: "\<forall>x \<in> set ?xs. raw (po_qty x) \<le> i64_max \<and> 0 < po_price x"
    using plan_orders_ok [of ?pf prices "\<lambda>p. 0 < p"] assms(2) by (auto simp: plan_ok_def holdings_priced_def)
  have acc: "account_ok start ?pf1" using assms(1) by simp
  obtain ys where ys: "appended ?pf1 pf' ys" "length ys \<le> length ?xs" "reference_total ys \<le> planned_total ?xs"
    using execute_orders_appends [OF acc ok run] by blast
  have frame: "pf_last_rebalance_order_count pf' = length ?xs" "pf_last_rebalance_notional pf' = min i64_max (planned_total ?xs)"
    using execute_orders_ok [OF acc ok] run by (auto simp: same_frame_def)
  have nn: "0 \<le> planned_total ?xs" by (rule sum_list_nonneg) (auto simp: notional_nonneg)
  have cap: "length ?xs \<le> k" if "pf_max_trades_per_rebalance pf = Some k" for k
    using that admit_length [of ?pf k 0 0] by (simp add: plan_orders_def Let_def)
  have total: "planned_total ?xs \<le> pf_max_rebalance_notional pf" if "0 < pf_max_rebalance_notional pf"
    using that admit_total [of ?pf 0] assms(4) by (simp add: plan_orders_def Let_def)
  show ?thesis
    using ys(1,2,3) nn cap total assms(4) unfolding frame
    by (intro exI [of _ ys]) (auto simp: appended_def i64_max_def)
qed

section \<open>What the stops record\<close>

definition stops_append :: "nat \<Rightarrow> portfolio \<Rightarrow> portfolio \<Rightarrow> bool" where
  "stops_append i pf pf' \<longleftrightarrow> (\<exists>zs. pf_executions pf' = map_option (\<lambda>xs. xs @ zs) (pf_executions pf) \<and>
     (\<forall>z \<in> set zs. xr_period_index z = i \<and> xr_kind z = StopExit))"

lemma stops_append_refl [simp]: "stops_append i pf pf"
  unfolding stops_append_def by (intro exI [of _ "[]"]) (simp add: option.map_ident)

lemma stops_append_trans: "stops_append i a b \<Longrightarrow> stops_append i b c \<Longrightarrow> stops_append i a c"
  unfolding stops_append_def
proof (elim exE conjE)
  fix ys zs
  assume "pf_executions b = map_option (\<lambda>xs. xs @ ys) (pf_executions a)" "\<forall>z \<in> set ys. xr_period_index z = i \<and> xr_kind z = StopExit"
    "pf_executions c = map_option (\<lambda>xs. xs @ zs) (pf_executions b)" "\<forall>z \<in> set zs. xr_period_index z = i \<and> xr_kind z = StopExit"
  then show "\<exists>zs. pf_executions c = map_option (\<lambda>xs. xs @ zs) (pf_executions a) \<and> (\<forall>z \<in> set zs. xr_period_index z = i \<and> xr_kind z = StopExit)"
    by (intro exI [of _ "ys @ zs"]) (auto simp: option.map_comp comp_def)
qed

lemma close_appends:
  assumes "account_ok start pf" and "close_position_at y price pf = ret (pf', b)"
  shows "\<exists>zs. appended pf pf' zs"
proof (cases "pf' = pf")
  case False
  then obtain q where "0 < price" "portfolio_execute_fill y (shares_neg q) price pf = ret pf'"
    using assms(2) by (auto simp: close_position_at_def rbind_eq_ret split: if_splits option.splits)
  then show ?thesis using fill_appends [OF assms(1), of "shares_neg q" price y pf'] by (auto simp: shares_neg_def i64_sat_range)
qed (auto intro: exI [of _ "[]"])

lemma stop_one_appends:
  assumes "account_ok start pf" and "stop_one i cfg entry (pf, tr, ev) = ret (pf', tr', ev')"
  shows "stops_append i pf pf'"
proof (cases "pf' = pf")
  case False
  obtain y q p where e: "entry = (y, q, p)" by (cases entry) auto
  obtain b where "close_position_at y p (set_execution_context i StopExit pf) = ret (pf', b)"
    using assms(2) False by (auto simp: stop_one_def e Let_def rbind_eq_ret split: option.splits if_splits)
  from close_appends [OF _ this, of start] assms(1) obtain zs where "appended (set_execution_context i StopExit pf) pf' zs" by auto
  then show ?thesis unfolding stops_append_def by (intro exI [of _ zs]) (simp add: appended_def set_execution_context_def)
qed simp

lemma stops_append_each:
  "account_ok start pf \<Longrightarrow> run_each (stop_one i cfg) lots (pf, tr, ev) = ret (pf', tr', ev') \<Longrightarrow> stops_append i pf pf'"
proof (induction lots arbitrary: pf tr ev)
  case (Cons x lots)
  obtain pf1 tr1 ev1 where 1: "stop_one i cfg x (pf, tr, ev) = ret (pf1, tr1, ev1)" "account_ok start pf1"
    using stop_one_ok [OF Cons.prems(1)] by blast
  then show ?case using Cons.IH [OF 1(2), of tr1 ev1] Cons.prems stop_one_appends [OF Cons.prems(1) 1(1)] by (auto intro: stops_append_trans)
qed simp

section \<open>Windows\<close>

text \<open>The executions of rebalances in the window \<open>m\<close> of an ordinal schedule, weighed by \<open>w\<close>.\<close>

definition window_total :: "int list \<Rightarrow> (execution_record \<Rightarrow> int) \<Rightarrow> int \<Rightarrow> execution_record list \<Rightarrow> int" where
  "window_total ord w m xs = (\<Sum>x\<leftarrow>filter (\<lambda>x. xr_kind x = ForRebalance \<and> ord ! xr_period_index x = m) xs. w x)"

definition window_ok :: "int list \<Rightarrow> (execution_record \<Rightarrow> int) \<Rightarrow> int \<Rightarrow> nat \<Rightarrow> int \<Rightarrow> int option \<Rightarrow> execution_record list \<Rightarrow> bool" where
  "window_ok ord w limit i used prev xs \<longleftrightarrow> (\<forall>m. window_total ord w m xs \<le> limit) \<and>
     (\<forall>m. prev = Some m \<longrightarrow> window_total ord w m xs \<le> used) \<and> 0 \<le> used \<and> used \<le> limit \<and>
     (\<forall>x \<in> set xs. xr_period_index x < i) \<and> prev = (if i = 0 then None else Some (ord ! (i - 1)))"

lemma window_start: "0 \<le> limit \<Longrightarrow> window_ok ord w limit 0 0 None []"
  by (simp add: window_ok_def window_total_def)

lemma window_roll:
  assumes "window_ok ord w limit i used prev xs" and "sorted ord" and "i < length ord"
  shows "window_total ord w (ord ! i) xs \<le> (if prev = Some (ord ! i) then used else 0)"
proof (cases "prev = Some (ord ! i)")
  case False
  have "\<not> (xr_kind x = ForRebalance \<and> ord ! xr_period_index x = ord ! i)" if "x \<in> set xs" for x
  proof -
    have x: "xr_period_index x < i" using that assms(1) by (simp add: window_ok_def)
    then have "ord ! xr_period_index x \<le> ord ! (i - 1)" "ord ! (i - 1) \<le> ord ! i"
      using assms(2,3) by (auto intro!: sorted_nth_mono)
    moreover have "ord ! (i - 1) \<noteq> ord ! i" using False assms(1) x by (auto simp: window_ok_def)
    ultimately show ?thesis by simp
  qed
  then show ?thesis using False by (simp add: window_total_def filter_empty_conv [THEN iffD2])
qed (use assms(1) in \<open>simp add: window_ok_def\<close>)

lemma window_step:
  assumes "window_ok ord w limit i used prev xs" and "sorted ord" and "i < length ord"
    and "\<forall>y \<in> set ys. xr_period_index y = i \<and> xr_kind y = ForRebalance" and "\<forall>z \<in> set zs. xr_period_index z = i \<and> xr_kind z = StopExit"
    and "(\<Sum>y\<leftarrow>ys. w y) \<le> A" and "0 \<le> A" and "(if prev = Some (ord ! i) then used else 0) + A \<le> limit"
  shows "window_ok ord w limit (Suc i) ((if prev = Some (ord ! i) then used else 0) + A) (Some (ord ! i)) (xs @ ys @ zs)"
proof -
  let ?used = "if prev = Some (ord ! i) then used else 0"
  have z: "filter (\<lambda>x. xr_kind x = ForRebalance \<and> ord ! xr_period_index x = m) zs = []" for m using assms(5) by (auto simp: filter_empty_conv)
  have y: "filter (\<lambda>x. xr_kind x = ForRebalance \<and> ord ! xr_period_index x = m) ys = (if m = ord ! i then ys else [])" for m
    using assms(4) by (auto simp: filter_empty_conv filter_id_conv)
  have split: "window_total ord w m (xs @ ys @ zs) = window_total ord w m xs + (if m = ord ! i then \<Sum>y\<leftarrow>ys. w y else 0)" for m
    by (simp add: window_total_def z y)
  have now: "window_total ord w (ord ! i) (xs @ ys @ zs) \<le> ?used + A"
    using window_roll [OF assms(1-3)] assms(6) by (simp add: split)
  then have "window_total ord w m (xs @ ys @ zs) \<le> limit" for m
    using assms(1,8) by (cases "m = ord ! i") (auto simp: split window_ok_def split: if_splits)
  then show ?thesis using now assms(1,4,5,7,8) by (fastforce simp: window_ok_def)
qed

section \<open>One period\<close>

lemma roll_fields:
  "bx_trades_used_today (roll_windows opts i st) = (case bo_period_day_ordinal opts of None \<Rightarrow> bx_trades_used_today st
     | Some days \<Rightarrow> if bx_prev_day_ordinal st = Some (days ! i) then bx_trades_used_today st else 0)"
  "bx_prev_day_ordinal (roll_windows opts i st) = (case bo_period_day_ordinal opts of None \<Rightarrow> bx_prev_day_ordinal st | Some days \<Rightarrow> Some (days ! i))"
  "bx_trades_used_month (roll_windows opts i st) = (case bo_period_month_ordinal opts of None \<Rightarrow> bx_trades_used_month st
     | Some ms \<Rightarrow> if bx_prev_month_ordinal st = Some (ms ! i) then bx_trades_used_month st else 0)"
  "bx_value_used_month (roll_windows opts i st) = (case bo_period_month_ordinal opts of None \<Rightarrow> bx_value_used_month st
     | Some ms \<Rightarrow> if bx_prev_month_ordinal st = Some (ms ! i) then bx_value_used_month st else 0)"
  "bx_prev_month_ordinal (roll_windows opts i st) = (case bo_period_month_ordinal opts of None \<Rightarrow> bx_prev_month_ordinal st | Some ms \<Rightarrow> Some (ms ! i))"
  "bx_portfolio (roll_windows opts i st) = bx_portfolio st"
  by (simp_all add: roll_windows_def Let_def split: option.split)

text \<open>The counters of the windows after a rebalance, as long as they do not overflow.\<close>

definition counted :: "bridge_state \<Rightarrow> nat \<Rightarrow> int \<Rightarrow> bridge_state \<Rightarrow> bool" where
  "counted st count amount st' \<longleftrightarrow>
     (bx_trades_used_today st + count \<le> u64_max \<longrightarrow> bx_trades_used_today st' = bx_trades_used_today st + count) \<and>
     (bx_trades_used_month st + count \<le> u64_max \<longrightarrow> bx_trades_used_month st' = bx_trades_used_month st + count) \<and>
     (0 \<le> bx_value_used_month st + amount \<and> bx_value_used_month st + amount \<le> i64_max \<longrightarrow>
        bx_value_used_month st' = bx_value_used_month st + amount) \<and>
     bx_prev_day_ordinal st' = bx_prev_day_ordinal st \<and> bx_prev_month_ordinal st' = bx_prev_month_ordinal st"

definition within_caps :: "bridge_options \<Rightarrow> bridge_state \<Rightarrow> nat \<Rightarrow> int \<Rightarrow> execution_record list \<Rightarrow> bool" where
  "within_caps opts st count amount ys \<longleftrightarrow> length ys \<le> count \<and> (\<forall>k \<in> set (cap_candidates opts st). count \<le> k) \<and>
     (count = 0 \<longrightarrow> amount = 0) \<and> 0 \<le> amount \<and>
     (has_month_value_budget opts \<and> 0 < month_value_left opts st \<longrightarrow> reference_total ys \<le> amount \<and> amount \<le> month_value_left opts st)"

lemma list_min_le: "list_min xs = Some k \<Longrightarrow> x \<in> set xs \<Longrightarrow> k \<le> x"
proof -
  have fold: "foldl min a ys \<le> a \<and> (\<forall>x \<in> set ys. foldl min a ys \<le> x)" for a :: nat and ys
  proof (induction ys arbitrary: a)
    case (Cons b ys)
    then show ?case using Cons [of "min a b"] by auto
  qed simp
  show "list_min xs = Some k \<Longrightarrow> x \<in> set xs \<Longrightarrow> k \<le> x"
    using fold by (cases xs) (auto simp: list_min_def)
qed

lemma rebalance_counted:
  assumes "bridge_ok start opts n k st" and "visits_all it" and "bo_record_executions opts" and "windowed_budgets_active opts"
    and "period_rebalance it opts fills i weights (set_budgets opts i st) = ret (Inr st')"
  shows "\<exists>ys count amount. pf_executions (bx_portfolio st') = map_option (\<lambda>xs. xs @ ys) (pf_executions (bx_portfolio st)) \<and>
     (\<forall>y \<in> set ys. xr_period_index y = i \<and> xr_kind y = ForRebalance) \<and>
     within_caps opts (roll_windows opts i st) count amount ys \<and> counted (roll_windows opts i st) count amount st'"
proof -
  let ?r = "roll_windows opts i st"
  define left where "left = (if has_month_value_budget opts \<and> month_value_left opts ?r > 0 then month_value_left opts ?r else 0)"
  let ?pf = "set_max_rebalance_notional left (set_max_trades_per_rebalance (list_min (cap_candidates opts ?r)) (bx_portfolio st))"
  have b: "set_budgets opts i st = ?r\<lparr>bx_portfolio := ?pf\<rparr>" using assms(4) by (simp add: set_budgets_def Let_def roll_fields left_def)
  show ?thesis
  proof (cases fills)
    case None
    then have "st' = ?r\<lparr>bx_portfolio := ?pf, bx_skipped_rebalances := bx_skipped_rebalances ?r @ [i]\<rparr>"
      using assms(5) unfolding b by (simp add: period_rebalance_def)
    then show ?thesis
      by (intro exI [of _ "[]"] exI [of _ 0]) (simp add: within_caps_def counted_def option.map_ident)
  next
    case (Some prices)
    let ?pf1 = "set_execution_context i ForRebalance ?pf"
    have un: "unpriced_holding it prices ?pf = None"
      using assms(5) Some unfolding b by (simp add: period_rebalance_def split: option.splits)
    obtain pf where pf: "rebalance_simple it weights prices ?pf1 = ret pf" "st' = count_rebalance opts (?r\<lparr>bx_portfolio := pf\<rparr>)"
      using assms(3,5) Some un unfolding b by (auto simp: period_rebalance_def rbind_eq_ret)
    have acc: "account_ok start ?pf1" using assms(1) by (simp add: bridge_ok_def)
    have held: "holdings_priced ?pf1 (collect_map prices) (\<lambda>p. 0 < p)"
      using unpriced_none [OF un assms(2)] by (simp add: holdings_priced_def set_execution_context_def)
    have caps: "pf_max_trades_per_rebalance ?pf1 = list_min (cap_candidates opts ?r)" "pf_max_rebalance_notional ?pf1 = left"
      by (simp_all add: set_execution_context_def set_max_rebalance_notional_def set_max_trades_per_rebalance_def)
    have le: "left \<le> i64_max"
      using i64_sat_range(2) by (auto simp: left_def month_value_left_def i64_max_def split: option.splits)
    from rebalance_records [OF acc held pf(1) [unfolded rebalance_simple_def], unfolded caps, OF le]
    obtain ys where ys: "appended ?pf1 pf ys" "length ys \<le> pf_last_rebalance_order_count pf"
        "\<forall>k. list_min (cap_candidates opts ?r) = Some k \<longrightarrow> pf_last_rebalance_order_count pf \<le> k"
        "pf_last_rebalance_order_count pf = 0 \<longrightarrow> pf_last_rebalance_notional pf = 0" "0 \<le> pf_last_rebalance_notional pf"
        "0 < left \<longrightarrow> reference_total ys \<le> pf_last_rebalance_notional pf \<and> pf_last_rebalance_notional pf \<le> left"
      by (elim exE conjE)
    have "pf_last_rebalance_order_count pf \<le> k" if "k \<in> set (cap_candidates opts ?r)" for k
    proof (cases "list_min (cap_candidates opts ?r)")
      case None
      then show ?thesis using that by (cases "cap_candidates opts ?r") (simp_all add: list_min_def)
    next
      case (Some m)
      then show ?thesis using ys(3) list_min_le [OF Some that] by fastforce
    qed
    then have "within_caps opts ?r (pf_last_rebalance_order_count pf) (pf_last_rebalance_notional pf) ys"
      using ys(2,4,5,6) by (auto simp: within_caps_def left_def split: if_splits)
    moreover have "counted ?r (pf_last_rebalance_order_count pf) (pf_last_rebalance_notional pf) st'"
      using assms(4) by (simp add: pf(2) counted_def count_rebalance_def Let_def u64_add_exact u64_max_def i64_sat_id)
    moreover have "pf_executions (bx_portfolio st') = map_option (\<lambda>xs. xs @ ys) (pf_executions (bx_portfolio st))"
        "\<forall>y \<in> set ys. xr_period_index y = i \<and> xr_kind y = ForRebalance"
      using ys(1) assms(4) by (simp_all add: pf(2) count_rebalance_def Let_def appended_def set_execution_context_def
          set_max_rebalance_notional_def set_max_trades_per_rebalance_def)
    ultimately show ?thesis by blast
  qed
qed

lemma close_counted:
  assumes "bridge_ok start opts n k st" and "period_close it opts bars i st = ret (Inr st')"
  shows "(\<exists>zs. pf_executions (bx_portfolio st') = map_option (\<lambda>xs. xs @ zs) (pf_executions (bx_portfolio st)) \<and>
            (\<forall>z \<in> set zs. xr_period_index z = i \<and> xr_kind z = StopExit)) \<and>
         bx_trades_used_today st' = bx_trades_used_today st \<and> bx_trades_used_month st' = bx_trades_used_month st \<and>
         bx_value_used_month st' = bx_value_used_month st \<and>
         bx_prev_day_ordinal st' = bx_prev_day_ordinal st \<and> bx_prev_month_ordinal st' = bx_prev_month_ordinal st"
proof -
  let ?cp = "map (\<lambda>(y, b). (y, bp_close b)) bars"
  have acc: "account_ok start (bx_portfolio st)" using assms(1) by (simp add: bridge_ok_def)
  let ?stops = "case Option.bind (bo_stop_cfg opts) sanitized of
      None \<Rightarrow> ret (bx_portfolio st, bx_stop_trackers st, bx_stop_events st)
    | Some cfg \<Rightarrow> apply_stop_cfg it (collect_map ?cp) i cfg (bx_portfolio st, bx_stop_trackers st, bx_stop_events st)"
  obtain x where "?stops = ret x" using assms(2) unfolding period_close_def Let_def rbind_eq_ret by blast
  then obtain pf tr ev where s: "?stops = ret (pf, tr, ev)" by (cases x) blast
  then have "stops_append i (bx_portfolio st) pf"
    using stops_append_each [OF acc] by (auto simp: apply_stop_cfg_def Let_def split: option.splits)
  moreover have "pf_executions (record_return it ?cp pf) = pf_executions pf"
    by (simp add: record_return_def record_return_from_price_map_def Let_def)
  moreover have "unpriced_holding it ?cp pf = None \<and> st' = st\<lparr>bx_portfolio := record_return it ?cp pf, bx_stop_trackers := tr, bx_stop_events := ev,
      bx_holdings := bx_holdings st @ [sort_key fst (current_weights it ?cp (record_return it ?cp pf))],
      bx_equity_curve := bx_equity_curve st @ [total_equity it ?cp (record_return it ?cp pf)],
      bx_cash_snapshots := map_option (\<lambda>xs. xs @ [pf_cash (record_return it ?cp pf)]) (bx_cash_snapshots st),
      bx_prev_prices := collect_map ?cp\<rparr>"
    using assms(2) unfolding period_close_def Let_def s by (cases "unpriced_holding it ?cp pf") simp_all
  ultimately show ?thesis by (simp add: stops_append_def)
qed

section \<open>The budgets of a run\<close>

definition ordinals_ok :: "bridge_options \<Rightarrow> nat \<Rightarrow> bool" where
  "ordinals_ok opts n \<longleftrightarrow>
     (\<forall>days. bo_period_day_ordinal opts = Some days \<longrightarrow> sorted days \<and> length days = n) \<and>
     (\<forall>ms. bo_period_month_ordinal opts = Some ms \<longrightarrow> sorted ms \<and> length ms = n) \<and>
     (\<forall>k. bo_max_trades_per_day opts = Some k \<longrightarrow> k \<le> u64_max) \<and> (\<forall>k. bo_max_trades_per_month opts = Some k \<longrightarrow> k \<le> u64_max) \<and>
     (\<forall>v. bo_max_traded_value_per_month opts = Some v \<longrightarrow> v \<le> i64_max)"

definition budget_ok :: "bridge_options \<Rightarrow> nat \<Rightarrow> bridge_state \<Rightarrow> execution_record list \<Rightarrow> bool" where
  "budget_ok opts i st xs \<longleftrightarrow>
     (\<forall>days k. bo_period_day_ordinal opts = Some days \<longrightarrow> bo_max_trades_per_day opts = Some k \<longrightarrow>
        window_ok days (\<lambda>_. 1) (int k) i (int (bx_trades_used_today st)) (bx_prev_day_ordinal st) xs) \<and>
     (\<forall>ms k. bo_period_month_ordinal opts = Some ms \<longrightarrow> bo_max_trades_per_month opts = Some k \<longrightarrow>
        window_ok ms (\<lambda>_. 1) (int k) i (int (bx_trades_used_month st)) (bx_prev_month_ordinal st) xs) \<and>
     (\<forall>ms v. bo_period_month_ordinal opts = Some ms \<longrightarrow> bo_max_traded_value_per_month opts = Some v \<longrightarrow>
        window_ok ms xr_reference_notional (max v 0) i (bx_value_used_month st) (bx_prev_month_ordinal st) xs)"

text \<open>A counter of trades: the cap left for the period keeps the window within its limit.\<close>

lemma trade_window_step:
  assumes "window_ok ord (\<lambda>_. 1) (int k) i (int used) prev xs" and "sorted ord" and "i < length ord"
    and "\<forall>y \<in> set ys. xr_period_index y = i \<and> xr_kind y = ForRebalance" and "\<forall>z \<in> set zs. xr_period_index z = i \<and> xr_kind z = StopExit"
    and "length ys \<le> count" and "count \<le> k - now" and "now = (if prev = Some (ord ! i) then used else 0)"
  shows "now + count \<le> k \<and> window_ok ord (\<lambda>_. 1) (int k) (Suc i) (int (now + count)) (Some (ord ! i)) (xs @ ys @ zs)"
proof -
  have "now \<le> k" using assms(1,8) by (auto simp: window_ok_def)
  then have le: "now + count \<le> k" using assms(7) by linarith
  have now: "int now = (if prev = Some (ord ! i) then int used else 0)" using assms(8) by simp
  have "(\<Sum>y\<leftarrow>ys. 1) \<le> int count" using assms(6) by (simp add: sum_list_triv)
  from window_step [OF assms(1-5) this] le now show ?thesis by simp
qed

lemma value_window_step:
  assumes "window_ok ord xr_reference_notional (max v 0) i used prev xs" and "sorted ord" and "i < length ord"
    and "\<forall>y \<in> set ys. xr_period_index y = i \<and> xr_kind y = ForRebalance" and "\<forall>z \<in> set zs. xr_period_index z = i \<and> xr_kind z = StopExit"
    and "v \<le> i64_max" and "now = (if prev = Some (ord ! i) then used else 0)" and "0 \<le> amount"
    and "i64_sat (v - now) \<le> 0 \<Longrightarrow> ys = [] \<and> amount = 0"
    and "0 < i64_sat (v - now) \<Longrightarrow> reference_total ys \<le> amount \<and> amount \<le> i64_sat (v - now)"
  shows "0 \<le> now + amount \<and> now + amount \<le> i64_max \<and>
         window_ok ord xr_reference_notional (max v 0) (Suc i) (now + amount) (Some (ord ! i)) (xs @ ys @ zs)"
proof -
  have now: "0 \<le> now" "now \<le> max v 0" using assms(1,7) by (auto simp: window_ok_def)
  have "now + amount \<le> max v 0 \<and> reference_total ys \<le> amount"
  proof (cases "0 < i64_sat (v - now)")
    case True
    then have "i64_sat (v - now) = v - now"
      using now assms(6) by (auto simp: i64_sat_def clamp_int_def i64_min_def i64_max_def min_def max_def split: if_splits)
    then show ?thesis using assms(10) True by auto
  qed (use assms(9) now in auto)
  then have b: "now + amount \<le> max v 0" "reference_total ys \<le> amount" by simp_all
  have "now + amount \<le> i64_max" using b(1) assms(6) by (auto simp: i64_max_def max_def split: if_splits)
  moreover have "window_ok ord xr_reference_notional (max v 0) (Suc i) (now + amount) (Some (ord ! i)) (xs @ ys @ zs)"
    using window_step [OF assms(1-5) b(2) assms(8)] b(1) assms(7) by simp
  ultimately show ?thesis using now assms(8) by simp
qed

lemma budget_step:
  assumes "budget_ok opts i st xs" and "ordinals_ok opts n" and "i < n"
    and "within_caps opts (roll_windows opts i st) count amount ys" and "counted (roll_windows opts i st) count amount st'"
    and "\<forall>y \<in> set ys. xr_period_index y = i \<and> xr_kind y = ForRebalance" and "\<forall>z \<in> set zs. xr_period_index z = i \<and> xr_kind z = StopExit"
  shows "budget_ok opts (Suc i) st' (xs @ ys @ zs)"
proof -
  let ?r = "roll_windows opts i st"
  have caps: "length ys \<le> count" "\<And>k. k \<in> set (cap_candidates opts ?r) \<Longrightarrow> count \<le> k" "count = 0 \<Longrightarrow> amount = 0" "0 \<le> amount"
    using assms(4) by (simp_all add: within_caps_def)
  have day: "window_ok days (\<lambda>_. 1) (int k) (Suc i) (int (bx_trades_used_today st')) (bx_prev_day_ordinal st') (xs @ ys @ zs)"
    if d: "bo_period_day_ordinal opts = Some days" "bo_max_trades_per_day opts = Some k" for days k
  proof -
    have "k - bx_trades_used_today ?r \<in> set (cap_candidates opts ?r)" using d by (simp add: cap_candidates_def has_day_budget_def)
    then have "bx_trades_used_today ?r + count \<le> k \<and>
        window_ok days (\<lambda>_. 1) (int k) (Suc i) (int (bx_trades_used_today ?r + count)) (Some (days ! i)) (xs @ ys @ zs)"
      using assms(1,2,3,6,7) d caps(1,2)
      by (intro trade_window_step [where used = "bx_trades_used_today st" and prev = "bx_prev_day_ordinal st"])
        (auto simp: budget_ok_def ordinals_ok_def roll_fields)
    then show ?thesis using assms(2,5) d by (fastforce simp: counted_def ordinals_ok_def roll_fields)
  qed
  have month: "window_ok ms (\<lambda>_. 1) (int k) (Suc i) (int (bx_trades_used_month st')) (bx_prev_month_ordinal st') (xs @ ys @ zs)"
    if d: "bo_period_month_ordinal opts = Some ms" "bo_max_trades_per_month opts = Some k" for ms k
  proof -
    have "k - bx_trades_used_month ?r \<in> set (cap_candidates opts ?r)" using d by (simp add: cap_candidates_def has_month_trade_budget_def)
    then have "bx_trades_used_month ?r + count \<le> k \<and>
        window_ok ms (\<lambda>_. 1) (int k) (Suc i) (int (bx_trades_used_month ?r + count)) (Some (ms ! i)) (xs @ ys @ zs)"
      using assms(1,2,3,6,7) d caps(1,2)
      by (intro trade_window_step [where used = "bx_trades_used_month st" and prev = "bx_prev_month_ordinal st"])
        (auto simp: budget_ok_def ordinals_ok_def roll_fields)
    then show ?thesis using assms(2,5) d by (fastforce simp: counted_def ordinals_ok_def roll_fields)
  qed
  have worth: "window_ok ms xr_reference_notional (max v 0) (Suc i) (bx_value_used_month st') (bx_prev_month_ordinal st') (xs @ ys @ zs)"
    if d: "bo_period_month_ordinal opts = Some ms" "bo_max_traded_value_per_month opts = Some v" for ms v
  proof -
    have left: "has_month_value_budget opts" "month_value_left opts ?r = i64_sat (v - bx_value_used_month ?r)"
      using d by (simp_all add: has_month_value_budget_def month_value_left_def)
    have none: "ys = [] \<and> amount = 0" if "i64_sat (v - bx_value_used_month ?r) \<le> 0"
    proof -
      have "0 \<in> set (cap_candidates opts ?r)" using that left by (simp add: cap_candidates_def)
      then have "count = 0" using caps(2) by fastforce
      then show ?thesis using caps by simp
    qed
    have "0 \<le> bx_value_used_month ?r + amount \<and> bx_value_used_month ?r + amount \<le> i64_max \<and>
        window_ok ms xr_reference_notional (max v 0) (Suc i) (bx_value_used_month ?r + amount) (Some (ms ! i)) (xs @ ys @ zs)"
    proof (rule value_window_step [where used = "bx_value_used_month st" and prev = "bx_prev_month_ordinal st"])
      show "reference_total ys \<le> amount \<and> amount \<le> i64_sat (v - bx_value_used_month ?r)" if "0 < i64_sat (v - bx_value_used_month ?r)"
        using that assms(4) left by (simp add: within_caps_def)
    qed (use assms(1,2,3,6,7) d caps(4) none in \<open>auto simp: budget_ok_def ordinals_ok_def roll_fields\<close>)
    then show ?thesis using assms(5) d by (simp add: counted_def roll_fields)
  qed
  show ?thesis using day month worth by (simp add: budget_ok_def)
qed

lemma run_period_budget:
  assumes "bridge_ok start opts n n st" and "visits_all it" and "bo_record_executions opts" and "windowed_budgets_active opts"
    and "run_period it opts policy sched i weights bars st = ret (Inr st')"
    and "pf_executions (bx_portfolio st) = Some xs" and "budget_ok opts i st xs" and "ordinals_ok opts m" and "i < m"
  shows "bridge_ok start opts (Suc n) (Suc n) st' \<and> (\<exists>xs'. pf_executions (bx_portfolio st') = Some xs' \<and> budget_ok opts (Suc i) st' xs')"
proof -
  let ?st = "st\<lparr>bx_symbol_returns := bx_symbol_returns st @ [period_symbol_returns (bx_prev_prices st) bars]\<rparr>"
  let ?fills = "fill_prices_for_period sched i policy (bo_fill_schedule opts)"
  have ok: "bridge_ok start opts n (Suc n) ?st" using assms(1) by (simp add: bridge_ok_def)
  obtain r where r: "period_rebalance it opts ?fills i weights (set_budgets opts i ?st) = ret r"
      "(case r of Inl u \<Rightarrow> ret (Inl u) | Inr st1 \<Rightarrow> period_close it opts bars i st1) = ret (Inr st')"
    using assms(5) unfolding run_period_def Let_def rbind_eq_ret by blast
  then obtain st1 where st1: "r = Inr st1" "period_close it opts bars i st1 = ret (Inr st')" by (cases r) auto
  obtain ys count amount where ys: "pf_executions (bx_portfolio st1) = map_option (\<lambda>xs. xs @ ys) (pf_executions (bx_portfolio ?st))"
      "\<forall>y \<in> set ys. xr_period_index y = i \<and> xr_kind y = ForRebalance"
      "within_caps opts (roll_windows opts i ?st) count amount ys" "counted (roll_windows opts i ?st) count amount st1"
    using rebalance_counted [OF ok assms(2-4) r(1) [unfolded st1(1)]] by blast
  have ok1: "bridge_ok start opts n (Suc n) st1"
    using period_rebalance_ok [of start opts n "Suc n" "set_budgets opts i ?st" it ?fills i weights] ok assms(2) r(1) st1(1) by auto
  obtain zs where zs: "pf_executions (bx_portfolio st') = map_option (\<lambda>xs. xs @ zs) (pf_executions (bx_portfolio st1))"
      "\<forall>z \<in> set zs. xr_period_index z = i \<and> xr_kind z = StopExit"
    using close_counted [OF ok1 st1(2)] by blast
  have cnt: "counted (roll_windows opts i ?st) count amount st'"
    using ys(4) close_counted [OF ok1 st1(2)] by (simp add: counted_def)
  have "budget_ok opts i ?st xs" using assms(7) by (simp add: budget_ok_def)
  from budget_step [OF this assms(8,9) ys(3) cnt ys(2) zs(2)] have "budget_ok opts (Suc i) st' (xs @ ys @ zs)" .
  moreover have "pf_executions (bx_portfolio st') = Some (xs @ ys @ zs)" using ys(1) zs(1) assms(6) by simp
  moreover have "bridge_ok start opts (Suc n) (Suc n) st'"
    using run_period_ok [OF assms(1,2), of policy sched i weights bars] assms(5) by auto
  ultimately show ?thesis by blast
qed

lemma run_periods_budget:
  "bridge_ok start opts n n st \<Longrightarrow> visits_all it \<Longrightarrow> bo_record_executions opts \<Longrightarrow> windowed_budgets_active opts \<Longrightarrow>
   run_periods it opts policy sched i rows st = ret (Inr st') \<Longrightarrow> pf_executions (bx_portfolio st) = Some xs \<Longrightarrow>
   budget_ok opts i st xs \<Longrightarrow> ordinals_ok opts m \<Longrightarrow> i + length rows \<le> m \<Longrightarrow>
   \<exists>xs'. pf_executions (bx_portfolio st') = Some xs' \<and> budget_ok opts (i + length rows) st' xs'"
proof (induction rows arbitrary: n i st xs)
  case (Cons row rows)
  obtain weights bars where row: "row = (weights, bars)" by (cases row)
  obtain r where r: "run_period it opts policy sched i weights bars st = ret r"
      "(case r of Inl u \<Rightarrow> ret (Inl u) | Inr st1 \<Rightarrow> run_periods it opts policy sched (i + 1) rows st1) = ret (Inr st')"
    using Cons.prems(5) unfolding row run_periods.simps rbind_eq_ret by blast
  then obtain st1 where st1: "r = Inr st1" "run_periods it opts policy sched (i + 1) rows st1 = ret (Inr st')" by (cases r) auto
  from run_period_budget [OF Cons.prems(1-4) r(1) [unfolded st1(1)] Cons.prems(6-8)] Cons.prems(9)
  obtain xs1 where "bridge_ok start opts (Suc n) (Suc n) st1" "pf_executions (bx_portfolio st1) = Some xs1" "budget_ok opts (Suc i) st1 xs1"
    by auto
  from Cons.IH [OF this(1) Cons.prems(2-4) _ this(2,3) Cons.prems(8)] st1(2) Cons.prems(9) show ?case by simp
qed simp

text \<open>Without a budget nothing is asked of the counters.\<close>

lemma inactive_budgets: "\<not> windowed_budgets_active opts \<Longrightarrow> budget_ok opts i st xs"
  by (auto simp: windowed_budgets_active_def budget_ok_def has_day_budget_def has_month_trade_budget_def has_month_value_budget_def)

lemma run_budgets:
  assumes "visits_all it" and "0 < initial_cash" and "initial_cash \<le> i64_max" and "sane_slippage c" and "bo_quantity_step opts \<noteq> Some 1"
    and "bo_record_executions opts" and "ordinals_ok opts (length rows)"
    and "run_periods it opts policy sched 0 rows (bridge_start initial_cash c opts) = ret (Inr st)"
  shows "\<exists>xs. pf_executions (bx_portfolio st) = Some xs \<and> budget_ok opts (length rows) st xs"
proof (cases "windowed_budgets_active opts")
  case True
  have ok: "bridge_ok initial_cash opts 0 0 (bridge_start initial_cash c opts)" by (rule bridge_start_ok [OF assms(2-5)])
  have "pf_executions (bx_portfolio (bridge_start initial_cash c opts)) = Some []"
    using assms(6) by (auto simp: bridge_start_def configured_portfolio_def Let_def set_quantity_step_def set_min_order_value_def
        set_max_order_value_def set_no_trade_band_bps_def set_max_trades_per_rebalance_def enable_execution_recording_def split: option.split)
  moreover have "budget_ok opts 0 (bridge_start initial_cash c opts) []"
    by (simp add: budget_ok_def bridge_start_def window_start)
  ultimately show ?thesis using run_periods_budget [OF ok assms(1,6) True assms(8) _ _ assms(7)] by simp
next
  case False
  have "bridge_ok initial_cash opts (length rows) (length rows) st"
    using run_periods_ok [OF bridge_start_ok [OF assms(2-5)] assms(1), of policy sched 0 rows] assms(8) by auto
  then show ?thesis using assms(6) inactive_budgets [OF False] by (auto simp: bridge_ok_def)
qed

text \<open>C17. The budgets hold for the rebalances of a run. Counted over the recorded executions of its rebalances
  (the exits of stops are recorded too, but not counted against a budget, and they can exceed it), no day sees
  more trades than the daily budget, no month more than the monthly budget, and these executions of a month are
  worth no more, at their reference prices, than the monthly value budget, however the trades are spread
  over the rebalances and bars of that day or month. The initial cash is positive and fits \<open>i64\<close>, the slippage is
  finite and not negative, the quantity step is not 1, and the ordinals of days and months, one for each period,
  do not decrease, as documented.\<close>

theorem budgets_respected:
  assumes "visits_all it" and "0 < initial_cash" and "initial_cash \<le> i64_max" and "sane_slippage c" and "bo_quantity_step opts \<noteq> Some 1"
    and "bo_record_executions opts" and "ordinals_ok opts (length weight_schedule)"
    and "backtest_weights_with_options it weight_schedule price_schedule initial_cash c policy opts = ret r"
    and "br_executions r = Some xs"
  shows "(\<forall>days k d. bo_period_day_ordinal opts = Some days \<longrightarrow> bo_max_trades_per_day opts = Some k \<longrightarrow>
            length (filter (\<lambda>x. xr_kind x = ForRebalance \<and> days ! xr_period_index x = d) xs) \<le> k) \<and>
         (\<forall>ms k m. bo_period_month_ordinal opts = Some ms \<longrightarrow> bo_max_trades_per_month opts = Some k \<longrightarrow>
            length (filter (\<lambda>x. xr_kind x = ForRebalance \<and> ms ! xr_period_index x = m) xs) \<le> k) \<and>
         (\<forall>ms v m. bo_period_month_ordinal opts = Some ms \<longrightarrow> bo_max_traded_value_per_month opts = Some v \<longrightarrow>
            (\<Sum>x\<leftarrow>filter (\<lambda>x. xr_kind x = ForRebalance \<and> ms ! xr_period_index x = m) xs. xr_reference_notional x) \<le> max v 0)"
proof -
  have "xs = [] \<or> (\<exists>i st. budget_ok opts i st xs)"
  proof (cases "accepted weight_schedule price_schedule initial_cash opts")
    case False
    then have "r = empty_result initial_cash True" using assms(6,8) by (auto simp: backtest_weights_with_options_def accepted_def)
    then show ?thesis using assms(9) by (simp add: empty_result_def)
  next
    case acc: True
    note True = acc [unfolded accepted_def]
    then have len: "length (zip weight_schedule price_schedule) = length weight_schedule" by (simp add: valid_inputs_def)
    obtain res where res: "run_periods it opts policy price_schedule 0 (zip weight_schedule price_schedule) (bridge_start initial_cash c opts) = ret res"
        "r = (case res of Inl u \<Rightarrow> unpriced_result initial_cash u (bo_record_executions opts) | Inr st \<Rightarrow> finish_run initial_cash st)"
      using assms(8) True by (auto simp: backtest_weights_with_options_def rbind_eq_ret)
    show ?thesis
    proof (cases res)
      case (Inl u)
      then show ?thesis using res(2) assms(6,9) by (simp add: unpriced_result_def empty_result_def)
    next
      case (Inr st)
      then show ?thesis
        using run_budgets [OF assms(1-6), of "zip weight_schedule price_schedule" policy price_schedule st] res assms(7,9) len
        by (auto simp: finish_run_def take_executions_def)
    qed
  qed
  then show ?thesis
  proof
    assume "xs = []"
    then show ?thesis by simp
  next
    assume "\<exists>i st. budget_ok opts i st xs"
    then show ?thesis by (auto simp: budget_ok_def window_ok_def window_total_def sum_list_triv)
  qed
qed

definition one_a_day :: bridge_options where
  "one_a_day = bridge_options_default\<lparr>bo_record_executions := True, bo_max_trades_per_day := Some 1, bo_max_trades_per_month := Some 2,
     bo_max_traded_value_per_month := Some 500, bo_period_day_ordinal := Some [5, 5, 6], bo_period_month_ordinal := Some [1, 1, 1]\<rparr>"

theorem budgets_respected_witness:
  "\<exists>r xs. backtest_weights_with_options id [[(demo_symbol, f64_one)], [], [(demo_symbol, f64_one)]]
        [[(demo_symbol, demo_bar 10)], [(demo_symbol, demo_bar 20)], [(demo_symbol, demo_bar 15)]] 1000 cost_model_zero SignalBarClose one_a_day = ret r \<and>
      br_executions r = Some xs \<and> length (filter (\<lambda>x. xr_kind x = ForRebalance \<and> [5, 5, 6 :: int] ! xr_period_index x = 5) xs) \<le> 1 \<and>
      (\<Sum>x\<leftarrow>filter (\<lambda>x. xr_kind x = ForRebalance \<and> [1, 1, 1 :: int] ! xr_period_index x = 1) xs. xr_reference_notional x) \<le> 500"
proof -
  let ?ws = "[[(demo_symbol, f64_one)], [], [(demo_symbol, f64_one)]]"
  let ?ps = "[[(demo_symbol, demo_bar 10)], [(demo_symbol, demo_bar 20)], [(demo_symbol, demo_bar 15)]]"
  have c: "sane_slippage cost_model_zero" by (simp add: sane_slippage_def cost_model_zero_def)
  have o: "bo_quantity_step one_a_day \<noteq> Some 1" "bo_record_executions one_a_day" "bo_period_day_ordinal one_a_day = Some [5, 5, 6]"
    "bo_max_trades_per_day one_a_day = Some 1" "bo_period_month_ordinal one_a_day = Some [1, 1, 1]" "bo_max_traded_value_per_month one_a_day = Some 500"
    by (simp_all add: one_a_day_def bridge_options_default_def)
  have v: "visits_all id" "(0 :: int) < 1000" "1000 \<le> i64_max" by (simp_all add: visits_all_def i64_max_def)
  have "ordinals_ok one_a_day (length ?ws)" by (simp add: ordinals_ok_def one_a_day_def u64_max_def i64_max_def)
  moreover obtain r xs where "backtest_weights_with_options id ?ws ?ps 1000 cost_model_zero SignalBarClose one_a_day = ret r" "br_executions r = Some xs"
    using bridge_run [OF v c o(1), of ?ws ?ps SignalBarClose] o(2) by auto
  ultimately show ?thesis
    using budgets_respected [OF v c o(1,2), of ?ws ?ps SignalBarClose r xs] o(3-6) by fastforce
qed

end
