(* ===== verification/Attribution.thy ===== *)
theory Attribution
  imports Bridge Rebalance_Properties
begin

text \<open>
  The attribution of a back-test (\<open>decompose_backtest\<close> in \<open>src/backtest_bridge.rs\<close>): contributions of
  the symbols per period, their running sums, and the trades read off the weights. The trades are
  shown to be exactly the maximal runs of periods in which a symbol has a weight.
\<close>

section \<open>Model\<close>

record attribution_trade =
  at_symbol :: symbol
  at_entry_index :: nat
  at_exit_index :: "nat option"
  at_entry_weight :: f64
  at_exit_weight :: f64

record attribution_result =
  ar_contributions :: "(symbol \<times> f64) list list"
  ar_cumulative_contributions :: "(symbol \<times> f64) list list"
  ar_trades :: "attribution_trade list"

record attribution_state =
  as_cumulative :: "(symbol, f64) omap"
  as_open_trades :: "(symbol, nat \<times> f64) omap"
  as_trades :: "attribution_trade list"
  as_period_contrib :: "(symbol \<times> f64) list"
  as_period_cumulative :: "(symbol \<times> f64) list"

definition finite_or_zero :: "(symbol, f64) omap \<Rightarrow> symbol \<Rightarrow> f64" where
  "finite_or_zero m y = (case om_get m y of None \<Rightarrow> f64_zero | Some v \<Rightarrow> if f64_is_finite v then v else f64_zero)"

definition track_trade :: "nat \<Rightarrow> f64 \<Rightarrow> f64 \<Rightarrow> symbol \<Rightarrow> attribution_state \<Rightarrow> attribution_state" where
  "track_trade i previous weight y st =
     (if f64_eq previous f64_zero \<and> \<not> f64_eq weight f64_zero
      then st\<lparr>as_open_trades := om_insert y (i, weight) (as_open_trades st)\<rparr>
      else if \<not> f64_eq previous f64_zero \<and> f64_eq weight f64_zero
      then case om_get (as_open_trades st) y of
             None \<Rightarrow> st
           | Some (entry_index, entry_weight) \<Rightarrow>
               st\<lparr>as_open_trades := om_remove y (as_open_trades st),
                  as_trades := as_trades st @ [\<lparr>at_symbol = y, at_entry_index = entry_index, at_exit_index = Some i,
                    at_entry_weight = entry_weight, at_exit_weight = previous\<rparr>]\<rparr>
      else st)"

definition attribute_symbol ::
  "nat \<Rightarrow> (symbol, f64) omap \<Rightarrow> (symbol, f64) omap \<Rightarrow> (symbol, f64) omap \<Rightarrow> symbol \<Rightarrow> attribution_state \<Rightarrow> attribution_state" where
  "attribute_symbol i weights returns previous_weights y st =
     (let weight = finite_or_zero weights y;
          previous = finite_or_zero previous_weights y;
          st = track_trade i previous weight y st;
          contribution = f64_mul weight (finite_or_zero returns y)
      in if \<not> f64_eq contribution f64_zero \<or> \<not> f64_eq weight f64_zero \<or> \<not> f64_eq previous f64_zero
         then let running = f64_add (case om_get (as_cumulative st) y of None \<Rightarrow> f64_zero | Some c \<Rightarrow> c) contribution
              in st\<lparr>as_cumulative := om_insert y running (as_cumulative st),
                    as_period_contrib := as_period_contrib st @ [(y, contribution)],
                    as_period_cumulative := as_period_cumulative st @ [(y, running)]\<rparr>
         else st)"

definition period_symbols :: "(symbol, f64) omap \<Rightarrow> (symbol, f64) omap \<Rightarrow> (symbol, f64) omap \<Rightarrow> symbol list" where
  "period_symbols weights returns previous_weights =
     remdups_adj (sort (map fst weights @ map fst returns @ map fst previous_weights))"

definition attribute_period ::
  "nat \<Rightarrow> (symbol, f64) omap \<Rightarrow> (symbol, f64) omap \<Rightarrow> (symbol, f64) omap \<Rightarrow> attribution_state \<Rightarrow> attribution_state" where
  "attribute_period i weights returns previous_weights st =
     fold (attribute_symbol i weights returns previous_weights) (period_symbols weights returns previous_weights)
       (st\<lparr>as_period_contrib := [], as_period_cumulative := []\<rparr>)"

fun attribute_periods ::
  "nat \<Rightarrow> ((symbol \<times> f64) list \<times> (symbol \<times> f64) list) list \<Rightarrow> (symbol, f64) omap \<Rightarrow> attribution_state \<Rightarrow>
   (symbol \<times> f64) list list \<Rightarrow> (symbol \<times> f64) list list \<Rightarrow>
   attribution_state \<times> (symbol, f64) omap \<times> (symbol \<times> f64) list list \<times> (symbol \<times> f64) list list" where
  "attribute_periods i [] previous_weights st cs ks = (st, previous_weights, cs, ks)"
| "attribute_periods i ((weights, returns) # rows) previous_weights st cs ks =
     (let weight_map = collect_map weights;
          st = attribute_period i weight_map (collect_map returns) previous_weights st
      in attribute_periods (i + 1) rows weight_map st (cs @ [sort_key fst (as_period_contrib st)])
           (ks @ [sort_key fst (as_period_cumulative st)]))"

definition open_trade :: "(symbol, f64) omap \<Rightarrow> symbol \<times> nat \<times> f64 \<Rightarrow> attribution_trade" where
  "open_trade previous_weights = (\<lambda>(y, entry_index, entry_weight).
     \<lparr>at_symbol = y, at_entry_index = entry_index, at_exit_index = None, at_entry_weight = entry_weight,
      at_exit_weight = (case om_get previous_weights y of None \<Rightarrow> entry_weight | Some w \<Rightarrow> w)\<rparr>)"

text \<open>The stable sort by entry index and symbol is the sort by symbol followed by the one by entry index.\<close>

definition decompose_backtest :: "(symbol \<times> f64) list list \<Rightarrow> (symbol \<times> f64) list list \<Rightarrow> attribution_result" where
  "decompose_backtest weight_schedule return_schedule =
     (if length weight_schedule \<noteq> length return_schedule
      then \<lparr>ar_contributions = [], ar_cumulative_contributions = [], ar_trades = []\<rparr>
      else let (st, previous_weights, cs, ks) =
                 attribute_periods 0 (zip weight_schedule return_schedule) []
                   \<lparr>as_cumulative = [], as_open_trades = [], as_trades = [], as_period_contrib = [], as_period_cumulative = []\<rparr> [] []
           in \<lparr>ar_contributions = cs, ar_cumulative_contributions = ks,
               ar_trades = sort_key at_entry_index (sort_key at_symbol
                 (as_trades st @ map (open_trade previous_weights) (as_open_trades st)))\<rparr>)"

record trade_analytics =
  ta_trade_count :: nat
  ta_open_trade_count :: nat
  ta_closed_trade_count :: nat

definition tear_sheet_trades :: "bridge_result \<Rightarrow> trade_analytics" where
  "tear_sheet_trades r =
     (let trades = ar_trades (decompose_backtest (br_holdings r) (br_symbol_returns r))
      in \<lparr>ta_trade_count = length trades,
          ta_open_trade_count = length (filter (\<lambda>t. at_exit_index t = None) trades),
          ta_closed_trade_count = length (filter (\<lambda>t. at_exit_index t \<noteq> None) trades)\<rparr>)"

function chunks :: "nat \<Rightarrow> 'a list \<Rightarrow> 'a list list" where
  "chunks n xs = (if n = 0 \<or> xs = [] then [] else take n xs # chunks n (drop n xs))"
  by pat_completeness auto

termination
  by (relation "measure (\<lambda>(n, xs). length xs)") auto

definition monthly_return_matrix :: "f64 list \<Rightarrow> nat \<Rightarrow> f64 list list" where
  "monthly_return_matrix returns periods_per_month =
     (if periods_per_month = 0 then []
      else chunks 12 (map (\<lambda>chunk. f64_sub (foldl (\<lambda>acc v. f64_mul acc (f64_add f64_one v)) f64_one chunk) f64_one)
             (chunks periods_per_month returns)))"

section \<open>Trades are runs of weights\<close>

text \<open>The weight of a symbol in a period, and whether it is held there.\<close>

definition weight_at :: "(symbol \<times> f64) list list \<Rightarrow> symbol \<Rightarrow> nat \<Rightarrow> f64" where
  "weight_at ws y i = finite_or_zero (collect_map (ws ! i)) y"

definition held :: "(symbol \<times> f64) list list \<Rightarrow> symbol \<Rightarrow> nat \<Rightarrow> bool" where
  "held ws y i \<longleftrightarrow> \<not> f64_eq (weight_at ws y i) f64_zero"

text \<open>The symbol is held from \<open>e\<close> up to, but not including, \<open>x\<close>, and not just before.\<close>

definition run_from :: "(symbol \<times> f64) list list \<Rightarrow> symbol \<Rightarrow> nat \<Rightarrow> nat \<Rightarrow> bool" where
  "run_from ws y e x \<longleftrightarrow> e < x \<and> (\<forall>j. e \<le> j \<longrightarrow> j < x \<longrightarrow> held ws y j) \<and> (e = 0 \<or> \<not> held ws y (e - 1))"

definition closed_run :: "(symbol \<times> f64) list list \<Rightarrow> nat \<Rightarrow> attribution_trade \<Rightarrow> bool" where
  "closed_run ws n t \<longleftrightarrow> (\<exists>x. at_exit_index t = Some x \<and> x < n \<and> run_from ws (at_symbol t) (at_entry_index t) x \<and>
     \<not> held ws (at_symbol t) x \<and> at_entry_weight t = weight_at ws (at_symbol t) (at_entry_index t) \<and>
     at_exit_weight t = weight_at ws (at_symbol t) (x - 1))"

definition tracks :: "(symbol \<times> f64) list list \<Rightarrow> nat \<Rightarrow> attribution_state \<Rightarrow> bool" where
  "tracks ws n st \<longleftrightarrow> om_ok (as_open_trades st) \<and>
     (\<forall>y e w. om_get (as_open_trades st) y = Some (e, w) \<longleftrightarrow> run_from ws y e n \<and> w = weight_at ws y e) \<and>
     (\<forall>t. t \<in> set (as_trades st) \<longleftrightarrow> closed_run ws n t)"

lemma run_from_Suc:
  "run_from ws y e (Suc i) \<longleftrightarrow> held ws y i \<and> (run_from ws y e i \<or> e = i \<and> (i = 0 \<or> \<not> held ws y (i - 1)))"
  by (auto simp: run_from_def less_Suc_eq) (auto dest!: spec [where x = i])

lemma run_from_held: "run_from ws y e i \<Longrightarrow> 0 < i \<and> held ws y (i - 1)"
  by (auto simp: run_from_def)

lemma closed_run_Suc:
  "closed_run ws (Suc i) t \<longleftrightarrow> closed_run ws i t \<or>
     at_exit_index t = Some i \<and> run_from ws (at_symbol t) (at_entry_index t) i \<and> \<not> held ws (at_symbol t) i \<and>
     at_entry_weight t = weight_at ws (at_symbol t) (at_entry_index t) \<and> at_exit_weight t = weight_at ws (at_symbol t) (i - 1)"
  by (auto simp: closed_run_def less_Suc_eq)

text \<open>The effect of one symbol, and of all the symbols of a period.\<close>

definition open_after :: "nat \<Rightarrow> f64 \<Rightarrow> f64 \<Rightarrow> (nat \<times> f64) option \<Rightarrow> (nat \<times> f64) option" where
  "open_after i p w old = (if f64_eq p f64_zero \<and> \<not> f64_eq w f64_zero then Some (i, w)
     else if \<not> f64_eq p f64_zero \<and> f64_eq w f64_zero then None else old)"

definition closes_now :: "nat \<Rightarrow> f64 \<Rightarrow> f64 \<Rightarrow> (nat \<times> f64) option \<Rightarrow> symbol \<Rightarrow> attribution_trade \<Rightarrow> bool" where
  "closes_now i p w old y t \<longleftrightarrow> \<not> f64_eq p f64_zero \<and> f64_eq w f64_zero \<and>
     (\<exists>e ew. old = Some (e, ew) \<and>
        t = \<lparr>at_symbol = y, at_entry_index = e, at_exit_index = Some i, at_entry_weight = ew, at_exit_weight = p\<rparr>)"

lemma attribute_symbol_effect:
  assumes "om_ok (as_open_trades st)" and st': "st' = attribute_symbol i ws rs ps x st"
  shows "om_ok (as_open_trades st')"
    and "om_get (as_open_trades st') y =
       (if y = x then open_after i (finite_or_zero ps x) (finite_or_zero ws x) (om_get (as_open_trades st) x) else om_get (as_open_trades st) y)"
    and "t \<in> set (as_trades st') \<longleftrightarrow> t \<in> set (as_trades st) \<or>
       closes_now i (finite_or_zero ps x) (finite_or_zero ws x) (om_get (as_open_trades st) x) x t"
proof -
  have o: "as_open_trades st' = as_open_trades (track_trade i (finite_or_zero ps x) (finite_or_zero ws x) x st)"
    and t: "as_trades st' = as_trades (track_trade i (finite_or_zero ps x) (finite_or_zero ws x) x st)"
    by (simp_all add: st' attribute_symbol_def Let_def)
  show "om_ok (as_open_trades st')" unfolding o using assms(1) by (auto simp: track_trade_def om_ok_insert om_ok_remove split: option.splits)
  show "om_get (as_open_trades st') y =
      (if y = x then open_after i (finite_or_zero ps x) (finite_or_zero ws x) (om_get (as_open_trades st) x) else om_get (as_open_trades st) y)"
    unfolding o by (auto simp: track_trade_def open_after_def kv_simps split: option.splits)
  show "t \<in> set (as_trades st') \<longleftrightarrow> t \<in> set (as_trades st) \<or>
      closes_now i (finite_or_zero ps x) (finite_or_zero ws x) (om_get (as_open_trades st) x) x t"
    unfolding t by (auto simp: track_trade_def closes_now_def split: option.splits)
qed

lemma attribute_fold_effect:
  "om_ok (as_open_trades st) \<Longrightarrow> distinct ys \<Longrightarrow>
   om_ok (as_open_trades (fold (attribute_symbol i ws rs ps) ys st)) \<and>
   (\<forall>y. om_get (as_open_trades (fold (attribute_symbol i ws rs ps) ys st)) y =
      (if y \<in> set ys then open_after i (finite_or_zero ps y) (finite_or_zero ws y) (om_get (as_open_trades st) y) else om_get (as_open_trades st) y)) \<and>
   (\<forall>t. t \<in> set (as_trades (fold (attribute_symbol i ws rs ps) ys st)) \<longleftrightarrow> t \<in> set (as_trades st) \<or>
      (\<exists>y \<in> set ys. closes_now i (finite_or_zero ps y) (finite_or_zero ws y) (om_get (as_open_trades st) y) y t))"
proof (induction ys arbitrary: st)
  case (Cons x ys)
  note e = attribute_symbol_effect [OF Cons.prems(1) refl, where i = i and ws = ws and rs = rs and ps = ps and x = x]
  have d: "distinct ys" "x \<notin> set ys" using Cons.prems(2) by simp_all
  have same: "(\<exists>y \<in> set ys. closes_now i (finite_or_zero ps y) (finite_or_zero ws y) (if y = x then A else om_get (as_open_trades st) y) y t) \<longleftrightarrow>
      (\<exists>y \<in> set ys. closes_now i (finite_or_zero ps y) (finite_or_zero ws y) (om_get (as_open_trades st) y) y t)" for A t
    using d(2) by (intro bex_cong refl) auto
  let ?st = "attribute_symbol i ws rs ps x st"
  from Cons.IH [OF e(1) d(1), unfolded e(2,3)]
  have f: "om_ok (as_open_trades (fold (attribute_symbol i ws rs ps) ys ?st))"
    "\<And>y. om_get (as_open_trades (fold (attribute_symbol i ws rs ps) ys ?st)) y =
       (if y \<in> set ys
        then open_after i (finite_or_zero ps y) (finite_or_zero ws y)
               (if y = x then open_after i (finite_or_zero ps x) (finite_or_zero ws x) (om_get (as_open_trades st) x) else om_get (as_open_trades st) y)
        else if y = x then open_after i (finite_or_zero ps x) (finite_or_zero ws x) (om_get (as_open_trades st) x) else om_get (as_open_trades st) y)"
    "\<And>t. t \<in> set (as_trades (fold (attribute_symbol i ws rs ps) ys ?st)) \<longleftrightarrow>
       (t \<in> set (as_trades st) \<or> closes_now i (finite_or_zero ps x) (finite_or_zero ws x) (om_get (as_open_trades st) x) x t) \<or>
       (\<exists>y \<in> set ys. closes_now i (finite_or_zero ps y) (finite_or_zero ws y) (om_get (as_open_trades st) y) y t)"
    unfolding same by blast+
  show ?case unfolding fold_simps using f(1) d(2) by (intro conjI allI) (auto simp: f(2,3))
qed simp

lemma distinct_remdups_adj_sorted: "sorted xs \<Longrightarrow> distinct (remdups_adj xs)"
  by (induction xs rule: remdups_adj.induct) (auto split: if_splits)

lemma absent_symbol:
  "y \<notin> set (period_symbols ws rs ps) \<Longrightarrow> finite_or_zero ws y = f64_zero \<and> finite_or_zero ps y = f64_zero"
  by (auto simp: period_symbols_def finite_or_zero_def map_of_eq_None_iff image_iff split: option.splits dest!: map_of_SomeD)

lemma attribute_period_effect:
  assumes "om_ok (as_open_trades st)"
  shows "om_ok (as_open_trades (attribute_period i ws rs ps st))"
    and "om_get (as_open_trades (attribute_period i ws rs ps st)) y =
       open_after i (finite_or_zero ps y) (finite_or_zero ws y) (om_get (as_open_trades st) y)"
    and "t \<in> set (as_trades (attribute_period i ws rs ps st)) \<longleftrightarrow> t \<in> set (as_trades st) \<or>
       (\<exists>y. closes_now i (finite_or_zero ps y) (finite_or_zero ws y) (om_get (as_open_trades st) y) y t)"
proof -
  let ?ys = "period_symbols ws rs ps" and ?st = "st\<lparr>as_period_contrib := [], as_period_cumulative := []\<rparr>"
  have "distinct ?ys" by (simp add: period_symbols_def distinct_remdups_adj_sorted)
  note f = attribute_fold_effect [of ?st, OF _ this, of i ws rs ps]
  have zero: "f64_eq f64_zero f64_zero" by (simp add: f64_eq_def)
  show "om_ok (as_open_trades (attribute_period i ws rs ps st))" using f assms by (simp add: attribute_period_def)
  show "om_get (as_open_trades (attribute_period i ws rs ps st)) y =
      open_after i (finite_or_zero ps y) (finite_or_zero ws y) (om_get (as_open_trades st) y)"
    using f assms absent_symbol [of y ws rs ps] zero by (cases "y \<in> set ?ys") (auto simp: attribute_period_def open_after_def)
  have "y \<in> set ?ys" if "closes_now i (finite_or_zero ps y) (finite_or_zero ws y) old y t" for y old
    using that absent_symbol [of y ws rs ps] zero unfolding closes_now_def by metis
  then show "t \<in> set (as_trades (attribute_period i ws rs ps st)) \<longleftrightarrow> t \<in> set (as_trades st) \<or>
      (\<exists>y. closes_now i (finite_or_zero ps y) (finite_or_zero ws y) (om_get (as_open_trades st) y) y t)"
    using f assms by (auto simp: attribute_period_def)
qed

lemma tracks_step:
  assumes "tracks ws i st" and "\<And>y. finite_or_zero pm y = (if i = 0 then f64_zero else weight_at ws y (i - 1))"
  shows "tracks ws (Suc i) (attribute_period i (collect_map (ws ! i)) rm pm st)"
proof -
  let ?st = "attribute_period i (collect_map (ws ! i)) rm pm st"
  have ok: "om_ok (as_open_trades st)" using assms(1) by (simp add: tracks_def)
  note e = attribute_period_effect [OF ok, where i = i and ws = "collect_map (ws ! i)" and rs = rm and ps = pm, folded weight_at_def, unfolded assms(2)]
  have zero: "f64_eq f64_zero f64_zero" by (simp add: f64_eq_def)
  have w: "f64_eq (weight_at ws y j) f64_zero \<longleftrightarrow> \<not> held ws y j" for y j by (simp add: held_def)
  have op: "om_get (as_open_trades st) y = Some (e, x) \<longleftrightarrow> run_from ws y e i \<and> x = weight_at ws y e" for y e x
    using assms(1) by (simp add: tracks_def)
  have "om_get (as_open_trades ?st) y = Some (e, x) \<longleftrightarrow> run_from ws y e (Suc i) \<and> x = weight_at ws y e" for y e x
    using run_from_held [of ws y e i] zero
    by (auto simp: e(2) open_after_def op w run_from_Suc split: if_splits)
  moreover have "t \<in> set (as_trades ?st) \<longleftrightarrow> closed_run ws (Suc i) t" for t
  proof -
    have "(\<exists>y. closes_now i (if i = 0 then f64_zero else weight_at ws y (i - 1)) (weight_at ws y i) (om_get (as_open_trades st) y) y t) \<longleftrightarrow>
        at_exit_index t = Some i \<and> run_from ws (at_symbol t) (at_entry_index t) i \<and> \<not> held ws (at_symbol t) i \<and>
        at_entry_weight t = weight_at ws (at_symbol t) (at_entry_index t) \<and> at_exit_weight t = weight_at ws (at_symbol t) (i - 1)"
      using run_from_held [of ws "at_symbol t" "at_entry_index t" i] zero by (cases t) (auto simp: closes_now_def op w)
    then show ?thesis using assms(1) by (simp add: e(3) closed_run_Suc tracks_def)
  qed
  ultimately show ?thesis using e(1) by (simp add: tracks_def)
qed

lemma attribute_periods_track:
  assumes "tracks ws i st" and "length rs = length ws" and "i \<le> length ws" and "pm = (if i = 0 then [] else collect_map (ws ! (i - 1)))"
    and "attribute_periods i (zip (drop i ws) (drop i rs)) pm st cs ks = (st', pm', cs', ks')"
  shows "tracks ws (length ws) st' \<and> pm' = (if ws = [] then [] else collect_map (ws ! (length ws - 1)))"
  using assms
proof (induction "length ws - i" arbitrary: i st pm cs ks)
  case 0
  then show ?case by (auto split: if_splits)
next
  case (Suc k)
  then have i: "i < length ws" by simp
  have rows: "zip (drop i ws) (drop i rs) = (ws ! i, rs ! i) # zip (drop (Suc i) ws) (drop (Suc i) rs)"
    using i Suc.prems(2) by (simp add: Cons_nth_drop_Suc [symmetric])
  have "finite_or_zero pm y = (if i = 0 then f64_zero else weight_at ws y (i - 1))" for y
    using Suc.prems(4) by (simp add: weight_at_def) (simp add: finite_or_zero_def)
  note t = tracks_step [OF Suc.prems(1) this, of "collect_map (rs ! i)"]
  let ?st = "attribute_period i (collect_map (ws ! i)) (collect_map (rs ! i)) pm st"
  have run: "attribute_periods (Suc i) (zip (drop (Suc i) ws) (drop (Suc i) rs)) (collect_map (ws ! i)) ?st
      (cs @ [sort_key fst (as_period_contrib ?st)]) (ks @ [sort_key fst (as_period_cumulative ?st)]) = (st', pm', cs', ks')"
    using Suc.prems(5) unfolding rows by (simp add: Let_def)
  show ?case by (rule Suc.hyps(1) [OF _ t Suc.prems(2) _ _ run]) (use i Suc.hyps(2) in simp_all)
qed

definition open_run :: "(symbol \<times> f64) list list \<Rightarrow> nat \<Rightarrow> attribution_trade \<Rightarrow> bool" where
  "open_run ws n t \<longleftrightarrow> at_exit_index t = None \<and> run_from ws (at_symbol t) (at_entry_index t) n \<and>
     at_entry_weight t = weight_at ws (at_symbol t) (at_entry_index t) \<and> at_exit_weight t = weight_at ws (at_symbol t) (n - 1)"

lemma open_trades_are_runs:
  assumes "tracks ws n st" and "n = length ws" and "pm = (if ws = [] then [] else collect_map (ws ! (n - 1)))"
  shows "t \<in> set (map (open_trade pm) (as_open_trades st)) \<longleftrightarrow> open_run ws n t"
proof -
  have ok: "om_ok (as_open_trades st)" using assms(1) by (simp add: tracks_def)
  have w: "(case om_get pm y of None \<Rightarrow> x | Some v \<Rightarrow> v) = weight_at ws y (n - 1)" if "run_from ws y e n" for y e x
  proof -
    have "0 < n" "held ws y (n - 1)" using run_from_held [OF that] by simp_all
    then show ?thesis using assms(2,3) by (auto simp: held_def weight_at_def finite_or_zero_def f64_eq_def split: option.splits if_splits)
  qed
  have mem: "(y, e, x) \<in> set (as_open_trades st) \<longleftrightarrow> run_from ws y e n \<and> x = weight_at ws y e" for y e x
    using assms(1) om_get_in_set [OF ok, of y "(e, x)"] by (simp add: tracks_def)
  show ?thesis
  proof
    assume "t \<in> set (map (open_trade pm) (as_open_trades st))"
    then obtain y e x where "(y, e, x) \<in> set (as_open_trades st)" "t = open_trade pm (y, e, x)" by auto
    then show "open_run ws n t" using mem w [of y e x] by (auto simp: open_run_def open_trade_def)
  next
    assume o: "open_run ws n t"
    then have "t = open_trade pm (at_symbol t, at_entry_index t, at_entry_weight t)"
      using w [of "at_symbol t" "at_entry_index t"] by (cases t) (simp add: open_run_def open_trade_def)
    moreover have "(at_symbol t, at_entry_index t, at_entry_weight t) \<in> set (as_open_trades st)" using o mem by (simp add: open_run_def)
    ultimately show "t \<in> set (map (open_trade pm) (as_open_trades st))" by (metis image_eqI list.set_map)
  qed
qed

text \<open>C21. The trades of the attribution are exactly the maximal runs of periods in which a symbol has a weight:
  a record is in the result if and only if it describes such a run, closed in the first period without
  the weight or still open at the end, with the weights of its first and last period. Weights that are not
  finite count as none. The records come in the order of their entries.\<close>

theorem trades_are_weight_runs:
  assumes "length return_schedule = length weight_schedule"
  shows "(\<forall>t. t \<in> set (ar_trades (decompose_backtest weight_schedule return_schedule)) \<longleftrightarrow>
            closed_run weight_schedule (length weight_schedule) t \<or> open_run weight_schedule (length weight_schedule) t) \<and>
         sorted (map at_entry_index (ar_trades (decompose_backtest weight_schedule return_schedule)))"
proof -
  let ?ws = weight_schedule
  let ?init = "\<lparr>as_cumulative = [], as_open_trades = [], as_trades = [], as_period_contrib = [], as_period_cumulative = []\<rparr> :: attribution_state"
  obtain st pm cs ks where run: "attribute_periods 0 (zip ?ws return_schedule) [] ?init [] [] = (st, pm, cs, ks)"
    by (metis prod_cases4)
  have "tracks ?ws 0 ?init" by (simp add: tracks_def run_from_def closed_run_def)
  from attribute_periods_track [OF this assms, of "[]" "[]" "[]" st pm cs ks] run
  have t: "tracks ?ws (length ?ws) st" "pm = (if ?ws = [] then [] else collect_map (?ws ! (length ?ws - 1)))" by simp_all
  have trades: "ar_trades (decompose_backtest ?ws return_schedule) =
      sort_key at_entry_index (sort_key at_symbol (as_trades st @ map (open_trade pm) (as_open_trades st)))"
    using assms run by (simp add: decompose_backtest_def)
  show ?thesis using open_trades_are_runs [OF t(1) refl t(2)] t(1) by (simp add: trades tracks_def)
qed

theorem trades_are_weight_runs_witness:
  "\<forall>t. t \<in> set (ar_trades (decompose_backtest [[(demo_symbol, f64_one)], []] [[(demo_symbol, f64_one)], []])) \<longleftrightarrow>
     closed_run [[(demo_symbol, f64_one)], []] 2 t \<or> open_run [[(demo_symbol, f64_one)], []] 2 t"
  using trades_are_weight_runs [of "[[(demo_symbol, f64_one)], []]" "[[(demo_symbol, f64_one)], []]"] by (simp add: numeral_2_eq_2)

end
