(* ===== verification/Ibkr_Orders.thy ===== *)
theory Ibkr_Orders
  imports Execution
begin

text \<open>
  Orders sent to Interactive Brokers (\<open>broker/src/ibkr/orders.rs\<close>). The API client
  (\<open>ibapi\<close>) is a parameter: the values its calls return, and for a subscription the responses
  it delivers together with how it ends. A subscription blocks its reader while nothing
  arrives, so the one that stays open without a further response is \<open>Silent\<close>, and a call that
  waits for it does not return: its value is \<open>None\<close>. Times are nanoseconds. Texts of the API
  are UTF-8; lower-casing them is only followed by a search for ASCII words without the letter
  \<open>k\<close>, for which it is enough to lower the ASCII letters. A mutex is not poisoned, as
  no code panics while it holds one.
\<close>

section \<open>Texts\<close>

definition show_int :: "int \<Rightarrow> string" where
  "show_int i = (if i < 0 then ''-'' @ show_nat (nat (- i)) else show_nat (nat i))"

definition lower_char :: "char \<Rightarrow> char" where
  "lower_char c = (let n = of_char c :: nat in if 65 \<le> n \<and> n \<le> 90 then char_of (n + 32) else c)"

fun contains_text :: "string \<Rightarrow> string \<Rightarrow> bool" where
  "contains_text [] w \<longleftrightarrow> w = []"
| "contains_text (c # cs) w \<longleftrightarrow> take (length w) (c # cs) = w \<or> contains_text cs w"

definition mentions :: "string \<Rightarrow> string list \<Rightarrow> bool" where
  "mentions s ws \<longleftrightarrow> list_ex (contains_text (map lower_char s)) ws"

section \<open>Order status\<close>

definition map_ibkr_order_status :: "string \<Rightarrow> order_state" where
  "map_ibkr_order_status st =
     (if st \<in> set [''Submitted'', ''PreSubmitted'', ''PendingSubmit'', ''ApiPending''] then OrdSubmitted
      else if st = ''PartiallyFilled'' then OrdPartiallyFilled
      else if st = ''Filled'' then OrdFilled
      else if st \<in> set [''Cancelled'', ''ApiCancelled'', ''PendingCancel''] then OrdCancelled
      else if st = ''Inactive'' then OrdRejected
      else OrdSubmitted)"

text \<open>The text of the error carries the number, which is either infinite or not a number.\<close>

definition show_nonfinite :: "f64 \<Rightarrow> string" where
  "show_nonfinite v = (case v of FNaN \<Rightarrow> ''NaN'' | FInf s \<Rightarrow> if s then ''-inf'' else ''inf'' | FFin _ _ \<Rightarrow> [])"

definition rounded_non_negative_u64 :: "f64 \<Rightarrow> string \<Rightarrow> broker_error + nat" where
  "rounded_non_negative_u64 v field =
     (if \<not> f64_is_finite v then Inl (OrderError (field @ '' is not finite: '' @ show_nonfinite v))
      else Inr (f64_to_u64 (f64_round_int (f64_max v (FFin False 0)))))"

text \<open>\<open>i32 as u64\<close> extends the sign.\<close>

definition i32_as_u64 :: "int \<Rightarrow> nat" where
  "i32_as_u64 i = nat (i mod 2 ^ 64)"

definition u64_as_i32 :: "nat \<Rightarrow> int" where
  "u64_as_i32 n = (int n + 2 ^ 31) mod 2 ^ 32 - 2 ^ 31"

definition broker_order_status_from_ibkr_parts :: "int \<Rightarrow> string \<Rightarrow> f64 \<Rightarrow> f64 \<Rightarrow> f64 \<Rightarrow> broker_error + broker_order_status" where
  "broker_order_status_from_ibkr_parts i st filled remaining avg =
     (case rounded_non_negative_u64 filled ''ibkr order.filled'' of
        Inl e \<Rightarrow> Inl e
      | Inr fq \<Rightarrow>
          (case rounded_non_negative_u64 remaining ''ibkr order.remaining'' of
             Inl e \<Rightarrow> Inl e
           | Inr rq \<Rightarrow>
               let mapped = if fq > 0 \<and> rq > 0 then OrdPartiallyFilled else map_ibkr_order_status st
               in (case f64_cents_checked avg ''ibkr order.average_fill_price'' of
                     Inl e \<Rightarrow> Inl e
                   | Inr cents \<Rightarrow> Inr \<lparr>bos_id = i32_as_u64 i, bos_status = mapped, bos_filled_quantity = fq,
                                     bos_remaining_quantity = rq, bos_avg_fill_price_cents = cents\<rparr>)))"

definition broker_order_status_from_order_data :: "int \<Rightarrow> string \<Rightarrow> f64 \<Rightarrow> broker_error + broker_order_status" where
  "broker_order_status_from_order_data i st total_quantity =
     broker_order_status_from_ibkr_parts i st (FFin False 0) total_quantity (FFin False 0)"

section \<open>Encoding an order\<close>

record best_quote =
  bq_bid_cents :: int
  bq_ask_cents :: int

text \<open>The arguments the order builders of the API are called with, and the reference set on the result.\<close>

datatype ib_order_kind = IbMarket | IbLimit f64 | IbStop f64 | IbStopLimit f64 f64

record ib_order =
  io_action :: broker_side
  io_quantity :: f64
  io_kind :: ib_order_kind
  io_order_ref :: "nat list option"

definition price_dollars :: "int \<Rightarrow> f64" where
  "price_dollars cents = f64_div (f64_of_int cents) (f64_of_int 100)"

definition slip_bps :: f64 where
  "slip_bps = f64_div (f64_of_int 50) (f64_of_int 10000)"

text \<open>\<open>strict\<close> is the feature \<open>strict-market-reject\<close>.\<close>

definition encode_order :: "bool \<Rightarrow> broker_order \<Rightarrow> best_quote option \<Rightarrow> broker_error + f64 \<times> f64" where
  "encode_order strict x bq =
     (let quantity = f64_of_int (int (bo_quantity x))
      in case bo_order_type x of
           MarketOrder \<Rightarrow>
             if strict then Inl MarketOrderRejected
             else (case bq of
                     None \<Rightarrow> Inl (NoQuoteForMarketOrder (map char_of (as_str (bo_symbol x))))
                   | Some q \<Rightarrow>
                       Inr (case bo_side x of
                              BrokerBuy \<Rightarrow> f64_mul (price_dollars (bq_ask_cents q)) (f64_add (f64_of_int 1) slip_bps)
                            | BrokerSell \<Rightarrow> f64_mul (price_dollars (bq_bid_cents q)) (f64_sub (f64_of_int 1) slip_bps), quantity))
         | LimitOrder p \<Rightarrow> Inr (price_dollars p, quantity)
         | StopOrder p \<Rightarrow> Inr (price_dollars p, quantity)
         | StopLimitOrder _ limit \<Rightarrow> Inr (price_dollars limit, quantity))"

definition encode_ibkr_order :: "bool \<Rightarrow> broker_order \<Rightarrow> best_quote option \<Rightarrow> broker_error + ib_order" where
  "encode_ibkr_order strict x bq =
     (let build = (\<lambda>q k. \<lparr>io_action = bo_side x, io_quantity = q, io_kind = k, io_order_ref = None\<rparr>);
          quantity = f64_of_int (int (bo_quantity x))
      in case bo_order_type x of
           MarketOrder \<Rightarrow> if strict then Inl MarketOrderRejected else Inr (build quantity IbMarket)
         | LimitOrder _ \<Rightarrow>
             (case encode_order strict x bq of Inl e \<Rightarrow> Inl e | Inr (limit, q) \<Rightarrow> Inr (build q (IbLimit limit)))
         | StopOrder stop \<Rightarrow> Inr (build quantity (IbStop (price_dollars stop)))
         | StopLimitOrder stop limit \<Rightarrow> Inr (build quantity (IbStopLimit (price_dollars limit) (price_dollars stop))))"

section \<open>The API client\<close>

datatype stream_end = Closed | Silent

datatype place_response =
    OrderStatusMsg string f64 f64 f64
  | ExecutionDataMsg f64 f64
  | CommissionReportMsg f64
  | MessageMsg int string
  | OpenOrderMsg

text \<open>
  A delivered response, with the time since the order was placed when the reader looks at it,
  and the clock when the cache of callbacks is consulted.
\<close>

record delivery =
  dl_elapsed :: nat
  dl_now :: nat
  dl_response :: place_response

datatype cancel_response = CancelStatusMsg string | CancelNoticeMsg string

datatype cancel_reply = CancelRefused string | CancelStream "cancel_response list" stream_end

record ib_session =
  ib_next_valid_order_id :: "string + int"
  ib_place_order :: "int \<Rightarrow> nat list \<Rightarrow> ib_order \<Rightarrow> string + delivery list \<times> stream_end"
  ib_cancel :: "int \<Rightarrow> cancel_reply"
  ib_elapsed :: nat

definition submit_order :: "bool \<Rightarrow> ib_session \<Rightarrow> broker_order \<Rightarrow> best_quote option \<Rightarrow> broker_error + nat" where
  "submit_order strict S x bq =
     (case encode_ibkr_order strict x bq of
        Inl e \<Rightarrow> Inl e
      | Inr y \<Rightarrow>
          let y1 = (case bo_client_order_id x of None \<Rightarrow> y | Some cid \<Rightarrow> y\<lparr>io_order_ref := Some cid\<rparr>)
          in case ib_next_valid_order_id S of
               Inl e \<Rightarrow> Inl (OrderError (''failed to get order id: '' @ e))
             | Inr i \<Rightarrow>
                 (case ib_place_order S i (as_str (bo_symbol x)) y1 of
                    Inl e \<Rightarrow> Inl (OrderError (''failed to place order '' @ show_int i @ '': '' @ e))
                  | Inr _ \<Rightarrow> Inr (i32_as_u64 i)))"

section \<open>Cancelling\<close>

fun read_cancel :: "int \<Rightarrow> cancel_response list \<Rightarrow> stream_end \<Rightarrow> (broker_error + unit) option" where
  "read_cancel i [] e = (case e of Closed \<Rightarrow> Some (Inr ()) | Silent \<Rightarrow> None)"
| "read_cancel i (CancelStatusMsg st # rs) e =
     (if st = ''Cancelled'' \<or> st = ''Filled'' then Some (Inr ()) else read_cancel i rs e)"
| "read_cancel i (CancelNoticeMsg msg # rs) e =
     (if mentions msg [''cannot cancel'', ''already filled'', ''order completed'', ''no such order'']
      then Some (Inl (CancelReject i msg)) else read_cancel i rs e)"

definition cancel_order :: "cancel_reply \<Rightarrow> int \<Rightarrow> (broker_error + unit) option" where
  "cancel_order reply i =
     (case reply of
        CancelStream rs e \<Rightarrow> read_cancel i rs e
      | CancelRefused e \<Rightarrow>
          Some (if mentions e [''already filled'', ''order completed'', ''no such order''] then Inr ()
                else Inl (OrderError (''failed to cancel order '' @ show_int i @ '': '' @ e))))"

definition reconcile_filled_order :: "int \<Rightarrow> string \<Rightarrow> broker_error + bool" where
  "reconcile_filled_order i reason = Inr (mentions reason [''filled'', ''completed'', ''executed''])"

section \<open>Executing a limit order\<close>

record order_callback_key =
  ck_order_id :: int
  ck_status :: string
  ck_filled_quantity :: int

type_synonym callback_dedup_cache = "(order_callback_key \<times> nat) list"

text \<open>Entries older than five minutes are dropped before the key is looked up.\<close>

definition check_callback :: "nat \<Rightarrow> order_callback_key \<Rightarrow> callback_dedup_cache \<Rightarrow> callback_dedup_cache \<times> bool" where
  "check_callback now k cache =
     (let live = filter (\<lambda>(_, t). now - t < 300 * 10 ^ 9) cache
      in if k \<in> fst ` set live then (live, True) else (live @ [(k, now)], False))"

record fills =
  fi_filled :: f64
  fi_avg_price :: f64
  fi_commission :: f64

definition no_fills :: fills where
  "no_fills = \<lparr>fi_filled = FFin False 0, fi_avg_price = FFin False 0, fi_commission = FFin False 0\<rparr>"

definition some_filled :: "fills \<Rightarrow> bool" where
  "some_filled fs \<longleftrightarrow> f64_lt (FFin False 0) (fi_filled fs)"

definition partial_or_cancelled :: "fills \<Rightarrow> order_outcome" where
  "partial_or_cancelled fs = (if some_filled fs then OutPartialFill else OutCancelled)"

definition on_timeout :: "cancel_reply \<Rightarrow> int \<Rightarrow> fills \<Rightarrow> order_outcome option" where
  "on_timeout reply i fs =
     (case cancel_order reply i of
        None \<Rightarrow> None
      | Some (Inl (CancelReject j reason)) \<Rightarrow>
          Some (if reconcile_filled_order j reason = Inr True then OutFilled else partial_or_cancelled fs)
      | Some _ \<Rightarrow> Some (partial_or_cancelled fs))"

fun dedup_status :: "int \<Rightarrow> delivery \<Rightarrow> string \<Rightarrow> f64 \<Rightarrow> callback_dedup_cache option \<Rightarrow> callback_dedup_cache option \<times> bool" where
  "dedup_status i d st filled None = (None, False)"
| "dedup_status i d st filled (Some cache) =
     (case check_callback (dl_now d)
             \<lparr>ck_order_id = i, ck_status = st, ck_filled_quantity = f64_to_i64 (f64_round_int filled)\<rparr> cache of
        (cache', dup) \<Rightarrow> (Some cache', dup))"

text \<open>The reader of the subscription; an outcome \<open>OutFailed\<close> means that no response has settled the order.\<close>

fun read_responses :: "cancel_reply \<Rightarrow> nat \<Rightarrow> int \<Rightarrow> stream_end \<Rightarrow> delivery list \<Rightarrow> callback_dedup_cache option \<Rightarrow> fills \<Rightarrow>
    (callback_dedup_cache option \<times> (broker_error + order_outcome \<times> fills)) option" where
  "read_responses reply timeout i e [] cache fs =
     (case e of Closed \<Rightarrow> Some (cache, Inr (OutFailed, fs)) | Silent \<Rightarrow> None)"
| "read_responses reply timeout i e (d # ds) cache fs =
     (if dl_elapsed d > timeout
      then map_option (\<lambda>r. (cache, Inr (r, fs))) (on_timeout reply i fs)
      else case dl_response d of
             OrderStatusMsg st filled remaining avg \<Rightarrow>
               (case dedup_status i d st filled cache of (cache', dup) \<Rightarrow>
                  if dup then read_responses reply timeout i e ds cache' fs
                  else let fs' = fs\<lparr>fi_filled := filled, fi_avg_price := avg\<rparr>
                       in if st = ''Filled'' then Some (cache', Inr (OutFilled, fs'))
                          else if st = ''Cancelled'' then Some (cache', Inr (partial_or_cancelled fs', fs'))
                          else read_responses reply timeout i e ds cache' fs')
           | ExecutionDataMsg _ _ \<Rightarrow> read_responses reply timeout i e ds cache fs
           | CommissionReportMsg c \<Rightarrow> read_responses reply timeout i e ds cache (fs\<lparr>fi_commission := c\<rparr>)
           | MessageMsg code _ \<Rightarrow>
               if code < 0 \<or> code \<ge> 2000
               then if code = 1100 \<or> code = 1101 \<or> code = 1102
                    then Some (cache, Inl (ConnectionLost i (f64_to_i64 (f64_round_int (fi_filled fs)))))
                    else read_responses reply timeout i e ds cache fs
               else read_responses reply timeout i e ds cache fs
           | OpenOrderMsg \<Rightarrow> read_responses reply timeout i e ds cache fs)"

definition conclude_order :: "nat \<Rightarrow> nat \<Rightarrow> symbol \<Rightarrow> int \<Rightarrow> order_outcome \<Rightarrow> fills \<Rightarrow> broker_error + order_result" where
  "conclude_order timeout elapsed y i r fs =
     (if r = OutFailed \<and> elapsed < timeout \<and> some_filled fs
      then Inl (ConnectionLost i (f64_to_i64 (f64_round_int (fi_filled fs))))
      else Inr \<lparr>or_symbol = y, or_order_id = i, or_filled_shares = f64_to_i64 (fi_filled fs),
                or_avg_fill_price = fi_avg_price fs, or_commission = fi_commission fs, or_status = r\<rparr>)"

definition limit_ib_order :: "broker_side \<Rightarrow> int \<Rightarrow> int \<Rightarrow> nat list option \<Rightarrow> ib_order" where
  "limit_ib_order side shares limit_price_cents cid =
     \<lparr>io_action = side, io_quantity = f64_of_int shares, io_kind = IbLimit (price_dollars limit_price_cents), io_order_ref = cid\<rparr>"

definition execute_limit_order :: "ib_session \<Rightarrow> symbol \<Rightarrow> broker_side \<Rightarrow> int \<Rightarrow> int \<Rightarrow> nat list option \<Rightarrow> nat \<Rightarrow>
    callback_dedup_cache option \<Rightarrow> (callback_dedup_cache option \<times> (broker_error + order_result)) option" where
  "execute_limit_order S y side shares limit_price_cents cid timeout cache =
     (case ib_next_valid_order_id S of
        Inl e \<Rightarrow> Some (cache, Inl (OrderError (''failed to get order id: '' @ e)))
      | Inr i \<Rightarrow>
          (case ib_place_order S i (as_str y) (limit_ib_order side shares limit_price_cents cid) of
             Inl e \<Rightarrow> Some (cache, Inl (OrderError (''failed to place order '' @ show_int i @ '': '' @ e)))
           | Inr (ds, e) \<Rightarrow>
               (case read_responses (ib_cancel S i) timeout i e ds cache no_fills of
                  None \<Rightarrow> None
                | Some (cache', Inl err) \<Rightarrow> Some (cache', Inl err)
                | Some (cache', Inr (r, fs)) \<Rightarrow> Some (cache', conclude_order timeout (ib_elapsed S) y i r fs))))"

section \<open>Reconciling after a disconnect\<close>

definition reconcile_partial_fill :: "int \<Rightarrow> symbol \<Rightarrow> int \<Rightarrow> int \<Rightarrow> broker_position list \<Rightarrow> broker_side \<Rightarrow> broker_error + order_result" where
  "reconcile_partial_fill i y pre_filled expected_total ps side =
     (let result = (\<lambda>n r. Inr \<lparr>or_symbol = y, or_order_id = i, or_filled_shares = n, or_avg_fill_price = FFin False 0,
                                or_commission = FFin False 0, or_status = r\<rparr>);
          unchanged = if pre_filled > 0 then OutPartialFill else OutFailed
      in case List.find (\<lambda>p. bp_symbol p = y) ps of
           None \<Rightarrow> result pre_filled unchanged
         | Some p \<Rightarrow>
             let q = (case side of BrokerBuy \<Rightarrow> bp_quantity p | BrokerSell \<Rightarrow> i64_wrap (- bp_quantity p));
                 held = i64_wrap \<bar>q\<bar>
             in if held > pre_filled then result held OutPartialFill
                else if held = pre_filled then result pre_filled unchanged
                else result pre_filled OutPartialFill)"

end
