(* ===== verification/Ibkr_Client.thy ===== *)
theory Ibkr_Client
  imports Ibkr_Orders Kill_Properties
begin

text \<open>
  The client and the broker of Interactive Brokers (\<open>broker/src/ibkr/client.rs\<close>,
  \<open>broker/src/ibkr/mod.rs\<close>, \<open>broker/src/parse.rs\<close>) and the gateway through which the
  rebalancer uses them (\<open>rebalancer/src/broker.rs\<close>). The answers of the API to one call are
  a record; the caches behind the mutexes are the state. As in the theory of orders, a call
  that waits for a subscription on which nothing arrives has the value \<open>None\<close>.
\<close>

section \<open>Numbers in texts\<close>

text \<open>\<open>str::parse::<f64>\<close>: the decimal value rounded once, infinities and NaN by name.\<close>

definition is_digit :: "char \<Rightarrow> bool" where
  "is_digit c \<longleftrightarrow> (let n = of_char c :: nat in 48 \<le> n \<and> n \<le> 57)"

definition digits_value :: "string \<Rightarrow> nat" where
  "digits_value ds = foldl (\<lambda>a c. 10 * a + (of_char c - 48)) 0 ds"

definition split_sign :: "string \<Rightarrow> bool \<times> string" where
  "split_sign s =
     (case s of [] \<Rightarrow> (False, []) | c # cs \<Rightarrow> if c = CHR ''-'' then (True, cs) else if c = CHR ''+'' then (False, cs) else (False, s))"

definition parse_exponent :: "string \<Rightarrow> int option" where
  "parse_exponent s =
     (case s of
        [] \<Rightarrow> Some 0
      | c # cs \<Rightarrow>
          if lower_char c \<noteq> CHR ''e'' then None
          else let (neg, ds) = split_sign cs
               in if ds = [] \<or> \<not> list_all is_digit ds then None
                  else Some (if neg then - int (digits_value ds) else int (digits_value ds)))"

definition parse_decimal :: "string \<Rightarrow> rat option" where
  "parse_decimal s =
     (let whole = takeWhile is_digit s; rest = dropWhile is_digit s;
          (frac, tail) = (case rest of
                            c # cs \<Rightarrow> if c = CHR ''.'' then (takeWhile is_digit cs, dropWhile is_digit cs) else ([], rest)
                          | [] \<Rightarrow> ([], []))
      in if whole = [] \<and> frac = [] then None
         else case parse_exponent tail of
                None \<Rightarrow> None
              | Some x \<Rightarrow>
                  let k = x - int (length frac); m = rat_of_nat (digits_value (whole @ frac))
                  in Some (if 0 \<le> k then m * 10 ^ nat k else m / 10 ^ nat (- k)))"

definition parse_f64 :: "string \<Rightarrow> f64 option" where
  "parse_f64 s =
     (let (neg, body) = split_sign s; word = map lower_char body
      in if word = ''inf'' \<or> word = ''infinity'' then Some (FInf neg)
         else if word = ''nan'' then Some FNaN
         else map_option (f64_round neg) (parse_decimal body))"

definition parse_f64_or_warn :: "string \<Rightarrow> f64" where
  "parse_f64_or_warn raw = (case parse_f64 raw of Some v \<Rightarrow> v | None \<Rightarrow> FFin False 0)"

section \<open>The API and the caches\<close>

datatype position_update = PositionMsg "nat list" f64 f64 | PositionEnd

datatype orders_update =
    OrderDataUpd int string f64
  | OrderStatusUpd int string f64 f64 f64
  | OrdersNotice

datatype account_update = SummaryMsg string string | SummaryEnd

datatype tick_type = TickBid | TickAsk | TickLast | TickOther

datatype tick = PriceTick tick_type f64 | PriceSizeTick tick_type f64 | SnapshotEnd | OtherTick

record ib_api =
  ia_connect :: "string + unit"
  ia_positions :: "string + position_update list \<times> stream_end"
  ia_open_orders :: "string + orders_update list \<times> stream_end"
  ia_account_summary :: "string + account_update list \<times> stream_end"
  ia_market_data :: "nat list \<Rightarrow> string + tick list \<times> stream_end"
  ia_session :: ib_session
  ia_now :: nat
  ia_wall :: int

record cached_order =
  co_order_id :: int
  co_symbol :: symbol
  co_quantity :: int
  co_side :: string
  co_status :: string
  co_submitted_at :: nat

record ibkr_client =
  ic_best_quotes :: "(symbol, best_quote) omap"
  ic_order_cache :: "(int, cached_order) omap"
  ic_callback_cache :: callback_dedup_cache

definition client_connect :: "ib_api \<Rightarrow> string \<Rightarrow> nat \<Rightarrow> broker_error + ibkr_client" where
  "client_connect A host port =
     (case ia_connect A of
        Inl e \<Rightarrow> Inl (Connection (''failed to connect to '' @ host @ '':'' @ show_nat port @ '': '' @ e))
      | Inr _ \<Rightarrow> Inr \<lparr>ic_best_quotes = [], ic_order_cache = [], ic_callback_cache = []\<rparr>)"

definition cache_order :: "nat \<Rightarrow> int \<Rightarrow> symbol \<Rightarrow> int \<Rightarrow> string \<Rightarrow> ibkr_client \<Rightarrow> ibkr_client" where
  "cache_order now i y q side c =
     c\<lparr>ic_order_cache := om_insert i \<lparr>co_order_id = i, co_symbol = y, co_quantity = q, co_side = side,
         co_status = ''Submitted'', co_submitted_at = now\<rparr> (ic_order_cache c)\<rparr>"

definition update_cached_order_status :: "int \<Rightarrow> string \<Rightarrow> ibkr_client \<Rightarrow> ibkr_client" where
  "update_cached_order_status i st c =
     c\<lparr>ic_order_cache := om_update i (\<lambda>x. x\<lparr>co_status := st\<rparr>) (ic_order_cache c)\<rparr>"

definition get_cached_order :: "int \<Rightarrow> ibkr_client \<Rightarrow> cached_order option" where
  "get_cached_order i c = om_get (ic_order_cache c) i"

definition cached_orders :: "ibkr_client \<Rightarrow> cached_order list" where
  "cached_orders c = om_values (ic_order_cache c)"

definition clear_order_cache :: "ibkr_client \<Rightarrow> ibkr_client" where
  "clear_order_cache c = c\<lparr>ic_order_cache := []\<rparr>"

definition cached_best_quote :: "symbol \<Rightarrow> ibkr_client \<Rightarrow> best_quote option" where
  "cached_best_quote y c = om_get (ic_best_quotes c) y"

definition cache_best_quote :: "symbol \<Rightarrow> best_quote \<Rightarrow> ibkr_client \<Rightarrow> ibkr_client" where
  "cache_best_quote y q c = c\<lparr>ic_best_quotes := om_insert y q (ic_best_quotes c)\<rparr>"

definition client_submit_order :: "bool \<Rightarrow> ib_api \<Rightarrow> broker_order \<Rightarrow> ibkr_client \<Rightarrow> ibkr_client \<times> (broker_error + nat)" where
  "client_submit_order strict A x c =
     (case submit_order strict (ia_session A) x (cached_best_quote (bo_symbol x) c) of
        Inl e \<Rightarrow> (c, Inl e)
      | Inr i \<Rightarrow>
          (cache_order (ia_now A) (u64_as_i32 i) (bo_symbol x) (i64_wrap (int (bo_quantity x)))
             (case bo_side x of BrokerBuy \<Rightarrow> ''Buy'' | BrokerSell \<Rightarrow> ''Sell'') c, Inr i))"

definition callback_key :: "int \<Rightarrow> string \<Rightarrow> f64 \<Rightarrow> order_callback_key" where
  "callback_key i st filled = \<lparr>ck_order_id = i, ck_status = st, ck_filled_quantity = f64_to_i64 (f64_round_int filled)\<rparr>"

definition live_callbacks :: "nat \<Rightarrow> callback_dedup_cache \<Rightarrow> callback_dedup_cache" where
  "live_callbacks now cache = filter (\<lambda>(_, t). now - t < 300 * 10 ^ 9) cache"

definition is_duplicate_callback :: "nat \<Rightarrow> int \<Rightarrow> string \<Rightarrow> f64 \<Rightarrow> ibkr_client \<Rightarrow> ibkr_client \<times> bool" where
  "is_duplicate_callback now i st filled c =
     (let live = live_callbacks now (ic_callback_cache c)
      in (c\<lparr>ic_callback_cache := live\<rparr>, callback_key i st filled \<in> fst ` set live))"

definition record_processed_callback :: "nat \<Rightarrow> int \<Rightarrow> string \<Rightarrow> f64 \<Rightarrow> ibkr_client \<Rightarrow> ibkr_client" where
  "record_processed_callback now i st filled c =
     (let k = callback_key i st filled
      in c\<lparr>ic_callback_cache := filter (\<lambda>(k', _). k' \<noteq> k) (live_callbacks now (ic_callback_cache c)) @ [(k, now)]\<rparr>)"

section \<open>Queries\<close>

fun client_read_positions :: "position_update list \<Rightarrow> stream_end \<Rightarrow> broker_position list \<Rightarrow> (broker_error + broker_position list) option" where
  "client_read_positions [] e ps = (case e of Closed \<Rightarrow> Some (Inr ps) | Silent \<Rightarrow> None)"
| "client_read_positions (PositionEnd # us) e ps = Some (Inr ps)"
| "client_read_positions (PositionMsg name position average_cost # us) e ps =
     (case symbol_try_new name of
        None \<Rightarrow> client_read_positions us e ps
      | Some y \<Rightarrow>
          let q = f64_to_i64 position
          in case f64_cents_checked average_cost ''ibkr position.average_cost'' of
               Inl err \<Rightarrow> Some (Inl err)
             | Inr cost \<Rightarrow>
                 client_read_positions us e
                   (ps @ [\<lparr>bp_symbol = y, bp_quantity = q, bp_avg_cost_cents = cost,
                           bp_market_value_cents = i64_wrap (i64_wrap \<bar>q\<bar> * cost), bp_unrealized_pnl_cents = 0\<rparr>]))"

definition client_positions :: "ib_api \<Rightarrow> (broker_error + broker_position list) option" where
  "client_positions A =
     (case ia_positions A of
        Inl e \<Rightarrow> Some (Inl (Connection (''failed to request positions: '' @ e)))
      | Inr (us, e) \<Rightarrow> client_read_positions us e [])"

text \<open>The statuses are collected by identifier; a later one replaces an earlier one.\<close>

fun read_open_orders :: "orders_update list \<Rightarrow> stream_end \<Rightarrow> (nat, broker_order_status) omap \<Rightarrow> ibkr_client \<Rightarrow>
    (ibkr_client \<times> (broker_error + broker_order_status list)) option" where
  "read_open_orders [] e m c = (case e of Closed \<Rightarrow> Some (c, Inr (om_values m)) | Silent \<Rightarrow> None)"
| "read_open_orders (OrderDataUpd i st amount # us) e m c =
     (case broker_order_status_from_order_data i st amount of
        Inl err \<Rightarrow> Some (c, Inl err)
      | Inr b \<Rightarrow> read_open_orders us e (om_insert (bos_id b) b m) c)"
| "read_open_orders (OrderStatusUpd i st filled remaining avg # us) e m c =
     (case broker_order_status_from_ibkr_parts i st filled remaining avg of
        Inl err \<Rightarrow> Some (c, Inl err)
      | Inr b \<Rightarrow> read_open_orders us e (om_insert (bos_id b) b m) (update_cached_order_status i st c))"
| "read_open_orders (OrdersNotice # us) e m c = read_open_orders us e m c"

definition client_open_orders :: "ib_api \<Rightarrow> ibkr_client \<Rightarrow> (ibkr_client \<times> (broker_error + broker_order_status list)) option" where
  "client_open_orders A c =
     (case ia_open_orders A of
        Inl e \<Rightarrow> Some (c, Inl (Connection (''failed to request open orders: '' @ e)))
      | Inr (us, e) \<Rightarrow> read_open_orders us e [] c)"

text \<open>Equity, cash and buying power as read so far.\<close>

definition account_tag :: "string \<Rightarrow> string \<Rightarrow> f64 \<times> f64 \<times> f64 \<Rightarrow> f64 \<times> f64 \<times> f64" where
  "account_tag tag raw v =
     (case v of (equity, cash, bp) \<Rightarrow>
        if tag = ''NetLiquidation'' then (parse_f64_or_warn raw, cash, bp)
        else if tag = ''TotalCashValue'' then (equity, parse_f64_or_warn raw, bp)
        else if tag = ''BuyingPower'' then (equity, cash, parse_f64_or_warn raw)
        else (equity, cash, bp))"

fun read_account :: "account_update list \<Rightarrow> stream_end \<Rightarrow> f64 \<times> f64 \<times> f64 \<Rightarrow> (f64 \<times> f64 \<times> f64) option" where
  "read_account [] e v = (case e of Closed \<Rightarrow> Some v | Silent \<Rightarrow> None)"
| "read_account (SummaryEnd # us) e v = Some v"
| "read_account (SummaryMsg tag raw # us) e v = read_account us e (account_tag tag raw v)"

definition account_in_cents :: "f64 \<times> f64 \<times> f64 \<Rightarrow> broker_error + account" where
  "account_in_cents v =
     (case v of (equity, cash, bp) \<Rightarrow>
        case f64_cents_checked equity ''ibkr NetLiquidation'' of Inl e \<Rightarrow> Inl e | Inr eq \<Rightarrow>
        case f64_cents_checked cash ''ibkr TotalCashValue'' of Inl e \<Rightarrow> Inl e | Inr ca \<Rightarrow>
        case f64_cents_checked bp ''ibkr BuyingPower'' of Inl e \<Rightarrow> Inl e | Inr po \<Rightarrow>
        case f64_cents_checked (f64_sub equity cash) ''ibkr gross_position_value'' of Inl e \<Rightarrow> Inl e | Inr gr \<Rightarrow>
        Inr \<lparr>ac_equity_cents = eq, ac_buying_power_cents = po, ac_cash_cents = ca, ac_gross_position_value_cents = gr\<rparr>)"

definition account_summary :: "ib_api \<Rightarrow> (broker_error + account) option" where
  "account_summary A =
     (case ia_account_summary A of
        Inl e \<Rightarrow> Some (Inl (Connection (''failed to request account summary: '' @ e)))
      | Inr (us, e) \<Rightarrow> map_option account_in_cents (read_account us e (FFin False 0, FFin False 0, FFin False 0)))"

record tick_prices =
  tp_bid :: "f64 option"
  tp_ask :: "f64 option"
  tp_last :: "f64 option"

definition set_tick :: "tick_type \<Rightarrow> f64 \<Rightarrow> tick_prices \<Rightarrow> tick_prices" where
  "set_tick k p t =
     (case k of TickBid \<Rightarrow> t\<lparr>tp_bid := Some p\<rparr> | TickAsk \<Rightarrow> t\<lparr>tp_ask := Some p\<rparr> | TickLast \<Rightarrow> t\<lparr>tp_last := Some p\<rparr> | TickOther \<Rightarrow> t)"

fun read_ticks :: "tick list \<Rightarrow> stream_end \<Rightarrow> tick_prices \<Rightarrow> tick_prices option" where
  "read_ticks [] e t = (case e of Closed \<Rightarrow> Some t | Silent \<Rightarrow> None)"
| "read_ticks (PriceTick k p # us) e t = read_ticks us e (set_tick k p t)"
| "read_ticks (PriceSizeTick k p # us) e t = read_ticks us e (set_tick k p t)"
| "read_ticks (SnapshotEnd # us) e t = Some t"
| "read_ticks (OtherTick # us) e t = read_ticks us e t"

definition tick_cents :: "f64 option \<Rightarrow> string \<Rightarrow> broker_error + int" where
  "tick_cents p field = (case p of None \<Rightarrow> Inr 0 | Some v \<Rightarrow> f64_cents_checked v field)"

definition quote_of_ticks :: "int \<Rightarrow> symbol \<Rightarrow> tick_prices \<Rightarrow> broker_error + quote" where
  "quote_of_ticks wall y t =
     (case tick_cents (tp_bid t) ''ibkr tick.bid'' of Inl e \<Rightarrow> Inl e | Inr bid \<Rightarrow>
      case tick_cents (tp_ask t) ''ibkr tick.ask'' of Inl e \<Rightarrow> Inl e | Inr ask' \<Rightarrow>
      case tick_cents (tp_last t) ''ibkr tick.last'' of Inl e \<Rightarrow> Inl e | Inr last' \<Rightarrow>
      if bid \<le> 0 \<and> ask' \<le> 0 \<and> last' \<le> 0 then Inl (Connection ''no valid price received'')
      else Inr \<lparr>qt_symbol = y, qt_bid_cents = bid, qt_ask_cents = ask', qt_last_cents = last', qt_volume = 0,
                qt_timestamp = wall\<rparr>)"

definition best_quote_from_quote :: "quote \<Rightarrow> best_quote option" where
  "best_quote_from_quote q =
     (if qt_bid_cents q > 0 \<and> qt_ask_cents q > 0
      then Some \<lparr>bq_bid_cents = qt_bid_cents q, bq_ask_cents = qt_ask_cents q\<rparr> else None)"

definition client_quote :: "ib_api \<Rightarrow> symbol \<Rightarrow> ibkr_client \<Rightarrow> (ibkr_client \<times> (broker_error + quote)) option" where
  "client_quote A y c =
     (case ia_market_data A (as_str y) of
        Inl e \<Rightarrow> Some (c, Inl (Connection (''market data request failed: '' @ e)))
      | Inr (us, e) \<Rightarrow>
          map_option (\<lambda>t. case quote_of_ticks (ia_wall A) y t of
                            Inl err \<Rightarrow> (c, Inl err)
                          | Inr q \<Rightarrow> (case best_quote_from_quote q of None \<Rightarrow> c | Some bq \<Rightarrow> cache_best_quote y bq c, Inr q))
            (read_ticks us e \<lparr>tp_bid = None, tp_ask = None, tp_last = None\<rparr>))"

definition mid_of_quote :: "quote \<Rightarrow> broker_error + int" where
  "mid_of_quote q =
     (let b = qt_bid_cents q; a = qt_ask_cents q;
          mid = (if b > 0 \<and> a > 0 then i64_wrap (b + trunc_div (i64_wrap (a - b)) 2)
                 else if b > 0 then b else if a > 0 then a else qt_last_cents q)
      in if mid \<le> 0 then Inl (Connection ''no valid price received'') else Inr mid)"

definition client_mid_price :: "ib_api \<Rightarrow> symbol \<Rightarrow> ibkr_client \<Rightarrow> (ibkr_client \<times> (broker_error + int)) option" where
  "client_mid_price A y c =
     map_option (\<lambda>(c1, r). (c1, case r of Inl e \<Rightarrow> Inl e | Inr q \<Rightarrow> mid_of_quote q)) (client_quote A y c)"

fun client_prices :: "ib_api \<Rightarrow> symbol list \<Rightarrow> (symbol \<times> int) list \<Rightarrow> ibkr_client \<Rightarrow>
    (ibkr_client \<times> (broker_error + (symbol \<times> int) list)) option" where
  "client_prices A [] ps c = Some (c, Inr ps)"
| "client_prices A (y # ys) ps c =
     (case client_mid_price A y c of
        None \<Rightarrow> None
      | Some (c1, Inl e) \<Rightarrow> Some (c1, Inl e)
      | Some (c1, Inr mid) \<Rightarrow> client_prices A ys (ps @ [(y, mid)]) c1)"

definition client_reconnect :: "ib_api \<Rightarrow> string \<Rightarrow> nat \<Rightarrow> ibkr_client \<Rightarrow> (ibkr_client \<times> (broker_error + broker_position list)) option" where
  "client_reconnect A host port c =
     (case ia_connect A of
        Inl e \<Rightarrow> Some (c, Inl (Connection (''failed to reconnect to '' @ host @ '':'' @ show_nat port @ '': '' @ e)))
      | Inr _ \<Rightarrow> map_option (Pair (clear_order_cache (c\<lparr>ic_callback_cache := []\<rparr>))) (client_positions A))"

section \<open>The broker\<close>

datatype connection_state = ConnConnected | ConnDisconnected | ConnReconnecting

datatype ibkr_discrepancy =
    OrphanOrder nat
  | MissingOrder nat
  | OrderStatusMismatch nat string order_state
  | PositionMismatch symbol int int

record discrepancy_report =
  dr_discrepancies :: "ibkr_discrepancy list"
  dr_has_critical_issues :: bool

record ibkr_broker =
  ik_host :: string
  ik_port :: nat
  ik_client :: "ibkr_client option"
  ik_state :: connection_state
  ik_blocked :: bool

definition ibkr_new :: "string \<Rightarrow> nat \<Rightarrow> ibkr_broker" where
  "ibkr_new host port =
     \<lparr>ik_host = host, ik_port = port, ik_client = None, ik_state = ConnDisconnected, ik_blocked = False\<rparr>"

definition ibkr_connect :: "ib_api \<Rightarrow> ibkr_broker \<Rightarrow> ibkr_broker \<times> (broker_error + unit)" where
  "ibkr_connect A b =
     (case client_connect A (ik_host b) (ik_port b) of
        Inl e \<Rightarrow> (b, Inl e)
      | Inr c \<Rightarrow> (b\<lparr>ik_client := Some c, ik_state := ConnConnected\<rparr>, Inr ()))"

definition ibkr_disconnect :: "ibkr_broker \<Rightarrow> ibkr_broker \<times> (broker_error + unit)" where
  "ibkr_disconnect b = (b\<lparr>ik_client := None, ik_state := ConnDisconnected\<rparr>, Inr ())"

definition block_reconciliation :: "ibkr_broker \<Rightarrow> ibkr_broker" where
  "block_reconciliation b = b\<lparr>ik_blocked := True\<rparr>"

definition unblock_reconciliation :: "ibkr_broker \<Rightarrow> ibkr_broker" where
  "unblock_reconciliation b = b\<lparr>ik_blocked := False\<rparr>"

definition ibkr_is_connected :: "ibkr_broker \<Rightarrow> bool" where
  "ibkr_is_connected b \<longleftrightarrow> ik_state b = ConnConnected"

text \<open>A method of the client run on the client of the broker, if there is one.\<close>

definition on_client :: "ibkr_broker \<Rightarrow> (ibkr_client \<Rightarrow> (ibkr_client \<times> (broker_error + 'a)) option) \<Rightarrow>
    (ibkr_broker \<times> (broker_error + 'a)) option" where
  "on_client b f =
     (case ik_client b of
        None \<Rightarrow> Some (b, Inl NotConnected)
      | Some c \<Rightarrow> map_option (\<lambda>(c1, r). (b\<lparr>ik_client := Some c1\<rparr>, r)) (f c))"

definition ibkr_reconnect :: "ib_api \<Rightarrow> ibkr_broker \<Rightarrow> (ibkr_broker \<times> (broker_error + broker_position list)) option" where
  "ibkr_reconnect A b = on_client b (client_reconnect A (ik_host b) (ik_port b))"

definition ibkr_positions :: "ib_api \<Rightarrow> ibkr_broker \<Rightarrow> (ibkr_broker \<times> (broker_error + broker_position list)) option" where
  "ibkr_positions A b = on_client b (\<lambda>c. map_option (Pair c) (client_positions A))"

definition ibkr_account :: "ib_api \<Rightarrow> ibkr_broker \<Rightarrow> (ibkr_broker \<times> (broker_error + account)) option" where
  "ibkr_account A b = on_client b (\<lambda>c. map_option (Pair c) (account_summary A))"

definition ibkr_submit_order :: "bool \<Rightarrow> ib_api \<Rightarrow> broker_order \<Rightarrow> ibkr_broker \<Rightarrow> (ibkr_broker \<times> (broker_error + nat)) option" where
  "ibkr_submit_order strict A x b =
     (if ik_blocked b then Some (b, Inl (OrderError ''Reconciliation blocked - manual review required''))
      else on_client b (\<lambda>c. Some (client_submit_order strict A x c)))"

definition ibkr_order_status :: "nat \<Rightarrow> ibkr_broker \<Rightarrow> broker_error + broker_order_status" where
  "ibkr_order_status i b =
     (case ik_client b of
        None \<Rightarrow> Inl NotConnected
      | Some _ \<Rightarrow> Inr \<lparr>bos_id = i, bos_status = OrdSubmitted, bos_filled_quantity = 0, bos_remaining_quantity = 0,
                       bos_avg_fill_price_cents = 0\<rparr>)"

definition ibkr_open_orders :: "ib_api \<Rightarrow> ibkr_broker \<Rightarrow> (ibkr_broker \<times> (broker_error + broker_order_status list)) option" where
  "ibkr_open_orders A b =
     on_client b (\<lambda>c. map_option (\<lambda>(c1, r). (c1, case r of Inr xs \<Rightarrow> Inr xs | Inl _ \<Rightarrow> Inr [])) (client_open_orders A c))"

definition ibkr_cancel_order :: "ib_api \<Rightarrow> nat \<Rightarrow> ibkr_broker \<Rightarrow> (ibkr_broker \<times> (broker_error + unit)) option" where
  "ibkr_cancel_order A i b =
     on_client b (\<lambda>c. map_option (Pair c) (cancel_order (ib_cancel (ia_session A) (u64_as_i32 i)) (u64_as_i32 i)))"

definition ibkr_quote :: "ib_api \<Rightarrow> symbol \<Rightarrow> ibkr_broker \<Rightarrow> (ibkr_broker \<times> (broker_error + quote)) option" where
  "ibkr_quote A y b = on_client b (client_quote A y)"

text \<open>
  Reconnecting with backoff: the API may answer differently at each attempt. The delays
  slept, in milliseconds, are returned too. The text of an error is a parameter.
\<close>

definition backoff_delay :: "nat \<Rightarrow> nat" where
  "backoff_delay attempt = min (1000 * 2 ^ (attempt - 1)) 16000"

fun reconnect_attempts :: "(broker_error \<Rightarrow> string) \<Rightarrow> (nat \<Rightarrow> ib_api) \<Rightarrow> nat list \<Rightarrow> string \<Rightarrow> nat list \<Rightarrow> ibkr_broker \<Rightarrow>
    (ibkr_broker \<times> nat list \<times> (broker_error + unit)) option" where
  "reconnect_attempts show_error api [] last_error slept b =
     Some (b\<lparr>ik_state := ConnDisconnected\<rparr>, slept, Inl (ReconnectFailed 5 last_error))"
| "reconnect_attempts show_error api (n # ns) last_error slept b =
     (let slept' = (if n > 1 then slept @ [backoff_delay n] else slept)
      in case ibkr_reconnect (api n) (b\<lparr>ik_state := ConnReconnecting\<rparr>) of
           None \<Rightarrow> None
         | Some (b1, Inr _) \<Rightarrow> Some (b1\<lparr>ik_state := ConnConnected\<rparr>, slept', Inr ())
         | Some (b1, Inl e) \<Rightarrow> reconnect_attempts show_error api ns (show_error e) slept' b1)"

definition reconnect_with_backoff :: "(broker_error \<Rightarrow> string) \<Rightarrow> (nat \<Rightarrow> ib_api) \<Rightarrow> ibkr_broker \<Rightarrow>
    (ibkr_broker \<times> nat list \<times> (broker_error + unit)) option" where
  "reconnect_with_backoff show_error api b = reconnect_attempts show_error api [1..<6] ''unknown error'' [] b"

text \<open>Comparing the listed orders with the cached ones. The lists come in the order of a hash map, here by key.\<close>

definition compare_open :: "ibkr_client \<Rightarrow> broker_order_status \<Rightarrow> ibkr_discrepancy list" where
  "compare_open c x =
     (case get_cached_order (u64_as_i32 (bos_id x)) c of
        Some y \<Rightarrow>
          if map_ibkr_order_status (co_status y) \<noteq> bos_status x
          then [OrderStatusMismatch (bos_id x) (co_status y) (bos_status x)] else []
      | None \<Rightarrow> [OrphanOrder (bos_id x)])"

definition compare_cached :: "broker_order_status list \<Rightarrow> cached_order \<Rightarrow> ibkr_discrepancy list" where
  "compare_cached xs y =
     (if \<not> list_ex (\<lambda>x. bos_id x = i32_as_u64 (co_order_id y)) xs then [MissingOrder (i32_as_u64 (co_order_id y))] else [])"

definition reconcile_state :: "ib_api \<Rightarrow> ibkr_broker \<Rightarrow> (ibkr_broker \<times> (broker_error + discrepancy_report)) option" where
  "reconcile_state A b =
     (case ik_client b of
        None \<Rightarrow> Some (b, Inl NotConnected)
      | Some _ \<Rightarrow>
          (case ibkr_open_orders A b of
             None \<Rightarrow> None
           | Some (b1, Inl e) \<Rightarrow> Some (b1, Inl e)
           | Some (b1, Inr xs) \<Rightarrow>
               (case ibkr_positions A b1 of
                  None \<Rightarrow> None
                | Some (b2, Inl e) \<Rightarrow> Some (b2, Inl e)
                | Some (b2, Inr _) \<Rightarrow>
                    let c = the (ik_client b2);
                        ds = concat (map (compare_open c) xs) @ concat (map (compare_cached xs) (cached_orders c))
                    in Some (if ds \<noteq> [] then b2\<lparr>ik_blocked := True\<rparr> else b2,
                             Inr \<lparr>dr_discrepancies = ds, dr_has_critical_issues = (ds \<noteq> [])\<rparr>))))"

section \<open>The gateway of the rebalancer\<close>

definition gateway_execute_limit_order :: "ib_session \<Rightarrow> symbol \<Rightarrow> broker_side \<Rightarrow> nat \<Rightarrow> int \<Rightarrow> nat list option \<Rightarrow> nat \<Rightarrow>
    (broker_error + order_result) option" where
  "gateway_execute_limit_order S y side shares limit_price_cents cid timeout =
     (if int shares > i64_max then Some (Inl (OrderError ''share quantity exceeds i64::MAX''))
      else map_option snd (execute_limit_order S y side (int shares) limit_price_cents cid timeout None))"

definition gateway_cancel_order :: "ib_session \<Rightarrow> nat \<Rightarrow> (broker_error + unit) option" where
  "gateway_cancel_order S i =
     (if i \<ge> 2 ^ 31 then Some (Inl (OrderError ''order id exceeds i32::MAX''))
      else cancel_order (ib_cancel S (int i)) (int i))"

fun gateway_quotes :: "ib_api \<Rightarrow> symbol list \<Rightarrow> quote list \<Rightarrow> ibkr_client \<Rightarrow> (ibkr_client \<times> (broker_error + quote list)) option" where
  "gateway_quotes A [] qs c = Some (c, Inr qs)"
| "gateway_quotes A (y # ys) qs c =
     (case client_quote A y c of
        None \<Rightarrow> None
      | Some (c1, Inl e) \<Rightarrow> Some (c1, Inl e)
      | Some (c1, Inr q) \<Rightarrow> gateway_quotes A ys (qs @ [q]) c1)"

end
