(* ===== verification/Ibkr_Properties.thy ===== *)
theory Ibkr_Properties
  imports Ibkr_Client Execution_Properties
begin

text \<open>
  What executing an order on Interactive Brokers reports: a reference for the reader of the
  subscription, which says what decides the outcome and which fill is reported, and what
  follows when the connection is lost.
\<close>

section \<open>Reference for the reader\<close>

definition settles :: "place_response \<Rightarrow> order_outcome option" where
  "settles r =
     (case r of
        OrderStatusMsg st filled _ _ \<Rightarrow>
          if st = ''Filled'' then Some OutFilled
          else if st = ''Cancelled'' then Some (if f64_lt (FFin False 0) filled then OutPartialFill else OutCancelled)
          else None
      | _ \<Rightarrow> None)"

definition undecided :: "nat \<Rightarrow> delivery \<Rightarrow> bool" where
  "undecided timeout d \<longleftrightarrow> dl_elapsed d \<le> timeout \<and> settles (dl_response d) = None"

definition statuses :: "delivery list \<Rightarrow> (f64 \<times> f64) list" where
  "statuses ds = List.map_filter (\<lambda>d. case dl_response d of OrderStatusMsg _ filled _ avg \<Rightarrow> Some (filled, avg) | _ \<Rightarrow> None) ds"

definition commissions :: "delivery list \<Rightarrow> f64 list" where
  "commissions ds = List.map_filter (\<lambda>d. case dl_response d of CommissionReportMsg c \<Rightarrow> Some c | _ \<Rightarrow> None) ds"

text \<open>The fill and price of the last status and the last commission, on top of what was known before.\<close>

definition reported :: "fills \<Rightarrow> delivery list \<Rightarrow> fills" where
  "reported fs ds =
     \<lparr>fi_filled = last (fi_filled fs # map fst (statuses ds)), fi_avg_price = last (fi_avg_price fs # map snd (statuses ds)),
      fi_commission = last (fi_commission fs # commissions ds)\<rparr>"

definition reference_outcome :: "cancel_reply \<Rightarrow> nat \<Rightarrow> int \<Rightarrow> stream_end \<Rightarrow> delivery list \<Rightarrow> fills \<Rightarrow> (order_outcome \<times> fills) option" where
  "reference_outcome reply timeout i e ds fs =
     (let seen = takeWhile (undecided timeout) ds
      in case dropWhile (undecided timeout) ds of
           [] \<Rightarrow> if e = Closed then Some (OutFailed, reported fs seen) else None
         | d # _ \<Rightarrow>
             if timeout < dl_elapsed d then map_option (\<lambda>r. (r, reported fs seen)) (on_timeout reply i (reported fs seen))
             else Some (the (settles (dl_response d)), reported fs (seen @ [d])))"

text \<open>
  The order that is still undecided after the timeout, and what the broker answers to its
  cancellation: the first status that closes it or the first notice that rejects the
  cancellation counts, and only such a notice can say that the order has been filled.
\<close>

definition closes :: "cancel_response \<Rightarrow> bool" where
  "closes r =
     (case r of
        CancelStatusMsg st \<Rightarrow> st = ''Cancelled'' \<or> st = ''Filled''
      | CancelNoticeMsg msg \<Rightarrow> mentions msg [''cannot cancel'', ''already filled'', ''order completed'', ''no such order''])"

definition late_outcome :: "cancel_reply \<Rightarrow> bool \<Rightarrow> order_outcome option" where
  "late_outcome reply filled =
     (let rest = (if filled then OutPartialFill else OutCancelled)
      in case reply of
           CancelRefused _ \<Rightarrow> Some rest
         | CancelStream rs e \<Rightarrow>
             (case find closes rs of
                None \<Rightarrow> if e = Silent then None else Some rest
              | Some (CancelStatusMsg _) \<Rightarrow> Some rest
              | Some (CancelNoticeMsg msg) \<Rightarrow>
                  Some (if mentions msg [''filled'', ''completed'', ''executed''] then OutFilled else rest)))"

lemma read_cancel_closes:
  "read_cancel i rs e =
     (case find closes rs of
        None \<Rightarrow> if e = Silent then None else Some (Inr ())
      | Some (CancelStatusMsg _) \<Rightarrow> Some (Inr ())
      | Some (CancelNoticeMsg msg) \<Rightarrow> Some (Inl (CancelReject i msg)))"
  by (induction i rs e rule: read_cancel.induct) (auto simp: closes_def split: stream_end.split)

lemma on_timeout_late: "on_timeout reply i fs = late_outcome reply (some_filled fs)"
proof (cases reply)
  case (CancelStream rs e)
  then show ?thesis
    by (auto simp: on_timeout_def late_outcome_def cancel_order_def read_cancel_closes partial_or_cancelled_def
        reconcile_filled_order_def Let_def split: option.split cancel_response.split)
qed (auto simp: on_timeout_def late_outcome_def cancel_order_def partial_or_cancelled_def Let_def)

lemma statuses_simps [simp]: "statuses [] = []" "commissions [] = []"
  by (simp_all add: statuses_def commissions_def map_filter_simps)

lemma statuses_Cons:
  "statuses (d # ds) = (case dl_response d of OrderStatusMsg _ filled _ avg \<Rightarrow> (filled, avg) # statuses ds | _ \<Rightarrow> statuses ds)"
  "commissions (d # ds) = (case dl_response d of CommissionReportMsg c \<Rightarrow> c # commissions ds | _ \<Rightarrow> commissions ds)"
  by (simp_all add: statuses_def commissions_def map_filter_simps split: place_response.split)

lemma reported_Cons:
  "reported fs (d # ds) =
     reported (case dl_response d of
                 OrderStatusMsg _ filled _ avg \<Rightarrow> fs\<lparr>fi_filled := filled, fi_avg_price := avg\<rparr>
               | CommissionReportMsg c \<Rightarrow> fs\<lparr>fi_commission := c\<rparr>
               | _ \<Rightarrow> fs) ds"
  by (cases "dl_response d") (simp_all add: reported_def statuses_Cons)

lemma reported_Nil [simp]: "reported fs [] = fs"
  by (simp add: reported_def)

lemma read_responses_reference:
  "read_responses reply timeout i e ds None fs = map_option (\<lambda>r. (None, Inr r)) (reference_outcome reply timeout i e ds fs)"
proof (induction ds arbitrary: fs)
  case Nil
  then show ?case by (simp add: reference_outcome_def split: stream_end.split)
next
  case (Cons d ds)
  show ?case
  proof (cases "undecided timeout d")
    case True
    then have "reference_outcome reply timeout i e (d # ds) fs =
        reference_outcome reply timeout i e ds
          (case dl_response d of
             OrderStatusMsg _ filled _ avg \<Rightarrow> fs\<lparr>fi_filled := filled, fi_avg_price := avg\<rparr>
           | CommissionReportMsg c \<Rightarrow> fs\<lparr>fi_commission := c\<rparr>
           | _ \<Rightarrow> fs)"
      by (cases "dropWhile (undecided timeout) ds") (simp_all add: reference_outcome_def Let_def reported_Cons del: dropWhile_eq_Nil_conv)
    with True Cons.IH show ?thesis
      by (cases "dl_response d") (auto simp: undecided_def settles_def split: if_splits)
  next
    case False
    then show ?thesis
      by (cases "dl_response d")
        (auto simp: reference_outcome_def undecided_def settles_def reported_Cons partial_or_cancelled_def some_filled_def
              option.map_comp o_def split: if_splits)
  qed
qed

text \<open>The notices 1100 to 1102, which announce that the connection is lost, change nothing.\<close>

definition lost_notice :: "nat \<Rightarrow> delivery \<Rightarrow> bool" where
  "lost_notice timeout d \<longleftrightarrow>
     dl_elapsed d \<le> timeout \<and> (case dl_response d of MessageMsg code _ \<Rightarrow> code \<in> {1100, 1101, 1102} | _ \<Rightarrow> False)"

lemma lost_notice_ignored:
  "read_responses reply timeout i e (filter (Not \<circ> lost_notice timeout) ds) cache fs = read_responses reply timeout i e ds cache fs"
proof (induction ds arbitrary: cache fs)
  case (Cons d ds)
  show ?case
  proof (cases "lost_notice timeout d")
    case True
    then obtain code msg where "dl_response d = MessageMsg code msg" "code \<in> {1100, 1101, 1102}" "dl_elapsed d \<le> timeout"
      by (auto simp: lost_notice_def split: place_response.splits)
    with True Cons.IH show ?thesis by auto
  next
    case False
    with Cons.IH show ?thesis by (cases "dl_response d") (simp_all add: Let_def split: prod.split)
  qed
qed simp

section \<open>What an execution reports\<close>

text \<open>C22. Executing a limit order through the gateway, which passes no cache of callbacks. Once the
  order is placed, the first response that arrives after the timeout or carries the status
  \<open>Filled\<close> or \<open>Cancelled\<close> decides the outcome, and the reported fill, price and commission are
  those of the last status and the last commission report up to it, that final status included.
  After the timeout the order is cancelled, and the answer decides: \<open>Filled\<close> when the first
  closing response is a notice that says so, otherwise a partial fill or a cancellation by what
  was filled before, and no return when the answer stays silent. If no response decides, a
  subscription that ends gives the failure \<open>Failed\<close>, or the error \<open>ConnectionLost\<close> when shares
  were filled and the timeout has not passed, and one that stays open without a further
  response never returns, however long the timeout. No notice decides anything, and the one
  announcing a lost connection is passed over like every other.\<close>

theorem execution_decided_by_first:
  assumes "ib_next_valid_order_id S = Inr i" and "int shares \<le> i64_max"
    and "ib_place_order S i (as_str y) (limit_ib_order side (int shares) limit_price cid) = Inr (ds, e)"
  shows "gateway_execute_limit_order S y side shares limit_price cid timeout =
      (let seen = takeWhile (undecided timeout) ds; known = reported no_fills seen;
           result = (\<lambda>r fs. Inr \<lparr>or_symbol = y, or_order_id = i, or_filled_shares = f64_to_i64 (fi_filled fs),
                                  or_avg_fill_price = fi_avg_price fs, or_commission = fi_commission fs, or_status = r\<rparr>)
       in case dropWhile (undecided timeout) ds of
            [] \<Rightarrow> if e = Silent then None
                  else if ib_elapsed S < timeout \<and> some_filled known
                  then Some (Inl (ConnectionLost i (f64_to_i64 (f64_round_int (fi_filled known)))))
                  else Some (result OutFailed known)
          | d # _ \<Rightarrow>
              if timeout < dl_elapsed d then map_option (\<lambda>r. result r known) (late_outcome (ib_cancel S i) (some_filled known))
              else Some (result (the (settles (dl_response d))) (reported no_fills (seen @ [d]))))"
proof -
  have "\<not> undecided timeout d \<Longrightarrow> \<not> timeout < dl_elapsed d \<Longrightarrow> the (settles (dl_response d)) \<noteq> OutFailed" for d
    by (auto simp: undecided_def settles_def split: place_response.splits if_splits)
  moreover have "late_outcome reply filled \<noteq> Some OutFailed" for reply filled
    by (auto simp: late_outcome_def Let_def split: cancel_reply.splits option.splits cancel_response.splits)
  moreover have "dropWhile (undecided timeout) ds = d # ds' \<Longrightarrow> \<not> undecided timeout d" for d ds'
    by (metis dropWhile_eq_Cons_conv)
  moreover have "e = Closed \<longleftrightarrow> e \<noteq> Silent" by (cases e) simp_all
  ultimately show ?thesis
    using assms
    by (cases "dropWhile (undecided timeout) ds"; cases "late_outcome (ib_cancel S i) (some_filled (reported no_fills (takeWhile (undecided timeout) ds)))")
      (auto simp: gateway_execute_limit_order_def execute_limit_order_def read_responses_reference reference_outcome_def Let_def
            on_timeout_late conclude_order_def simp del: dropWhile_eq_Nil_conv)
qed

text \<open>An order for 100 shares: 60 are filled, then the exchange cancels the rest.\<close>

definition demo_deliveries :: "delivery list" where
  "demo_deliveries =
     [\<lparr>dl_elapsed = 1, dl_now = 1, dl_response = OrderStatusMsg ''Submitted'' (FFin False 0) (FFin False 100) (FFin False 0)\<rparr>,
      \<lparr>dl_elapsed = 2, dl_now = 2, dl_response = MessageMsg 1100 ''Connectivity lost''\<rparr>,
      \<lparr>dl_elapsed = 3, dl_now = 3, dl_response = CommissionReportMsg (FFin False 1)\<rparr>,
      \<lparr>dl_elapsed = 4, dl_now = 4, dl_response = OrderStatusMsg ''Cancelled'' (FFin False 60) (FFin False 40) (FFin False 7)\<rparr>]"

definition demo_session :: "delivery list \<Rightarrow> stream_end \<Rightarrow> ib_session" where
  "demo_session ds e =
     \<lparr>ib_next_valid_order_id = Inr 7, ib_place_order = (\<lambda>_ _ _. Inr (ds, e)), ib_cancel = (\<lambda>_. CancelStream [] Closed),
      ib_elapsed = 9\<rparr>"

theorem execution_decided_by_first_witness:
  "gateway_execute_limit_order (demo_session demo_deliveries Closed) demo_symbol BrokerBuy 100 700 None 1000 =
     Some (Inr \<lparr>or_symbol = demo_symbol, or_order_id = 7, or_filled_shares = 60, or_avg_fill_price = FFin False 7,
                or_commission = FFin False 1, or_status = OutPartialFill\<rparr>)"
proof -
  have "f64_to_i64 (FFin False 60) = 60" by (simp add: clamp_int_def i64_min_def i64_max_def)
  then show ?thesis
    using execution_decided_by_first
      [of "demo_session demo_deliveries Closed" 7 100 demo_symbol BrokerBuy 700 None demo_deliveries Closed 1000]
    by (simp add: demo_session_def i64_max_def Let_def demo_deliveries_def undecided_def settles_def reported_def statuses_Cons
          f64_signed_def)
qed

text \<open>
  When the timeout passes and the cancellation is rejected because the order has been filled,
  the result is \<open>Filled\<close> with the fill known before: nothing of an order for 100 shares here.
\<close>

lemma filled_with_stale_count:
  fixes y
  defines "S \<equiv> demo_session [\<lparr>dl_elapsed = 2000, dl_now = 1, dl_response = OpenOrderMsg\<rparr>] Closed
                 \<lparr>ib_cancel := \<lambda>_. CancelStream [CancelNoticeMsg ''Order already filled''] Closed\<rparr>"
  shows "gateway_execute_limit_order S y BrokerBuy 100 700 None 1000 =
    Some (Inr \<lparr>or_symbol = y, or_order_id = 7, or_filled_shares = 0, or_avg_fill_price = FFin False 0,
               or_commission = FFin False 0, or_status = OutFilled\<rparr>)"
proof -
  have "mentions ''Order already filled'' [''cannot cancel'', ''already filled'', ''order completed'', ''no such order'']"
    "mentions ''Order already filled'' [''filled'', ''completed'', ''executed'']" "f64_to_i64 (FFin False 0) = 0" by code_simp+
  then show ?thesis
    by (simp add: S_def demo_session_def gateway_execute_limit_order_def execute_limit_order_def conclude_order_def on_timeout_def
          cancel_order_def reconcile_filled_order_def no_fills_def i64_max_def)
qed

text \<open>
  The reconciliation after a disconnect counts the whole position as the fill of the order:
  with 500 shares held before, an order for 100 of which 10 were filled is said to have
  filled 510.
\<close>

lemma reconcile_counts_whole_position:
  "reconcile_partial_fill 7 y 10 100 [\<lparr>bp_symbol = y, bp_quantity = 510, bp_avg_cost_cents = 700, bp_market_value_cents = 357000,
      bp_unrealized_pnl_cents = 0\<rparr>] BrokerBuy =
   Inr \<lparr>or_symbol = y, or_order_id = 7, or_filled_shares = 510, or_avg_fill_price = FFin False 0, or_commission = FFin False 0,
        or_status = OutPartialFill\<rparr>"
  by (simp add: reconcile_partial_fill_def i64_wrap_def)

text \<open>From a position that was flat before the order the reconciled fill is exact.\<close>

lemma reconcile_exact_when_flat:
  assumes "List.find (\<lambda>p. bp_symbol p = y) ps = Some p" "bp_quantity p = (case side of BrokerBuy \<Rightarrow> n | BrokerSell \<Rightarrow> - n)"
    and "0 \<le> pre" "pre \<le> n" "0 < n" "n \<le> i64_max"
  shows "reconcile_partial_fill i y pre total_shares ps side =
    Inr \<lparr>or_symbol = y, or_order_id = i, or_filled_shares = n, or_avg_fill_price = FFin False 0, or_commission = FFin False 0,
         or_status = OutPartialFill\<rparr>"
proof -
  have "i64_wrap n = n" using assms(5,6) by (intro i64_wrap_id) (simp_all add: i64_min_def)
  then show ?thesis using assms by (cases side) (auto simp: reconcile_partial_fill_def Let_def)
qed

text \<open>
  Reconnecting makes at most five attempts with at most thirty seconds of sleep, and leaves the
  broker connected exactly when it reports success.
\<close>

lemma backoff_outcome:
  "reconnect_attempts show_error api ns reason slept b = Some (b', slept', r) \<Longrightarrow>
     (ibkr_is_connected b' \<longleftrightarrow> r = Inr ()) \<and> (r \<noteq> Inr () \<longrightarrow> ik_state b' = ConnDisconnected) \<and>
     (\<exists>k \<le> length ns. slept' = slept @ map backoff_delay (filter (\<lambda>n. 1 < n) (take k ns)))"
proof (induction ns arbitrary: reason slept b)
  case (Cons n ns)
  show ?case
  proof (cases "ibkr_reconnect (api n) (b\<lparr>ik_state := ConnReconnecting\<rparr>)")
    case (Some p)
    obtain b1 q where p: "p = (b1, q)" by (cases p)
    show ?thesis
    proof (cases q)
      case (Inl e)
      then show ?thesis
        using Cons.prems Cons.IH [of "show_error e" "if n > 1 then slept @ [backoff_delay n] else slept" b1] Some p
        by (auto split: if_splits)
    next
      case (Inr x)
      then show ?thesis using Cons.prems Some p
        by (auto simp: ibkr_is_connected_def Let_def intro!: exI [of _ 1])
    qed
  qed (use Cons.prems in \<open>simp add: Let_def\<close>)
qed (auto simp: ibkr_is_connected_def)

lemma reconnect_sleeps_at_most_30s:
  assumes "reconnect_with_backoff show_error api b = Some (b', slept, r)"
  shows "ibkr_is_connected b' \<longleftrightarrow> r = Inr ()" and "sum_list slept \<le> 30000"
proof -
  have *: "(ibkr_is_connected b' \<longleftrightarrow> r = Inr ()) \<and>
      (\<exists>k \<le> length [1..<6]. slept = map backoff_delay (filter (\<lambda>n. 1 < n) (take k [1..<6])))"
    using backoff_outcome assms [unfolded reconnect_with_backoff_def] by fastforce
  then show "ibkr_is_connected b' \<longleftrightarrow> r = Inr ()" by blast
  from * obtain k where "k \<le> 5" "slept = map backoff_delay (filter (\<lambda>n. 1 < n) (take k [1..<6]))" by auto
  moreover have "\<forall>k \<in> set [0..<6]. sum_list (map backoff_delay (filter (\<lambda>n. 1 < n) (take k [1..<6]))) \<le> 30000" by code_simp
  ultimately show "sum_list slept \<le> 30000" by simp
qed

section \<open>A lost connection and the retry loop\<close>

lemma dropped_connection:
  assumes "ib_next_valid_order_id S = Inr i" "int shares \<le> i64_max" "\<And>y z. ib_place_order S i y z = Inr (ds, Closed)"
    and "list_all (undecided timeout) ds" "some_filled (reported no_fills ds)" "ib_elapsed S < timeout"
  shows "\<exists>f. gateway_execute_limit_order S y side shares limit_price cid timeout = Some (Inl (ConnectionLost i f))"
proof -
  have "takeWhile (undecided timeout) ds = ds" "dropWhile (undecided timeout) ds = []"
    using assms(4) by (simp_all add: takeWhile_eq_all_conv list_all_iff)
  then have "reference_outcome reply timeout i Closed ds no_fills = Some (OutFailed, reported no_fills ds)" for reply
    by (simp add: reference_outcome_def Let_def del: dropWhile_eq_Nil_conv takeWhile_eq_all_conv)
  then show ?thesis
    using assms by (simp add: gateway_execute_limit_order_def execute_limit_order_def read_responses_reference conclude_order_def)
qed

lemma retry_keeps_placing:
  assumes "\<And>placed. \<exists>i f. en_execute en (ro_symbol x) (action_to_side (ro_action x)) (nat (ro_shares x)) (ro_limit_price_cents x) cid placed =
             (placed @ [z], Inl (ConnectionLost i f))"
    and "\<And>s. fst (en_now en s) = s" "\<And>s. en_write en s = (s, True)" "\<And>ms s. en_sleep en ms s = s"
  shows "fst (fst (execute_retry en x cid seq n (placed, l))) = placed @ replicate (Suc n) z"
proof (induction n arbitrary: placed l)
  case 0
  obtain i f where "en_execute en (ro_symbol x) (action_to_side (ro_action x)) (nat (ro_shares x)) (ro_limit_price_cents x) cid placed =
      (placed @ [z], Inl (ConnectionLost i f))" using assms(1) by blast
  then show ?case using assms(2-4)
    by (simp add: act_defs is_transient_error_def split: prod.split) (metis fst_conv)
next
  case (Suc n)
  obtain i f where "en_execute en (ro_symbol x) (action_to_side (ro_action x)) (nat (ro_shares x)) (ro_limit_price_cents x) cid placed =
      (placed @ [z], Inl (ConnectionLost i f))" using assms(1) by blast
  then show ?case using assms(4) Suc.IH [of "placed @ [z]"]
    by (simp add: abind_def ask_def pause_def is_transient_error_def replicate_append_same del: execute_retry.simps)
      (simp add: execute_retry.simps [of en x cid seq "Suc n"] abind_def ask_def pause_def is_transient_error_def replicate_append_same)
qed

text \<open>C38. After a partial fill whose connection drops, the order is sent again in full: when every
  attempt is filled in part and then loses the subscription before the timeout, the write-ahead
  build places the complete order five times, each time with the same client identifier,
  although the gateway reports how much has been filled.\<close>

theorem partial_fill_resubmitted:
  assumes exec: "\<And>y side n limit c placed. en_execute en y side n limit c placed =
      (placed @ [limit_ib_order side (int n) limit (Some c)],
       the (gateway_execute_limit_order (S (length placed)) y side n limit (Some c) timeout))"
    and dropped: "\<And>k. ib_next_valid_order_id (S k) = Inr (ids k) \<and> (\<forall>y z. ib_place_order (S k) (ids k) y z = Inr (ds k, Closed)) \<and>
      list_all (undecided timeout) (ds k) \<and> some_filled (reported no_fills (ds k)) \<and> ib_elapsed (S k) < timeout"
    and world: "\<And>s. fst (en_now en s) = s" "\<And>s. en_write en s = (s, True)" "\<And>ms s. en_sleep en ms s = s"
    and shares: "0 \<le> ro_shares x" "ro_shares x \<le> i64_max"
  shows "fst (fst (execute_order_with_write_ahead True en x cid seq spec ([], l))) =
         replicate 5 (limit_ib_order (action_to_side (ro_action x)) (ro_shares x) (ro_limit_price_cents x) (Some cid))"
proof -
  let ?z = "limit_ib_order (action_to_side (ro_action x)) (ro_shares x) (ro_limit_price_cents x) (Some cid)"
  have "\<exists>i f. en_execute en (ro_symbol x) (action_to_side (ro_action x)) (nat (ro_shares x)) (ro_limit_price_cents x) cid placed =
          (placed @ [?z], Inl (ConnectionLost i f))" for placed
    using dropped_connection [of "S (length placed)" "ids (length placed)" "nat (ro_shares x)" "ds (length placed)" timeout
        "ro_symbol x" "action_to_side (ro_action x)" "ro_limit_price_cents x" "Some cid"] dropped [of "length placed"] shares
    by (auto simp: exec)
  note retry = retry_keeps_placing [OF this world, of seq 4 "[]"]
  obtain now where now: "en_now en [] = ([], now)" using world(1) [of "[]"] by (cases "en_now en []") auto
  show ?thesis
    using retry shares(1) world(2) now
    by (simp add: execute_order_with_write_ahead_def act_defs eval_nat_numeral del: execute_retry.simps)
qed

text \<open>Sixty of a hundred shares are filled at each attempt before the subscription ends.\<close>

definition drop_deliveries :: "delivery list" where
  "drop_deliveries =
     [\<lparr>dl_elapsed = 1, dl_now = 1, dl_response = OrderStatusMsg ''Submitted'' (FFin False 60) (FFin False 40) (FFin False 7)\<rparr>]"

definition drop_session :: "nat \<Rightarrow> ib_session" where
  "drop_session k = (demo_session drop_deliveries Closed)\<lparr>ib_next_valid_order_id := Inr (int k)\<rparr>"

definition drop_env :: "ib_order list env" where
  "drop_env =
     \<lparr>en_connect = (\<lambda>s. (s, Inr ())), en_account_summary = (\<lambda>s. (s, Inl NotConnected)), en_positions = (\<lambda>s. (s, Inr [])),
      en_quotes = (\<lambda>ys s. (s, Inr [])),
      en_execute = (\<lambda>y side n limit c placed.
        (placed @ [limit_ib_order side (int n) limit (Some c)],
         the (gateway_execute_limit_order (drop_session (length placed)) y side n limit (Some c) 1000))),
      en_cancel = (\<lambda>_ s. (s, Inr ())), en_install_handler = (\<lambda>s. (s, True)), en_shutdown = (\<lambda>s. (s, False)),
      en_confirm = (\<lambda>s. (s, Some True)), en_sleep = (\<lambda>_ s. s), en_now = (\<lambda>s. (s, 0)), en_elapsed = (\<lambda>s. (s, f64_zero)),
      en_open_log = (\<lambda>s. (s, True)), en_write = (\<lambda>s. (s, True)), en_time_text = (\<lambda>_. []), en_show = (\<lambda>_. []),
      en_sha256 = (\<lambda>_. replicate 32 0)\<rparr>"

theorem partial_fill_resubmitted_witness:
  "fst (fst (execute_order_with_write_ahead True drop_env (demo_order\<lparr>ro_shares := 100\<rparr>) [49] 1 [] ([], []))) =
     replicate 5 (limit_ib_order BrokerBuy 100 700 (Some [49]))"
  using partial_fill_resubmitted [of drop_env drop_session 1000 int "\<lambda>_. drop_deliveries" "demo_order\<lparr>ro_shares := 100\<rparr>" "[49]" 1 "[]" "[]"]
  by (simp add: drop_env_def drop_session_def demo_session_def drop_deliveries_def demo_order_def action_to_side_def i64_max_def
        undecided_def settles_def some_filled_def reported_def statuses_Cons f64_signed_def)

section \<open>The kill switch on this broker\<close>

text \<open>C37. The kill switch is blind on this broker: when the request for the open orders fails, or a
  listed order cannot be read, the broker answers with an empty list, and the forced cancellation
  reports complete success after its first attempt, with no error, nothing cancelled and no order
  asked to be cancelled.\<close>

theorem kill_blind_on_ibkr:
  assumes "ik_client b = Some c" and "client_open_orders A c = Some (c1, Inl err)"
    and "ibkr_open_orders A b = Some (cn_open_orders br b)"
  shows "forceful_cancel_open_orders br sleep_secs b =
    (b\<lparr>ik_client := Some c1\<rparr>, \<lparr>fc_attempts = 1, fc_cancelled_order_ids = [], fc_remaining_order_ids = [], fc_errors = []\<rparr>)"
proof -
  have "cn_open_orders br b = (b\<lparr>ik_client := Some c1\<rparr>, Inr [])"
    using assms by (simp add: ibkr_open_orders_def on_client_def)
  then show ?thesis
    by (simp add: forceful_cancel_open_orders_def forceful_cancel_open_orders_with_retry_def upt_conv_Cons cancellable_open_orders_def)
qed

definition demo_api :: ib_api where
  "demo_api =
     \<lparr>ia_connect = Inr (), ia_positions = Inr ([PositionEnd], Silent), ia_open_orders = Inl ''timed out'',
      ia_account_summary = Inl ''timed out'', ia_market_data = (\<lambda>_. Inl ''timed out''), ia_session = demo_session [] Silent,
      ia_now = 5, ia_wall = 6\<rparr>"

definition demo_client :: ibkr_client where
  "demo_client = \<lparr>ic_best_quotes = [], ic_order_cache = [], ic_callback_cache = []\<rparr>"

definition demo_ibkr :: ibkr_broker where
  "demo_ibkr = fst (ibkr_connect demo_api (ibkr_new ''localhost'' 4002))"

definition demo_canceller :: "ibkr_broker canceller" where
  "demo_canceller =
     \<lparr>cn_open_orders = (\<lambda>b. the (ibkr_open_orders demo_api b)), cn_cancel_order = (\<lambda>i b. the (ibkr_cancel_order demo_api i b)),
      cn_wait = (\<lambda>_ b. b), cn_show = (\<lambda>_. [])\<rparr>"

lemma demo_ibkr_client: "ik_client demo_ibkr = Some demo_client" "\<not> ik_blocked demo_ibkr"
  by (simp_all add: demo_ibkr_def demo_client_def ibkr_connect_def client_connect_def demo_api_def ibkr_new_def)

theorem kill_blind_on_ibkr_witness:
  "snd (forceful_cancel_open_orders demo_canceller (\<lambda>_ b. b) demo_ibkr) =
     \<lparr>fc_attempts = 1, fc_cancelled_order_ids = [], fc_remaining_order_ids = [], fc_errors = []\<rparr>"
  using kill_blind_on_ibkr [of demo_ibkr demo_client demo_api demo_client _ demo_canceller "\<lambda>_ b. b"] demo_ibkr_client
  by (simp add: client_open_orders_def demo_api_def demo_canceller_def ibkr_open_orders_def on_client_def)

section \<open>Reconciliation and the order cache\<close>

lemma update_keeps_ids:
  "map (\<lambda>(k, v). (k, co_order_id v)) (ic_order_cache (update_cached_order_status i st c)) =
   map (\<lambda>(k, v). (k, co_order_id v)) (ic_order_cache c)"
  by (auto simp: update_cached_order_status_def om_update_def)

lemma read_open_orders_keeps_ids:
  "read_open_orders us e m c = Some (c', r) \<Longrightarrow>
   map (\<lambda>(k, v). (k, co_order_id v)) (ic_order_cache c') = map (\<lambda>(k, v). (k, co_order_id v)) (ic_order_cache c)"
  by (induction us e m c rule: read_open_orders.induct) (auto simp: update_keeps_ids split: stream_end.splits sum.splits)

lemma ibkr_open_orders_keeps_ids:
  assumes "ibkr_open_orders A b = Some (b', r)" "ik_client b = Some c"
  shows "\<exists>c'. ik_client b' = Some c' \<and> co_order_id ` set (cached_orders c') = co_order_id ` set (cached_orders c)"
proof -
  obtain c' r' where c': "client_open_orders A c = Some (c', r')" "ik_client b' = Some c'"
    using assms by (auto simp: ibkr_open_orders_def on_client_def)
  then have "map (\<lambda>(k, v). (k, co_order_id v)) (ic_order_cache c') = map (\<lambda>(k, v). (k, co_order_id v)) (ic_order_cache c)"
    by (auto simp: client_open_orders_def read_open_orders_keeps_ids split: sum.splits)
  from arg_cong [OF this, of "map snd"] have "map co_order_id (cached_orders c') = map co_order_id (cached_orders c)"
    by (simp add: cached_orders_def om_values_def o_def case_prod_beta)
  with c'(2) show ?thesis by (metis list.set_map)
qed

lemma cache_order_cached: "i \<in> co_order_id ` set (cached_orders (cache_order now i y q side c))"
proof -
  let ?v = "\<lparr>co_order_id = i, co_symbol = y, co_quantity = q, co_side = side, co_status = ''Submitted'', co_submitted_at = now\<rparr>"
  have "om_get (om_insert i ?v (ic_order_cache c)) i = Some ?v" by (simp add: om_get_insert)
  then have "?v \<in> set (cached_orders (cache_order now i y q side c))"
    by (force simp: cached_orders_def om_values_def cache_order_def dest: map_of_SomeD)
  then show ?thesis by (force intro: rev_image_eqI)
qed

lemma id_roundtrip:
  assumes "- (2 ^ 31) \<le> k" "k < 2 ^ 31"
  shows "u64_as_i32 (i32_as_u64 k) = k"
proof -
  have "0 \<le> k \<Longrightarrow> k mod 2 ^ 64 = k" using assms by (intro mod_pos_pos_trivial) simp_all
  moreover have "k < 0 \<Longrightarrow> (k + 2 ^ 64) mod 2 ^ 64 = k + 2 ^ 64" using assms by (intro mod_pos_pos_trivial) simp_all
  ultimately have "k mod 2 ^ 64 = (if 0 \<le> k then k else k + 2 ^ 64)" by (simp only: mod_add_self2 not_le split: if_split) blast
  then have "int (i32_as_u64 k) = (if 0 \<le> k then k else k + 2 ^ 64)" using assms by (simp add: i32_as_u64_def)
  moreover have "(k + 2 ^ 64 + 2 ^ 31) mod 2 ^ 32 = (k + 2 ^ 31) mod 2 ^ 32"
    using mod_mult_self1 [of "k + 2 ^ 31" "2 ^ 32" "2 ^ 32"] by (simp add: algebra_simps)
  ultimately show ?thesis using assms by (auto simp: u64_as_i32_def)
qed

text \<open>C39. An order that has been carried out stops all trading: an order submitted through the broker
  stays in its cache, so once it is complete and no longer listed among the open orders, the next
  reconciliation reports it as missing, and from then on every submission is refused.\<close>

theorem finished_order_blocks_trading:
  assumes "ibkr_submit_order strict A x b = Some (b1, Inr i)"
    and "ib_next_valid_order_id (ia_session A) = Inr k" "- (2 ^ 31) \<le> k" "k < 2 ^ 31"
    and "ibkr_open_orders A' b1 = Some (b2, Inr xs)" "i \<notin> bos_id ` set xs"
    and "ibkr_positions A' b2 = Some (b2, Inr ps)"
  shows "\<exists>b3 r. reconcile_state A' b1 = Some (b3, Inr r) \<and> MissingOrder i \<in> set (dr_discrepancies r) \<and>
           (\<forall>s A'' x'. ibkr_submit_order s A'' x' b3 = Some (b3, Inl (OrderError ''Reconciliation blocked - manual review required'')))"
proof -
  obtain c where c: "ik_client b = Some c" and b1: "b1 = b\<lparr>ik_client := Some (fst (client_submit_order strict A x c))\<rparr>"
    and "snd (client_submit_order strict A x c) = Inr i"
    using assms(1) by (auto simp: ibkr_submit_order_def on_client_def split: if_splits option.splits prod.splits)
  then have i: "i = i32_as_u64 k" and cached: "k \<in> co_order_id ` set (cached_orders (fst (client_submit_order strict A x c)))"
    using assms(2) id_roundtrip [OF assms(3,4)]
    by (auto simp: client_submit_order_def submit_order_def Let_def cache_order_cached split: sum.splits)
  obtain c2 where c2: "ik_client b2 = Some c2" "k \<in> co_order_id ` set (cached_orders c2)"
    using ibkr_open_orders_keeps_ids [OF assms(5)] b1 cached by auto
  then obtain v where v: "v \<in> set (cached_orders c2)" "co_order_id v = k" by auto
  then have "MissingOrder i \<in> set (compare_cached xs v)" using assms(6) i by (auto simp: compare_cached_def list_ex_iff image_iff)
  with v(1) have "MissingOrder i \<in> set (concat (map (compare_open c2) xs) @ concat (map (compare_cached xs) (cached_orders c2)))"
    by auto
  then show ?thesis
    using assms(5,7) c2(1) b1 by (auto simp: reconcile_state_def ibkr_submit_order_def)
qed

text \<open>A limit order is submitted, is then no longer listed, and its position shows up.\<close>

definition demo_limit_order :: broker_order where
  "demo_limit_order =
     \<lparr>bo_symbol = demo_symbol, bo_side = BrokerBuy, bo_quantity = 100, bo_order_type = LimitOrder 700, bo_client_order_id = None\<rparr>"

definition filled_api :: ib_api where
  "filled_api =
     demo_api\<lparr>ia_open_orders := Inr ([], Closed),
             ia_positions := Inr ([PositionMsg [65, 65, 80, 76] (FFin False 100) (FFin False 7), PositionEnd], Silent)\<rparr>"

lemma demo_submitted:
  "ibkr_submit_order False demo_api demo_limit_order demo_ibkr =
     Some (demo_ibkr\<lparr>ik_client := Some (cache_order 5 7 demo_symbol 100 ''Buy'' demo_client)\<rparr>, Inr 7)"
  using demo_ibkr_client
  by (simp add: ibkr_submit_order_def on_client_def client_submit_order_def submit_order_def encode_ibkr_order_def encode_order_def
        demo_limit_order_def demo_api_def demo_session_def i32_as_u64_def u64_as_i32_def i64_wrap_def)

theorem finished_order_blocks_trading_witness:
  "\<exists>b3 r. reconcile_state filled_api (demo_ibkr\<lparr>ik_client := Some (cache_order 5 7 demo_symbol 100 ''Buy'' demo_client)\<rparr>) = Some (b3, Inr r) \<and>
     MissingOrder 7 \<in> set (dr_discrepancies r) \<and>
     (\<forall>s A x. ibkr_submit_order s A x b3 = Some (b3, Inl (OrderError ''Reconciliation blocked - manual review required'')))"
proof -
  let ?b = "demo_ibkr\<lparr>ik_client := Some (cache_order 5 7 demo_symbol 100 ''Buy'' demo_client)\<rparr>"
  have "f64_mul (FFin False 7) (f64_of_int 100) = FFin False 700" by code_simp
  moreover have "\<lfloor>1401 / 2 :: rat\<rfloor> = 700" by (simp add: floor_eq_iff)
  ultimately have "f64_cents_checked (FFin False 7) field = Inr (f64_to_i64 (FFin False 700))" for field
    by (simp add: f64_cents_checked_def f64_to_fixed_checked_def f64_of_i64_bounds f64_signed_def)
  then have "\<exists>ps. ibkr_positions filled_api ?b = Some (?b, Inr ps)"
    by (simp add: ibkr_positions_def on_client_def client_positions_def filled_api_def symbol_try_new_def Let_def)
  moreover have "ibkr_open_orders filled_api ?b = Some (?b, Inr [])"
    by (simp add: ibkr_open_orders_def on_client_def client_open_orders_def filled_api_def om_values_def)
  ultimately show ?thesis
    using finished_order_blocks_trading [OF demo_submitted, of 7 filled_api]
    by (auto simp: demo_api_def demo_session_def)
qed

end
