(* ===== verification/Cross_Validation.thy ===== *)
theory Cross_Validation
  imports Broker
begin

text \<open>
  Cross-validation splits of a time series (\<open>cv.rs\<close>): expanding windows and walk-forward
  windows. The performance metrics of a window are computed from its returns alone; the function
  that does so (\<open>compute_metrics\<close>) is an argument.
\<close>

section \<open>Expanding windows\<close>

text \<open>\<open>n_splits + 1\<close> wraps for the largest count, and the division panics.\<close>

definition time_series_split :: "nat \<Rightarrow> nat \<Rightarrow> (nat list \<times> nat list) list outcome" where
  "time_series_split n_samples n_splits =
     (if n_splits < 2 \<or> n_samples < 2 then Inr []
      else if u64_add n_splits 1 = 0 then Inl (Panic ''attempt to divide by zero'')
      else let test_size = n_samples div u64_add n_splits 1
           in if test_size = 0 then Inr []
              else let first_test_start = n_samples - n_splits * test_size
                   in Inr (map (\<lambda>i. let test_start = first_test_start + i * test_size
                                    in ([0..<test_start], [test_start..<test_start + test_size])) [0..<n_splits]))"

lemma consecutive_blocks: "concat (map (\<lambda>i. [a + i * k..<a + i * k + k]) [0..<n]) = [a..<a + n * k]"
proof (induction n)
  case (Suc n)
  have "[a..<a + n * k] @ [a + n * k..<a + n * k + k] = [a..<a + n * k + k]"
    by (metis le_add1 upt_add_eq_append)
  with Suc show ?case by (simp add: ac_simps)
qed simp

text \<open>
  The test sets are consecutive blocks of equal size that end with the last sample, and each is
  trained on all samples before it: no sample of a test set, and none after it, is used.
\<close>

lemma time_series_split_folds:
  assumes "2 \<le> n_splits" "n_splits < n_samples" "n_samples < 2 ^ 64"
  shows "\<exists>folds. time_series_split n_samples n_splits = Inr folds \<and> length folds = n_splits \<and>
           (\<exists>first. 0 < first \<and> concat (map snd folds) = [first..<n_samples]) \<and>
           (\<forall>(train, test) \<in> set folds. length test = n_samples div (n_splits + 1) \<and> test \<noteq> [] \<and> train = [0..<hd test])"
proof -
  define k where "k = n_samples div (n_splits + 1)"
  define first where "first = n_samples - n_splits * k"
  let ?folds = "map (\<lambda>i. ([0..<first + i * k], [first + i * k..<first + i * k + k])) [0..<n_splits]"
  have k: "0 < k" using assms(2) by (simp add: k_def div_greater_zero_iff)
  have "(n_splits + 1) * k \<le> n_samples" unfolding k_def by (rule times_div_less_eq_dividend)
  then have le: "n_splits * k + k \<le> n_samples" by (simp add: algebra_simps)
  have "u64_add n_splits 1 = n_splits + 1" using assms by (simp add: u64_add_def)
  then have "time_series_split n_samples n_splits = Inr ?folds"
    using assms k by (simp add: time_series_split_def Let_def k_def first_def)
  moreover have "concat (map snd ?folds) = [first..<n_samples]"
    using consecutive_blocks [of first k n_splits] le by (simp add: o_def first_def)
  moreover have "0 < first" using le k by (simp add: first_def)
  moreover have "\<forall>(train, test) \<in> set ?folds. length test = k \<and> test \<noteq> [] \<and> train = [0..<hd test]"
    using k by (auto simp: hd_upt)
  moreover have "length ?folds = n_splits" by simp
  ultimately show ?thesis unfolding k_def [symmetric] by blast
qed

lemma time_series_split_panics: "time_series_split 2 (2 ^ 64 - 1) = Inl (Panic ''attempt to divide by zero'')"
  by (simp add: time_series_split_def u64_add_def)

section \<open>Walk-forward windows\<close>

record 'm walk_forward_window =
  wf_train_start :: nat
  wf_train_end :: nat
  wf_test_start :: nat
  wf_test_end :: nat
  wf_train_metrics :: 'm
  wf_test_metrics :: 'm

text \<open>\<open>f64::floor\<close>.\<close>

fun f64_floor :: "f64 \<Rightarrow> f64" where
  "f64_floor (FFin s x) = FFin s (if s then of_int \<lceil>x\<rceil> else of_int \<lfloor>x\<rfloor>)"
| "f64_floor v = v"

definition slice :: "'a list \<Rightarrow> nat \<Rightarrow> nat \<Rightarrow> 'a list" where
  "slice xs a b = take (b - a) (drop a xs)"

definition walk_window :: "(f64 list \<Rightarrow> 'm) \<Rightarrow> f64 list \<Rightarrow> f64 \<Rightarrow> nat \<Rightarrow> nat \<Rightarrow> nat \<Rightarrow> 'm walk_forward_window option" where
  "walk_window metrics returns train_pct n_windows window_size i =
     (let start = i * window_size;
          stop = (if i + 1 = n_windows then length returns else start + window_size)
      in if stop \<le> start + 1 then None
         else let len = stop - start;
                  train_len = f64_to_u64 (f64_floor (f64_mul (f64_of_int (int len)) train_pct))
              in if train_len = 0 \<or> train_len \<ge> len then None
                 else Some \<lparr>wf_train_start = start, wf_train_end = start + train_len, wf_test_start = start + train_len,
                            wf_test_end = stop, wf_train_metrics = metrics (slice returns start (start + train_len)),
                            wf_test_metrics = metrics (slice returns (start + train_len) stop)\<rparr>)"

definition walkforward :: "(f64 list \<Rightarrow> 'm) \<Rightarrow> f64 list \<Rightarrow> nat \<Rightarrow> f64 \<Rightarrow> 'm walk_forward_window list" where
  "walkforward metrics returns n_windows train_pct =
     (if returns = [] \<or> n_windows = 0 \<or> \<not> (f64_le (FFin False 0) train_pct \<and> f64_lt train_pct (FFin False 1)) \<or>
         \<not> f64_is_finite train_pct
      then []
      else let window_size = length returns div n_windows
           in if window_size < 2 then []
              else List.map_filter (walk_window metrics returns train_pct n_windows window_size) [0..<n_windows])"

lemma walk_window_bounds:
  assumes "walk_window metrics returns train_pct n_windows k i = Some w" "i < n_windows" "n_windows * k \<le> length returns"
  shows "i * k \<le> wf_train_start w \<and> wf_train_start w < wf_train_end w \<and> wf_train_end w = wf_test_start w \<and>
    wf_test_start w < wf_test_end w \<and> wf_test_end w \<le> length returns \<and>
    wf_train_metrics w = metrics (slice returns (wf_train_start w) (wf_train_end w)) \<and>
    wf_test_metrics w = metrics (slice returns (wf_test_start w) (wf_test_end w)) \<and>
    (i + 1 < n_windows \<longrightarrow> wf_test_end w \<le> (i + 1) * k)"
proof -
  have "i * k + k \<le> n_windows * k" using mult_le_mono1 [of "i + 1" n_windows k] assms(2) by simp
  with assms show ?thesis by (auto simp: walk_window_def Let_def split: if_splits)
qed

text \<open>
  Nothing leaks: in every window the test segment begins where the training segment ends, both
  are non-empty parts of the series, and a later window begins after an earlier one has ended.
\<close>

lemma walkforward_no_leakage:
  shows "\<forall>w \<in> set (walkforward metrics returns n_windows train_pct).
           wf_train_start w < wf_train_end w \<and> wf_train_end w = wf_test_start w \<and> wf_test_start w < wf_test_end w \<and>
           wf_test_end w \<le> length returns \<and> wf_train_metrics w = metrics (slice returns (wf_train_start w) (wf_train_end w)) \<and>
           wf_test_metrics w = metrics (slice returns (wf_test_start w) (wf_test_end w))"
    and "sorted_wrt (\<lambda>v w. wf_test_end v \<le> wf_train_start w) (walkforward metrics returns n_windows train_pct)"
proof -
  let ?k = "length returns div n_windows"
  let ?f = "walk_window metrics returns train_pct n_windows ?k"
  have k: "n_windows * ?k \<le> length returns" by simp
  have m: "walkforward metrics returns n_windows train_pct = [] \<or>
      walkforward metrics returns n_windows train_pct = List.map_filter ?f [0..<n_windows]"
    by (simp add: walkforward_def Let_def)
  have bounds: "w \<in> set (List.map_filter ?f [0..<n]) \<Longrightarrow> \<exists>i < n. ?f i = Some w" for w n
    by (auto simp: map_filter_def)
  show "\<forall>w \<in> set (walkforward metrics returns n_windows train_pct).
           wf_train_start w < wf_train_end w \<and> wf_train_end w = wf_test_start w \<and> wf_test_start w < wf_test_end w \<and>
           wf_test_end w \<le> length returns \<and> wf_train_metrics w = metrics (slice returns (wf_train_start w) (wf_train_end w)) \<and>
           wf_test_metrics w = metrics (slice returns (wf_test_start w) (wf_test_end w))"
    using m bounds walk_window_bounds [OF _ _ k] by (metis empty_iff list.set(1))
  have "n \<le> n_windows \<Longrightarrow> sorted_wrt (\<lambda>v w. wf_test_end v \<le> wf_train_start w) (List.map_filter ?f [0..<n])" for n
  proof (induction n)
    case (Suc n)
    have "wf_test_end v \<le> n * ?k" if v: "v \<in> set (List.map_filter ?f [0..<n])" for v
    proof -
      obtain i where "i < n" "?f i = Some v" using bounds [OF v] by blast
      moreover from this have "wf_test_end v \<le> (i + 1) * ?k" using walk_window_bounds [OF _ _ k, where i = i and w = v] Suc.prems by simp
      moreover have "(i + 1) * ?k \<le> n * ?k" using calculation(1) by (intro mult_le_mono1) simp
      ultimately show ?thesis by simp
    qed
    moreover have "?f n = Some w \<Longrightarrow> n * ?k \<le> wf_train_start w" for w using walk_window_bounds [OF _ _ k, where i = n and w = w] Suc.prems by simp
    ultimately show ?case using Suc by (cases "?f n") (auto simp: map_filter_def sorted_wrt_append intro: order_trans)
  qed (simp add: map_filter_def)
  then show "sorted_wrt (\<lambda>v w. wf_test_end v \<le> wf_train_start w) (walkforward metrics returns n_windows train_pct)"
    using m by auto
qed

end
