(* ===== verification/Spec2Isabelle.thy ===== *)
theory Spec2Isabelle
  imports Exchange_Properties Multi_Exchange Snapshot Defects Itch Position Rebalance_Properties Wal_Properties Budgets Attribution Ibkr_Properties Cross_Validation
begin

text \<open>
  A verification of nanobook, a limit order book and matching engine with a risk engine, broker
  types and a portfolio rebalancer, written in Rust. Paths below are under \<open>src/\<close> of the
  repository. The definitions follow the source function by function; the lemmas say what the
  functions guarantee, and where they do not keep what the documentation promises, a lemma shows
  that instead.

  \<^bold>\<open>Parts and theories.\<close>
  \<^item> \<open>Prelude\<close>, \<open>Ordered_Map\<close>, \<open>Float64\<close>, \<open>Float_Order\<close>: machine integers with their wrap-around written out
    and checked or saturating variants, results that may panic or not return, maps as sorted
    association lists (\<open>BTreeMap\<close>, and hash maps where the order does not matter), IEEE double precision
    numbers by exact rational rounding, and the monotonicity of their operations.
  \<^item> \<open>Core_Types\<close>, \<open>Symbols\<close>, \<open>Orders\<close>, \<open>Trades\<close>, \<open>Results\<close>: \<open>types.rs\<close>, \<open>side.rs\<close>, \<open>tif.rs\<close>, \<open>error.rs\<close>, \<open>order.rs\<close>,
    \<open>trade.rs\<close>, \<open>result.rs\<close>.
  \<^item> \<open>Level\<close>, \<open>Price_Levels\<close>, \<open>Order_Book\<close>, \<open>Book_Inv\<close>, \<open>Book_Ops\<close>, \<open>Book_Cancel\<close>: the book (\<open>level.rs\<close>,
    \<open>price_levels.rs\<close>, \<open>book.rs\<close>), its invariant, and the two order queues it stands for.
  \<^item> \<open>Matching\<close>, \<open>Sweep\<close>, \<open>Matching_Refine\<close>, \<open>Matching_Properties\<close>: the matching loops and self-trade
    prevention (\<open>matching.rs\<close>), a one-pass reference matcher on the queue, and the proof that the
    loops refine it.
  \<^item> \<open>Stop_Book\<close>, \<open>Stop_Inv\<close>, \<open>Stop_Ops\<close>: stop and trailing-stop orders (\<open>stop.rs\<close>).
  \<^item> \<open>Exchange\<close>, \<open>Event_Log\<close>, \<open>Exchange_Inv\<close>, \<open>Exchange_Submit\<close>, \<open>Exchange_Properties\<close>, \<open>Multi_Exchange\<close>, \<open>Snapshot\<close>:
    the public operations with the cascade of triggered stops (\<open>exchange.rs\<close>), events and replay
    (\<open>event.rs\<close>), the symbol map (\<open>multi_exchange.rs\<close>), depth snapshots (\<open>snapshot.rs\<close>).
  \<^item> \<open>Itch\<close>: the ITCH parser (\<open>itch.rs\<close>) against an encoder for the message layout of ITCH 5.0.
  \<^item> \<open>Position\<close>, \<open>Broker\<close>, \<open>Risk\<close>: positions (\<open>portfolio/position.rs\<close>), broker types and the mock broker
    (\<open>broker/src\<close>), the risk engine (\<open>risk/src\<close>).
  \<^item> \<open>Rebalance\<close>, \<open>Rebalance_Properties\<close>: targets, the order diff and its risk check
    (\<open>rebalancer/src/target.rs\<close>, \<open>diff.rs\<close>, \<open>risk.rs\<close>).
  \<^item> \<open>Audit_Trail\<close>, \<open>Recovery\<close>, \<open>Execution\<close>, \<open>Kill\<close>: the rebalancer process (\<open>audit.rs\<close>, \<open>clock_skew.rs\<close>,
    \<open>recovery.rs\<close>, \<open>execution.rs\<close>, \<open>kill.rs\<close>), with \<open>Kill_Properties\<close>, \<open>Execution_Properties\<close>, \<open>Wal_Numbers\<close> and
    \<open>Wal_Properties\<close>.
  \<^item> \<open>Ibkr_Orders\<close>, \<open>Ibkr_Client\<close>, \<open>Ibkr_Properties\<close>: orders on Interactive Brokers, the client with its caches
    and queries, the broker and the gateway (\<open>broker/src/ibkr\<close>, \<open>broker/src/parse.rs\<close>, \<open>rebalancer/src/broker.rs\<close>).
  \<^item> \<open>Portfolio\<close>, \<open>Portfolio_Properties\<close>, \<open>Backtest\<close>: cash, positions, costs, limits, rebalancing and the back-test
    runner (\<open>portfolio/mod.rs\<close>, \<open>cost_model.rs\<close>, \<open>strategy.rs\<close>).
  \<^item> \<open>Bridge\<close>, \<open>Bridge_Properties\<close>, \<open>Budgets\<close>, \<open>Attribution\<close>: the back-test bridge with fill policies, day and month
    budgets, simulated stops and the attribution of returns (\<open>backtest_bridge.rs\<close>).
  \<^item> \<open>Cross_Validation\<close>: expanding and walk-forward windows over a return series (\<open>cv.rs\<close>).
  \<^item> \<open>Examples\<close>, \<open>Defects\<close>: a small exchange used by the witnesses, and what the code does against its
    documentation: cancellation through a stale position and the loop under \<open>CancelOldest\<close> in general,
    the rest as concrete runs.

  \<^bold>\<open>How state and operations correspond.\<close> A struct is a record, an enum a datatype, a method with
  \<open>&mut self\<close> a function that returns the new record. A panic is the value \<open>Inl (Panic ...)\<close>. The two
  matching loops are \<open>partial_function (option)\<close>, so that a loop that does not end is the value \<open>None\<close>;
  that they end is proved, under the invariant of the book, and so is that they do not, where
  they do not. The cascade of stops is bounded by the code (100 rounds). Integers wrap as in a
  release build; hypotheses named room say that sums stay below \<open>2 ^ 64\<close>. Times are nanoseconds.
  The cargo feature \<open>write_ahead_logging\<close> is the argument \<open>wal\<close>. Broker gateway, clock, signals,
  prompt and disk of the rebalancer are fields of an environment that acts on a state of its own;
  SHA-256 and the rendering of times are parameters. An action of the rebalancer maps a state and
  a log to a state, a log and a result or an error. The iteration order of the portfolio's hash map is
  an argument. The IBKR API crate is a parameter too: the answers of its calls, and for a subscription the
  responses it delivers and whether it then ends or stays silent, in which case the reader does not return.

  \<^bold>\<open>Interfaces.\<close> The locales \<open>kv_map\<close> and \<open>ordered_kv_map\<close> (maps), \<open>fifo_queue\<close> (a price level), \<open>price_index\<close>
  (the stop orders by price) and \<open>cancel_broker\<close> (a broker that the kill switch can rely on) hold the laws one
  component uses of another. They are interpreted on the sorted association lists, on the level
  with tombstones, on the price index of the stop book and on the mock broker.

  \<^bold>\<open>What is shown.\<close> For the book: the invariant is kept by every operation; matching refines the
  reference matcher, which gives price-time priority, limits, conservation of quantity and the
  exactness of the fill-or-kill check, whenever self-trade prevention is safe: it is off, cancels
  the incoming order, or meets no order of the same owner (\<open>stp_safe\<close>; in the remaining cases resting
  orders are cancelled through positions that may be stale, and the loops need not end); submission,
  cancellation and stop orders return and meet their specifications from every state that satisfies the
  invariant, which submissions keep and only a cancellation through a stale position breaks; the log
  holds the calls, and replaying it reproduces the exchange when there was no modification, owner or
  change of policy. Every operation of a price level refines a plain queue. For the other parts: the
  parser is total and inverts the encoder, but for the text of stock directories, which it reads at
  the wrong offset; the batch risk check fails exactly when a limit is broken, stated on the
  orders and positions without the tables and the bounded arithmetic of the code; rebalancing
  orders reach the targets of the symbols with a quoted price; a back-test over positive prices ends without overdrawing the account, its
  ledger accounts for every cent and its orders respect the configured limits; the bridge returns for
  every input (with a quantity step other than 1 and a sane slippage), keeps its tables aligned and its day and month budgets, and its trades are the runs of
  the weights; cross-validation windows do not leak; forced cancellation clears the book of a well-behaved broker and its
  report is exact; checkpoint numbers increase; a crash after an order intent is recognised with
  write-ahead logging and is not without it; executing an order on Interactive Brokers equals a
  reference reader, and composed with the retry loop, the kill switch and the reconciliation the
  broker resubmits partly filled orders, hides failed listings and blocks after a completed order.

  \<^bold>\<open>Not modelled.\<close> Performance metrics, parameter sweeps, indicators, statistics, optimisation and
  volatility models are floating-point series with transcendental functions of the platform
  library; persistence, configuration files and the PID file are serde and file-system calls; the
  Binance client is asynchronous network code; the Python bindings, binaries and benches are glue.
  Display strings are left out except where a log or a name is read back.
\<close>

section \<open>Submission\<close>

text \<open>C7. From every exchange that satisfies the invariant (\<open>ex_inv\<close>: consistent levels and
  index, uncrossed book, consistent stop book) and has room for the order and the pending stops
  in 64 bits, submitting a limit order returns: the matching loops and the cascade of stop
  orders it sets off end without a panic, the invariant holds afterwards, the book is not
  crossed, the call is logged, and the trade history only grows, first by the trades reported
  to the caller. A new exchange satisfies the invariant and submissions keep it; a cancellation
  through a stale queue position can break it, and then a submission can run for ever
  (\<open>cancel_then_submit_diverges\<close> in \<open>Defects\<close>).\<close>

theorem submit_limit_total:
  assumes "ex_inv ex" and "ex_room q 1 ex"
  shows "\<exists>ex' r. submit_limit s p q tif ex = ret (ex', r) \<and> ex_inv ex' \<and> ex_room 0 0 ex' \<and>
           \<not> is_crossed (ex_book ex') \<and> ex_events ex' = ex_events ex @ [SubmitLimit s p q tif] \<and>
           (\<exists>new. ex_trades ex' = ex_trades ex @ sr_trades r @ new)"
proof -
  let ?ex = "log_event (SubmitLimit s p q tif) ex"
  from assms have "ex_inv ?ex" "ex_room q 1 ?ex" by simp_all
  from submit_and_trigger [OF this, of None s p tif] obtain ex' r where
    "submit_limit s p q tif ex = ret (ex', r)" "ex_inv ex'" "ex_room 0 0 ex'" "ex_events ex' = ex_events ?ex"
    "\<exists>new. ex_trades ex' = ex_trades ?ex @ sr_trades r @ new"
    by (auto simp: submit_limit_def submit_limit_internal_def)
  then show ?thesis using is_crossed_iff [of "ex_book ex'"] by (auto simp: ex_inv_def)
qed

theorem submit_limit_total_witness:
  "\<exists>ex' r. submit_limit Buy 101 20 GTC demo_exchange = ret (ex', r) \<and> ex_inv ex' \<and> \<not> is_crossed (ex_book ex')"
proof -
  have "ex_room 20 1 demo_exchange" by code_simp
  from submit_limit_total [OF demo_inv this, of Buy 101 GTC] show ?thesis by blast
qed

text \<open>The same for market orders, and for limit orders with an owner when the policy is off
  or cancels the incoming order.\<close>

lemma submit_market_and_owner_total:
  assumes "ex_inv ex" and "ex_room q 1 ex" and "ex_stp_policy ex = Off \<or> ex_stp_policy ex = CancelNewest"
  shows "(\<exists>ex' r. submit_market s q ex = ret (ex', r) \<and> ex_inv ex' \<and> ex_room 0 0 ex' \<and>
            ex_events ex' = ex_events ex @ [SubmitMarket s q]) \<and>
         (\<exists>ex' r. submit_limit_with_owner s p q tif w ex = ret (ex', r) \<and> ex_inv ex' \<and> ex_room 0 0 ex')"
proof
  let ?m = "log_event (SubmitMarket s q) ex" and ?l = "log_event (SubmitLimit s p q tif) ex"
  from submit_and_trigger [of ?m q None s "market_price s" IOC] assms
  show "\<exists>ex' r. submit_market s q ex = ret (ex', r) \<and> ex_inv ex' \<and> ex_room 0 0 ex' \<and>
            ex_events ex' = ex_events ex @ [SubmitMarket s q]"
    by (auto simp: submit_market_def submit_limit_internal_def)
  from submit_and_trigger [of ?l q "Some w" s p tif] assms
  show "\<exists>ex' r. submit_limit_with_owner s p q tif w ex = ret (ex', r) \<and> ex_inv ex' \<and> ex_room 0 0 ex'"
    by (auto simp: submit_limit_with_owner_def)
qed

text \<open>C8. From a book that satisfies its invariant, a submission that is not an infeasible
  fill-or-kill order implements its abstract specification on the two priority queues and keeps
  the invariant: trades, reported quantities, status, the place of the rest in its own queue
  and the recorded order are those of \<open>submit_spec\<close>. The quantities and the identifiers fit 64
  bits, and self-trade prevention is safe (\<open>stp_safe\<close>): the policy is \<open>Off\<close> or \<open>CancelNewest\<close>, or
  no queued order of the other side has the owner of the order, or the policy is
  \<open>DecrementAndCancel\<close> and every such order is larger. An order without an owner is always
  safe. What \<open>CancelOldest\<close> does otherwise is shown in \<^theory_text>\<open>Defects\<close>.\<close>

theorem submission_refines_spec:
  assumes "book_inv (ex_book ex)" and "bk_next_order_id (ex_book ex) < 2 ^ 64 - 1"
    and "qty_sum (book_queue (ex_book ex) s) + q < 2 ^ 64"
    and "stp_safe (ex_stp_policy ex) (incoming s p q tif w (ex_book ex)) (book_queue (ex_book ex) (opposite s))"
    and "tif = FOK \<Longrightarrow> can_fully_fill s p q (ex_book ex)"
  shows "\<exists>b' r. submit_limit_internal_with_owner s p q tif w ex =
           ret (ex\<lparr>ex_book := b', ex_trades := ex_trades ex @ sr_trades r\<rparr>, r) \<and>
         book_inv b' \<and> submit_spec (ex_stp_policy ex) s p q tif w (ex_book ex) b' r"
  by (rule submit_internal_refines [OF assms])

theorem submission_refines_spec_witness:
  "\<exists>b' r. submit_limit_internal_with_owner Buy 100 20 GTC (Some 3) demo_exchange =
       ret (demo_exchange\<lparr>ex_book := b', ex_trades := ex_trades demo_exchange @ sr_trades r\<rparr>, r) \<and>
     book_inv b' \<and> submit_spec Off Buy 100 20 GTC (Some 3) demo_book b' r"
proof -
  have "book_inv (ex_book demo_exchange)" using demo_book_inv by (simp add: demo_exchange_def)
  moreover have "bk_next_order_id (ex_book demo_exchange) < 2 ^ 64 - 1"
    "qty_sum (book_queue (ex_book demo_exchange) Buy) + 20 < 2 ^ 64" "ex_stp_policy demo_exchange = Off"
    "ex_book demo_exchange = demo_book"
    by code_simp+
  ultimately show ?thesis
    using submission_refines_spec [of demo_exchange Buy 20 100 GTC "Some 3"] by (auto simp: stp_safe_def)
qed

text \<open>C9. The three quantities a submission reports add up to the submitted quantity, on every
  branch: filled, resting and cancelled.\<close>

theorem submit_result_adds_up:
  assumes "ex_inv ex" and "ex_room q 1 ex"
  shows "\<exists>ex' r. submit_limit s p q tif ex = ret (ex', r) \<and> sr_filled r + sr_resting r + sr_cancelled r = q \<and>
           sr_filled r = sum_list (map trd_quantity (sr_trades r)) \<and> sr_order_id r = bk_next_order_id (ex_book ex)"
proof -
  let ?ex = "log_event (SubmitLimit s p q tif) ex"
  from assms have base: "ex_inv ?ex" "ex_room q 1 ?ex" by simp_all
  from submit_and_trigger [OF base, of None s p tif] obtain ex' r where
    pub: "submit_limit s p q tif ex = ret (ex', r)"
    by (auto simp: submit_limit_def submit_limit_internal_def)
  then obtain ex1 where int: "submit_limit_internal_with_owner s p q tif None ?ex = ret (ex1, r)"
    by (auto simp: submit_limit_def submit_limit_internal_def rbind_eq_ret)
  have pre: "book_inv (ex_book ?ex)" "bk_next_order_id (ex_book ?ex) < 2 ^ 64 - 1" "qty_sum (book_queue (ex_book ?ex) s) + q < 2 ^ 64"
    using assms by (auto simp: ex_inv_def ex_room_def total_qty_by [of _ s])
  have "sr_filled r + sr_resting r + sr_cancelled r = q \<and> sr_filled r = sum_list (map trd_quantity (sr_trades r)) \<and>
      sr_order_id r = bk_next_order_id (ex_book ex)"
  proof (cases "tif = FOK \<and> \<not> can_fully_fill s p q (ex_book ex)")
    case True
    with submit_rejected [of tif s p q ?ex None] int show ?thesis by auto
  next
    case False
    then have go: "tif = FOK \<Longrightarrow> can_fully_fill s p q (ex_book ?ex)" by simp
    obtain b' where sp: "submit_spec (ex_stp_policy ?ex) s p q tif None (ex_book ?ex) b' r"
      using submit_internal_ok [OF pre, of None tif p] go int by auto
    obtain fs x c q' where sw: "sweep (ex_stp_policy ?ex) (incoming s p q tif None (ex_book ?ex)) (book_queue (ex_book ?ex) (opposite s)) = (fs, x, c, q')"
      by (metis prod_cases4)
    show ?thesis
      using submit_spec_conserves [OF sp] sp [unfolded submit_spec_def sw prod.case] by (simp add: fill_trades_quantities)
  qed
  with pub show ?thesis by blast
qed

theorem submit_result_adds_up_witness:
  "\<exists>ex' r. submit_limit Buy 100 20 IOC demo_exchange = ret (ex', r) \<and> sr_filled r + sr_resting r + sr_cancelled r = 20"
proof -
  have "ex_room 20 1 demo_exchange" by code_simp
  from submit_result_adds_up [OF demo_inv this, of Buy 100 IOC] show ?thesis by blast
qed

text \<open>C10. Fill-or-kill: an order without an owner is either filled completely or rejected with
  no trade, no change of either queue and no stored order under the returned identifier.\<close>

theorem fok_all_or_nothing:
  assumes "ex_inv ex" and "ex_room q 1 ex"
  shows "\<exists>ex' r. submit_limit s p q FOK ex = ret (ex', r) \<and>
           (sr_status r = Filled \<and> sr_filled r = q \<or>
            sr_status r = Cancelled \<and> sr_filled r = 0 \<and> sr_trades r = [] \<and>
            (\<forall>t. book_queue (ex_book ex') t = book_queue (ex_book ex) t) \<and>
            exchange_get_order ex' (sr_order_id r) = None)"
proof -
  let ?ex = "log_event (SubmitLimit s p q FOK) ex"
  have inv: "book_inv (ex_book ?ex)" and pre: "bk_next_order_id (ex_book ?ex) < 2 ^ 64 - 1"
      "qty_sum (book_queue (ex_book ?ex) s) + q < 2 ^ 64"
    using assms by (auto simp: ex_inv_def ex_room_def total_qty_by [of _ s])
  show ?thesis
  proof (cases "can_fully_fill s p q (ex_book ex)")
    case False
    note cnt = counted_ok [OF inv pre(1)]
    have "om_get (bk_orders (ex_book ex)) (bk_next_order_id (ex_book ex)) = None"
      using book_inv_orderD(3) [OF inv, of "bk_next_order_id (ex_book ex)"]
      by (cases "om_get (bk_orders (ex_book ex)) (bk_next_order_id (ex_book ex))") auto
    then show ?thesis
      using submit_rejected [of FOK s p q ?ex None] False cnt
      by (simp add: submit_limit_def submit_limit_internal_def after_trades_def exchange_get_order_def book_get_order_def)
  next
    case True
    from submit_and_trigger [of ?ex q None s p FOK] assms obtain ex' r where
      pub: "submit_limit s p q FOK ex = ret (ex', r)"
      by (auto simp: submit_limit_def submit_limit_internal_def)
    then obtain ex1 where int: "submit_limit_internal_with_owner s p q FOK None ?ex = ret (ex1, r)"
      by (auto simp: submit_limit_def submit_limit_internal_def rbind_eq_ret)
    obtain b' where sp: "submit_spec (ex_stp_policy ?ex) s p q FOK None (ex_book ?ex) b' r"
      using submit_internal_ok [OF inv pre, of None FOK p] True int by auto
    obtain fs x c q' where sw: "sweep (ex_stp_policy ?ex) (incoming s p q FOK None (ex_book ?ex)) (book_queue (ex_book ?ex) (opposite s)) = (fs, x, c, q')"
      by (metis prod_cases4)
    have none: "\<forall>r \<in> set (book_queue (ex_book ?ex) (opposite s)).
        \<not> stp_conflict (ord_owner (incoming s p q FOK None (ex_book ?ex))) (ord_owner r) (ex_stp_policy ?ex)"
      by (simp add: stp_conflict_def)
    have "takeWhile (crosses (incoming s p q FOK None (ex_book ?ex))) (book_queue (ex_book ?ex) (opposite s)) =
        filter (crosses (incoming s p q FOK None (ex_book ?ex))) (book_queue (ex_book ?ex) (opposite s))"
      using takeWhile_crosses [of "incoming s p q FOK None (ex_book ?ex)"] queue_sorted [OF inv] by simp
    then have "fill_qty fs = q" "\<not> c"
      using sweep_quantity [OF sw none] available_exact [OF inv, of s p] True
      by (simp_all add: can_fully_fill_def crosses_def [abs_def])
    then have "sr_status r = Filled \<and> sr_filled r = q"
      using sp [unfolded submit_spec_def sw prod.case] sweep_conserves(3) [OF sw] by (simp add: submit_status_def)
    with pub show ?thesis by blast
  qed
qed

theorem fok_all_or_nothing_witness:
  "\<exists>ex' r. submit_limit Buy 100 13 FOK demo_exchange = ret (ex', r) \<and>
     (sr_status r = Filled \<and> sr_filled r = 13 \<or> sr_status r = Cancelled \<and> sr_filled r = 0 \<and> sr_trades r = [])"
proof -
  have "ex_room 13 1 demo_exchange" by code_simp
  from fok_all_or_nothing [OF demo_inv this, of Buy 100] show ?thesis by blast
qed

text \<open>Immediate-or-cancel and fill-or-kill orders never rest: whatever such an order does,
  the queue of its own side is the same afterwards and nothing of it is reported resting.\<close>

lemma ioc_never_rests:
  assumes "ex_inv ex" and "ex_room q 1 ex" and "\<not> can_rest tif"
  shows "\<exists>ex' r. submit_limit_internal s p q tif ex = ret (ex', r) \<and> sr_resting r = 0 \<and>
           book_queue (ex_book ex') s = book_queue (ex_book ex) s"
proof -
  have inv: "book_inv (ex_book ex)" and pre: "bk_next_order_id (ex_book ex) < 2 ^ 64 - 1"
      "qty_sum (book_queue (ex_book ex) s) + q < 2 ^ 64"
    using assms by (auto simp: ex_inv_def ex_room_def total_qty_by [of _ s])
  show ?thesis
  proof (cases "tif = FOK \<and> \<not> can_fully_fill s p q (ex_book ex)")
    case True
    then show ?thesis
      using submit_rejected [of tif s p q ex None] counted_ok [OF inv pre(1)] by (simp add: submit_limit_internal_def)
  next
    case False
    with submit_internal_ok [OF inv pre, of None tif p] obtain b' r where
      r: "submit_limit_internal_with_owner s p q tif None ex = ret (ex\<lparr>ex_book := b', ex_trades := ex_trades ex @ sr_trades r\<rparr>, r)"
        "submit_spec (ex_stp_policy ex) s p q tif None (ex_book ex) b' r" by blast
    have "tif \<noteq> GTC" using assms(3) by auto
    with r show ?thesis by (auto simp: submit_limit_internal_def submit_spec_def split: prod.splits)
  qed
qed

section \<open>Cancellation and modification\<close>

text \<open>C12. Cancelling an order whose recorded queue position is accurate takes exactly that
  order out of its queue, reports its remaining quantity and leaves the other side alone.\<close>

theorem cancel_removes_order:
  assumes "ex_inv ex" and "om_get (bk_orders (ex_book ex)) i = Some x"
    and "x \<in> set (book_queue (ex_book ex) (ord_side x))" and "index_accurate (ex_book ex) x"
    and "\<not> contains_pending (ex_stop_book ex) i"
  shows "\<exists>ex'. exchange_cancel i ex = Inr (ex', cancel_success (ord_remaining x)) \<and> ex_inv ex' \<and>
           ex_events ex' = ex_events ex @ [Cancel i] \<and>
           book_queue (ex_book ex') (ord_side x) = filter (\<lambda>y. ord_id y \<noteq> i) (book_queue (ex_book ex) (ord_side x)) \<and>
           book_queue (ex_book ex') (opposite (ord_side x)) = book_queue (ex_book ex) (opposite (ord_side x))"
  using cancel_resting_order [of "log_event (Cancel i) ex" i x] assms by (auto simp: exchange_cancel_def)

theorem cancel_removes_order_witness:
  "\<exists>ex'. exchange_cancel 2 demo_exchange = Inr (ex', cancel_success 7) \<and>
     book_queue (ex_book ex') Sell = filter (\<lambda>y. ord_id y \<noteq> 2) (book_queue (ex_book demo_exchange) Sell)"
proof -
  let ?x = "resting 2 Sell 100 7 2 1"
  have x: "om_get (bk_orders (ex_book demo_exchange)) 2 = Some ?x"
    "?x \<in> set (book_queue (ex_book demo_exchange) (ord_side ?x))" "index_accurate (ex_book demo_exchange) ?x"
    "\<not> contains_pending (ex_stop_book demo_exchange) 2" "ord_side ?x = Sell" "ord_remaining ?x = 7"
    by code_simp+
  show ?thesis using cancel_removes_order [OF demo_inv x(1-4)] unfolding x(5,6) by blast
qed

text \<open>The error branches of a cancellation leave the exchange as it is, but for the log.\<close>

lemma cancel_errors:
  assumes "\<not> contains_pending (ex_stop_book ex) i"
  shows "(exchange_get_order ex i = None \<longrightarrow>
            exchange_cancel i ex = Inr (log_event (Cancel i) ex, cancel_failure CancelOrderNotFound)) \<and>
         (\<forall>x. exchange_get_order ex i = Some x \<and> \<not> order_is_active x \<longrightarrow>
            exchange_cancel i ex = Inr (log_event (Cancel i) ex, cancel_failure CancelOrderNotActive))"
  using assms by (auto simp: exchange_cancel_def cancel_internal_def exchange_get_order_def book_get_order_def)

text \<open>Round trip: an order that does not cross rests with its full quantity, and cancelling
  it right away gives back both queues as they were.\<close>

lemma submit_cancel_roundtrip:
  assumes inv: "ex_inv ex" and room: "ex_room q 1 ex" and q: "0 < q"
    and out: "\<forall>r \<in> set (book_queue (ex_book ex) (opposite s)). \<not> prices_cross s p (ord_price r)"
  shows "\<exists>ex1 r ex2. submit_limit s p q GTC ex = ret (ex1, r) \<and> sr_resting r = q \<and> sr_trades r = [] \<and>
           exchange_cancel (sr_order_id r) ex1 = Inr (ex2, cancel_success q) \<and> ex_inv ex2 \<and>
           (\<forall>t. book_queue (ex_book ex2) t = book_queue (ex_book ex) t)"
proof -
  let ?ex = "log_event (SubmitLimit s p q GTC) ex" and ?b = "ex_book ex" and ?i = "bk_next_order_id (ex_book ex)"
  have binv: "book_inv (ex_book ?ex)" and pre: "bk_next_order_id (ex_book ?ex) < 2 ^ 64 - 1"
      "qty_sum (book_queue (ex_book ?ex) s) + q < 2 ^ 64"
    using inv room by (auto simp: ex_inv_def ex_room_def total_qty_by [of _ s])
  obtain b' r where r: "submit_limit_internal_with_owner s p q GTC None ?ex =
        ret (?ex\<lparr>ex_book := b', ex_trades := ex_trades ?ex @ sr_trades r\<rparr>, r)" "book_inv b'"
      "submit_spec (ex_stp_policy ?ex) s p q GTC None (ex_book ?ex) b' r"
    using submit_internal_ok [OF binv pre, of None GTC p] by auto
  have sw: "sweep (ex_stp_policy ex) (incoming s p q GTC None ?b) (book_queue ?b (opposite s)) =
      ([], incoming s p q GTC None ?b, False, book_queue ?b (opposite s))"
    using out by (intro submit_no_cross) (simp add: crosses_def)
  from r(3) [unfolded submit_spec_def log_event_sel sw prod.case] obtain y where sp: "sr_order_id r = ?i" "sr_trades r = []" "sr_resting r = q" "bk_next_order_id b' = ?i + 1"
      "book_queue b' (opposite s) = book_queue ?b (opposite s)" "om_get (bk_orders b') ?i = Some y"
      "y = (incoming s p q GTC None ?b)\<lparr>ord_status := sr_status r, ord_position := ord_position y\<rparr>"
      "book_queue b' s = enqueue s y (book_queue ?b s)" "index_accurate b' y"
    using q by auto
  have ysel: "ord_id y = ?i" "ord_side y = s" "ord_remaining y = q" by (subst sp(7), simp)+
  let ?ex1 = "?ex\<lparr>ex_book := b', ex_trades := ex_trades ?ex @ sr_trades r\<rparr>"
  have sub: "submit_limit s p q GTC ex = ret (?ex1, r)"
    using r(1) sp(2) by (simp add: submit_limit_def submit_limit_internal_def after_trades_def)
  have unc: "uncrossed b'" using submit_spec_uncrossed [OF binv r(2) _ r(3)] inv by (simp add: ex_inv_def)
  have inv1: "ex_inv (log_event (Cancel ?i) ?ex1)"
    using inv r(2) unc sp(4) by (auto simp: ex_inv_def intro: less_SucI)
  have nostop: "\<not> contains_pending (ex_stop_book (log_event (Cancel ?i) ?ex1)) ?i"
    using inv by (auto simp: ex_inv_def contains_pending_def split: option.splits)
  have mem: "y \<in> set (book_queue b' s)" by (simp add: sp(8) enqueue_set)
  have "\<exists>b2. cancel_internal ?i (log_event (Cancel ?i) ?ex1) = Inr ((log_event (Cancel ?i) ?ex1)\<lparr>ex_book := b2\<rparr>, cancel_success q) \<and>
      ex_inv ((log_event (Cancel ?i) ?ex1)\<lparr>ex_book := b2\<rparr>) \<and>
      book_queue b2 s = filter (\<lambda>z. ord_id z \<noteq> ?i) (book_queue b' s) \<and> book_queue b2 (opposite s) = book_queue b' (opposite s)"
    using cancel_resting_order [OF inv1, of ?i y] sp(6,9) mem nostop by (auto simp: ysel)
  then obtain b2 where c: "cancel_internal ?i (log_event (Cancel ?i) ?ex1) = Inr ((log_event (Cancel ?i) ?ex1)\<lparr>ex_book := b2\<rparr>, cancel_success q)"
      "ex_inv ((log_event (Cancel ?i) ?ex1)\<lparr>ex_book := b2\<rparr>)"
      "book_queue b2 s = filter (\<lambda>z. ord_id z \<noteq> ?i) (book_queue b' s)" "book_queue b2 (opposite s) = book_queue b' (opposite s)"
    by blast
  have "book_queue b2 s = book_queue ?b s"
    using c(3) enqueue_filter [of "book_queue ?b s" y s] queue_ids_old [OF binv, of _ s] ysel(1) sp(8) by fastforce
  then have "book_queue b2 t = book_queue ?b t" for t using c(4) sp(5) by (cases "t = s") (auto simp: side_neq_iff)
  then show ?thesis using sub sp(1-3) c(1,2) by (intro exI conjI) (auto simp: exchange_cancel_def)
qed

text \<open>Modification is cancel and replace: with an accurate position the old order leaves its
  queue, and the new one is submitted on the same side with the same time in force and a new
  identifier, exactly as a fresh submission on the book without the old order. Zero
  quantities and unknown identifiers are refused without a change.\<close>

lemma modify_replaces:
  assumes inv: "ex_inv ex" and q: "0 < q" and x: "om_get (bk_orders (ex_book ex)) i = Some x"
      "x \<in> set (book_queue (ex_book ex) (ord_side x))" and acc: "index_accurate (ex_book ex) x"
    and stop: "\<not> contains_pending (ex_stop_book ex) i" and room: "ex_room q 1 ex"
  shows "\<exists>ex0 ex' r. cancel_internal i ex = Inr (ex0, cancel_success (ord_remaining x)) \<and>
           submit_limit_internal (ord_side x) p q (ord_tif x) ex0 = ret (ex', r) \<and> book_ready ex' \<and>
           modify_internal i p q ex = ret (ex', modify_success i (sr_order_id r) (ord_remaining x) (sr_trades r)) \<and>
           sr_order_id r = bk_next_order_id (ex_book ex)"
proof -
  have binv: "book_inv (ex_book ex)" using inv by (simp add: ex_inv_def)
  note xf = book_queueD [OF binv x(2)]
  obtain b' where c: "cancel_internal i ex = Inr (ex\<lparr>ex_book := b'\<rparr>, cancel_success (ord_remaining x))"
      "ex_inv (ex\<lparr>ex_book := b'\<rparr>)"
      "book_queue b' (ord_side x) = filter (\<lambda>y. ord_id y \<noteq> i) (book_queue (ex_book ex) (ord_side x))"
      "book_queue b' (opposite (ord_side x)) = book_queue (ex_book ex) (opposite (ord_side x))"
    and bc: "book_cancel_order i (ex_book ex) = Inr (b', Some (ord_remaining x))"
    and nid: "bk_next_order_id b' = bk_next_order_id (ex_book ex)"
    using cancel_resting_order [OF inv x acc stop] by blast
  let ?ex0 = "ex\<lparr>ex_book := b'\<rparr>"
  have "qty_sum (filter P xs) \<le> qty_sum xs" for P xs by (induction xs) auto
  then have "total_qty b' \<le> total_qty (ex_book ex)" using c(3,4) by (simp add: total_qty_by [of _ "ord_side x"])
  then have pre: "book_ready ?ex0" "bk_next_order_id (ex_book ?ex0) < 2 ^ 64 - 1" "total_qty (ex_book ?ex0) + q < 2 ^ 64"
    using c(2) room nid by (auto simp: book_ready_def ex_inv_def ex_room_def)
  from submit_step [OF pre, of None "ord_side x" p "ord_tif x"] obtain ex' r where
    r: "submit_limit_internal (ord_side x) p q (ord_tif x) ?ex0 = ret (ex', r)" "book_ready ex'"
      "sr_order_id r = bk_next_order_id (ex_book ?ex0)"
    by (auto simp: submit_limit_internal_def)
  show ?thesis
    using c(1) r q x(1) xf(2) bc nid by (auto simp: modify_internal_def book_get_order_def)
qed

section \<open>Stop orders\<close>

text \<open>Submitting a stop order, trailing or not, always returns with the invariant intact,
  also when the last trade price triggers it at once; the identifier is the next one of the
  sequence shared with ordinary orders.\<close>

lemma stop_submission_total:
  assumes "ex_inv ex" and "ex_room q 2 ex"
  shows "\<exists>ex' r. insert_stop_order s sp lp q tif trail ex = ret (ex', r) \<and> ex_inv ex' \<and> ex_room 0 0 ex' \<and>
           ss_order_id r = bk_next_order_id (ex_book ex)"
  using insert_stop_ok [OF assms, of s sp lp tif trail] by blast

text \<open>C28. The cascade of triggered stops is complete. From every exchange that satisfies the
  invariant and has room, it returns with both intact; when it leaves its loop by a \<open>break\<close> within
  its depth bound of 100 rounds (\<open>ends_within\<close>), no stop that the last trade price reaches is left
  pending; and it does leave so whenever fewer than 100 stops were pending before.\<close>

theorem cascade_complete:
  assumes "ex_inv ex" and "ex_room 0 0 ex"
  shows "\<exists>ex'. process_trade_triggers ex = ret ex' \<and> ex_inv ex' \<and> ex_room 0 0 ex' \<and>
           (ends_within MAX_CASCADE_DEPTH ex \<longrightarrow>
            (\<forall>p i x. ex_last_trade_price ex' = Some p \<and> get_stop_order ex' i = Some x \<longrightarrow> \<not> stop_hit p x)) \<and>
           (pend_sum (\<lambda>_. 1) (ex_stop_book ex) < MAX_CASCADE_DEPTH \<longrightarrow> ends_within MAX_CASCADE_DEPTH ex)"
proof -
  obtain ex' where ex': "trigger_rounds MAX_CASCADE_DEPTH ex = ret ex'" "ex_inv ex'" "ex_room 0 0 ex'"
    using trigger_rounds_ok [OF assms, of MAX_CASCADE_DEPTH] by blast
  moreover have "\<not> stop_hit p x" if "ends_within MAX_CASCADE_DEPTH ex"
      "ex_last_trade_price ex' = Some p" "get_stop_order ex' i = Some x" for p i x
    using trigger_rounds_complete(2) [OF assms ex'(1) that(1,2)] that(3) by (simp add: get_stop_order_def stop_get_def)
  moreover note trigger_rounds_complete(1) [OF assms ex'(1)]
  ultimately show ?thesis by (auto simp: process_trade_triggers_def)
qed

text \<open>Two pending buy stops: the first is reached, and its trades reach the second.\<close>

definition pending_buy_stop :: "order_id \<Rightarrow> price \<Rightarrow> quantity \<Rightarrow> stop_order" where
  "pending_buy_stop i p q =
     \<lparr>so_id = i, so_side = Buy, so_stop_price = p, so_limit_price = None, so_quantity = q, so_tif = GTC,
      so_timestamp = i, so_status = StopPending, so_trail_method = None, so_watermark = None\<rparr>"

definition demo_stop :: exchange where
  "demo_stop = demo_exchange\<lparr>ex_last_trade_price := Some 100, ex_book := demo_book\<lparr>bk_next_order_id := 7\<rparr>,
     ex_stop_book := stop_insert (pending_buy_stop 6 101 1) (stop_insert (pending_buy_stop 5 100 14) stop_book_new)\<rparr>"

lemma demo_stop_inv: "ex_inv demo_stop"
proof -
  have "book_inv (demo_book\<lparr>bk_next_order_id := 7\<rparr>)" by (rule book_check_inv) code_simp
  moreover have "uncrossed (demo_book\<lparr>bk_next_order_id := 7\<rparr>)" by code_simp
  moreover have "stop_inv (stop_insert (pending_buy_stop 5 100 14) stop_book_new)"
    by (rule stop_insert_inv [OF stop_book_new_inv]) code_simp+
  then have "stop_inv (stop_insert (pending_buy_stop 6 101 1) (stop_insert (pending_buy_stop 5 100 14) stop_book_new))"
    by (rule stop_insert_inv) code_simp+
  then have "stop_inv (ex_stop_book demo_stop)" by (simp add: demo_stop_def)
  moreover have "sb_orders (ex_stop_book demo_stop) = [(5, pending_buy_stop 5 100 14), (6, pending_buy_stop 6 101 1)]"
    by code_simp
  ultimately show ?thesis by (auto simp: ex_inv_def demo_stop_def split: if_splits)
qed

theorem cascade_complete_witness:
  "\<exists>ex'. process_trade_triggers demo_stop = ret ex' \<and> ex_inv ex' \<and> ex_last_trade_price ex' = Some 101 \<and>
     map_option so_status (get_stop_order ex' 5) = Some StopTriggered \<and>
     map_option so_status (get_stop_order ex' 6) = Some StopTriggered \<and>
     (\<forall>p i x. ex_last_trade_price ex' = Some p \<and> get_stop_order ex' i = Some x \<longrightarrow> \<not> stop_hit p x)"
proof -
  let ?obs = "\<lambda>r. case r of Some (Inr ex') \<Rightarrow> Some (ex_last_trade_price ex', map_option so_status (get_stop_order ex' 5),
      map_option so_status (get_stop_order ex' 6)) | _ \<Rightarrow> None"
  have room: "ex_room 0 0 demo_stop" "pend_sum (\<lambda>_. 1) (ex_stop_book demo_stop) < MAX_CASCADE_DEPTH" by code_simp+
  moreover have "?obs (process_trade_triggers demo_stop) = Some (Some 101, Some StopTriggered, Some StopTriggered)" by code_simp
  ultimately show ?thesis using cascade_complete [OF demo_stop_inv room(1)] by auto
qed

section \<open>Replay\<close>

text \<open>C29. Replay: take a new exchange and any sequence of calls of \<open>submit_limit\<close>, \<open>submit_market\<close>,
  \<open>cancel\<close> and the four submissions of stops. When the calls return, the log of the exchange holds
  exactly one event for each call, in their order, and replaying that log from a new exchange
  gives the exchange back, log included; when a call panics or does not return, so does the
  replay. Modifications, submissions with an owner and changes of the self-trade policy are not
  among the calls: replay does not reproduce them.\<close>

theorem replay_reproduces_calls:
  assumes "\<forall>e \<in> set es. \<not> is_modify e"
  shows "(\<forall>ex. calls es exchange_new = ret ex \<longrightarrow> ex_events ex = es \<and> replay (ex_events ex) = ret ex) \<and>
         replay es = calls es exchange_new"
proof -
  have same: "replay es = calls es exchange_new"
    using calls_replay_from [OF assms, of exchange_new] by (simp add: replay_def)
  moreover have "ex_events ex = es" if "calls es exchange_new = ret ex" for ex
    using replay_from_events [OF assms, of exchange_new ex] that same by (simp add: replay_def exchange_new_def)
  ultimately show ?thesis by simp
qed

theorem replay_reproduces_calls_witness:
  "calls demo_events exchange_new = ret demo_exchange \<and> ex_events demo_exchange = demo_events \<and>
   replay (ex_events demo_exchange) = ret demo_exchange"
proof -
  have "\<forall>e \<in> set demo_events. \<not> is_modify e" by code_simp
  from replay_reproduces_calls [OF this] show ?thesis using demo_calls by simp
qed

section \<open>Market data\<close>

text \<open>The cached best prices are right: the best bid is the highest price of any resting buy
  order and the best ask the lowest of any resting sell order, and there is a best price
  exactly when there is an order.\<close>

lemma best_prices_correct:
  assumes "book_inv b"
  shows "(best_bid b = None \<longleftrightarrow> book_queue b Buy = []) \<and> (best_ask b = None \<longleftrightarrow> book_queue b Sell = []) \<and>
         (\<forall>p. best_bid b = Some p \<longrightarrow> p \<in> ord_price ` set (book_queue b Buy) \<and> (\<forall>x \<in> set (book_queue b Buy). ord_price x \<le> p)) \<and>
         (\<forall>p. best_ask b = Some p \<longrightarrow> p \<in> ord_price ` set (book_queue b Sell) \<and> (\<forall>x \<in> set (book_queue b Sell). p \<le> ord_price x))"
proof -
  have side: "side_inv (bk_orders b) s (book_side b s)" for s using assms by (rule book_inv_side)
  note sorted = side_queue_sorted [OF side]
  have "best_bid b = (case book_queue b Buy of [] \<Rightarrow> None | x # _ \<Rightarrow> Some (ord_price x))"
    "best_ask b = (case book_queue b Sell of [] \<Rightarrow> None | x # _ \<Rightarrow> Some (ord_price x))"
    using best_queue_head [OF side] by (simp_all add: best_by_side book_queue_def)
  then show ?thesis
    using sorted [of Buy] sorted [of Sell]
    by (auto simp: book_queue_def better_def not_less split: list.splits)
qed

text \<open>A snapshot that covers all levels is faithful: its best prices are those of the book,
  and its quantities and order counts add up to those of the orders in the priority queues.\<close>

lemma snapshot_faithful:
  assumes "book_inv b" and "length (pl_levels (bk_bids b)) \<le> n" and "length (pl_levels (bk_asks b)) \<le> n" and "0 < n"
  shows "bs_best_bid (snapshot n b) = best_bid b \<and> bs_best_ask (snapshot n b) = best_ask b \<and>
         bs_spread (snapshot n b) = book_spread b \<and>
         total_bid_quantity (snapshot n b) = qty_sum (book_queue b Buy) \<and>
         total_ask_quantity (snapshot n b) = qty_sum (book_queue b Sell) \<and>
         sum_list (map ls_order_count (bs_bids (snapshot n b))) = length (book_queue b Buy) \<and>
         sum_list (map ls_order_count (bs_asks (snapshot n b))) = length (book_queue b Sell)"
proof -
  have side: "side_inv (bk_orders b) s (book_side b s)" for s using assms(1) by (rule book_inv_side)
  have bids: "side_inv (bk_orders b) Buy (bk_bids b)" and asks: "side_inv (bk_orders b) Sell (bk_asks b)"
    using side [of Buy] side [of Sell] by (simp_all add: book_side_def)
  have len: "length (pl_iter_best_to_worst pl) = length (pl_levels pl)" for pl
    by (cases "pl_side pl") (simp_all add: pl_iter_best_to_worst_def)
  have best: "bs_best_bid (snapshot n b) = best_bid b" "bs_best_ask (snapshot n b) = best_ask b"
    using snapshot_levels_head [OF bids assms(4)] snapshot_levels_head [OF asks assms(4)]
    by (simp_all add: bs_best_bid_def bs_best_ask_def snapshot_def best_bid_def best_ask_def)
  have lt: "qty_sum (side_queue (bk_orders b) (bk_bids b)) < 2 ^ 64" "qty_sum (side_queue (bk_orders b) (bk_asks b)) < 2 ^ 64"
    using bids asks by (simp_all add: side_inv_def)
  have q: "total_bid_quantity (snapshot n b) = qty_sum (book_queue b Buy)" "total_ask_quantity (snapshot n b) = qty_sum (book_queue b Sell)"
    using snapshot_levels_totals [OF bids, of n] snapshot_levels_totals [OF asks, of n] assms(2,3) lt
    by (simp_all add: total_bid_quantity_def total_ask_quantity_def snapshot_def len book_queue_def book_side_def u64_sum_exact)
  show ?thesis
    using best q snapshot_levels_counts [OF bids, of n] snapshot_levels_counts [OF asks, of n] assms(2,3)
    by (simp add: bs_spread_def book_spread_def snapshot_def len book_queue_def book_side_def)
qed

end
